(* ===== verification/Prelude.thy ===== *)
theory Prelude
  imports Main "HOL-Library.Word" "HOL-Library.List_Lexorder"
begin

text \<open>
  The shared vocabulary of the development: byte strings, the fixed-width integers of the
  C++ sources, the collections of simplification rules the component theories extend, and the
  generic facts on big-endian numerals, lexicographic order and sorted association lists that
  several components use.

  A \<open>std::array<uint8_t, N>\<close>, a \<open>std::vector<uint8_t>\<close> and a
  \<open>std::span<const uint8_t>\<close> are all \<open>bytes\<close>; the fixed length of an array is a
  hypothesis of the lemmas that need it.  The order on \<open>bytes\<close> is the lexicographic one of
  \<open>HOL-Library.List_Lexorder\<close>, which on byte strings of one length is the order of
  \<open>std::memcmp\<close> and of \<open>operator<\<close> on \<open>std::array\<close>.
\<close>

unbundle bit_operations_syntax

type_synonym byte = "8 word"
type_synonym bytes = "byte list"
type_synonym u16 = "16 word"
type_synonym u32 = "32 word"
type_synonym u64 = "64 word"

abbreviation UINT64_MAX :: u64 where "UINT64_MAX \<equiv> 0xFFFFFFFFFFFFFFFF"

named_theorems wire_simps \<open>sizes and layouts of encoded messages\<close>
named_theorems frame_simps \<open>what an operation leaves untouched\<close>

section \<open>Big-endian numerals\<close>

primrec be_bytes :: "nat \<Rightarrow> nat \<Rightarrow> bytes" where
  "be_bytes 0 v = []"
| "be_bytes (Suc n) v = of_nat (v div 256 ^ n) # be_bytes n v"

primrec be_nat :: "bytes \<Rightarrow> nat" where
  "be_nat [] = 0"
| "be_nat (b # bs) = unat b * 256 ^ length bs + be_nat bs"

lemma length_be_bytes [simp]: "length (be_bytes n v) = n"
  by (induction n) auto

lemma be_bytes_zero [simp]: "be_bytes n 0 = replicate n 0"
  by (induction n) simp_all

lemma be_bytes_2: "be_bytes 2 v = [of_nat (v div 2 ^ 8), of_nat v]"
  using be_bytes.simps(2) [of "Suc 0" v] by (simp flip: numeral_2_eq_2)

lemma be_bytes_4:
  "be_bytes 4 v = [of_nat (v div 2 ^ 24), of_nat (v div 2 ^ 16), of_nat (v div 2 ^ 8), of_nat v]"
  using be_bytes.simps(2) [of 3 v] be_bytes.simps(2) [of 2 v] by (simp add: be_bytes_2)

lemma be_bytes_8:
  "be_bytes 8 v =
    [of_nat (v div 2 ^ 56), of_nat (v div 2 ^ 48), of_nat (v div 2 ^ 40), of_nat (v div 2 ^ 32),
     of_nat (v div 2 ^ 24), of_nat (v div 2 ^ 16), of_nat (v div 2 ^ 8), of_nat v]"
  using be_bytes.simps(2) [of 7 v] be_bytes.simps(2) [of 6 v] be_bytes.simps(2) [of 5 v]
    be_bytes.simps(2) [of 4 v] by (simp add: be_bytes_4)

lemma unat_byte_le: "unat (b :: byte) \<le> 255"
  using unsigned_less [of b, where ?'a = nat] by simp

lemma be_nat_less: "be_nat bs < 256 ^ length bs"
proof (induction bs)
  case (Cons b bs)
  have "unat b * 256 ^ length bs \<le> 255 * 256 ^ length bs"
    using unat_byte_le by (rule mult_right_mono) simp
  then have "unat b * 256 ^ length bs + be_nat bs < 255 * 256 ^ length bs + 256 ^ length bs"
    using Cons by linarith
  then show ?case by simp
qed simp

lemma be_nat_append: "be_nat (xs @ ys) = be_nat xs * 256 ^ length ys + be_nat ys"
  by (induction xs) (simp_all add: power_add algebra_simps)

lemma be_nat_be_bytes [simp]: "be_nat (be_bytes n v) = v mod 256 ^ n"
proof (induction n)
  case (Suc n)
  have "v mod 256 ^ Suc n = (v div 256 ^ n) mod 256 * 256 ^ n + v mod 256 ^ n"
    using mod_mult2_eq [of v "256 ^ n" 256] by (simp add: mult.commute)
  with Suc show ?case by (simp add: unat_of_nat)
qed simp

lemma be_nat_less_iff:
  "length xs = length ys \<Longrightarrow> be_nat xs < be_nat ys \<longleftrightarrow> xs < ys"
proof (induction xs ys rule: list_induct2)
  case (Cons x xs y ys)
  have bx: "be_nat xs < 256 ^ length xs" and by': "be_nat ys < 256 ^ length xs"
    using be_nat_less [of xs] be_nat_less [of ys] Cons.hyps by simp_all
  consider "x = y" | "x < y" | "y < x" by fastforce
  then show ?case
  proof cases
    case 2
    then have "unat x + 1 \<le> unat y" by (simp add: word_less_nat_alt)
    then have "(unat x + 1) * 256 ^ length xs \<le> unat y * 256 ^ length xs"
      by (rule mult_right_mono) simp
    with bx 2 Cons.hyps show ?thesis by (simp add: Cons_less_Cons)
  next
    case 3
    then have "unat y + 1 \<le> unat x" by (simp add: word_less_nat_alt)
    then have "(unat y + 1) * 256 ^ length xs \<le> unat x * 256 ^ length xs"
      by (rule mult_right_mono) simp
    with by' 3 Cons.hyps show ?thesis by (auto simp add: Cons_less_Cons)
  qed (use Cons in auto)
qed simp

lemma be_nat_inject:
  assumes "length xs = length ys" and "be_nat xs = be_nat ys"
  shows "xs = ys"
  using assms be_nat_less_iff [of xs ys] be_nat_less_iff [of ys xs] by force

lemma be_bytes_be_nat: "length bs = n \<Longrightarrow> be_bytes n (be_nat bs) = bs"
  by (rule be_nat_inject) (use be_nat_less [of bs] in auto)

lemma be_bytes_less_iff:
  assumes "a < 256 ^ n" and "b < 256 ^ n"
  shows "be_bytes n a < be_bytes n b \<longleftrightarrow> a < b"
  using assms be_nat_less_iff [of "be_bytes n a" "be_bytes n b"] by simp

lemma be_bytes_inject:
  assumes "a < 256 ^ n" and "b < 256 ^ n"
  shows "be_bytes n a = be_bytes n b \<longleftrightarrow> a = b"
  using assms by (metis be_nat_be_bytes mod_less)

section \<open>Bytes of a word\<close>

lemma mask_8_word: "(255 :: 'a::len word) = mask 8"
  by (simp add: mask_eq_exp_minus_1)

lemma ucast_drop_bit_byte:
  "(ucast (drop_bit k (v :: 'a::len word)) :: byte) = of_nat (unat v div 2 ^ k)"
proof -
  have "unat (drop_bit k v) = unat v div 2 ^ k"
    unfolding unat_drop_bit_eq by (simp add: drop_bit_eq_div)
  then show ?thesis
    by (simp add: word_unat_eq_iff unsigned_ucast_eq take_bit_eq_mod unat_of_nat)
qed

lemma ucast_drop_bit_mask_byte:
  assumes "8 \<le> LENGTH('a)"
  shows "(ucast (drop_bit k (v :: 'a::len word) AND 0xFF) :: byte) = of_nat (unat v div 2 ^ k)"
proof -
  have "(ucast (drop_bit k v AND 0xFF) :: byte) = ucast (drop_bit k v)"
    by (rule bit_word_eqI) (use assms in \<open>auto simp: mask_8_word bit_simps\<close>)
  then show ?thesis by (simp only: ucast_drop_bit_byte)
qed

lemma or_eq_add:
  fixes x y :: "'a::len word"
  assumes "take_bit m x = 0" and "take_bit m y = y"
  shows "x OR y = x + y"
proof -
  have "x AND y = 0"
  proof (rule bit_word_eqI)
    fix n
    have "bit (take_bit m x) n = bit 0 n" using assms(1) by simp
    moreover have "bit (take_bit m y) n = bit y n" using assms(2) by simp
    ultimately show "bit (x AND y) n = bit 0 n" by (auto simp: bit_simps)
  qed
  then show ?thesis by (simp add: disjunctive_add_eq_or)
qed

lemma push_bit_or_byte:
  "push_bit 8 x OR ucast (b :: byte) = push_bit 8 x + (ucast b :: 'a::len word)"
proof (rule or_eq_add [of 8], simp add: take_bit_push_bit, rule bit_word_eqI)
  fix n
  show "bit (take_bit 8 (ucast b :: 'a word)) n = bit (ucast b :: 'a word) n"
    using bit_imp_le_length [of b n] by (auto simp: bit_simps)
qed

text \<open>The shift-and-or of a byte string, whatever the width of the result.\<close>

lemma foldl_shift_or:
  "foldl (\<lambda>acc b. push_bit 8 acc OR ucast (b :: byte)) (0 :: 'a::len word) bs = of_nat (be_nat bs)"
proof (induction bs rule: rev_induct)
  case (snoc b bs)
  have "of_nat (be_nat (bs @ [b])) = push_bit 8 (of_nat (be_nat bs)) + (ucast b :: 'a word)"
    by (simp add: be_nat_append push_bit_eq_mult)
  with snoc show ?case by (simp add: push_bit_or_byte)
qed simp

section \<open>Lexicographic order\<close>

lemma append_less_append_same [simp]:
  fixes xs ys zs :: "'a::linorder list"
  shows "xs @ ys < xs @ zs \<longleftrightarrow> ys < zs"
  by (induction xs) auto

lemma append_less_append_len:
  fixes xs ys :: "'a::linorder list"
  assumes "length xs = length ys"
  shows "xs @ us < ys @ vs \<longleftrightarrow> xs < ys \<or> xs = ys \<and> us < vs"
  using assms by (induction xs ys rule: list_induct2) auto

section \<open>Sorted association lists\<close>

lemma sorted_dropWhile_iff:
  fixes b :: "'k::linorder"
  assumes "sorted_wrt (<) (map fst es)"
  shows "x \<in> set (dropWhile (\<lambda>e. fst e < b) es) \<longleftrightarrow> x \<in> set es \<and> b \<le> fst x"
  using assms
proof (induction es)
  case (Cons e es)
  then have "x \<in> set es \<Longrightarrow> fst e < fst x" by auto
  with Cons show ?case by (cases "fst e < b") auto
qed simp

lemma sorted_takeWhile_iff:
  fixes b :: "'k::linorder"
  assumes "sorted_wrt (<) (map fst es)"
  shows "x \<in> set (takeWhile (\<lambda>e. fst e < b) es) \<longleftrightarrow> x \<in> set es \<and> fst x < b"
  using assms
proof (induction es)
  case (Cons e es)
  then have "x \<in> set es \<Longrightarrow> fst e < fst x" by auto
  with Cons show ?case by (cases "fst e < b") auto
qed simp

section \<open>Fixed-width records\<close>

definition records :: "nat \<Rightarrow> nat \<Rightarrow> 'a list \<Rightarrow> 'a list list" where
  "records w n r = map (\<lambda>i. take w (drop (i * w) r)) [0..<n]"

lemma records_Suc: "records w (Suc n) r = take w r # records w n (drop w r)"
  by (simp add: records_def upt_conv_Cons map_Suc_upt [symmetric] comp_def add.commute
      del: upt_Suc)

lemma length_records [simp]: "length (records w n r) = n"
  by (simp add: records_def)

lemma records_concat:
  "\<forall>x \<in> set xs. length x = w \<Longrightarrow> records w (length xs) (concat xs @ r) = xs"
  by (induction xs) (simp_all add: records_Suc, simp add: records_def)

lemma concat_records: "length r = n * w \<Longrightarrow> concat (records w n r) = r"
proof (induction n arbitrary: r)
  case (Suc n)
  then show ?case using append_take_drop_id [of w r] by (simp add: records_Suc)
qed (simp add: records_def)

lemma records_width: "n * w \<le> length r \<Longrightarrow> x \<in> set (records w n r) \<Longrightarrow> length x = w"
proof (induction n arbitrary: r)
  case (Suc n)
  then show ?case using Suc.IH [of "drop w r"] by (auto simp: records_Suc)
qed (simp add: records_def)

end
