(* ===== verification/Endian.thy ===== *)
theory Endian
  imports Prelude
begin

text \<open>
  \<open>db/util/endian.h\<close>: the big-endian writers and readers every wire format and every
  database key of the node is built from, and the overflow-checked arithmetic of the message
  parsers.  Every function is first translated with the shifts and masks of the source; the
  lemmas then relate it to the big-endian numerals \<open>be_bytes\<close> and \<open>be_nat\<close>, and the
  other theories only use those.  \<open>size_t\<close> is 64 bits wide.
\<close>

datatype endian_error = Out_Of_Range

section \<open>Writers\<close>

definition write_u16_be :: "bytes \<Rightarrow> u16 \<Rightarrow> bytes" where
  "write_u16_be buf val = buf @ [ucast (drop_bit 8 val AND 0xFF), ucast (val AND 0xFF)]"

definition write_u32_be :: "bytes \<Rightarrow> u32 \<Rightarrow> bytes" where
  "write_u32_be buf val = buf @
     [ucast (drop_bit 24 val AND 0xFF), ucast (drop_bit 16 val AND 0xFF),
      ucast (drop_bit 8 val AND 0xFF), ucast (val AND 0xFF)]"

definition write_u64_be :: "bytes \<Rightarrow> u64 \<Rightarrow> bytes" where
  "write_u64_be buf val = buf @
     [ucast (drop_bit 56 val AND 0xFF), ucast (drop_bit 48 val AND 0xFF),
      ucast (drop_bit 40 val AND 0xFF), ucast (drop_bit 32 val AND 0xFF),
      ucast (drop_bit 24 val AND 0xFF), ucast (drop_bit 16 val AND 0xFF),
      ucast (drop_bit 8 val AND 0xFF), ucast (val AND 0xFF)]"

text \<open>The fixed-buffer writers fill \<open>out[0..3]\<close> and \<open>out[0..7]\<close>; the model
  returns the bytes written.\<close>

definition store_u32_be :: "u32 \<Rightarrow> bytes" where
  "store_u32_be val =
     [ucast (drop_bit 24 val), ucast (drop_bit 16 val), ucast (drop_bit 8 val), ucast val]"

definition store_u64_be :: "u64 \<Rightarrow> bytes" where
  "store_u64_be val = map (\<lambda>i. ucast (drop_bit (i * 8) val)) (rev [0..<8])"

section \<open>Readers\<close>

text \<open>The raw-pointer readers do no bounds check: their callers have checked that four (eight)
  bytes are there.\<close>

definition read_u32_be_ptr :: "bytes \<Rightarrow> u32" where
  "read_u32_be_ptr p =
     (((push_bit 24 (ucast (p ! 0)) OR push_bit 16 (ucast (p ! 1))) OR
      push_bit 8 (ucast (p ! 2))) OR ucast (p ! 3))"

definition read_u64_be_ptr :: "bytes \<Rightarrow> u64" where
  "read_u64_be_ptr p =
     (((((((push_bit 56 (ucast (p ! 0)) OR push_bit 48 (ucast (p ! 1))) OR
      push_bit 40 (ucast (p ! 2))) OR push_bit 32 (ucast (p ! 3))) OR
      push_bit 24 (ucast (p ! 4))) OR push_bit 16 (ucast (p ! 5))) OR
      push_bit 8 (ucast (p ! 6))) OR ucast (p ! 7))"

definition read_u16_be :: "bytes \<Rightarrow> endian_error + u16" where
  "read_u16_be d =
     (if length d < 2 then Inl Out_Of_Range
      else Inr (push_bit 8 (ucast (d ! 0)) OR ucast (d ! 1)))"

definition read_u32_be :: "bytes \<Rightarrow> endian_error + u32" where
  "read_u32_be d =
     (if length d < 4 then Inl Out_Of_Range
      else Inr (((push_bit 24 (ucast (d ! 0)) OR push_bit 16 (ucast (d ! 1))) OR
        push_bit 8 (ucast (d ! 2))) OR ucast (d ! 3)))"

definition read_u64_be :: "bytes \<Rightarrow> endian_error + u64" where
  "read_u64_be d =
     (if length d < 8 then Inl Out_Of_Range
      else Inr (((((((push_bit 56 (ucast (d ! 0)) OR push_bit 48 (ucast (d ! 1))) OR
        push_bit 40 (ucast (d ! 2))) OR push_bit 32 (ucast (d ! 3))) OR
        push_bit 24 (ucast (d ! 4))) OR push_bit 16 (ucast (d ! 5))) OR
        push_bit 8 (ucast (d ! 6))) OR ucast (d ! 7)))"

section \<open>Overflow-checked arithmetic\<close>

definition checked_mul :: "u64 \<Rightarrow> u64 \<Rightarrow> u64 option" where
  "checked_mul a b =
     (if a = 0 \<or> b = 0 then Some 0
      else let result = a * b in if result div a \<noteq> b then None else Some result)"

definition checked_add :: "u64 \<Rightarrow> u64 \<Rightarrow> u64 option" where
  "checked_add a b = (let result = a + b in if result < a then None else Some result)"

section \<open>The writers produce big-endian numerals\<close>

lemmas byte_of_word [simp] =
  ucast_drop_bit_mask_byte [of 0, simplified] ucast_drop_bit_mask_byte
  ucast_drop_bit_byte [of 0, simplified] ucast_drop_bit_byte

lemma write_u16_be_eq [wire_simps]: "write_u16_be buf v = buf @ be_bytes 2 (unat v)"
  unfolding write_u16_be_def be_bytes_2 by simp

lemma write_u32_be_eq [wire_simps]: "write_u32_be buf v = buf @ be_bytes 4 (unat v)"
  unfolding write_u32_be_def be_bytes_4 by simp

lemma write_u64_be_eq [wire_simps]: "write_u64_be buf v = buf @ be_bytes 8 (unat v)"
  unfolding write_u64_be_def be_bytes_8 by simp

lemma store_u32_be_eq [wire_simps]: "store_u32_be v = be_bytes 4 (unat v)"
  unfolding store_u32_be_def be_bytes_4 by simp

lemma store_u64_be_eq [wire_simps]: "store_u64_be v = be_bytes 8 (unat v)"
proof -
  have "rev [0..<8] = [7, 6, 5, 4, 3, 2, 1, 0 :: nat]" by (simp add: upt_rec)
  then show ?thesis unfolding store_u64_be_def be_bytes_8 by simp
qed

section \<open>The readers invert them\<close>

lemma read_u16_be_eq [wire_simps]:
  assumes "2 \<le> length p"
  shows "read_u16_be p = Inr (of_nat (be_nat (take 2 p)))"
proof -
  obtain a b r where p: "p = a # b # r"
    using assms by (auto simp: eval_nat_numeral Suc_le_length_iff)
  show ?thesis
    using foldl_shift_or [of "[a, b]", where ?'a = 16]
    by (simp add: p read_u16_be_def push_bit_or)
qed

lemma read_u32_be_ptr_eq [wire_simps]:
  assumes "4 \<le> length p"
  shows "read_u32_be_ptr p = of_nat (be_nat (take 4 p))"
proof -
  obtain a b c d r where p: "p = a # b # c # d # r"
    using assms by (auto simp: eval_nat_numeral Suc_le_length_iff)
  show ?thesis
    using foldl_shift_or [of "[a, b, c, d]", where ?'a = 32]
    by (simp add: p read_u32_be_ptr_def push_bit_or)
qed

lemma read_u64_be_ptr_eq [wire_simps]:
  assumes "8 \<le> length p"
  shows "read_u64_be_ptr p = of_nat (be_nat (take 8 p))"
proof -
  obtain a b c d e f g h r where p: "p = a # b # c # d # e # f # g # h # r"
    using assms by (auto simp: eval_nat_numeral Suc_le_length_iff)
  show ?thesis
    using foldl_shift_or [of "[a, b, c, d, e, f, g, h]", where ?'a = 64]
    by (simp add: p read_u64_be_ptr_def push_bit_or)
qed

lemma read_u32_be_eq [wire_simps]:
  "4 \<le> length d \<Longrightarrow> read_u32_be d = Inr (of_nat (be_nat (take 4 d)))"
  using read_u32_be_ptr_eq [of d] by (simp add: read_u32_be_def read_u32_be_ptr_def)

lemma read_u64_be_eq [wire_simps]:
  "8 \<le> length d \<Longrightarrow> read_u64_be d = Inr (of_nat (be_nat (take 8 d)))"
  using read_u64_be_ptr_eq [of d] by (simp add: read_u64_be_def read_u64_be_ptr_def)

lemma read_short:
  "length d < 2 \<Longrightarrow> read_u16_be d = Inl Out_Of_Range"
  "length d < 4 \<Longrightarrow> read_u32_be d = Inl Out_Of_Range"
  "length d < 8 \<Longrightarrow> read_u64_be d = Inl Out_Of_Range"
  by (simp_all add: read_u16_be_def read_u32_be_def read_u64_be_def)

section \<open>Round trips, order and overflow\<close>

lemma unat_of_nat_u64 [simp]: "unat (of_nat n :: u64) = n mod 2 ^ 64"
  and unat_of_nat_u32 [simp]: "unat (of_nat n :: u32) = n mod 2 ^ 32"
  and unat_of_nat_u16 [simp]: "unat (of_nat n :: u16) = n mod 2 ^ 16"
  by (simp_all add: unat_of_nat)

lemma be_nat_unat_u16 [simp]: "unat (v :: u16) mod 256 ^ 2 = unat v"
  and be_nat_unat_u32 [simp]: "unat (w :: u32) mod 256 ^ 4 = unat w"
  and be_nat_unat_u64 [simp]: "unat (x :: u64) mod 256 ^ 8 = unat x"
  using unsigned_less [of v, where ?'a = nat] unsigned_less [of w, where ?'a = nat]
    unsigned_less [of x, where ?'a = nat] by simp_all

lemma read_u32_be_ptr_store [simp]: "read_u32_be_ptr (be_bytes 4 (unat v) @ r) = v"
  by (subst read_u32_be_ptr_eq) (simp_all del: power_numeral)

lemma read_u64_be_ptr_store [simp]: "read_u64_be_ptr (be_bytes 8 (unat v) @ r) = v"
  by (subst read_u64_be_ptr_eq) (simp_all del: power_numeral)

lemma read_u32_be_ptr_exact [simp]: "read_u32_be_ptr (be_bytes 4 (unat v)) = v"
  using read_u32_be_ptr_store [of v "[]"] by simp

lemma read_u64_be_ptr_exact [simp]: "read_u64_be_ptr (be_bytes 8 (unat v)) = v"
  using read_u64_be_ptr_store [of v "[]"] by simp

lemma be_bytes_u32_inject: "be_bytes 4 (unat a) = be_bytes 4 (unat b) \<longleftrightarrow> a = (b :: u32)"
  and be_bytes_u64_inject: "be_bytes 8 (unat c) = be_bytes 8 (unat d) \<longleftrightarrow> c = (d :: u64)"
  by (metis read_u32_be_ptr_store read_u64_be_ptr_store)+

text \<open>what the writers append, the bounds-checked readers give back, whatever follows it in the
  buffer, for 16-, 32- and 64-bit values.\<close>

theorem endian_round_trip:
  "read_u16_be (write_u16_be [] a @ rest) = Inr a \<and>
   read_u32_be (write_u32_be [] b @ rest) = Inr b \<and>
   read_u64_be (write_u64_be [] c @ rest) = Inr c"
  by (simp add: wire_simps del: power_numeral)

text \<open>the order of the encoded keys is the order of the numbers.\<close>

theorem store_u64_be_order: "store_u64_be a < store_u64_be b \<longleftrightarrow> a < b"
  using unsigned_less [of a, where ?'a = nat] unsigned_less [of b, where ?'a = nat]
  by (simp add: store_u64_be_eq be_bytes_less_iff word_less_nat_alt)

lemma checked_add_exact:
  "checked_add a b = (if unat a + unat b < 2 ^ 64 then Some (a + b) else None)"
  unfolding checked_add_def Let_def word_less_nat_alt unat_word_ariths
  using unsigned_less [of a, where ?'a = nat] unsigned_less [of b, where ?'a = nat]
  by (auto simp: mod_if)

lemma checked_mul_exact:
  "checked_mul a b = (if unat a * unat b < 2 ^ 64 then Some (a * b) else None)"
proof (cases "a = 0 \<or> b = 0")
  case True
  then show ?thesis by (auto simp: checked_mul_def)
next
  case False
  then have a: "0 < unat a" and b: "0 < unat b" by (simp_all add: unat_gt_0)
  have "a * b div a = b \<longleftrightarrow> (unat a * unat b mod 2 ^ 64) div unat a = unat b"
    by (simp add: word_unat_eq_iff unat_div_distrib unat_word_ariths)
  also have "\<dots> \<longleftrightarrow> unat a * unat b < 2 ^ 64"
  proof
    assume q: "(unat a * unat b mod 2 ^ 64) div unat a = unat b"
    have "unat a * unat b \<le> unat a * unat b mod 2 ^ 64"
      using times_div_less_eq_dividend [of "unat a" "unat a * unat b mod 2 ^ 64"]
      unfolding q .
    also have "\<dots> < 2 ^ 64" by simp
    finally show "unat a * unat b < 2 ^ 64" .
  next
    assume "unat a * unat b < 2 ^ 64"
    then show "(unat a * unat b mod 2 ^ 64) div unat a = unat b" using a by simp
  qed
  finally show ?thesis using False by (simp add: checked_mul_def Let_def)
qed

text \<open>the overflow checks of the message parsers are exact: a product or a sum is returned if
  and only if it fits in 64 bits.\<close>

theorem checked_arith_exact:
  "checked_mul a b = (if unat a * unat b < 2 ^ 64 then Some (a * b) else None) \<and>
   checked_add a b = (if unat a + unat b < 2 ^ 64 then Some (a + b) else None)"
  by (simp only: checked_mul_exact checked_add_exact)

end
