(* ===== verification/Hex.thy ===== *)
theory Hex
  imports Endian
begin

text \<open>
  \<open>db/util/hex.h\<close> and \<open>db/util/address.h\<close>: the hex strings in which keys, namespaces and
  blob hashes appear in configuration files, and the validation of peer addresses.  A thrown
  \<open>std::invalid_argument\<close> is a value of \<open>hex_error\<close>.
\<close>

datatype hex_error = Odd_Length | Wrong_Length | Invalid_Char char

section \<open>Encoding\<close>

definition hex_chars :: string where
  "hex_chars = ''0123456789abcdef''"

fun to_hex :: "bytes \<Rightarrow> string" where
  "to_hex [] = []"
| "to_hex (b # bs) =
     hex_chars ! unat (drop_bit 4 b AND 0xF) # hex_chars ! unat (b AND 0xF) # to_hex bs"

definition to_hex_truncated :: "bytes \<Rightarrow> nat \<Rightarrow> string" where
  "to_hex_truncated bytes max_bytes =
     (let len = min (length bytes) max_bytes in
      concat (map (\<lambda>i. [hex_chars ! unat (drop_bit 4 (bytes ! i) AND 0xF),
                        hex_chars ! unat (bytes ! i AND 0xF)]) [0..<len]))"

section \<open>Decoding\<close>

definition in_range :: "char \<Rightarrow> char \<Rightarrow> char \<Rightarrow> bool" where
  "in_range lo hi c \<longleftrightarrow> (of_char lo :: nat) \<le> of_char c \<and> (of_char c :: nat) \<le> of_char hi"

definition nibble :: "char \<Rightarrow> hex_error + byte" where
  "nibble c =
     (if in_range CHR ''0'' CHR ''9'' c then Inr (of_char c - of_char CHR ''0'')
      else if in_range CHR ''a'' CHR ''f'' c then Inr (of_char c - of_char CHR ''a'' + 10)
      else if in_range CHR ''A'' CHR ''F'' c then Inr (of_char c - of_char CHR ''A'' + 10)
      else Inl (Invalid_Char c))"

text \<open>The loop of \<open>from_hex\<close>: the characters are read two at a time, the high one first, and
  the first invalid one aborts.\<close>

fun hex_pairs :: "string \<Rightarrow> hex_error + bytes" where
  "hex_pairs (h # l # cs) =
     (case nibble h of Inl e \<Rightarrow> Inl e | Inr hi \<Rightarrow>
     (case nibble l of Inl e \<Rightarrow> Inl e | Inr lo \<Rightarrow>
     (case hex_pairs cs of Inl e \<Rightarrow> Inl e | Inr bs \<Rightarrow> Inr ((push_bit 4 hi OR lo) # bs))))"
| "hex_pairs _ = Inr []"

definition from_hex :: "string \<Rightarrow> hex_error + bytes" where
  "from_hex hex_str = (if odd (length hex_str) then Inl Odd_Length else hex_pairs hex_str)"

definition from_hex_fixed :: "nat \<Rightarrow> string \<Rightarrow> hex_error + bytes" where
  "from_hex_fixed n hex_str =
     (if length hex_str \<noteq> n * 2 then Inl Wrong_Length else hex_pairs hex_str)"

section \<open>Addresses\<close>

definition rfind :: "char \<Rightarrow> string \<Rightarrow> nat option" where
  "rfind c s = (case dropWhile (\<lambda>x. x \<noteq> c) (rev s) of [] \<Rightarrow> None | _ # r \<Rightarrow> Some (length r))"

definition isdigit :: "char \<Rightarrow> bool" where
  "isdigit c \<longleftrightarrow> in_range CHR ''0'' CHR ''9'' c"

definition isspace :: "char \<Rightarrow> bool" where
  "isspace c \<longleftrightarrow> (of_char c :: nat) = 32 \<or> (9 \<le> (of_char c :: nat) \<and> (of_char c :: nat) \<le> 13)"

text \<open>\<open>std::atoi\<close> on a string of digits; a value that \<open>int\<close> cannot represent is undefined
  behaviour of the C library, \<open>None\<close> here.\<close>

definition decimal_value :: "string \<Rightarrow> nat" where
  "decimal_value ds = foldl (\<lambda>v c. v * 10 + (of_char c - 48)) 0 ds"

definition atoi :: "string \<Rightarrow> nat option" where
  "atoi ds = (if decimal_value ds \<le> 2147483647 then Some (decimal_value ds) else None)"

definition is_valid_host_port :: "string \<Rightarrow> bool option" where
  "is_valid_host_port s =
     (case rfind CHR '':'' s of
        None \<Rightarrow> Some False
      | Some colon \<Rightarrow>
          if colon = 0 \<or> colon = length s - 1 then Some False
          else let port_str = drop (colon + 1) s in
            if \<not> list_all isdigit port_str then Some False
            else (case atoi port_str of
                None \<Rightarrow> None
              | Some port \<Rightarrow>
                  if port < 1 \<or> 65535 < port then Some False
                  else Some (list_all (\<lambda>c. \<not> isspace c) (take colon s))))"

section \<open>Hex strings round-trip\<close>

definition hex_digit :: "char \<Rightarrow> bool" where
  "hex_digit c \<longleftrightarrow> in_range CHR ''0'' CHR ''9'' c \<or> in_range CHR ''a'' CHR ''f'' c \<or>
     in_range CHR ''A'' CHR ''F'' c"

lemma nibble_ok_iff: "(\<exists>v. nibble c = Inr v) \<longleftrightarrow> hex_digit c"
  by (auto simp: nibble_def hex_digit_def)

lemma nibble_hex_char:
  assumes "n < 16"
  shows "nibble (hex_chars ! n) = Inr (of_nat n)"
proof -
  have "\<forall>i \<in> set [0..<16]. nibble (hex_chars ! i) = Inr (of_nat i)"
    by (simp add: upt_rec nibble_def hex_chars_def in_range_def)
  with assms show ?thesis by auto
qed

lemma and_15: "b AND 0xF = take_bit 4 (b :: byte)"
  by (simp add: take_bit_eq_mask mask_eq_exp_minus_1)

lemma nibble_index: "unat (take_bit 4 b :: byte) < 16"
  using take_bit_nat_less_exp [of 4 "unat b"] by (simp add: unsigned_take_bit_eq)

lemma join_nibbles: "push_bit 4 (take_bit 4 (drop_bit 4 b)) OR take_bit 4 b = (b :: byte)"
  by (rule bit_word_eqI) (auto simp: bit_simps)

lemma hex_pairs_to_hex: "hex_pairs (to_hex bs) = Inr bs"
  by (induction bs) (simp_all add: and_15 nibble_hex_char nibble_index join_nibbles)

lemma length_to_hex [simp]: "length (to_hex bs) = 2 * length bs"
  by (induction bs) simp_all

lemma length_hex_pairs: "hex_pairs s = Inr bs \<Longrightarrow> length bs = length s div 2"
  by (induction s arbitrary: bs rule: hex_pairs.induct) (auto split: sum.splits)

lemma hex_pairs_ok_iff:
  "even (length s) \<Longrightarrow> (\<exists>bs. hex_pairs s = Inr bs) \<longleftrightarrow> list_all hex_digit s"
proof (induction s rule: hex_pairs.induct)
  case (1 h l cs)
  show ?case
  proof (cases "hex_digit h \<and> hex_digit l")
    case True
    then obtain hi lo where hl: "nibble h = Inr hi" "nibble l = Inr lo"
      by (auto simp flip: nibble_ok_iff)
    have "(\<exists>bs. hex_pairs cs = Inr bs) \<longleftrightarrow> list_all hex_digit cs"
      using 1(1) [OF hl] 1(2) by simp
    with hl True show ?thesis by (cases "hex_pairs cs") auto
  next
    case False
    then show ?thesis using nibble_ok_iff [of h] nibble_ok_iff [of l]
      by (auto split: sum.splits)
  qed
qed auto

lemma to_hex_truncated_eq: "to_hex_truncated bs n = to_hex (take n bs)"
proof -
  have "to_hex xs = concat (map (\<lambda>i. [hex_chars ! unat (drop_bit 4 (xs ! i) AND 0xF),
      hex_chars ! unat (xs ! i AND 0xF)]) [0..<length xs])" for xs
    by (induction xs) (simp_all add: upt_conv_Cons map_Suc_upt [symmetric] comp_def
        del: upt_Suc)
  from this [of "take n bs"] show ?thesis
    by (auto simp: to_hex_truncated_def Let_def intro!: arg_cong [where f = concat])
qed

text \<open>decoding inverts encoding, for the vector and for the fixed-size decoder.\<close>

theorem from_hex_to_hex:
  "from_hex (to_hex bs) = Inr bs \<and> from_hex_fixed (length bs) (to_hex bs) = Inr bs"
  by (simp add: from_hex_def from_hex_fixed_def hex_pairs_to_hex)

text \<open>the decoder succeeds exactly on strings of hex digits of even length, and then yields
  half as many bytes.\<close>

theorem from_hex_accepts:
  "(\<exists>bs. from_hex s = Inr bs \<and> length bs = length s div 2) \<longleftrightarrow>
     even (length s) \<and> list_all hex_digit s"
  using hex_pairs_ok_iff [of s] length_hex_pairs [of s] by (auto simp: from_hex_def)

section \<open>Accepted addresses\<close>

lemma rfind_Some:
  assumes "rfind c s = Some i"
  shows "i < length s \<and> s ! i = c \<and> s = take i s @ c # drop (Suc i) s \<and> c \<notin> set (drop (Suc i) s)"
proof -
  obtain x r where r: "dropWhile (\<lambda>x. x \<noteq> c) (rev s) = x # r" "i = length r"
    using assms by (auto simp: rfind_def split: list.splits)
  define t where "t = takeWhile (\<lambda>x. x \<noteq> c) (rev s)"
  have x: "x = c" using r(1) hd_dropWhile [of "\<lambda>x. x \<noteq> c" "rev s"] by auto
  have "rev s = t @ c # r" unfolding t_def by (metis takeWhile_dropWhile_id r(1) x)
  then have s: "s = rev r @ c # rev t" by (simp add: rev_swap)
  have "c \<notin> set t" unfolding t_def by (auto dest: set_takeWhileD)
  then show ?thesis using r(2) s by (simp add: nth_append)
qed

lemma is_valid_host_port_sound:
  assumes "is_valid_host_port s = Some True"
  shows "\<exists>host port. s = host @ CHR '':'' # port \<and> host \<noteq> [] \<and> list_all (\<lambda>c. \<not> isspace c) host \<and>
    port \<noteq> [] \<and> list_all isdigit port \<and> 1 \<le> decimal_value port \<and> decimal_value port \<le> 65535"
proof -
  obtain i where i: "rfind CHR '':'' s = Some i" "i \<noteq> 0" "i \<noteq> length s - 1"
    using assms by (auto simp: is_valid_host_port_def split: option.splits if_splits)
  let ?host = "take i s" and ?port = "drop (Suc i) s"
  have split: "s = ?host @ CHR '':'' # ?port" and "i < length s"
    using rfind_Some [OF i(1)] by blast+
  then have "?host \<noteq> []" "?port \<noteq> []" using i by auto
  moreover have "list_all isdigit ?port" "1 \<le> decimal_value ?port" "decimal_value ?port \<le> 65535"
      "list_all (\<lambda>c. \<not> isspace c) ?host"
    using assms i by (simp_all add: is_valid_host_port_def atoi_def Let_def split: if_splits)
  ultimately show ?thesis using split by blast
qed

end
