(* ===== verification/Externals.thy ===== *)
theory Externals
  imports Prelude
begin

text \<open>
  The code the node calls and does not contain: liboqs (SHA3-256, ML-DSA-87, ML-KEM-1024), libsodium
  (ChaCha20-Poly1305, HKDF-SHA256), FlatBuffers (the generated tables) and libmdbx (ordered key-value
  tables).  It is one parameter \<open>X\<close> of the model, a record of functions that every definition
  which calls such code takes as an argument.  The locales below name what is relied on: one locale
  per library, each stating documented behaviour only, and \<open>externals\<close> joining them.  The last
  section gives one concrete record that satisfies every law.
\<close>

section \<open>The parameter\<close>

record fb_blob =
  fb_signer_hint :: "bytes option"
  fb_data :: "bytes option"
  fb_ttl :: u32
  fb_timestamp :: u64
  fb_signature :: "bytes option"

record fb_transport =
  ft_type :: byte
  ft_payload :: "bytes option"
  ft_request_id :: u32

record fb_write_body =
  fw_target_namespace :: "bytes option"
  fw_blob :: "fb_blob option"

text \<open>\<open>None\<close> is a nonzero return code of a primitive; the randomness a primitive draws is its last
  argument.  An mdbx cursor walk in key order visits the list \<open>mdbx_entries\<close>; \<open>oqs_sha3_256_inc\<close> is the
  digest of the incremental interface after absorbing the chunks in turn.\<close>

record 't externals =
  oqs_sha3_256 :: "bytes \<Rightarrow> bytes"
  oqs_sha3_256_inc :: "bytes list \<Rightarrow> bytes"
  oqs_sig_verify :: "bytes \<Rightarrow> bytes \<Rightarrow> bytes \<Rightarrow> bool"
  oqs_sig_keypair :: "bytes \<Rightarrow> (bytes \<times> bytes) option"
  oqs_sig_sign :: "bytes \<Rightarrow> bytes \<Rightarrow> bytes \<Rightarrow> bytes option"
  oqs_kem_keypair :: "bytes \<Rightarrow> (bytes \<times> bytes) option"
  oqs_kem_encaps :: "bytes \<Rightarrow> bytes \<Rightarrow> (bytes \<times> bytes) option"
  oqs_kem_decaps :: "bytes \<Rightarrow> bytes \<Rightarrow> bytes option"
  sodium_hkdf_extract :: "bytes \<Rightarrow> bytes \<Rightarrow> bytes option"
  sodium_hkdf_expand :: "bytes \<Rightarrow> string \<Rightarrow> nat \<Rightarrow> bytes option"
  sodium_encrypt :: "bytes \<Rightarrow> bytes \<Rightarrow> bytes \<Rightarrow> bytes \<Rightarrow> bytes option"
  sodium_decrypt :: "bytes \<Rightarrow> bytes \<Rightarrow> bytes \<Rightarrow> bytes \<Rightarrow> bytes option"
  fb_create_blob :: "bytes \<Rightarrow> bytes \<Rightarrow> u32 \<Rightarrow> u64 \<Rightarrow> bytes \<Rightarrow> bytes"
  fb_verify_blob :: "bytes \<Rightarrow> bool"
  fb_get_blob :: "bytes \<Rightarrow> fb_blob"
  fb_create_blob_write_body :: "bytes \<Rightarrow> bytes \<Rightarrow> bytes \<Rightarrow> u32 \<Rightarrow> u64 \<Rightarrow> bytes \<Rightarrow> bytes"
  fb_verify_blob_write_body :: "bytes \<Rightarrow> bool"
  fb_get_blob_write_body :: "bytes \<Rightarrow> fb_write_body"
  fb_create_transport :: "byte \<Rightarrow> bytes \<Rightarrow> u32 \<Rightarrow> bytes"
  fb_verify_transport :: "bytes \<Rightarrow> bool"
  fb_get_transport :: "bytes \<Rightarrow> fb_transport"
  mdbx_empty :: 't
  mdbx_get :: "'t \<Rightarrow> bytes \<Rightarrow> bytes option"
  mdbx_upsert :: "'t \<Rightarrow> bytes \<Rightarrow> bytes \<Rightarrow> 't"
  mdbx_erase :: "'t \<Rightarrow> bytes \<Rightarrow> 't"
  mdbx_entries :: "'t \<Rightarrow> (bytes \<times> bytes) list"

section \<open>Cursors\<close>

text \<open>\<open>cursor.lower_bound(k)\<close> followed by \<open>to_next\<close> steps sees the entries from the first key not
  below \<open>k\<close> on; \<open>to_previous\<close> from there sees the last entry below it.\<close>

definition lower_bound :: "'t externals \<Rightarrow> 't \<Rightarrow> bytes \<Rightarrow> (bytes \<times> bytes) list" where
  "lower_bound X t k = dropWhile (\<lambda>e. fst e < k) (mdbx_entries X t)"

definition before_bound :: "'t externals \<Rightarrow> 't \<Rightarrow> bytes \<Rightarrow> (bytes \<times> bytes) list" where
  "before_bound X t k = takeWhile (\<lambda>e. fst e < k) (mdbx_entries X t)"

definition last_entry :: "(bytes \<times> bytes) list \<Rightarrow> (bytes \<times> bytes) option" where
  "last_entry es = (if es = [] then None else Some (last es))"

section \<open>What is relied on\<close>

locale mdbx_table =
  fixes empty :: 't
    and get :: "'t \<Rightarrow> bytes \<Rightarrow> bytes option"
    and upsert :: "'t \<Rightarrow> bytes \<Rightarrow> bytes \<Rightarrow> 't"
    and erase :: "'t \<Rightarrow> bytes \<Rightarrow> 't"
    and entries :: "'t \<Rightarrow> (bytes \<times> bytes) list"
  assumes entries_empty: "entries empty = []"
    and entries_sorted: "sorted_wrt (<) (map fst (entries t))"
    and get_entries: "get t k = map_of (entries t) k"
    and get_upsert: "get (upsert t k v) k' = (if k' = k then Some v else get t k')"
    and get_erase: "get (erase t k) k' = (if k' = k then None else get t k')"
begin

lemma entries_distinct: "distinct (map fst (entries t))"
  using entries_sorted [of t] strict_sorted_iff by blast

lemma get_empty: "get empty k = None"
  by (simp add: get_entries entries_empty)

lemma in_entries_iff: "(k, v) \<in> set (entries t) \<longleftrightarrow> get t k = Some v"
  using entries_distinct [of t] by (simp add: get_entries)

lemma keys_iff: "k \<in> fst ` set (entries t) \<longleftrightarrow> get t k \<noteq> None"
  by (simp add: get_entries map_of_eq_None_iff)

text \<open>A table is determined by its contents as far as the interface can tell.\<close>

lemma entries_eqI:
  assumes "\<And>k. get t k = get u k"
  shows "entries t = entries u"
proof (rule map_sorted_distinct_set_unique [where f = fst])
  show "inj_on fst (set (entries t) \<union> set (entries u))"
    using assms by (auto simp: inj_on_def in_entries_iff)
  show "set (entries t) = set (entries u)"
    using assms by (auto simp: in_entries_iff)
qed (use entries_sorted strict_sorted_iff in blast)+

end

locale sodium_aead =
  fixes encrypt :: "bytes \<Rightarrow> bytes \<Rightarrow> bytes \<Rightarrow> bytes \<Rightarrow> bytes option"
    and decrypt :: "bytes \<Rightarrow> bytes \<Rightarrow> bytes \<Rightarrow> bytes \<Rightarrow> bytes option"
  assumes encrypt_total: "length p < 2 ^ 38 - 64 \<Longrightarrow> encrypt p ad n k \<noteq> None"
    and length_encrypt: "encrypt p ad n k = Some c \<Longrightarrow> length c = length p + 16"
    and decrypt_encrypt:
      "length n = 12 \<Longrightarrow> length k = 32 \<Longrightarrow> encrypt p ad n k = Some c \<Longrightarrow> decrypt c ad n k = Some p"
    and length_decrypt: "decrypt c ad n k = Some p \<Longrightarrow> length c = length p + 16"

locale oqs_sha3 =
  fixes sha3_256 :: "bytes \<Rightarrow> bytes"
    and sha3_256_inc :: "bytes list \<Rightarrow> bytes"
  assumes length_sha3: "length (sha3_256 m) = 32"
    and sha3_inc: "sha3_256_inc cs = sha3_256 (concat cs)"

text \<open>A finished FlatBuffer verifies and reads back the fields it was built from; the library
  requires buffers below 2 GiB.\<close>

locale fb_codec =
  fixes create :: "bytes \<Rightarrow> bytes \<Rightarrow> u32 \<Rightarrow> u64 \<Rightarrow> bytes \<Rightarrow> bytes"
    and verify :: "bytes \<Rightarrow> bool"
    and accessor :: "bytes \<Rightarrow> fb_blob"
  assumes verify_create:
      "length h + length d + length s < 2 ^ 30 \<Longrightarrow> verify (create h d ttl ts s)"
    and get_create:
      "length h + length d + length s < 2 ^ 30 \<Longrightarrow> accessor (create h d ttl ts s) =
        \<lparr>fb_signer_hint = Some h, fb_data = Some d, fb_ttl = ttl, fb_timestamp = ts,
         fb_signature = Some s\<rparr>"
    and length_create:
      "length h + length d + length s < 2 ^ 30 \<Longrightarrow> length (create h d ttl ts s) < 2 ^ 31"
    and root_offset: "4 \<le> length (create h d ttl ts s)"

locale fb_write_codec =
  fixes create :: "bytes \<Rightarrow> bytes \<Rightarrow> bytes \<Rightarrow> u32 \<Rightarrow> u64 \<Rightarrow> bytes \<Rightarrow> bytes"
    and verify :: "bytes \<Rightarrow> bool"
    and accessor :: "bytes \<Rightarrow> fb_write_body"
  assumes write_verify:
      "length ns + length h + length d + length s < 2 ^ 30 \<Longrightarrow> verify (create ns h d ttl ts s)"
    and write_get:
      "length ns + length h + length d + length s < 2 ^ 30 \<Longrightarrow> accessor (create ns h d ttl ts s) =
        \<lparr>fw_target_namespace = Some ns,
         fw_blob = Some \<lparr>fb_signer_hint = Some h, fb_data = Some d, fb_ttl = ttl, fb_timestamp = ts,
           fb_signature = Some s\<rparr>\<rparr>"

text \<open>A message starts with the offset of its root table, which is aligned to four bytes; the table, its
  vtable and the padding take less than 64 bytes.\<close>

locale fb_transport_codec =
  fixes create :: "byte \<Rightarrow> bytes \<Rightarrow> u32 \<Rightarrow> bytes"
    and verify :: "bytes \<Rightarrow> bool"
    and accessor :: "bytes \<Rightarrow> fb_transport"
  assumes transport_verify: "length p < 2 ^ 30 \<Longrightarrow> verify (create t p r)"
    and transport_get:
      "length p < 2 ^ 30 \<Longrightarrow>
        accessor (create t p r) = \<lparr>ft_type = t, ft_payload = Some p, ft_request_id = r\<rparr>"
    and transport_length: "4 \<le> length (create t p r)" "length (create t p r) < length p + 64"
    and transport_root: "unat (hd (create t p r)) mod 4 = 0"

locale oqs_sig =
  fixes keypair :: "bytes \<Rightarrow> (bytes \<times> bytes) option"
    and sign :: "bytes \<Rightarrow> bytes \<Rightarrow> bytes \<Rightarrow> bytes option"
    and verify :: "bytes \<Rightarrow> bytes \<Rightarrow> bytes \<Rightarrow> bool"
  assumes sig_lengths: "keypair r = Some (pk, sk) \<Longrightarrow> length pk = 2592 \<and> length sk = 4896"
    and sign_length: "sign sk m r = Some s \<Longrightarrow> length s \<le> 4627"
    and sign_verifies: "keypair r = Some (pk, sk) \<Longrightarrow> sign sk m r' = Some s \<Longrightarrow> verify m s pk"

locale oqs_kem =
  fixes keypair :: "bytes \<Rightarrow> (bytes \<times> bytes) option"
    and encaps :: "bytes \<Rightarrow> bytes \<Rightarrow> (bytes \<times> bytes) option"
    and decaps :: "bytes \<Rightarrow> bytes \<Rightarrow> bytes option"
  assumes kem_lengths: "keypair r = Some (pk, sk) \<Longrightarrow> length pk = 1568 \<and> length sk = 3168"
    and encaps_lengths: "encaps pk r = Some (ct, ss) \<Longrightarrow> length ct = 1568 \<and> length ss = 32"
    and decaps_encaps:
      "keypair r = Some (pk, sk) \<Longrightarrow> encaps pk r' = Some (ct, ss) \<Longrightarrow> decaps ct sk = Some ss"

locale sodium_hkdf =
  fixes hkdf_extract :: "bytes \<Rightarrow> bytes \<Rightarrow> bytes option"
    and hkdf_expand :: "bytes \<Rightarrow> string \<Rightarrow> nat \<Rightarrow> bytes option"
  assumes extract_length: "hkdf_extract salt ikm = Some prk \<Longrightarrow> length prk = 32"
    and extract_total: "hkdf_extract salt ikm \<noteq> None"
    and expand_length: "hkdf_expand prk context n = Some k \<Longrightarrow> length k = n"
    and expand_total: "n \<le> 255 * 32 \<Longrightarrow> hkdf_expand prk context n \<noteq> None"

locale externals =
  tbl: mdbx_table "mdbx_empty X" "mdbx_get X" "mdbx_upsert X" "mdbx_erase X" "mdbx_entries X" +
  aead: sodium_aead "sodium_encrypt X" "sodium_decrypt X" +
  sha3: oqs_sha3 "oqs_sha3_256 X" "oqs_sha3_256_inc X" +
  fb: fb_codec "fb_create_blob X" "fb_verify_blob X" "fb_get_blob X" +
  fw: fb_write_codec "fb_create_blob_write_body X" "fb_verify_blob_write_body X"
    "fb_get_blob_write_body X" +
  ft: fb_transport_codec "fb_create_transport X" "fb_verify_transport X" "fb_get_transport X" +
  sig: oqs_sig "oqs_sig_keypair X" "oqs_sig_sign X" "oqs_sig_verify X" +
  kem: oqs_kem "oqs_kem_keypair X" "oqs_kem_encaps X" "oqs_kem_decaps X" +
  hkdf: sodium_hkdf "sodium_hkdf_extract X" "sodium_hkdf_expand X"
  for X :: "'t externals"
begin

lemma bound_split: "before_bound X t k @ lower_bound X t k = mdbx_entries X t"
  by (simp add: before_bound_def lower_bound_def)

lemma lower_bound_iff:
  "(k, v) \<in> set (lower_bound X t b) \<longleftrightarrow> mdbx_get X t k = Some v \<and> b \<le> k"
  using sorted_dropWhile_iff [OF tbl.entries_sorted, of "(k, v)" b t]
  by (simp add: lower_bound_def tbl.in_entries_iff)

lemma before_bound_iff:
  "(k, v) \<in> set (before_bound X t b) \<longleftrightarrow> mdbx_get X t k = Some v \<and> k < b"
  using sorted_takeWhile_iff [OF tbl.entries_sorted, of "(k, v)" b t]
  by (simp add: before_bound_def tbl.in_entries_iff)

lemma lower_bound_sorted: "sorted_wrt (<) (map fst (lower_bound X t b))"
  and before_bound_sorted: "sorted_wrt (<) (map fst (before_bound X t b))"
  using tbl.entries_sorted [of t] bound_split [of t b]
  by (metis map_append sorted_wrt_append)+

end

section \<open>A record that satisfies the laws\<close>

text \<open>Tables are key-sorted association lists; the hash is the zero-padded prefix of the message,
  encryption appends a zero tag, and a buffer is its length-prefixed fields.  None of it is secure:
  it only shows that the laws can hold together, and gives the examples something to run on.\<close>

typedef (overloaded) ('k::linorder, 'v) ref_map =
  "{es :: ('k \<times> 'v) list. sorted_wrt (<) (map fst es)}"
  by (rule exI [of _ "[]"]) simp

setup_lifting type_definition_ref_map

type_synonym ref_table = "(bytes, bytes) ref_map"

fun alist_upsert :: "('k::linorder \<times> 'v) list \<Rightarrow> 'k \<Rightarrow> 'v \<Rightarrow> ('k \<times> 'v) list" where
  "alist_upsert [] k v = [(k, v)]"
| "alist_upsert ((k', v') # es) k v =
     (if k < k' then (k, v) # (k', v') # es
      else if k = k' then (k, v) # es else (k', v') # alist_upsert es k v)"

definition alist_erase :: "('k::linorder \<times> 'v) list \<Rightarrow> 'k \<Rightarrow> ('k \<times> 'v) list" where
  "alist_erase es k = filter (\<lambda>e. fst e \<noteq> k) es"

lemma set_alist_upsert: "fst ` set (alist_upsert es k v) = insert k (fst ` set es)"
  by (induction es k v rule: alist_upsert.induct) auto

lemma sorted_alist_upsert:
  "sorted_wrt (<) (map fst es) \<Longrightarrow> sorted_wrt (<) (map fst (alist_upsert es k v))"
proof (induction es k v rule: alist_upsert.induct)
  case (2 k' v' es k v)
  have above: "\<forall>x \<in> fst ` set es. k' < x" using "2.prems" by simp
  show ?case
  proof (cases "k' < k")
    case True
    then have "\<forall>x \<in> fst ` set (alist_upsert es k v). k' < x"
      using above by (simp add: set_alist_upsert)
    moreover have "\<not> k < k'" "k \<noteq> k'" using True by auto
    ultimately show ?thesis using "2.IH" "2.prems" by simp
  next
    case False
    have "\<forall>x \<in> fst ` set es. k < x" if "k < k'" using above that less_trans by blast
    with False "2.prems" show ?thesis by (cases "k < k'") auto
  qed
qed simp

lemma map_of_alist_upsert:
  "sorted_wrt (<) (map fst es) \<Longrightarrow>
     map_of (alist_upsert es k v) k' = (if k' = k then Some v else map_of es k')"
  by (induction es k v rule: alist_upsert.induct) auto

lemma map_of_alist_erase: "map_of (alist_erase es k) k' = (if k' = k then None else map_of es k')"
  by (induction es) (auto simp: alist_erase_def)

lift_definition ref_empty :: "('k::linorder, 'v) ref_map" is "[]" by simp

lift_definition ref_entries :: "('k::linorder, 'v) ref_map \<Rightarrow> ('k \<times> 'v) list" is "\<lambda>es. es" .

lift_definition ref_get :: "('k::linorder, 'v) ref_map \<Rightarrow> 'k \<Rightarrow> 'v option" is map_of .

lift_definition ref_upsert :: "('k::linorder, 'v) ref_map \<Rightarrow> 'k \<Rightarrow> 'v \<Rightarrow> ('k, 'v) ref_map"
  is alist_upsert by (rule sorted_alist_upsert)

lift_definition ref_erase :: "('k::linorder, 'v) ref_map \<Rightarrow> 'k \<Rightarrow> ('k, 'v) ref_map"
  is alist_erase by (simp add: alist_erase_def sorted_wrt_filter sorted_wrt_map)

lemma ref_map_laws:
  "ref_entries ref_empty = []"
  "sorted_wrt (<) (map fst (ref_entries t))"
  "ref_get t k = map_of (ref_entries t) k"
  "ref_get (ref_upsert t k v) k' = (if k' = k then Some v else ref_get t k')"
  "ref_get (ref_erase t k) k' = (if k' = k then None else ref_get t k')"
  by (transfer, simp add: map_of_alist_upsert map_of_alist_erase)+

interpretation ref_tbl: mdbx_table ref_empty ref_get ref_upsert ref_erase ref_entries
  by unfold_locales (rule ref_map_laws)+

definition pad_hash :: "bytes \<Rightarrow> bytes" where
  "pad_hash m = take 32 (m @ replicate 32 0)"

definition tag_encrypt :: "bytes \<Rightarrow> bytes \<Rightarrow> bytes \<Rightarrow> bytes \<Rightarrow> bytes option" where
  "tag_encrypt p ad n k = Some (p @ replicate 16 0)"

definition tag_decrypt :: "bytes \<Rightarrow> bytes \<Rightarrow> bytes \<Rightarrow> bytes \<Rightarrow> bytes option" where
  "tag_decrypt c ad n k =
     (if 16 \<le> length c \<and> drop (length c - 16) c = replicate 16 0
      then Some (take (length c - 16) c) else None)"

interpretation ref_aead: sodium_aead tag_encrypt tag_decrypt
  by unfold_locales (auto simp: tag_encrypt_def tag_decrypt_def split: if_splits)

interpretation ref_sha3: oqs_sha3 pad_hash "\<lambda>cs. pad_hash (concat cs)"
  by unfold_locales (simp_all add: pad_hash_def)

definition flat_create :: "bytes \<Rightarrow> bytes \<Rightarrow> u32 \<Rightarrow> u64 \<Rightarrow> bytes \<Rightarrow> bytes" where
  "flat_create h d ttl ts s =
     be_bytes 4 (length h) @ be_bytes 4 (length d) @ be_bytes 4 (unat ttl) @ be_bytes 8 (unat ts) @
     h @ d @ s"

definition flat_accessor :: "bytes \<Rightarrow> fb_blob" where
  "flat_accessor b =
     (let lh = be_nat (take 4 b); ld = be_nat (take 4 (drop 4 b)); r = drop 20 b in
      \<lparr>fb_signer_hint = Some (take lh r), fb_data = Some (take ld (drop lh r)),
       fb_ttl = of_nat (be_nat (take 4 (drop 8 b))),
       fb_timestamp = of_nat (be_nat (take 8 (drop 12 b))),
       fb_signature = Some (drop (lh + ld) r)\<rparr>)"

interpretation ref_fb: fb_codec flat_create "\<lambda>b. 20 \<le> length b" flat_accessor
proof
  fix h d s :: bytes and ttl :: u32 and ts :: u64
  assume small: "length h + length d + length s < 2 ^ 30"
  have "unat ttl < 2 ^ 32" "unat ts < 2 ^ 64"
    using unsigned_less [of ttl, where ?'a = nat] unsigned_less [of ts, where ?'a = nat] by simp_all
  then show "flat_accessor (flat_create h d ttl ts s) =
      \<lparr>fb_signer_hint = Some h, fb_data = Some d, fb_ttl = ttl, fb_timestamp = ts,
       fb_signature = Some s\<rparr>"
    using small by (simp add: flat_accessor_def flat_create_def Let_def)
qed (simp_all add: flat_create_def)

definition flat_create_write :: "bytes \<Rightarrow> bytes \<Rightarrow> bytes \<Rightarrow> u32 \<Rightarrow> u64 \<Rightarrow> bytes \<Rightarrow> bytes" where
  "flat_create_write ns h d ttl ts s = be_bytes 4 (length ns) @ ns @ flat_create h d ttl ts s"

definition flat_write_accessor :: "bytes \<Rightarrow> fb_write_body" where
  "flat_write_accessor b =
     (let n = be_nat (take 4 b); r = drop 4 b in
      \<lparr>fw_target_namespace = Some (take n r), fw_blob = Some (flat_accessor (drop n r))\<rparr>)"

interpretation ref_fw: fb_write_codec flat_create_write "\<lambda>b. 24 \<le> length b" flat_write_accessor
proof
  fix ns h d s :: bytes and ttl :: u32 and ts :: u64
  assume small: "length ns + length h + length d + length s < 2 ^ 30"
  then show "flat_write_accessor (flat_create_write ns h d ttl ts s) =
      \<lparr>fw_target_namespace = Some ns,
       fw_blob = Some \<lparr>fb_signer_hint = Some h, fb_data = Some d, fb_ttl = ttl, fb_timestamp = ts,
         fb_signature = Some s\<rparr>\<rparr>"
    using ref_fb.get_create [of h d s ttl ts]
    by (simp add: flat_write_accessor_def flat_create_write_def Let_def)
  show "24 \<le> length (flat_create_write ns h d ttl ts s)"
    by (simp add: flat_create_write_def flat_create_def)
qed

definition flat_create_transport :: "byte \<Rightarrow> bytes \<Rightarrow> u32 \<Rightarrow> bytes" where
  "flat_create_transport t p r = [0, 0, 0, 0, t] @ be_bytes 4 (unat r) @ p"

definition flat_transport_accessor :: "bytes \<Rightarrow> fb_transport" where
  "flat_transport_accessor b =
     \<lparr>ft_type = b ! 4, ft_payload = Some (drop 9 b), ft_request_id = of_nat (be_nat (take 4 (drop 5 b)))\<rparr>"

interpretation ref_ft: fb_transport_codec flat_create_transport "\<lambda>b. 9 \<le> length b" flat_transport_accessor
proof
  fix t :: byte and p :: bytes and r :: u32
  have "unat r < 2 ^ 32" using unsigned_less [of r, where ?'a = nat] by simp
  then show "flat_transport_accessor (flat_create_transport t p r) =
      \<lparr>ft_type = t, ft_payload = Some p, ft_request_id = r\<rparr>"
    by (simp add: flat_transport_accessor_def flat_create_transport_def)
qed (simp_all add: flat_create_transport_def)

definition pad_to :: "nat \<Rightarrow> bytes \<Rightarrow> bytes" where
  "pad_to n b = take n (b @ replicate n 0)"

lemma length_pad_to [simp]: "length (pad_to n b) = n"
  by (simp add: pad_to_def)

definition copy_sign :: "bytes \<Rightarrow> bytes \<Rightarrow> bytes \<Rightarrow> bytes option" where
  "copy_sign sk m r = (if length m \<le> 4627 then Some m else None)"

interpretation ref_sig: oqs_sig "\<lambda>r. Some (pad_to 2592 r, pad_to 4896 r)" copy_sign "\<lambda>m s pk. s = m"
  by unfold_locales (auto simp: copy_sign_def split: if_splits)

interpretation ref_kem: oqs_kem "\<lambda>r. Some (pad_to 1568 r, pad_to 3168 r)"
  "\<lambda>pk r. Some (pad_to 1568 (pad_to 32 r), pad_to 32 r)" "\<lambda>ct sk. Some (take 32 ct)"
  by unfold_locales (auto simp: pad_to_def)

interpretation ref_hkdf: sodium_hkdf "\<lambda>salt ikm. Some (pad_hash ikm)" "\<lambda>prk context n. Some (pad_to n prk)"
  by unfold_locales (auto simp: pad_hash_def)

definition ref_externals :: "ref_table externals" where
  "ref_externals =
     \<lparr>oqs_sha3_256 = pad_hash, oqs_sha3_256_inc = \<lambda>cs. pad_hash (concat cs),
      oqs_sig_verify = \<lambda>m s pk. s = m,
      oqs_sig_keypair = \<lambda>r. Some (pad_to 2592 r, pad_to 4896 r), oqs_sig_sign = copy_sign,
      oqs_kem_keypair = \<lambda>r. Some (pad_to 1568 r, pad_to 3168 r),
      oqs_kem_encaps = \<lambda>pk r. Some (pad_to 1568 (pad_to 32 r), pad_to 32 r),
      oqs_kem_decaps = \<lambda>ct sk. Some (take 32 ct),
      sodium_hkdf_extract = \<lambda>salt ikm. Some (pad_hash ikm),
      sodium_hkdf_expand = \<lambda>prk context n. Some (pad_to n prk),
      sodium_encrypt = tag_encrypt, sodium_decrypt = tag_decrypt,
      fb_create_blob = flat_create, fb_verify_blob = \<lambda>b. 20 \<le> length b,
      fb_get_blob = flat_accessor,
      fb_create_blob_write_body = flat_create_write,
      fb_verify_blob_write_body = \<lambda>b. 24 \<le> length b, fb_get_blob_write_body = flat_write_accessor,
      fb_create_transport = flat_create_transport, fb_verify_transport = \<lambda>b. 9 \<le> length b,
      fb_get_transport = flat_transport_accessor,
      mdbx_empty = ref_empty, mdbx_get = ref_get, mdbx_upsert = ref_upsert,
      mdbx_erase = ref_erase, mdbx_entries = ref_entries\<rparr>"

interpretation ref: externals ref_externals
  unfolding externals_def ref_externals_def
  using ref_tbl.mdbx_table_axioms ref_aead.sodium_aead_axioms ref_sha3.oqs_sha3_axioms
    ref_fb.fb_codec_axioms ref_fw.fb_write_codec_axioms ref_ft.fb_transport_codec_axioms
    ref_sig.oqs_sig_axioms ref_kem.oqs_kem_axioms ref_hkdf.sodium_hkdf_axioms by simp

end
