(* ===== verification/Codec.thy ===== *)
theory Codec
  imports Endian Externals
begin

text \<open>
  \<open>db/wire/codec.h\<close>, \<open>db/wire/codec.cpp\<close>, \<open>db/util/blob_helpers.h\<close> and \<open>db/crypto/hash.cpp\<close>: the
  blob record, its FlatBuffer encoding, the digest a writer signs, expiry times, and the five
  kinds of payload the node gives a meaning to (tombstone, delegation, published key, name
  pointer, batched tombstone).  A thrown exception is a value of \<open>codec_error\<close>.
\<close>

section \<open>Blobs\<close>

record blob_data =
  bd_signer_hint :: bytes
  bd_data :: bytes
  bd_ttl :: u32
  bd_timestamp :: u64
  bd_signature :: bytes

datatype codec_error =
  Invalid_Buffer | Null_Accessor | Bad_Signer_Hint | Name_Too_Long | Too_Many_Targets | Payload_Too_Short

definition sha3_256 :: "'t externals \<Rightarrow> bytes \<Rightarrow> bytes" where
  "sha3_256 X m = oqs_sha3_256 X m"

definition encode_blob :: "'t externals \<Rightarrow> blob_data \<Rightarrow> bytes" where
  "encode_blob X blob =
     fb_create_blob X (bd_signer_hint blob) (bd_data blob) (bd_ttl blob) (bd_timestamp blob)
       (bd_signature blob)"

definition decode_blob_from_fb :: "fb_blob option \<Rightarrow> codec_error + blob_data" where
  "decode_blob_from_fb fb =
     (case fb of
        None \<Rightarrow> Inl Null_Accessor
      | Some b \<Rightarrow>
          (case fb_signer_hint b of
             None \<Rightarrow> Inl Bad_Signer_Hint
           | Some hint \<Rightarrow>
               if length hint = 32
               then Inr \<lparr>bd_signer_hint = hint,
                         bd_data = (case fb_data b of None \<Rightarrow> [] | Some d \<Rightarrow> d),
                         bd_ttl = fb_ttl b, bd_timestamp = fb_timestamp b,
                         bd_signature = (case fb_signature b of None \<Rightarrow> [] | Some s \<Rightarrow> s)\<rparr>
               else Inl Bad_Signer_Hint))"

definition decode_blob :: "'t externals \<Rightarrow> bytes \<Rightarrow> codec_error + blob_data" where
  "decode_blob X buffer =
     (if \<not> fb_verify_blob X buffer then Inl Invalid_Buffer
      else decode_blob_from_fb (Some (fb_get_blob X buffer)))"

definition encode_blob_write_envelope :: "'t externals \<Rightarrow> bytes \<Rightarrow> blob_data \<Rightarrow> bytes" where
  "encode_blob_write_envelope X target_namespace blob =
     fb_create_blob_write_body X target_namespace (bd_signer_hint blob) (bd_data blob) (bd_ttl blob)
       (bd_timestamp blob) (bd_signature blob)"

text \<open>The digest a writer signs absorbs namespace, data, TTL and timestamp in this order.\<close>

definition build_signing_input :: "'t externals \<Rightarrow> bytes \<Rightarrow> bytes \<Rightarrow> u32 \<Rightarrow> u64 \<Rightarrow> bytes" where
  "build_signing_input X target_namespace dat ttl timestamp =
     oqs_sha3_256_inc X [target_namespace, dat, store_u32_be ttl, store_u64_be timestamp]"

definition blob_hash :: "'t externals \<Rightarrow> bytes \<Rightarrow> bytes" where
  "blob_hash X encoded_blob = sha3_256 X encoded_blob"

section \<open>Expiry\<close>

definition saturating_expiry :: "u64 \<Rightarrow> u32 \<Rightarrow> u64" where
  "saturating_expiry timestamp ttl =
     (if ttl = 0 then 0
      else let ttl64 = ucast ttl :: u64 in
        if timestamp > UINT64_MAX - ttl64 then UINT64_MAX else timestamp + ttl64)"

definition is_blob_expired :: "blob_data \<Rightarrow> u64 \<Rightarrow> bool" where
  "is_blob_expired blob now =
     (if bd_ttl blob = 0 then False else saturating_expiry (bd_timestamp blob) (bd_ttl blob) \<le> now)"

section \<open>Payload kinds\<close>

definition TOMBSTONE_MAGIC :: bytes where "TOMBSTONE_MAGIC = [0xDE, 0xAD, 0xBE, 0xEF]"
definition DELEGATION_MAGIC :: bytes where "DELEGATION_MAGIC = [0xDE, 0x1E, 0x6A, 0x7E]"
definition PUBKEY_MAGIC :: bytes where "PUBKEY_MAGIC = [0x50, 0x55, 0x42, 0x4B]"
definition NAME_MAGIC :: bytes where "NAME_MAGIC = [0x4E, 0x41, 0x4D, 0x45]"
definition BOMB_MAGIC :: bytes where "BOMB_MAGIC = [0x42, 0x4F, 0x4D, 0x42]"

definition TOMBSTONE_DATA_SIZE :: nat where "TOMBSTONE_DATA_SIZE = 36"
definition DELEGATION_PUBKEY_SIZE :: nat where "DELEGATION_PUBKEY_SIZE = 2592"
definition DELEGATION_DATA_SIZE :: nat where "DELEGATION_DATA_SIZE = 4 + DELEGATION_PUBKEY_SIZE"
definition PUBKEY_DATA_SIZE :: nat where "PUBKEY_DATA_SIZE = 4 + 2592 + 1568"
definition NAME_MIN_DATA_SIZE :: nat where "NAME_MIN_DATA_SIZE = 4 + 2 + 0 + 32"
definition BOMB_MIN_DATA_SIZE :: nat where "BOMB_MIN_DATA_SIZE = 4 + 4"

definition is_tombstone :: "bytes \<Rightarrow> bool" where
  "is_tombstone d \<longleftrightarrow> length d = TOMBSTONE_DATA_SIZE \<and> take 4 d = TOMBSTONE_MAGIC"

definition extract_tombstone_target :: "bytes \<Rightarrow> bytes" where
  "extract_tombstone_target d = take 32 (drop 4 d)"

definition make_tombstone_data :: "bytes \<Rightarrow> bytes" where
  "make_tombstone_data target_hash = TOMBSTONE_MAGIC @ target_hash"

definition is_delegation :: "bytes \<Rightarrow> bool" where
  "is_delegation d \<longleftrightarrow> length d = DELEGATION_DATA_SIZE \<and> take 4 d = DELEGATION_MAGIC"

definition extract_delegate_pubkey :: "bytes \<Rightarrow> bytes" where
  "extract_delegate_pubkey d = take DELEGATION_PUBKEY_SIZE (drop 4 d)"

definition make_delegation_data :: "bytes \<Rightarrow> bytes" where
  "make_delegation_data delegate_pubkey = DELEGATION_MAGIC @ delegate_pubkey"

definition is_pubkey_blob :: "bytes \<Rightarrow> bool" where
  "is_pubkey_blob d \<longleftrightarrow>
     length d = PUBKEY_DATA_SIZE \<and>
     d ! 0 = PUBKEY_MAGIC ! 0 \<and> d ! 1 = PUBKEY_MAGIC ! 1 \<and>
     d ! 2 = PUBKEY_MAGIC ! 2 \<and> d ! 3 = PUBKEY_MAGIC ! 3"

definition extract_pubk_signing_pk :: "bytes \<Rightarrow> bytes" where
  "extract_pubk_signing_pk d = take 2592 (drop 4 d)"

subsection \<open>Name pointers\<close>

definition is_name :: "bytes \<Rightarrow> bool" where
  "is_name d =
     (if length d < NAME_MIN_DATA_SIZE then False
      else if take 4 d \<noteq> NAME_MAGIC then False
      else (case read_u16_be (take 2 (drop 4 d)) of
              Inl _ \<Rightarrow> False
            | Inr name_len \<Rightarrow> length d = 4 + 2 + unat name_len + 32))"

definition parse_name_payload :: "bytes \<Rightarrow> (bytes \<times> bytes) option" where
  "parse_name_payload d =
     (if \<not> is_name d then None
      else (case read_u16_be (take 2 (drop 4 d)) of
              Inl _ \<Rightarrow> None
            | Inr name_len \<Rightarrow>
                Some (take (unat name_len) (drop 6 d), take 32 (drop (6 + unat name_len) d))))"

definition make_name_data :: "bytes \<Rightarrow> bytes \<Rightarrow> codec_error + bytes" where
  "make_name_data name target_hash =
     (if length name > 65535 then Inl Name_Too_Long
      else Inr (write_u16_be NAME_MAGIC (of_nat (length name)) @ name @ target_hash))"

subsection \<open>Batched tombstones\<close>

definition is_bomb :: "bytes \<Rightarrow> bool" where
  "is_bomb d =
     (if length d < BOMB_MIN_DATA_SIZE then False
      else if take 4 d \<noteq> BOMB_MAGIC then False
      else let count = read_u32_be_ptr (drop 4 d);
               expected = (8 :: u64) + ucast count * 32 in
           length d = unat expected)"

definition validate_bomb_structure :: "bytes \<Rightarrow> bool" where
  "validate_bomb_structure d = is_bomb d"

definition has_bomb_magic :: "bytes \<Rightarrow> bool" where
  "has_bomb_magic d = (if length d < BOMB_MIN_DATA_SIZE then False else take 4 d = BOMB_MAGIC)"

definition extract_bomb_targets :: "bytes \<Rightarrow> bytes list" where
  "extract_bomb_targets d =
     (let count = read_u32_be_ptr (drop 4 d) in
      map (\<lambda>i. take 32 (drop (8 + i * 32) d)) [0..<unat count])"

definition make_bomb_data :: "bytes list \<Rightarrow> codec_error + bytes" where
  "make_bomb_data targets =
     (if length targets > 4294967295 then Inl Too_Many_Targets
      else Inr (write_u32_be BOMB_MAGIC (of_nat (length targets)) @ concat targets))"

definition extract_blob_type :: "bytes \<Rightarrow> bytes" where
  "extract_blob_type d = (if length d \<ge> 4 then take 4 d else [0, 0, 0, 0])"

section \<open>Message helpers\<close>

definition extract_namespace :: "bytes \<Rightarrow> codec_error + bytes" where
  "extract_namespace payload =
     (if length payload < 32 then Inl Payload_Too_Short else Inr (take 32 payload))"

definition extract_namespace_hash :: "bytes \<Rightarrow> codec_error + (bytes \<times> bytes)" where
  "extract_namespace_hash payload =
     (if length payload < 64 then Inl Payload_Too_Short
      else Inr (take 32 payload, take 32 (drop 32 payload)))"

definition encode_namespace_hash :: "bytes \<Rightarrow> bytes \<Rightarrow> bytes" where
  "encode_namespace_hash ns hash = ns @ hash"

definition encode_blob_ref :: "bytes \<Rightarrow> bytes \<Rightarrow> u64 \<Rightarrow> u32 \<Rightarrow> bool \<Rightarrow> bytes" where
  "encode_blob_ref ns hash seq_num blob_size tombstone =
     write_u32_be (write_u64_be (ns @ hash) seq_num) blob_size @ [if tombstone then 0x01 else 0x00]"

section \<open>Encoding round-trips\<close>

text \<open>A blob the codec can carry: a 32-byte hint, and within the size limit of the buffer library.\<close>

definition wf_blob :: "blob_data \<Rightarrow> bool" where
  "wf_blob b \<longleftrightarrow> length (bd_signer_hint b) = 32 \<and> length (bd_data b) + length (bd_signature b) < 2 ^ 29"

definition signed_bytes :: "bytes \<Rightarrow> bytes \<Rightarrow> u32 \<Rightarrow> u64 \<Rightarrow> bytes" where
  "signed_bytes ns d ttl ts = ns @ d @ be_bytes 4 (unat ttl) @ be_bytes 8 (unat ts)"

context externals
begin

lemma decode_encode_blob: "wf_blob b \<Longrightarrow> decode_blob X (encode_blob X b) = Inr b"
  by (simp add: wf_blob_def decode_blob_def encode_blob_def decode_blob_from_fb_def
      fb.verify_create fb.get_create)

lemma encode_blob_inject: "wf_blob a \<Longrightarrow> wf_blob b \<Longrightarrow> encode_blob X a = encode_blob X b \<longleftrightarrow> a = b"
  using decode_encode_blob by (metis Inr_inject)

lemma encode_blob_nonempty: "encode_blob X b \<noteq> []"
  using fb.root_offset [of "bd_signer_hint b" "bd_data b" "bd_ttl b" "bd_timestamp b" "bd_signature b"]
  unfolding encode_blob_def by force

lemma length_encode_blob: "wf_blob b \<Longrightarrow> length (encode_blob X b) < 2 ^ 31"
  unfolding wf_blob_def encode_blob_def by (rule fb.length_create) simp

lemma length_blob_hash: "length (blob_hash X e) = 32"
  by (simp add: blob_hash_def sha3_256_def sha3.length_sha3)

lemma build_signing_input_eq:
  "build_signing_input X ns d ttl ts =
     oqs_sha3_256 X (signed_bytes ns d ttl ts)"
  by (simp add: build_signing_input_def signed_bytes_def sha3.sha3_inc wire_simps)

end

lemma signed_bytes_inject:
  assumes "length ns = 32" "length ns' = 32"
    and "signed_bytes ns d ttl ts = signed_bytes ns' d' ttl' ts'"
  shows "ns = ns' \<and> d = d' \<and> ttl = ttl' \<and> ts = ts'"
proof -
  have "ns = ns'" and r: "d @ be_bytes 4 (unat ttl) @ be_bytes 8 (unat ts) =
      d' @ be_bytes 4 (unat ttl') @ be_bytes 8 (unat ts')"
    using assms unfolding signed_bytes_def by simp_all
  from arg_cong [OF r, of length] have "length d = length d'" by simp
  with r have "d = d'" "be_bytes 4 (unat ttl) = be_bytes 4 (unat ttl')"
    "be_bytes 8 (unat ts) = be_bytes 8 (unat ts')" by simp_all
  with \<open>ns = ns'\<close> show ?thesis by (simp add: be_bytes_u32_inject be_bytes_u64_inject)
qed

text \<open>a signature commits to all four parts of the signing input.  The digest is the hash of
  \<open>signed_bytes\<close>, and unless SHA3-256 collides on the two byte strings hashed, equal digests come
  from the same namespace, data, TTL and timestamp.\<close>

theorem signing_input_commits:
  assumes "externals X" and "length ns = 32" and "length ns' = 32"
    and "inj_on (oqs_sha3_256 X) {signed_bytes ns d ttl ts, signed_bytes ns' d' ttl' ts'}"
    and "build_signing_input X ns d ttl ts = build_signing_input X ns' d' ttl' ts'"
  shows "ns = ns' \<and> d = d' \<and> ttl = ttl' \<and> ts = ts'"
proof -
  have "signed_bytes ns d ttl ts = signed_bytes ns' d' ttl' ts'"
    using assms(5) unfolding externals.build_signing_input_eq [OF assms(1)]
    by (rule inj_onD [OF assms(4)]) simp_all
  then show ?thesis by (rule signed_bytes_inject [OF assms(2,3)])
qed

theorem signing_input_commits_witness:
  "\<not> build_signing_input ref_externals (replicate 32 0) [5] 1 2 =
     build_signing_input ref_externals (replicate 32 1) [5] 1 2"
proof
  assume "build_signing_input ref_externals (replicate 32 0) [5] 1 2 =
     build_signing_input ref_externals (replicate 32 1) [5] 1 2"
  then have "replicate 32 0 = (replicate 32 1 :: bytes) \<and> [5] = [5 :: byte] \<and> 1 = (1 :: u32) \<and>
      2 = (2 :: u64)"
    by (intro signing_input_commits [OF ref.externals_axioms])
      (simp_all add: ref_externals_def pad_hash_def signed_bytes_def)
  then show False by simp
qed

section \<open>Expiry times\<close>

lemma saturating_expiry_exact:
  assumes "ttl \<noteq> 0"
  shows "unat (saturating_expiry ts ttl) = min (2 ^ 64 - 1) (unat ts + unat ttl)"
proof -
  have t: "unat (ucast ttl :: u64) = unat ttl"
    using unsigned_less [of ttl, where ?'a = nat] by (simp add: unsigned_ucast_eq take_bit_nat_eq_self)
  have b: "unat ts < 2 ^ 64" "unat ttl < 2 ^ 32"
    using unsigned_less [of ts, where ?'a = nat] unsigned_less [of ttl, where ?'a = nat] by simp_all
  have m: "unat (UINT64_MAX - ucast ttl) = 2 ^ 64 - 1 - unat ttl"
    using unat_sub [of "ucast ttl" UINT64_MAX] t b by (simp add: word_le_nat_alt)
  with assms t b show ?thesis
    by (simp add: saturating_expiry_def word_less_nat_alt unat_word_ariths)
qed

text \<open>a blob with a TTL is expired from the second \<open>timestamp + ttl\<close> on, computed without
  wrap-around and capped at the largest 64-bit value; one without never is; and expiry is never
  undone as time advances.\<close>

theorem is_blob_expired_exact:
  "is_blob_expired b now \<longleftrightarrow>
     bd_ttl b \<noteq> 0 \<and> min (2 ^ 64 - 1) (unat (bd_timestamp b) + unat (bd_ttl b)) \<le> unat now"
  using saturating_expiry_exact [of "bd_ttl b" "bd_timestamp b"]
  by (simp add: is_blob_expired_def word_le_nat_alt)

section \<open>Payloads\<close>

lemmas magic_defs =
  TOMBSTONE_MAGIC_def DELEGATION_MAGIC_def PUBKEY_MAGIC_def NAME_MAGIC_def BOMB_MAGIC_def

lemmas data_size_defs =
  TOMBSTONE_DATA_SIZE_def DELEGATION_PUBKEY_SIZE_def DELEGATION_DATA_SIZE_def PUBKEY_DATA_SIZE_def
  NAME_MIN_DATA_SIZE_def BOMB_MIN_DATA_SIZE_def

lemma take_4_nth: "4 \<le> length d \<Longrightarrow> take 4 d = [d ! 0, d ! 1, d ! 2, d ! 3]"
  by (auto simp: eval_nat_numeral Suc_le_length_iff)

lemma is_pubkey_blob_take: "is_pubkey_blob d \<longleftrightarrow> length d = 4164 \<and> take 4 d = PUBKEY_MAGIC"
  by (auto simp: is_pubkey_blob_def take_4_nth magic_defs data_size_defs)

lemma at_most_one_kind:
  "list_all2 (\<lambda>k m. k d \<longrightarrow> take 4 d = m) ks ms \<Longrightarrow> distinct ms \<Longrightarrow>
     length (filter (\<lambda>k. k d) ks) \<le> 1"
proof (induction ks ms rule: list_all2_induct)
  case (Cons k ks m ms)
  show ?case
  proof (cases "k d")
    case True
    then have "take 4 d \<notin> set ms" using Cons by auto
    with Cons.hyps(2) have "filter (\<lambda>k. k d) ks = []"
      by (induction ks ms rule: list_all2_induct) auto
    with True show ?thesis by simp
  qed (use Cons in simp)
qed simp

text \<open>the payload kinds exclude each other: data that one recogniser accepts is accepted by
  none of the others.\<close>

theorem payload_kinds_disjoint:
  "length (filter (\<lambda>kind. kind d)
     [is_tombstone, is_delegation, is_pubkey_blob, is_name, has_bomb_magic]) \<le> 1"
proof -
  have "is_tombstone d \<Longrightarrow> take 4 d = TOMBSTONE_MAGIC" "is_delegation d \<Longrightarrow> take 4 d = DELEGATION_MAGIC"
    "is_pubkey_blob d \<Longrightarrow> take 4 d = PUBKEY_MAGIC" "is_name d \<Longrightarrow> take 4 d = NAME_MAGIC"
    "has_bomb_magic d \<Longrightarrow> take 4 d = BOMB_MAGIC"
    by (simp_all add: is_tombstone_def is_delegation_def is_pubkey_blob_take is_name_def
        has_bomb_magic_def split: if_splits)
  then show ?thesis
    by (intro at_most_one_kind
        [of _ _ "[TOMBSTONE_MAGIC, DELEGATION_MAGIC, PUBKEY_MAGIC, NAME_MAGIC, BOMB_MAGIC]"])
      (simp_all add: magic_defs)
qed

lemma tombstone_round_trip:
  "length h = 32 \<Longrightarrow> is_tombstone (make_tombstone_data h) \<and>
     extract_tombstone_target (make_tombstone_data h) = h"
  by (simp add: is_tombstone_def make_tombstone_data_def extract_tombstone_target_def magic_defs
      data_size_defs)

lemma delegation_round_trip:
  "length pk = 2592 \<Longrightarrow> is_delegation (make_delegation_data pk) \<and>
     extract_delegate_pubkey (make_delegation_data pk) = pk"
  by (simp add: is_delegation_def make_delegation_data_def extract_delegate_pubkey_def magic_defs
      data_size_defs)

lemma make_tombstone_extract: "is_tombstone d \<Longrightarrow> make_tombstone_data (extract_tombstone_target d) = d"
  using append_take_drop_id [of 4 d]
  by (simp add: is_tombstone_def make_tombstone_data_def extract_tombstone_target_def data_size_defs)

subsection \<open>Name pointers\<close>

lemma is_name_iff:
  "is_name d \<longleftrightarrow> 38 \<le> length d \<and> take 4 d = NAME_MAGIC \<and>
     length d = 38 + be_nat (take 2 (drop 4 d))"
proof (cases "38 \<le> length d")
  case True
  have "be_nat (take 2 (drop 4 d)) < 65536"
    using be_nat_less [of "take 2 (drop 4 d)"] True by simp
  with True show ?thesis by (auto simp: is_name_def read_u16_be_eq data_size_defs)
qed (simp add: is_name_def data_size_defs)

lemma is_nameD:
  assumes "is_name d"
  obtains k where "k < 65536" and "be_nat (take 2 (drop 4 d)) = k" and "length d = 38 + k"
    and "take 4 d = NAME_MAGIC"
proof -
  from assms have d: "length d = 38 + be_nat (take 2 (drop 4 d))" "take 4 d = NAME_MAGIC"
      and l: "38 \<le> length d"
    by (meson is_name_iff)+
  from l have "length (take 2 (drop 4 d)) = 2" by simp
  then have "be_nat (take 2 (drop 4 d)) < 65536" using be_nat_less [of "take 2 (drop 4 d)"] by simp
  from that [OF this refl d] show ?thesis .
qed

lemma parse_name_payload_eq:
  assumes "is_name d" and "be_nat (take 2 (drop 4 d)) = k"
  shows "parse_name_payload d = Some (take k (drop 6 d), drop (6 + k) d)"
proof -
  have "k < 65536" "length d = 38 + k" using assms by (auto elim: is_nameD)
  then show ?thesis using assms by (simp add: parse_name_payload_def read_u16_be_eq)
qed

lemma parse_make_name:
  assumes "length n \<le> 65535" and "length t = 32"
  shows "parse_name_payload (NAME_MAGIC @ be_bytes 2 (length n) @ n @ t) = Some (n, t)"
proof -
  let ?d = "NAME_MAGIC @ be_bytes 2 (length n) @ n @ t"
  have "be_nat (take 2 (drop 4 ?d)) = length n" using assms by (simp add: magic_defs)
  moreover have "is_name ?d" using assms by (simp add: is_name_iff magic_defs)
  moreover have "drop (6 + length n) ((NAME_MAGIC @ be_bytes 2 (length n) @ n) @ t) = t"
    by (simp only: drop_append) (simp add: magic_defs)
  moreover have "take (length n) (drop 6 ?d) = n" by (simp add: magic_defs)
  ultimately show ?thesis using parse_name_payload_eq [of ?d "length n"] by simp
qed

lemma make_parse_name:
  assumes "parse_name_payload d = Some (n, t)"
  shows "d = NAME_MAGIC @ be_bytes 2 (length n) @ n @ t \<and> length n \<le> 65535 \<and> length t = 32"
proof -
  have nm: "is_name d" using assms by (auto simp: parse_name_payload_def split: if_splits)
  then obtain k where k: "k < 65536" "be_nat (take 2 (drop 4 d)) = k"
    and d: "length d = 38 + k" "take 4 d = NAME_MAGIC" by (rule is_nameD)
  have "n = take k (drop 6 d)" "t = drop (6 + k) d"
    using assms parse_name_payload_eq [OF nm k(2)] by simp_all
  moreover have "be_bytes 2 k = take 2 (drop 4 d)"
    using d(1) k(2) be_bytes_be_nat [of "take 2 (drop 4 d)" 2] by simp
  moreover have "d = take 4 d @ take 2 (drop 4 d) @ take k (drop 6 d) @ drop (6 + k) d"
    using append_take_drop_id [of 4 d] append_take_drop_id [of 2 "drop 4 d"]
      append_take_drop_id [of k "drop 6 d"] by (simp add: add.commute)
  ultimately show ?thesis using d k(1) by simp
qed

text \<open>name pointers parse to exactly what they were built from: parsing a built payload gives
  back name and target, and a payload that parses is the one built from the result, so the wire
  form of a name pointer is unique.\<close>

theorem name_payload_bijective:
  "parse_name_payload d = Some (n, t) \<longleftrightarrow> make_name_data n t = Inr d \<and> length t = 32"
proof -
  have "length n \<le> 65535 \<Longrightarrow> unat (of_nat (length n) :: u16) = length n" by simp
  then show ?thesis
    using make_parse_name [of d n t] parse_make_name [of n t]
    by (auto simp: make_name_data_def write_u16_be_eq split: if_splits)
qed

subsection \<open>Batched tombstones\<close>

lemma is_bomb_iff:
  "is_bomb d \<longleftrightarrow> 8 \<le> length d \<and> take 4 d = BOMB_MAGIC \<and>
     length d = 8 + 32 * be_nat (take 4 (drop 4 d))"
proof (cases "8 \<le> length d")
  case True
  have b: "be_nat (take 4 (drop 4 d)) < 2 ^ 32"
    using be_nat_less [of "take 4 (drop 4 d)"] True by simp
  have c: "(ucast (of_nat k :: u32) :: u64) = of_nat k" if "k < 2 ^ 32" for k
    using that by (simp add: word_unat_eq_iff unsigned_ucast_eq take_bit_eq_mod)
  have "unat (8 + of_nat k * 32 :: u64) = 8 + 32 * k" if "k < 2 ^ 32" for k
    using that unat_of_nat_u64 [of "8 + k * 32"] by simp
  with True b c show ?thesis
    by (auto simp: is_bomb_def read_u32_be_ptr_eq data_size_defs Let_def)
qed (simp add: is_bomb_def data_size_defs)

lemma extract_bomb_targets_eq:
  assumes "8 \<le> length d"
  shows "extract_bomb_targets d = records 32 (be_nat (take 4 (drop 4 d))) (drop 8 d)"
proof -
  have "be_nat (take 4 (drop 4 d)) < 2 ^ 32"
    using be_nat_less [of "take 4 (drop 4 d)"] assms by simp
  with assms show ?thesis
    by (simp add: extract_bomb_targets_def read_u32_be_ptr_eq add.commute records_def)
qed

lemma extract_make_bomb:
  assumes "length ts \<le> 4294967295" and "\<forall>t \<in> set ts. length t = 32"
  shows "make_bomb_data ts = Inr (BOMB_MAGIC @ be_bytes 4 (length ts) @ concat ts)"
    and "is_bomb (BOMB_MAGIC @ be_bytes 4 (length ts) @ concat ts)"
    and "extract_bomb_targets (BOMB_MAGIC @ be_bytes 4 (length ts) @ concat ts) = ts"
proof -
  let ?d = "BOMB_MAGIC @ be_bytes 4 (length ts) @ concat ts"
  have "length (concat ts) = 32 * length ts" using assms(2) by (induction ts) simp_all
  moreover have c: "be_nat (take 4 (drop 4 ?d)) = length ts" using assms(1) by (simp add: magic_defs)
  ultimately show "is_bomb ?d" unfolding is_bomb_iff by (simp add: magic_defs)
  have "drop 8 ?d = concat ts" by (simp add: magic_defs)
  then show "extract_bomb_targets ?d = ts"
    using extract_bomb_targets_eq [of ?d] c records_concat [OF assms(2), of "[]"]
    by (simp add: magic_defs)
  have "unat (of_nat (length ts) :: u32) = length ts" using assms(1) by simp
  then show "make_bomb_data ts = Inr ?d"
    using assms(1) by (simp only: make_bomb_data_def write_u32_be_eq) simp
qed

lemma make_extract_bomb:
  assumes "is_bomb d"
  shows "make_bomb_data (extract_bomb_targets d) = Inr d"
    and "\<forall>t \<in> set (extract_bomb_targets d). length t = 32"
    and "length (extract_bomb_targets d) \<le> 4294967295"
proof -
  define k where "k = be_nat (take 4 (drop 4 d))"
  have l: "8 \<le> length d" and d: "length d = 8 + 32 * k" "take 4 d = BOMB_MAGIC"
    using assms unfolding k_def by (meson is_bomb_iff)+
  have ex: "extract_bomb_targets d = records 32 k (drop 8 d)"
    using extract_bomb_targets_eq [OF l] by (simp only: k_def)
  show w: "\<forall>t \<in> set (extract_bomb_targets d). length t = 32"
    unfolding ex by (intro ballI records_width [of k 32 "drop 8 d"]) (simp_all add: d(1))
  have c: "concat (extract_bomb_targets d) = drop 8 d"
    unfolding ex using d(1) by (intro concat_records) simp
  have "be_bytes 4 k = take 4 (drop 4 d)"
    unfolding k_def using l by (intro be_bytes_be_nat) simp
  moreover have "d = take 4 d @ take 4 (drop 4 d) @ drop 8 d"
    using append_take_drop_id [of 4 d] append_take_drop_id [of 4 "drop 4 d"] by simp
  ultimately have s: "BOMB_MAGIC @ be_bytes 4 k @ drop 8 d = d" using d(2) by simp
  have "k < 256 ^ length (take 4 (drop 4 d))" unfolding k_def by (rule be_nat_less)
  then have "k < 2 ^ 32" using l by simp
  then show n: "length (extract_bomb_targets d) \<le> 4294967295" by (simp add: ex)
  show "make_bomb_data (extract_bomb_targets d) = Inr d"
    using extract_make_bomb(1) [OF n w] s c by (simp add: ex)
qed

text \<open>batched tombstones carry exactly their targets: a payload is well formed and lists the
  targets \<open>ts\<close> if and only if it is the one built from \<open>ts\<close>, 32-byte hashes all.\<close>

theorem bomb_payload_bijective:
  "is_bomb d \<and> extract_bomb_targets d = ts \<longleftrightarrow>
     make_bomb_data ts = Inr d \<and> list_all (\<lambda>t. length t = 32) ts"
proof
  assume "is_bomb d \<and> extract_bomb_targets d = ts"
  then show "make_bomb_data ts = Inr d \<and> list_all (\<lambda>t. length t = 32) ts"
    using make_extract_bomb [of d] by (auto simp: list_all_iff)
next
  assume r: "make_bomb_data ts = Inr d \<and> list_all (\<lambda>t. length t = 32) ts"
  then have "length ts \<le> 4294967295" "\<forall>t \<in> set ts. length t = 32"
    by (auto simp: make_bomb_data_def list_all_iff split: if_splits)
  with extract_make_bomb [of ts] r show "is_bomb d \<and> extract_bomb_targets d = ts" by simp
qed

section \<open>Message helpers\<close>

lemma extract_namespace_hash_encode:
  "length ns = 32 \<Longrightarrow> length h = 32 \<Longrightarrow>
     extract_namespace_hash (encode_namespace_hash ns h) = Inr (ns, h)"
  by (simp add: extract_namespace_hash_def encode_namespace_hash_def)

lemma encode_blob_ref_layout:
  "length ns = 32 \<Longrightarrow> length h = 32 \<Longrightarrow>
     encode_blob_ref ns h seq sz tomb =
       ns @ h @ be_bytes 8 (unat seq) @ be_bytes 4 (unat sz) @ [if tomb then 1 else 0] \<and>
     length (encode_blob_ref ns h seq sz tomb) = 77"
  by (simp add: encode_blob_ref_def wire_simps)

end
