(* ===== verification/Framing.thy ===== *)
theory Framing
  imports Endian Externals
begin

text \<open>
  \<open>db/crypto/aead.cpp\<close> and \<open>db/net/framing.cpp\<close>: the checked wrapper around the AEAD primitive,
  and the encrypted, length-prefixed frames of the transport with their counter nonces.  A thrown
  exception is a value of \<open>aead_error\<close> or \<open>frame_error\<close>; the associated data of a frame is empty.
\<close>

section \<open>The AEAD wrapper\<close>

datatype aead_error = Bad_Nonce_Size | Bad_Key_Size | Ad_Too_Long | Encryption_Failed

definition KEY_SIZE :: nat where "KEY_SIZE = 32"
definition NONCE_SIZE :: nat where "NONCE_SIZE = 12"
definition TAG_SIZE :: nat where "TAG_SIZE = 16"
definition MAX_AD_LENGTH :: nat where "MAX_AD_LENGTH = 65536"

lemmas aead_size_defs = KEY_SIZE_def NONCE_SIZE_def TAG_SIZE_def MAX_AD_LENGTH_def

definition AEAD_encrypt ::
    "'t externals \<Rightarrow> bytes \<Rightarrow> bytes \<Rightarrow> bytes \<Rightarrow> bytes \<Rightarrow> aead_error + bytes" where
  "AEAD_encrypt X plaintext ad nonce key =
     (if length nonce \<noteq> NONCE_SIZE then Inl Bad_Nonce_Size
      else if length key \<noteq> KEY_SIZE then Inl Bad_Key_Size
      else if length ad > MAX_AD_LENGTH then Inl Ad_Too_Long
      else (case sodium_encrypt X plaintext ad nonce key of
              None \<Rightarrow> Inl Encryption_Failed
            | Some ciphertext \<Rightarrow> Inr ciphertext))"

definition AEAD_decrypt ::
    "'t externals \<Rightarrow> bytes \<Rightarrow> bytes \<Rightarrow> bytes \<Rightarrow> bytes \<Rightarrow> aead_error + bytes option" where
  "AEAD_decrypt X ciphertext ad nonce key =
     (if length nonce \<noteq> NONCE_SIZE then Inl Bad_Nonce_Size
      else if length key \<noteq> KEY_SIZE then Inl Bad_Key_Size
      else if length ad > MAX_AD_LENGTH then Inl Ad_Too_Long
      else if length ciphertext < TAG_SIZE then Inr None
      else Inr (sodium_decrypt X ciphertext ad nonce key))"

section \<open>Frames\<close>

datatype frame_error = Aead_Error aead_error | Short_Header | Frame_Too_Large | Short_Frame

definition MAX_FRAME_SIZE :: nat where "MAX_FRAME_SIZE = 2 * 1024 * 1024"
definition FRAME_HEADER_SIZE :: nat where "FRAME_HEADER_SIZE = 4"

definition make_nonce :: "u64 \<Rightarrow> bytes" where
  "make_nonce counter = replicate 4 0 @ store_u64_be counter"

definition write_frame :: "'t externals \<Rightarrow> bytes \<Rightarrow> bytes \<Rightarrow> u64 \<Rightarrow> frame_error + bytes" where
  "write_frame X plaintext key counter =
     (let nonce = make_nonce counter in
      case AEAD_encrypt X plaintext [] nonce key of
        Inl e \<Rightarrow> Inl (Aead_Error e)
      | Inr ciphertext \<Rightarrow>
          let ct_len = of_nat (length ciphertext) :: u32 in
          Inr (store_u32_be ct_len @ ciphertext))"

text \<open>The result is the plaintext and the number of bytes consumed; \<open>None\<close> is a failed
  authentication.\<close>

definition read_frame ::
    "'t externals \<Rightarrow> bytes \<Rightarrow> bytes \<Rightarrow> u64 \<Rightarrow> frame_error + (bytes \<times> nat) option" where
  "read_frame X buffer key counter =
     (if length buffer < FRAME_HEADER_SIZE then Inl Short_Header
      else let ct_len = read_u32_be_ptr buffer in
        if unat ct_len > MAX_FRAME_SIZE then Inl Frame_Too_Large
        else if length buffer < FRAME_HEADER_SIZE + unat ct_len then Inl Short_Frame
        else let ciphertext = take (unat ct_len) (drop FRAME_HEADER_SIZE buffer);
                 nonce = make_nonce counter in
          case AEAD_decrypt X ciphertext [] nonce key of
            Inl e \<Rightarrow> Inl (Aead_Error e)
          | Inr None \<Rightarrow> Inr None
          | Inr (Some plaintext) \<Rightarrow> Inr (Some (plaintext, FRAME_HEADER_SIZE + unat ct_len)))"

lemmas frame_size_defs = MAX_FRAME_SIZE_def FRAME_HEADER_SIZE_def

section \<open>Nonces and round trips\<close>

lemma length_make_nonce [simp]: "length (make_nonce c) = 12"
  by (simp add: make_nonce_def store_u64_be_eq)

text \<open>no two messages of a direction share a nonce: different counters give different 12-byte
  nonces.\<close>

theorem make_nonce_inject: "make_nonce a = make_nonce b \<longleftrightarrow> a = b"
  by (simp add: make_nonce_def store_u64_be_eq be_bytes_u64_inject)

context externals
begin

lemma AEAD_encrypt_ok:
  assumes "length n = 12" "length k = 32" "length ad \<le> 65536" "length p < 2 ^ 38 - 64"
  obtains c where "AEAD_encrypt X p ad n k = Inr c" and "length c = length p + 16"
    and "AEAD_decrypt X c ad n k = Inr (Some p)"
proof -
  obtain c where c: "sodium_encrypt X p ad n k = Some c"
    using aead.encrypt_total [OF assms(4), of ad n k] by blast
  from aead.length_encrypt [OF c] aead.decrypt_encrypt [OF assms(1,2) c] show ?thesis
    using assms(1-3)
    by (intro that [of c]) (simp_all add: AEAD_encrypt_def AEAD_decrypt_def c aead_size_defs)
qed

lemma read_write_frame:
  assumes k: "length k = 32" and p: "length p + 16 < 2 ^ 32"
  shows "\<exists>f. write_frame X p k c = Inr f \<and> length f = length p + 20 \<and>
    read_frame X (f @ rest) k c =
      (if length p + 16 \<le> 2097152 then Inr (Some (p, length p + 20)) else Inl Frame_Too_Large)"
proof -
  obtain ct where ct: "AEAD_encrypt X p [] (make_nonce c) k = Inr ct" "length ct = length p + 16"
      "AEAD_decrypt X ct [] (make_nonce c) k = Inr (Some p)"
    by (rule AEAD_encrypt_ok [of "make_nonce c" k "[]" p]) (use k p in simp_all)
  define v where "v = (of_nat (length ct) :: u32)"
  have v: "unat v = length p + 16" unfolding v_def ct(2) unat_of_nat_u32 using p by simp
  have w: "write_frame X p k c = Inr (be_bytes 4 (unat v) @ ct)"
    by (simp add: write_frame_def ct(1) store_u32_be_eq v_def Let_def)
  have "read_frame X ((be_bytes 4 (unat v) @ ct) @ rest) k c =
      (if length p + 16 \<le> 2097152 then Inr (Some (p, length p + 20)) else Inl Frame_Too_Large)"
    using ct(2,3) by (simp add: read_frame_def Let_def frame_size_defs) (simp add: v frame_size_defs)
  with w ct(2) show ?thesis by simp
qed

end

text \<open>a frame read with the key and counter it was written with gives back the plaintext and
  consumes exactly the frame, whatever follows in the buffer; a plaintext too long for the frame
  limit is rejected by the reader with the size error, never silently truncated.\<close>

theorem frame_round_trip:
  assumes "externals X" and "length k = 32" and "length p + 16 < 2 ^ 32"
  shows "\<exists>f. write_frame X p k c = Inr f \<and> length f = length p + 20 \<and>
    read_frame X (f @ rest) k c =
      (if length p + 16 \<le> MAX_FRAME_SIZE then Inr (Some (p, length f)) else Inl Frame_Too_Large)"
  using externals.read_write_frame [OF assms, of c rest] by (auto simp: frame_size_defs)

theorem frame_round_trip_witness:
  "\<exists>f. write_frame ref_externals [1, 2, 3] (replicate 32 0) 7 = Inr f \<and> length f = 23 \<and>
    read_frame ref_externals (f @ [9]) (replicate 32 0) 7 = Inr (Some ([1, 2, 3], 23))"
  using frame_round_trip [OF ref.externals_axioms, of "replicate 32 0" "[1, 2, 3]" 7 "[9]"]
  by (auto simp: frame_size_defs)

end
