(* ===== verification/Storage.thy ===== *)
theory Storage
  imports Codec Framing
begin

text \<open>
  \<open>db/storage/storage.cpp\<close>, first part: the eight sub-databases, the keys and values stored in
  them, encryption at rest, sequence numbers, and \<open>store_blob\<close> with its duplicate, capacity and
  quota checks.

  The state is a record of mdbx tables; a transaction is a function from the old state to the new
  one, and an aborted or failed transaction returns the old state.  What an operation draws from
  its surroundings is the record \<open>io\<close>: the clock, the size of the memory map, the random nonces,
  and whether the call that opens a read transaction or commits a write transaction throws.
  Exceptions raised inside an operation end in the handler of its \<open>try\<close> block.  Logging is left
  out.
\<close>

section \<open>State\<close>

record 't storage =
  blobs_map :: 't
  seq_map :: 't
  expiry_map :: 't
  delegation_map :: 't
  tombstone_map :: 't
  cursor_map :: 't
  quota_map :: 't
  owner_pubkeys_map :: 't
  blob_key :: bytes

record io =
  io_now :: u64
  io_used_bytes :: u64
  io_nonce :: "nat \<Rightarrow> bytes"
  io_read_fault :: bool
  io_commit_fault :: bool

datatype store_status = Stored | Duplicate | Capacity_Exceeded | Quota_Exceeded | Store_Error

record store_result =
  sr_status :: store_status
  sr_seq_num :: u64
  sr_blob_hash :: bytes

record sync_cursor =
  sc_seq_num :: u64
  sc_round_count :: u32
  sc_last_sync_timestamp :: u64

record namespace_quota =
  nq_total_bytes :: u64
  nq_blob_count :: u64

datatype storage_error =
  Value_Too_Short | Unknown_Version | Auth_Failed | Storage_Aead aead_error | Decode_Error codec_error
  | Unencrypted_Data

section \<open>Keys and values\<close>

definition make_blob_key :: "bytes \<Rightarrow> bytes \<Rightarrow> bytes" where
  "make_blob_key ns hash = ns @ hash"

definition make_seq_key :: "bytes \<Rightarrow> u64 \<Rightarrow> bytes" where
  "make_seq_key ns seq_num = ns @ store_u64_be seq_num"

definition make_expiry_key :: "u64 \<Rightarrow> bytes \<Rightarrow> bytes" where
  "make_expiry_key expiry_ts hash = store_u64_be expiry_ts @ hash"

definition make_cursor_key :: "bytes \<Rightarrow> bytes \<Rightarrow> bytes" where
  "make_cursor_key peer_hash ns = peer_hash @ ns"

definition CURSOR_VALUE_SIZE :: nat where "CURSOR_VALUE_SIZE = 20"
definition QUOTA_VALUE_SIZE :: nat where "QUOTA_VALUE_SIZE = 16"

definition encode_cursor_value :: "sync_cursor \<Rightarrow> bytes" where
  "encode_cursor_value c =
     store_u64_be (sc_seq_num c) @ store_u32_be (sc_round_count c) @
     store_u64_be (sc_last_sync_timestamp c)"

definition decode_cursor_value :: "bytes \<Rightarrow> sync_cursor" where
  "decode_cursor_value d =
     \<lparr>sc_seq_num = read_u64_be_ptr d, sc_round_count = read_u32_be_ptr (drop 8 d),
      sc_last_sync_timestamp = read_u64_be_ptr (drop 12 d)\<rparr>"

definition encode_quota_value :: "namespace_quota \<Rightarrow> bytes" where
  "encode_quota_value q = store_u64_be (nq_total_bytes q) @ store_u64_be (nq_blob_count q)"

definition decode_quota_value :: "bytes \<Rightarrow> namespace_quota" where
  "decode_quota_value d =
     \<lparr>nq_total_bytes = read_u64_be_ptr d, nq_blob_count = read_u64_be_ptr (drop 8 d)\<rparr>"

section \<open>Encryption at rest\<close>

definition ENCRYPTION_VERSION :: byte where "ENCRYPTION_VERSION = 0x01"
definition ENVELOPE_OVERHEAD :: nat where "ENVELOPE_OVERHEAD = 1 + NONCE_SIZE + TAG_SIZE"

definition encrypt_value ::
    "'t externals \<Rightarrow> 't storage \<Rightarrow> bytes \<Rightarrow> bytes \<Rightarrow> bytes \<Rightarrow> storage_error + bytes" where
  "encrypt_value X st nonce plaintext ad =
     (case AEAD_encrypt X plaintext ad nonce (blob_key st) of
        Inl e \<Rightarrow> Inl (Storage_Aead e)
      | Inr ciphertext \<Rightarrow> Inr (ENCRYPTION_VERSION # nonce @ ciphertext))"

definition decrypt_value ::
    "'t externals \<Rightarrow> 't storage \<Rightarrow> bytes \<Rightarrow> bytes \<Rightarrow> storage_error + bytes" where
  "decrypt_value X st encrypted ad =
     (if length encrypted < ENVELOPE_OVERHEAD then Inl Value_Too_Short
      else if encrypted ! 0 \<noteq> ENCRYPTION_VERSION then Inl Unknown_Version
      else let nonce = take NONCE_SIZE (drop 1 encrypted);
               ciphertext = drop (1 + NONCE_SIZE) encrypted in
        case AEAD_decrypt X ciphertext ad nonce (blob_key st) of
          Inl e \<Rightarrow> Inl (Storage_Aead e)
        | Inr None \<Rightarrow> Inl Auth_Failed
        | Inr (Some plaintext) \<Rightarrow> Inr plaintext)"

text \<open>Decryption followed by \<open>wire::decode_blob\<close>, as the read paths do it.\<close>

definition open_value ::
    "'t externals \<Rightarrow> 't storage \<Rightarrow> bytes \<Rightarrow> bytes \<Rightarrow> storage_error + blob_data" where
  "open_value X st encrypted ad =
     (case decrypt_value X st encrypted ad of
        Inl e \<Rightarrow> Inl e
      | Inr decrypted \<Rightarrow>
          (case decode_blob X decrypted of Inl e \<Rightarrow> Inl (Decode_Error e) | Inr b \<Rightarrow> Inr b))"

definition validate_no_unencrypted_data ::
    "'t externals \<Rightarrow> 't storage \<Rightarrow> storage_error + unit" where
  "validate_no_unencrypted_data X st =
     (if list_all (\<lambda>(k, v). v \<noteq> [] \<and> v ! 0 = ENCRYPTION_VERSION) (mdbx_entries X (blobs_map st))
      then Inr () else Inl Unencrypted_Data)"

section \<open>Sequence numbers\<close>

definition in_namespace :: "bytes \<Rightarrow> bytes \<Rightarrow> bool" where
  "in_namespace ns key \<longleftrightarrow> length key = 40 \<and> take 32 key = ns"

definition seq_of_key :: "bytes \<Rightarrow> u64" where
  "seq_of_key key = read_u64_be_ptr (drop 32 key)"

definition next_seq_num :: "'t externals \<Rightarrow> 't storage \<Rightarrow> bytes \<Rightarrow> u64" where
  "next_seq_num X st ns =
     (let upper_key = make_seq_key ns UINT64_MAX in
      case lower_bound X (seq_map st) upper_key of
        (key, _) # _ \<Rightarrow>
          if in_namespace ns key then seq_of_key key + 1
          else (case last_entry (before_bound X (seq_map st) upper_key) of
                  Some (prev, _) \<Rightarrow> if in_namespace ns prev then seq_of_key prev + 1 else 1
                | None \<Rightarrow> 1)
      | [] \<Rightarrow>
          (case last_entry (mdbx_entries X (seq_map st)) of
             Some (key, _) \<Rightarrow> if in_namespace ns key then seq_of_key key + 1 else 1
           | None \<Rightarrow> 1))"

text \<open>The scan for the first sequence entry of a namespace that carries a hash, from \<open>seq = 1\<close>
  on; the result is its key.\<close>

fun scan_seq :: "bytes \<Rightarrow> bytes \<Rightarrow> (bytes \<times> bytes) list \<Rightarrow> bytes option" where
  "scan_seq ns hash [] = None"
| "scan_seq ns hash ((k, v) # es) =
     (if \<not> in_namespace ns k then None
      else if length v = 36 \<and> take 32 v = hash then Some k
      else scan_seq ns hash es)"

definition find_seq_key :: "'t externals \<Rightarrow> 't storage \<Rightarrow> bytes \<Rightarrow> bytes \<Rightarrow> bytes option" where
  "find_seq_key X st ns hash = scan_seq ns hash (lower_bound X (seq_map st) (make_seq_key ns 1))"

section \<open>Quota aggregates\<close>

definition get_quota_value :: "'t externals \<Rightarrow> 't storage \<Rightarrow> bytes \<Rightarrow> namespace_quota option" where
  "get_quota_value X st ns =
     (case mdbx_get X (quota_map st) ns of
        Some v \<Rightarrow> if length v = QUOTA_VALUE_SIZE then Some (decode_quota_value v) else None
      | None \<Rightarrow> None)"

definition current_quota :: "'t externals \<Rightarrow> 't storage \<Rightarrow> bytes \<Rightarrow> namespace_quota" where
  "current_quota X st ns =
     (case get_quota_value X st ns of
        Some q \<Rightarrow> q | None \<Rightarrow> \<lparr>nq_total_bytes = 0, nq_blob_count = 0\<rparr>)"

definition add_quota :: "'t externals \<Rightarrow> 't storage \<Rightarrow> bytes \<Rightarrow> u64 \<Rightarrow> u64 \<Rightarrow> 't storage" where
  "add_quota X st ns bytes count =
     (let q = current_quota X st ns;
          q' = q\<lparr>nq_total_bytes := nq_total_bytes q + bytes, nq_blob_count := nq_blob_count q + count\<rparr> in
      st\<lparr>quota_map := mdbx_upsert X (quota_map st) ns (encode_quota_value q')\<rparr>)"

text \<open>The decrement of the delete and expiry paths, clamped at zero; an empty aggregate is
  removed, and a missing one is left alone.\<close>

definition sub_quota :: "'t externals \<Rightarrow> 't storage \<Rightarrow> bytes \<Rightarrow> u64 \<Rightarrow> 't storage" where
  "sub_quota X st ns encrypted_size =
     (case get_quota_value X st ns of
        None \<Rightarrow> st
      | Some q \<Rightarrow>
          let tb = (if nq_total_bytes q > encrypted_size then nq_total_bytes q - encrypted_size else 0);
              bc = (if nq_blob_count q > 0 then nq_blob_count q - 1 else 0) in
          if tb = 0 \<and> bc = 0
          then st\<lparr>quota_map := mdbx_erase X (quota_map st) ns\<rparr>
          else st\<lparr>quota_map := mdbx_upsert X (quota_map st) ns
                   (encode_quota_value \<lparr>nq_total_bytes = tb, nq_blob_count = bc\<rparr>)\<rparr>)"

section \<open>Storing a blob\<close>

definition existing_seq :: "'t externals \<Rightarrow> 't storage \<Rightarrow> bytes \<Rightarrow> bytes \<Rightarrow> u64" where
  "existing_seq X st ns hash =
     (case find_seq_key X st ns hash of None \<Rightarrow> 0 | Some k \<Rightarrow> seq_of_key k)"

text \<open>The capacity and quota checks; \<open>None\<close> is admission.  A limit of zero is no limit.\<close>

definition check_limits ::
    "'t externals \<Rightarrow> 't storage \<Rightarrow> io \<Rightarrow> bytes \<Rightarrow> blob_data \<Rightarrow> bytes \<Rightarrow> u64 \<Rightarrow> u64 \<Rightarrow> u64
      \<Rightarrow> store_status option" where
  "check_limits X st env ns blob encoded max_storage_bytes quota_byte_limit quota_count_limit =
     (if max_storage_bytes > 0 \<and> \<not> is_tombstone (bd_data blob) \<and>
         io_used_bytes env \<ge> max_storage_bytes
      then Some Capacity_Exceeded
      else if \<not> is_tombstone (bd_data blob) \<and> (quota_byte_limit > 0 \<or> quota_count_limit > 0) then
        let current = current_quota X st ns in
        if quota_byte_limit > 0 \<and>
           nq_total_bytes current + of_nat (length encoded) > quota_byte_limit
        then Some Quota_Exceeded
        else if quota_count_limit > 0 \<and> nq_blob_count current + 1 > quota_count_limit
        then Some Quota_Exceeded
        else None
      else None)"

text \<open>The index writes of one new blob, in the order of the code, without the quota update: blob,
  sequence entry, expiry entry, delegation entry, tombstone entry.\<close>

definition put_indexes ::
    "'t externals \<Rightarrow> 't storage \<Rightarrow> bytes \<Rightarrow> blob_data \<Rightarrow> bytes \<Rightarrow> bytes \<Rightarrow> u64 \<times> 't storage" where
  "put_indexes X st ns blob hash encrypted =
     (let st1 = st\<lparr>blobs_map := mdbx_upsert X (blobs_map st) (make_blob_key ns hash) encrypted\<rparr>;
          seq = next_seq_num X st1 ns;
          st2 = st1\<lparr>seq_map := mdbx_upsert X (seq_map st1) (make_seq_key ns seq)
                      (hash @ extract_blob_type (bd_data blob))\<rparr>;
          st3 = (if bd_ttl blob > 0
                 then st2\<lparr>expiry_map := mdbx_upsert X (expiry_map st2)
                        (make_expiry_key (saturating_expiry (bd_timestamp blob) (bd_ttl blob)) hash) ns\<rparr>
                 else st2);
          st4 = (if is_delegation (bd_data blob)
                 then st3\<lparr>delegation_map := mdbx_upsert X (delegation_map st3)
                        (make_blob_key ns (sha3_256 X (extract_delegate_pubkey (bd_data blob)))) hash\<rparr>
                 else st3);
          st5 = (if is_tombstone (bd_data blob)
                 then st4\<lparr>tombstone_map := mdbx_upsert X (tombstone_map st4)
                        (make_blob_key ns (extract_tombstone_target (bd_data blob))) []\<rparr>
                 else st4)
      in (seq, st5))"

definition store_blob ::
    "'t externals \<Rightarrow> io \<Rightarrow> bytes \<Rightarrow> blob_data \<Rightarrow> bytes \<Rightarrow> bytes \<Rightarrow> u64 \<Rightarrow> u64 \<Rightarrow> u64
      \<Rightarrow> 't storage \<Rightarrow> store_result \<times> 't storage" where
  "store_blob X env target_namespace blob hash encoded max_storage_bytes quota_byte_limit
       quota_count_limit st =
     (let key = make_blob_key target_namespace hash in
      if mdbx_get X (blobs_map st) key \<noteq> None then
        (\<lparr>sr_status = Duplicate, sr_seq_num = existing_seq X st target_namespace hash,
          sr_blob_hash = hash\<rparr>, st)
      else
        (case check_limits X st env target_namespace blob encoded max_storage_bytes
                quota_byte_limit quota_count_limit of
           Some status \<Rightarrow> (\<lparr>sr_status = status, sr_seq_num = 0, sr_blob_hash = hash\<rparr>, st)
         | None \<Rightarrow>
             (case encrypt_value X st (io_nonce env 0) encoded key of
                Inl _ \<Rightarrow>
                  (\<lparr>sr_status = Store_Error, sr_seq_num = 0, sr_blob_hash = replicate 32 0\<rparr>, st)
              | Inr encrypted \<Rightarrow>
                  let (seq, st5) = put_indexes X st target_namespace blob hash encrypted;
                      st6 = (if \<not> is_tombstone (bd_data blob)
                             then add_quota X st5 target_namespace (of_nat (length encrypted)) 1
                             else st5) in
                  if io_commit_fault env
                  then (\<lparr>sr_status = Store_Error, sr_seq_num = 0, sr_blob_hash = replicate 32 0\<rparr>, st)
                  else (\<lparr>sr_status = Stored, sr_seq_num = seq, sr_blob_hash = hash\<rparr>, st6))))"

text \<open>The two shorter overloads: without limits, and computing encoding and hash themselves.\<close>

definition store_blob_precomputed ::
    "'t externals \<Rightarrow> io \<Rightarrow> bytes \<Rightarrow> blob_data \<Rightarrow> bytes \<Rightarrow> bytes \<Rightarrow> 't storage
      \<Rightarrow> store_result \<times> 't storage" where
  "store_blob_precomputed X env target_namespace blob hash encoded st =
     store_blob X env target_namespace blob hash encoded 0 0 0 st"

definition store_blob_plain ::
    "'t externals \<Rightarrow> io \<Rightarrow> bytes \<Rightarrow> blob_data \<Rightarrow> 't storage \<Rightarrow> store_result \<times> 't storage" where
  "store_blob_plain X env target_namespace blob st =
     (let encoded = encode_blob X blob; hash = blob_hash X encoded in
      store_blob_precomputed X env target_namespace blob hash encoded st)"

end
