(* ===== verification/Storage_Ops.thy ===== *)
theory Storage_Ops
  imports Storage
begin

text \<open>
  \<open>db/storage/storage.cpp\<close>, second part: reading blobs, walking a namespace by sequence number,
  listing namespaces, deleting, the delegation and owner-key indexes, and the expiry scan.  A
  cursor loop is a recursion over the entries the cursor visits; the loop of \<open>list_namespaces\<close>,
  which repositions its cursor by key, runs on fuel and is shown to need no more than one step per
  entry.
\<close>

section \<open>Reading\<close>

definition get_blob :: "'t externals \<Rightarrow> io \<Rightarrow> 't storage \<Rightarrow> bytes \<Rightarrow> bytes \<Rightarrow> blob_data option" where
  "get_blob X env st ns hash =
     (if io_read_fault env then None
      else let key = make_blob_key ns hash in
        case mdbx_get X (blobs_map st) key of
          None \<Rightarrow> None
        | Some val \<Rightarrow> (case open_value X st val key of Inl _ \<Rightarrow> None | Inr decoded \<Rightarrow> Some decoded))"

definition has_blob :: "'t externals \<Rightarrow> io \<Rightarrow> 't storage \<Rightarrow> bytes \<Rightarrow> bytes \<Rightarrow> bool" where
  "has_blob X env st ns hash \<longleftrightarrow>
     \<not> io_read_fault env \<and> mdbx_get X (blobs_map st) (make_blob_key ns hash) \<noteq> None"

fun blobs_loop ::
    "'t externals \<Rightarrow> 't storage \<Rightarrow> bytes \<Rightarrow> (bytes \<times> bytes) list \<Rightarrow> blob_data list" where
  "blobs_loop X st ns [] = []"
| "blobs_loop X st ns ((k, v) # es) =
     (if length k \<noteq> 40 then []
      else if take 32 k \<noteq> ns then []
      else if length v \<noteq> 36 then []
      else let key = make_blob_key ns (take 32 v) in
        case mdbx_get X (blobs_map st) key of
          None \<Rightarrow> blobs_loop X st ns es
        | Some val \<Rightarrow>
            (case open_value X st val key of
               Inl _ \<Rightarrow> []
             | Inr blob \<Rightarrow> blob # blobs_loop X st ns es))"

definition get_blobs_by_seq :: "'t externals \<Rightarrow> io \<Rightarrow> 't storage \<Rightarrow> bytes \<Rightarrow> u64 \<Rightarrow> blob_data list" where
  "get_blobs_by_seq X env st ns since_seq =
     (if io_read_fault env then []
      else blobs_loop X st ns (lower_bound X (seq_map st) (make_seq_key ns (since_seq + 1))))"

record blob_ref =
  br_blob_hash :: bytes
  br_seq_num :: u64
  br_blob_type :: bytes
  br_data_size :: u64
  br_timestamp :: u64
  br_ttl :: u32

definition zero_hash :: bytes where "zero_hash = replicate 32 0"

fun refs_loop :: "bytes \<Rightarrow> nat \<Rightarrow> blob_ref list \<Rightarrow> (bytes \<times> bytes) list \<Rightarrow> blob_ref list" where
  "refs_loop ns max_count acc [] = acc"
| "refs_loop ns max_count acc ((k, v) # es) =
     (if length k \<noteq> 40 then acc
      else if take 32 k \<noteq> ns then acc
      else if length v \<noteq> 36 then acc
      else if take 32 v \<noteq> zero_hash then
        let acc' = acc @ [\<lparr>br_blob_hash = take 32 v, br_seq_num = seq_of_key k,
                           br_blob_type = take 4 (drop 32 v), br_data_size = 0, br_timestamp = 0,
                           br_ttl = 0\<rparr>] in
        if max_count > 0 \<and> length acc' \<ge> max_count then acc' else refs_loop ns max_count acc' es
      else refs_loop ns max_count acc es)"

definition get_blob_refs_since ::
    "'t externals \<Rightarrow> io \<Rightarrow> 't storage \<Rightarrow> bytes \<Rightarrow> u64 \<Rightarrow> u32 \<Rightarrow> blob_ref list" where
  "get_blob_refs_since X env st ns since_seq max_count =
     (if io_read_fault env then []
      else refs_loop ns (unat max_count) []
             (lower_bound X (seq_map st) (make_seq_key ns (since_seq + 1))))"

fun hashes_loop :: "bytes \<Rightarrow> (bytes \<times> bytes) list \<Rightarrow> bytes list" where
  "hashes_loop ns [] = []"
| "hashes_loop ns ((k, v) # es) =
     (if length k \<noteq> 40 then []
      else if take 32 k \<noteq> ns then []
      else if length v = 36 \<and> take 32 v \<noteq> zero_hash then take 32 v # hashes_loop ns es
      else hashes_loop ns es)"

definition get_hashes_by_namespace ::
    "'t externals \<Rightarrow> io \<Rightarrow> 't storage \<Rightarrow> bytes \<Rightarrow> bytes list" where
  "get_hashes_by_namespace X env st ns =
     (if io_read_fault env then []
      else hashes_loop ns (lower_bound X (seq_map st) (make_seq_key ns 1)))"

section \<open>Listing namespaces\<close>

record namespace_info =
  ni_namespace_id :: bytes
  ni_latest_seq_num :: u64

text \<open>The increment of the 32-byte namespace, last byte first; \<open>None\<close> when the carry runs off the
  front.\<close>

fun increment_rev :: "bytes \<Rightarrow> bytes option" where
  "increment_rev [] = None"
| "increment_rev (b # bs) =
     (if b < 0xFF then Some ((b + 1) # bs) else map_option (\<lambda>r. 0 # r) (increment_rev bs))"

definition next_namespace :: "bytes \<Rightarrow> bytes option" where
  "next_namespace ns = map_option rev (increment_rev (rev ns))"

definition latest_seq :: "'t externals \<Rightarrow> 't storage \<Rightarrow> bytes \<Rightarrow> u64" where
  "latest_seq X st ns =
     (let upper_key = make_seq_key ns UINT64_MAX in
      case lower_bound X (seq_map st) upper_key of
        (k, _) # _ \<Rightarrow>
          if in_namespace ns k then seq_of_key k
          else (case last_entry (before_bound X (seq_map st) upper_key) of
                  Some (pk, _) \<Rightarrow> if in_namespace ns pk then seq_of_key pk else 0
                | None \<Rightarrow> 0)
      | [] \<Rightarrow>
          (case last_entry (mdbx_entries X (seq_map st)) of
             Some (lk, _) \<Rightarrow> if in_namespace ns lk then seq_of_key lk else 0
           | None \<Rightarrow> 0))"

fun namespaces_loop ::
    "'t externals \<Rightarrow> 't storage \<Rightarrow> nat \<Rightarrow> (bytes \<times> bytes) list \<Rightarrow> namespace_info list option" where
  "namespaces_loop X st n [] = Some []"
| "namespaces_loop X st 0 (e # es) = None"
| "namespaces_loop X st (Suc n) (e # es) =
     (if length (fst e) \<noteq> 40 then Some []
      else let ns = take 32 (fst e);
               info = \<lparr>ni_namespace_id = ns, ni_latest_seq_num = latest_seq X st ns\<rparr> in
        case next_namespace ns of
          None \<Rightarrow> Some [info]
        | Some next_ns \<Rightarrow>
            map_option (\<lambda>r. info # r)
              (namespaces_loop X st n (lower_bound X (seq_map st) (make_seq_key next_ns 0))))"

definition list_namespaces :: "'t externals \<Rightarrow> io \<Rightarrow> 't storage \<Rightarrow> namespace_info list option" where
  "list_namespaces X env st =
     (if io_read_fault env then Some []
      else namespaces_loop X st (length (mdbx_entries X (seq_map st))) (mdbx_entries X (seq_map st)))"

section \<open>Deleting\<close>

definition clear_seq :: "'t externals \<Rightarrow> 't storage \<Rightarrow> bytes \<Rightarrow> bytes \<Rightarrow> 't storage" where
  "clear_seq X st ns hash =
     (case find_seq_key X st ns hash of
        None \<Rightarrow> st
      | Some k \<Rightarrow> st\<lparr>seq_map := mdbx_upsert X (seq_map st) k (replicate 36 0)\<rparr>)"

definition drop_indexes ::
    "'t externals \<Rightarrow> 't storage \<Rightarrow> bytes \<Rightarrow> bytes \<Rightarrow> blob_data \<Rightarrow> 't storage" where
  "drop_indexes X st ns hash blob =
     (let st1 = (if bd_ttl blob > 0
                 then st\<lparr>expiry_map := mdbx_erase X (expiry_map st)
                        (make_expiry_key (saturating_expiry (bd_timestamp blob) (bd_ttl blob)) hash)\<rparr>
                 else st);
          st2 = (if is_delegation (bd_data blob)
                 then st1\<lparr>delegation_map := mdbx_erase X (delegation_map st1)
                        (make_blob_key ns (sha3_256 X (extract_delegate_pubkey (bd_data blob))))\<rparr>
                 else st1)
      in if is_tombstone (bd_data blob)
         then st2\<lparr>tombstone_map := mdbx_erase X (tombstone_map st2)
                (make_blob_key ns (extract_tombstone_target (bd_data blob)))\<rparr>
         else st2)"

definition delete_blob_data ::
    "'t externals \<Rightarrow> io \<Rightarrow> bytes \<Rightarrow> bytes \<Rightarrow> 't storage \<Rightarrow> bool \<times> 't storage" where
  "delete_blob_data X env ns hash st =
     (let key = make_blob_key ns hash in
      case mdbx_get X (blobs_map st) key of
        None \<Rightarrow> (False, st)
      | Some existing \<Rightarrow>
          (case open_value X st existing key of
             Inl _ \<Rightarrow> (False, st)
           | Inr blob \<Rightarrow>
               let st1 = st\<lparr>blobs_map := mdbx_erase X (blobs_map st) key\<rparr>;
                   st2 = sub_quota X st1 ns (of_nat (length existing));
                   st3 = clear_seq X st2 ns hash;
                   st4 = drop_indexes X st3 ns hash blob in
               if io_commit_fault env then (False, st) else (True, st4)))"

section \<open>Tombstones, delegations, owner keys\<close>

definition has_valid_delegation :: "'t externals \<Rightarrow> io \<Rightarrow> 't storage \<Rightarrow> bytes \<Rightarrow> bytes \<Rightarrow> bool" where
  "has_valid_delegation X env st ns delegate_pubkey \<longleftrightarrow>
     \<not> io_read_fault env \<and>
     mdbx_get X (delegation_map st) (make_blob_key ns (sha3_256 X delegate_pubkey)) \<noteq> None"

definition has_tombstone_for :: "'t externals \<Rightarrow> io \<Rightarrow> 't storage \<Rightarrow> bytes \<Rightarrow> bytes \<Rightarrow> bool" where
  "has_tombstone_for X env st ns target_blob_hash \<longleftrightarrow>
     \<not> io_read_fault env \<and> mdbx_get X (tombstone_map st) (make_blob_key ns target_blob_hash) \<noteq> None"

definition count_tombstones :: "'t externals \<Rightarrow> io \<Rightarrow> 't storage \<Rightarrow> nat" where
  "count_tombstones X env st =
     (if io_read_fault env then 0 else length (mdbx_entries X (tombstone_map st)))"

definition count_delegations :: "'t externals \<Rightarrow> io \<Rightarrow> 't storage \<Rightarrow> bytes \<Rightarrow> nat" where
  "count_delegations X env st ns =
     (if io_read_fault env then 0
      else length (takeWhile (\<lambda>(k, v). \<not> length k < 32 \<and> take 32 k = ns)
                     (lower_bound X (delegation_map st) (ns @ replicate 32 0))))"

record delegation_entry =
  de_delegate_pk_hash :: bytes
  de_delegation_blob_hash :: bytes

definition list_delegations :: "'t externals \<Rightarrow> io \<Rightarrow> 't storage \<Rightarrow> bytes \<Rightarrow> delegation_entry list" where
  "list_delegations X env st ns =
     (if io_read_fault env then []
      else map (\<lambda>(k, v). \<lparr>de_delegate_pk_hash = take 32 (drop 32 k),
                          de_delegation_blob_hash =
                            (if length v \<ge> 32 then take 32 v else replicate 32 0)\<rparr>)
             (takeWhile (\<lambda>(k, v). \<not> length k < 64 \<and> take 32 k = ns)
                (lower_bound X (delegation_map st) (ns @ replicate 32 0))))"

definition get_delegate_pubkey_by_hint ::
    "'t externals \<Rightarrow> io \<Rightarrow> 't storage \<Rightarrow> bytes \<Rightarrow> bytes \<Rightarrow> bytes option" where
  "get_delegate_pubkey_by_hint X env st ns signer_hint =
     (if io_read_fault env then None
      else case mdbx_get X (delegation_map st) (make_blob_key ns signer_hint) of
        None \<Rightarrow> None
      | Some val \<Rightarrow>
          if length val \<noteq> 32 then None
          else (case get_blob X env st ns val of
                  None \<Rightarrow> None
                | Some blob \<Rightarrow>
                    if \<not> is_delegation (bd_data blob) then None
                    else let extracted = extract_delegate_pubkey (bd_data blob) in
                      if length extracted \<noteq> 2592 then None else Some extracted))"

datatype owner_error = Pubkey_Mismatch | Commit_Failed

definition register_owner_pubkey ::
    "'t externals \<Rightarrow> io \<Rightarrow> bytes \<Rightarrow> bytes \<Rightarrow> 't storage \<Rightarrow> (owner_error + unit) \<times> 't storage" where
  "register_owner_pubkey X env signer_hint pubkey st =
     (case mdbx_get X (owner_pubkeys_map st) signer_hint of
        Some existing \<Rightarrow>
          if length existing = 2592 \<and> existing = pubkey then (Inr (), st)
          else (Inl Pubkey_Mismatch, st)
      | None \<Rightarrow>
          if io_commit_fault env then (Inl Commit_Failed, st)
          else (Inr (), st\<lparr>owner_pubkeys_map :=
                  mdbx_upsert X (owner_pubkeys_map st) signer_hint pubkey\<rparr>))"

definition get_owner_pubkey :: "'t externals \<Rightarrow> io \<Rightarrow> 't storage \<Rightarrow> bytes \<Rightarrow> bytes option" where
  "get_owner_pubkey X env st signer_hint =
     (if io_read_fault env then None
      else case mdbx_get X (owner_pubkeys_map st) signer_hint of
        None \<Rightarrow> None
      | Some val \<Rightarrow> if length val \<noteq> 2592 then None else Some val)"

definition has_owner_pubkey :: "'t externals \<Rightarrow> io \<Rightarrow> 't storage \<Rightarrow> bytes \<Rightarrow> bool" where
  "has_owner_pubkey X env st signer_hint \<longleftrightarrow>
     \<not> io_read_fault env \<and> mdbx_get X (owner_pubkeys_map st) signer_hint \<noteq> None"

definition count_owner_pubkeys :: "'t externals \<Rightarrow> io \<Rightarrow> 't storage \<Rightarrow> nat" where
  "count_owner_pubkeys X env st =
     (if io_read_fault env then 0 else length (mdbx_entries X (owner_pubkeys_map st)))"

section \<open>Expiry\<close>

text \<open>One step of the scan deletes the blob an expiry entry points at, with its tombstone entry and
  its share of the quota; \<open>Inl\<close> is an exception, which aborts the whole scan.\<close>

definition purge_blob ::
    "'t externals \<Rightarrow> 't storage \<Rightarrow> bytes \<Rightarrow> bytes \<Rightarrow> storage_error + 't storage" where
  "purge_blob X st ns hash =
     (let key = make_blob_key ns hash in
      case mdbx_get X (blobs_map st) key of
        None \<Rightarrow> Inr st
      | Some raw \<Rightarrow>
          (case open_value X st raw key of
             Inl e \<Rightarrow> Inl e
           | Inr decoded \<Rightarrow>
               let tomb = is_tombstone (bd_data decoded);
                   st1 = (if tomb
                          then st\<lparr>tombstone_map := mdbx_erase X (tombstone_map st)
                                 (make_blob_key ns (extract_tombstone_target (bd_data decoded)))\<rparr>
                          else st);
                   st2 = st1\<lparr>blobs_map := mdbx_erase X (blobs_map st1) key\<rparr> in
               Inr (if \<not> tomb then sub_quota X st2 ns (of_nat (length raw)) else st2)))"

fun expiry_loop ::
    "'t externals \<Rightarrow> u64 \<Rightarrow> (bytes \<times> bytes) list \<Rightarrow> nat \<times> 't storage
      \<Rightarrow> nat \<times> (storage_error + 't storage)" where
  "expiry_loop X now [] (purged, st) = (purged, Inr st)"
| "expiry_loop X now ((k, v) # es) (purged, st) =
     (if length k \<noteq> 40 then (purged, Inr st)
      else if read_u64_be_ptr k > now then (purged, Inr st)
      else case purge_blob X st v (drop 8 k) of
        Inl e \<Rightarrow> (purged, Inl e)
      | Inr st1 \<Rightarrow>
          expiry_loop X now es
            (Suc purged, st1\<lparr>expiry_map := mdbx_erase X (expiry_map st1) k\<rparr>))"

definition run_expiry_scan :: "'t externals \<Rightarrow> io \<Rightarrow> 't storage \<Rightarrow> nat \<times> 't storage" where
  "run_expiry_scan X env st =
     (case expiry_loop X (io_now env) (mdbx_entries X (expiry_map st)) (0, st) of
        (purged, Inl _) \<Rightarrow> (purged, st)
      | (purged, Inr st') \<Rightarrow> (purged, if io_commit_fault env then st else st'))"

definition get_earliest_expiry :: "'t externals \<Rightarrow> io \<Rightarrow> 't storage \<Rightarrow> u64 option" where
  "get_earliest_expiry X env st =
     (if io_read_fault env then None
      else case mdbx_entries X (expiry_map st) of
        [] \<Rightarrow> None
      | (k, v) # _ \<Rightarrow> if length k < 8 then None else Some (read_u64_be_ptr k))"

end
