(* ===== verification/Storage_Admin.thy ===== *)
theory Storage_Admin
  imports Storage_Ops
begin

text \<open>
  \<open>db/storage/storage.cpp\<close>, third part: sync cursors, the rebuild of the quota aggregates at
  startup, opening a database, and the atomic storage of several blobs.  A \<open>std::map\<close> keyed by
  namespace is a key-sorted association list, which is the order in which the code iterates it.
\<close>

section \<open>Sync cursors\<close>

definition get_sync_cursor ::
    "'t externals \<Rightarrow> io \<Rightarrow> 't storage \<Rightarrow> bytes \<Rightarrow> bytes \<Rightarrow> sync_cursor option" where
  "get_sync_cursor X env st peer_hash ns =
     (if io_read_fault env then None
      else case mdbx_get X (cursor_map st) (make_cursor_key peer_hash ns) of
        None \<Rightarrow> None
      | Some val \<Rightarrow>
          if length val \<noteq> CURSOR_VALUE_SIZE then None else Some (decode_cursor_value val))"

definition set_sync_cursor ::
    "'t externals \<Rightarrow> io \<Rightarrow> bytes \<Rightarrow> bytes \<Rightarrow> sync_cursor \<Rightarrow> 't storage \<Rightarrow> 't storage" where
  "set_sync_cursor X env peer_hash ns c st =
     (if io_commit_fault env then st
      else st\<lparr>cursor_map := mdbx_upsert X (cursor_map st) (make_cursor_key peer_hash ns)
                (encode_cursor_value c)\<rparr>)"

definition delete_sync_cursor ::
    "'t externals \<Rightarrow> io \<Rightarrow> bytes \<Rightarrow> bytes \<Rightarrow> 't storage \<Rightarrow> 't storage" where
  "delete_sync_cursor X env peer_hash ns st =
     (if io_commit_fault env then st
      else st\<lparr>cursor_map := mdbx_erase X (cursor_map st) (make_cursor_key peer_hash ns)\<rparr>)"

definition peer_cursor_keys :: "'t externals \<Rightarrow> 't storage \<Rightarrow> bytes \<Rightarrow> bytes list" where
  "peer_cursor_keys X st peer_hash =
     map fst (takeWhile (\<lambda>(k, v). length k = 64 \<and> take 32 k = peer_hash)
       (lower_bound X (cursor_map st) (make_cursor_key peer_hash (replicate 32 0))))"

definition delete_peer_cursors ::
    "'t externals \<Rightarrow> io \<Rightarrow> bytes \<Rightarrow> 't storage \<Rightarrow> nat \<times> 't storage" where
  "delete_peer_cursors X env peer_hash st =
     (if io_read_fault env then (0, st)
      else let keys_to_delete = peer_cursor_keys X st peer_hash;
               st' = st\<lparr>cursor_map := foldl (mdbx_erase X) (cursor_map st) keys_to_delete\<rparr> in
        (length keys_to_delete, if io_commit_fault env then st else st'))"

text \<open>The loop updates the value under the cursor, which leaves the keys it visits unchanged.\<close>

fun reset_loop :: "'t externals \<Rightarrow> (bytes \<times> bytes) list \<Rightarrow> nat \<times> 't \<Rightarrow> nat \<times> 't" where
  "reset_loop X [] (count, t) = (count, t)"
| "reset_loop X ((k, v) # es) (count, t) =
     (if length v = CURSOR_VALUE_SIZE
      then reset_loop X es
        (Suc count, mdbx_upsert X t k
           (encode_cursor_value ((decode_cursor_value v)\<lparr>sc_round_count := 0\<rparr>)))
      else reset_loop X es (count, t))"

definition reset_all_round_counters :: "'t externals \<Rightarrow> io \<Rightarrow> 't storage \<Rightarrow> nat \<times> 't storage" where
  "reset_all_round_counters X env st =
     (let (count, t) = reset_loop X (mdbx_entries X (cursor_map st)) (0, cursor_map st) in
      (count, if io_commit_fault env then st else st\<lparr>cursor_map := t\<rparr>))"

fun peers_loop :: "bytes option \<Rightarrow> (bytes \<times> bytes) list \<Rightarrow> bytes list" where
  "peers_loop last_peer [] = []"
| "peers_loop last_peer ((k, v) # es) =
     (if length k \<noteq> 64 then []
      else let peer = take 32 k in
        if last_peer \<noteq> Some peer then peer # peers_loop (Some peer) es
        else peers_loop last_peer es)"

definition list_cursor_peers :: "'t externals \<Rightarrow> io \<Rightarrow> 't storage \<Rightarrow> bytes list" where
  "list_cursor_peers X env st =
     (if io_read_fault env then [] else peers_loop None (mdbx_entries X (cursor_map st)))"

fun cleanup_loop ::
    "'t externals \<Rightarrow> io \<Rightarrow> bytes list \<Rightarrow> bytes list \<Rightarrow> nat \<times> 't storage \<Rightarrow> nat \<times> 't storage" where
  "cleanup_loop X env known [] (n, st) = (n, st)"
| "cleanup_loop X env known (peer # peers) (n, st) =
     (if peer \<notin> set known
      then let (deleted, st') = delete_peer_cursors X env peer st in
        cleanup_loop X env known peers (n + deleted, st')
      else cleanup_loop X env known peers (n, st))"

definition cleanup_stale_cursors ::
    "'t externals \<Rightarrow> io \<Rightarrow> bytes list \<Rightarrow> 't storage \<Rightarrow> nat \<times> 't storage" where
  "cleanup_stale_cursors X env known_peer_hashes st =
     cleanup_loop X env known_peer_hashes (list_cursor_peers X env st) (0, st)"

section \<open>Quota aggregates\<close>

definition get_namespace_quota :: "'t externals \<Rightarrow> io \<Rightarrow> 't storage \<Rightarrow> bytes \<Rightarrow> namespace_quota" where
  "get_namespace_quota X env st ns =
     (if io_read_fault env then \<lparr>nq_total_bytes = 0, nq_blob_count = 0\<rparr>
      else current_quota X st ns)"

text \<open>Clearing a table: erase the first entry and start over, once per entry.\<close>

fun clear_table :: "'t externals \<Rightarrow> nat \<Rightarrow> 't \<Rightarrow> 't option" where
  "clear_table X 0 t = (if mdbx_entries X t = [] then Some t else None)"
| "clear_table X (Suc n) t =
     (case mdbx_entries X t of [] \<Rightarrow> Some t | (k, v) # _ \<Rightarrow> clear_table X n (mdbx_erase X t k))"

type_synonym quota_totals = "(bytes \<times> (u64 \<times> u64)) list"

definition bump :: "bytes \<Rightarrow> u64 \<Rightarrow> quota_totals \<Rightarrow> quota_totals" where
  "bump ns bytes totals =
     (case map_of totals ns of
        None \<Rightarrow> alist_upsert totals ns (bytes, 1)
      | Some (b, c) \<Rightarrow> alist_upsert totals ns (b + bytes, c + 1))"

fun aggregate_loop :: "(bytes \<times> bytes) list \<Rightarrow> quota_totals \<Rightarrow> quota_totals" where
  "aggregate_loop [] totals = totals"
| "aggregate_loop ((k, v) # es) totals =
     aggregate_loop es
       (if length k = 64 \<and> length v > 0 then bump (take 32 k) (of_nat (length v)) totals else totals)"

definition rebuild_quota_aggregates ::
    "'t externals \<Rightarrow> io \<Rightarrow> 't storage \<Rightarrow> 't storage option" where
  "rebuild_quota_aggregates X env st =
     (case clear_table X (length (mdbx_entries X (quota_map st))) (quota_map st) of
        None \<Rightarrow> None
      | Some t0 \<Rightarrow>
          let aggregates = aggregate_loop (mdbx_entries X (blobs_map st)) [];
              t = foldl (\<lambda>t (ns_id, (b, c)).
                    mdbx_upsert X t ns_id
                      (encode_quota_value \<lparr>nq_total_bytes = b, nq_blob_count = c\<rparr>)) t0 aggregates in
          Some (if io_commit_fault env then st else st\<lparr>quota_map := t\<rparr>))"

text \<open>Opening a database whose tables and derived key are given: refuse unencrypted data, then
  rebuild the aggregates.\<close>

definition open_storage ::
    "'t externals \<Rightarrow> io \<Rightarrow> 't storage \<Rightarrow> (storage_error + 't storage) option" where
  "open_storage X env st =
     (case validate_no_unencrypted_data X st of
        Inl e \<Rightarrow> Some (Inl e)
      | Inr _ \<Rightarrow> map_option Inr (rebuild_quota_aggregates X env st))"

section \<open>Storing several blobs\<close>

record precomputed_blob =
  pb_target_namespace :: bytes
  pb_blob :: blob_data
  pb_content_hash :: bytes
  pb_encoded :: bytes

definition empty_result :: store_result where
  "empty_result = \<lparr>sr_status = Store_Error, sr_seq_num = 0, sr_blob_hash = replicate 32 0\<rparr>"

text \<open>First pass: which blobs are already stored.\<close>

definition dedup_result :: "'t externals \<Rightarrow> 't storage \<Rightarrow> precomputed_blob \<Rightarrow> store_result option" where
  "dedup_result X st pb =
     (if mdbx_get X (blobs_map st) (make_blob_key (pb_target_namespace pb) (pb_content_hash pb)) \<noteq> None
      then Some \<lparr>sr_status = Duplicate,
                 sr_seq_num = existing_seq X st (pb_target_namespace pb) (pb_content_hash pb),
                 sr_blob_hash = pb_content_hash pb\<rparr>
      else None)"

definition result_or_empty :: "store_result option \<Rightarrow> store_result" where
  "result_or_empty r = (case r of None \<Rightarrow> empty_result | Some x \<Rightarrow> x)"

definition set_status :: "store_status \<Rightarrow> store_result list \<Rightarrow> store_result list" where
  "set_status status rs = map (\<lambda>r. r\<lparr>sr_status := status\<rparr>) rs"

definition quota_additions :: "precomputed_blob list \<Rightarrow> quota_totals" where
  "quota_additions pbs =
     foldl (\<lambda>totals pb. bump (pb_target_namespace pb) (of_nat (length (pb_encoded pb))) totals) []
       (filter (\<lambda>pb. \<not> is_tombstone (bd_data (pb_blob pb))) pbs)"

definition batch_over_quota :: "'t externals \<Rightarrow> 't storage \<Rightarrow> u64 \<Rightarrow> u64 \<Rightarrow> quota_totals \<Rightarrow> bool" where
  "batch_over_quota X st quota_byte_limit quota_count_limit additions \<longleftrightarrow>
     list_ex (\<lambda>(ns_id, (b, c)).
         let current = current_quota X st ns_id in
         quota_byte_limit > 0 \<and> nq_total_bytes current + b > quota_byte_limit \<or>
         quota_count_limit > 0 \<and> nq_blob_count current + c > quota_count_limit) additions"

text \<open>Second pass over the new blobs, with the quota increments; the results list is complete also
  when an exception ends the pass, as the code's results vector is.\<close>

fun batch_loop ::
    "'t externals \<Rightarrow> io \<Rightarrow> nat \<Rightarrow> (precomputed_blob \<times> store_result option) list
      \<Rightarrow> quota_totals \<Rightarrow> 't storage
      \<Rightarrow> store_result list \<times> (storage_error + (quota_totals \<times> 't storage))" where
  "batch_loop X env i [] totals st = ([], Inr (totals, st))"
| "batch_loop X env i ((pb, Some dup) # rest) totals st =
     (let (rs, r) = batch_loop X env i rest totals st in (dup # rs, r))"
| "batch_loop X env i ((pb, None) # rest) totals st =
     (case encrypt_value X st (io_nonce env i) (pb_encoded pb)
             (make_blob_key (pb_target_namespace pb) (pb_content_hash pb)) of
        Inl e \<Rightarrow> (empty_result # map (\<lambda>(_, d). result_or_empty d) rest, Inl e)
      | Inr encrypted \<Rightarrow>
          let (seq, st') = put_indexes X st (pb_target_namespace pb) (pb_blob pb)
                             (pb_content_hash pb) encrypted;
              totals' = (if \<not> is_tombstone (bd_data (pb_blob pb))
                         then bump (pb_target_namespace pb) (of_nat (length encrypted)) totals
                         else totals);
              (rs, r) = batch_loop X env (Suc i) rest totals' st' in
          (\<lparr>sr_status = Stored, sr_seq_num = seq, sr_blob_hash = pb_content_hash pb\<rparr> # rs, r))"

definition store_blobs_atomic ::
    "'t externals \<Rightarrow> io \<Rightarrow> precomputed_blob list \<Rightarrow> u64 \<Rightarrow> u64 \<Rightarrow> u64 \<Rightarrow> 't storage
      \<Rightarrow> store_result list \<times> 't storage" where
  "store_blobs_atomic X env blobs max_storage_bytes quota_byte_limit quota_count_limit st =
     (let dups = map (dedup_result X st) blobs;
          results = map result_or_empty dups;
          fresh = map fst (filter (\<lambda>(pb, d). d = None) (zip blobs dups)) in
      if fresh = [] then
        (if blobs \<noteq> [] \<and> io_commit_fault env then (set_status Store_Error results, st)
         else (results, st))
      else if max_storage_bytes > 0 \<and>
              list_ex (\<lambda>pb. \<not> is_tombstone (bd_data (pb_blob pb))) fresh \<and>
              io_used_bytes env \<ge> max_storage_bytes
      then (set_status Capacity_Exceeded results, st)
      else if (quota_byte_limit > 0 \<or> quota_count_limit > 0) \<and>
              batch_over_quota X st quota_byte_limit quota_count_limit (quota_additions fresh)
      then (set_status Quota_Exceeded results, st)
      else case batch_loop X env 0 (zip blobs dups) [] st of
        (rs, Inl _) \<Rightarrow> (set_status Store_Error rs, st)
      | (rs, Inr (totals, st')) \<Rightarrow>
          let st'' = foldl (\<lambda>s (ns_id, (b, c)). add_quota X s ns_id b c) st' totals in
          if io_commit_fault env then (set_status Store_Error rs, st) else (rs, st''))"

end
