(* ===== verification/Engine.thy ===== *)
theory Engine
  imports Hex Storage_Admin
begin

text \<open>
  \<open>db/engine/engine.cpp\<close>: validation and ingestion of blobs, deletion by tombstone, quotas with
  per-namespace overrides, and the query methods.

  \<open>ingest\<close> and \<open>delete_blob\<close> are coroutines on the one event-loop thread; they give up the thread
  at every \<open>co_await\<close>, where hashing and signature verification run on the pool.  The model cuts them at these points: the data type \<open>ingest_pc\<close> holds what
  the coroutine frame carries over a suspension, \<open>ingest_begin\<close> runs to the first suspension, and
  \<open>ingest_resume\<close> runs from one to the next.  Between two segments any other task may change the
  storage.  A segment reads the clock once.  The texts of rejections, which
  only reach the log, are left out.
\<close>

section \<open>Results\<close>

datatype ingest_error =
  Namespace_Mismatch | Invalid_Signature | Malformed_Blob | Oversized_Blob | Storage_Error
  | Tombstoned | No_Delegation | Storage_Full | Engine_Quota_Exceeded | Timestamp_Rejected
  | Invalid_Ttl | Pubk_First_Violation | Pubk_Mismatch_Error | Bomb_Ttl_Nonzero | Bomb_Malformed
  | Bomb_Delegate_Not_Allowed

datatype ingest_status = Ingest_Stored | Ingest_Duplicate

record write_ack =
  ack_blob_hash :: bytes
  ack_seq_num :: u64
  ack_status :: ingest_status
  ack_replication_count :: u32

text \<open>A connection is known by a number.\<close>

type_synonym conn_id = nat

record ingest_result =
  ir_accepted :: bool
  ir_ack :: "write_ack option"
  ir_error :: "ingest_error option"
  ir_source :: "conn_id option"

definition success :: "write_ack \<Rightarrow> ingest_result" where
  "success ack = \<lparr>ir_accepted = True, ir_ack = Some ack, ir_error = None, ir_source = None\<rparr>"

definition rejection :: "ingest_error \<Rightarrow> ingest_result" where
  "rejection err = \<lparr>ir_accepted = False, ir_ack = None, ir_error = Some err, ir_source = None\<rparr>"

section \<open>Configuration\<close>

type_synonym quota_override = "u64 option \<times> u64 option"

record engine_config =
  max_storage_bytes :: u64
  blob_max_bytes :: u64
  namespace_quota_bytes :: u64
  namespace_quota_count :: u64
  max_ttl_seconds :: u64
  namespace_quota_overrides :: "(bytes \<times> quota_override) list"

definition new_engine :: "u64 \<Rightarrow> u64 \<Rightarrow> u64 \<Rightarrow> u64 \<Rightarrow> engine_config" where
  "new_engine max_storage quota_bytes quota_count max_ttl =
     \<lparr>max_storage_bytes = max_storage, blob_max_bytes = 4 * 1024 * 1024,
      namespace_quota_bytes = quota_bytes, namespace_quota_count = quota_count,
      max_ttl_seconds = max_ttl, namespace_quota_overrides = []\<rparr>"

definition set_max_storage_bytes :: "u64 \<Rightarrow> engine_config \<Rightarrow> engine_config" where
  "set_max_storage_bytes n cfg = cfg\<lparr>max_storage_bytes := n\<rparr>"

definition set_blob_max_bytes :: "u64 \<Rightarrow> engine_config \<Rightarrow> engine_config" where
  "set_blob_max_bytes cap cfg = cfg\<lparr>blob_max_bytes := cap\<rparr>"

definition set_max_ttl_seconds :: "u64 \<Rightarrow> engine_config \<Rightarrow> engine_config" where
  "set_max_ttl_seconds n cfg = cfg\<lparr>max_ttl_seconds := n\<rparr>"

text \<open>\<open>std::stoul(s, nullptr, 16)\<close>: leading white space, an optional sign, an optional \<open>0x\<close> before a
  hexadecimal digit, then the longest run of hexadecimal digits; \<open>None\<close> when there is none.  The
  strings here have two characters, so the value is small.\<close>

definition hex_value :: "char \<Rightarrow> u64" where
  "hex_value c = (case nibble c of Inr b \<Rightarrow> ucast b | Inl _ \<Rightarrow> 0)"

definition hex_run :: "string \<Rightarrow> u64 option" where
  "hex_run s =
     (let ds = takeWhile hex_digit s in
      if ds = [] then None else Some (foldl (\<lambda>acc c. acc * 16 + hex_value c) 0 ds))"

definition stoul16 :: "string \<Rightarrow> u64 option" where
  "stoul16 s =
     (let s1 = dropWhile isspace s;
          neg = (s1 \<noteq> [] \<and> hd s1 = CHR ''-'');
          s2 = (if s1 \<noteq> [] \<and> (hd s1 = CHR ''-'' \<or> hd s1 = CHR ''+'') then tl s1 else s1);
          s3 = (if take 2 s2 \<in> {''0x'', ''0X''} \<and> drop 2 s2 \<noteq> [] \<and> hex_digit (hd (drop 2 s2))
                then drop 2 s2 else s2) in
      map_option (\<lambda>v. if neg then - v else v) (hex_run s3))"

fun hex_bytes :: "nat \<Rightarrow> string \<Rightarrow> bytes option" where
  "hex_bytes 0 hex = Some []"
| "hex_bytes (Suc n) hex =
     (case stoul16 (take 2 hex) of
        None \<Rightarrow> None
      | Some v \<Rightarrow> map_option (\<lambda>r. ucast v # r) (hex_bytes n (drop 2 hex)))"

definition hex_to_bytes32 :: "string \<Rightarrow> bytes option" where
  "hex_to_bytes32 hex = hex_bytes 32 hex"

text \<open>The overrides are visited in the order of the source map; a key that is not hexadecimal ends
  the call with an exception, \<open>False\<close>, after the earlier ones were entered.\<close>

fun override_loop ::
    "(string \<times> quota_override) list \<Rightarrow> (bytes \<times> quota_override) list \<Rightarrow> bool \<times> (bytes \<times> quota_override) list" where
  "override_loop [] acc = (True, acc)"
| "override_loop ((hex_key, limits) # rest) acc =
     (if length hex_key = 64
      then (case hex_to_bytes32 hex_key of
              None \<Rightarrow> (False, acc)
            | Some k \<Rightarrow> override_loop rest (alist_upsert acc k limits))
      else override_loop rest acc)"

definition set_quota_config ::
    "u64 \<Rightarrow> u64 \<Rightarrow> (string \<times> quota_override) list \<Rightarrow> engine_config \<Rightarrow> bool \<times> engine_config" where
  "set_quota_config quota_bytes quota_count overrides cfg =
     (let (ok, ovr) = override_loop overrides [] in
      (ok, cfg\<lparr>namespace_quota_bytes := quota_bytes, namespace_quota_count := quota_count,
               namespace_quota_overrides := ovr\<rparr>))"

definition effective_quota :: "engine_config \<Rightarrow> bytes \<Rightarrow> u64 \<times> u64" where
  "effective_quota cfg namespace_id =
     (case map_of (namespace_quota_overrides cfg) namespace_id of
        Some (b, c) \<Rightarrow>
          (case b of Some v \<Rightarrow> v | None \<Rightarrow> namespace_quota_bytes cfg,
           case c of Some v \<Rightarrow> v | None \<Rightarrow> namespace_quota_count cfg)
      | None \<Rightarrow> (namespace_quota_bytes cfg, namespace_quota_count cfg))"

section \<open>Signatures\<close>

definition signer_verify :: "'t externals \<Rightarrow> bytes \<Rightarrow> bytes \<Rightarrow> bytes \<Rightarrow> bool" where
  "signer_verify X message signature public_key = oqs_sig_verify X message signature public_key"

text \<open>The bundle run on the pool: the digest for the target namespace, then the verification.\<close>

definition verify_blob :: "'t externals \<Rightarrow> bytes \<Rightarrow> blob_data \<Rightarrow> bytes \<Rightarrow> bool" where
  "verify_blob X target_namespace blob pubkey =
     signer_verify X
       (build_signing_input X target_namespace (bd_data blob) (bd_ttl blob) (bd_timestamp blob))
       (bd_signature blob) pubkey"

section \<open>Ingestion\<close>

subsection \<open>Checks before any cryptography\<close>

definition MAX_FUTURE_SECONDS :: u64 where "MAX_FUTURE_SECONDS = 3600"
definition MAX_PAST_SECONDS :: u64 where "MAX_PAST_SECONDS = 30 * 24 * 3600"

definition timestamp_ok :: "u64 \<Rightarrow> u64 \<Rightarrow> bool" where
  "timestamp_ok now ts \<longleftrightarrow> \<not> ts > now + MAX_FUTURE_SECONDS \<and> \<not> ts < now - MAX_PAST_SECONDS"

text \<open>Steps 0 to 1.7, in the order of the code; \<open>None\<close> is a pass.\<close>

definition cheap_checks ::
    "'t externals \<Rightarrow> engine_config \<Rightarrow> io \<Rightarrow> bytes \<Rightarrow> blob_data \<Rightarrow> 't storage \<Rightarrow> ingest_error option" where
  "cheap_checks X cfg env ns blob st =
     (if length (bd_data blob) > unat (blob_max_bytes cfg) then Some Oversized_Blob
      else if max_storage_bytes cfg > 0 \<and> \<not> is_tombstone (bd_data blob) \<and>
              io_used_bytes env \<ge> max_storage_bytes cfg then Some Storage_Full
      else if \<not> timestamp_ok (io_now env) (bd_timestamp blob) then Some Timestamp_Rejected
      else if bd_ttl blob > 0 \<and>
              saturating_expiry (bd_timestamp blob) (bd_ttl blob) \<le> io_now env
      then Some Timestamp_Rejected
      else if max_ttl_seconds cfg > 0 \<and> \<not> is_tombstone (bd_data blob) \<and> \<not> is_bomb (bd_data blob) \<and>
              (bd_ttl blob = 0 \<or> ucast (bd_ttl blob) > max_ttl_seconds cfg)
      then Some Invalid_Ttl
      else if bd_signature blob = [] then Some Malformed_Blob
      else if \<not> has_owner_pubkey X env st ns \<and> \<not> is_pubkey_blob (bd_data blob)
      then Some Pubk_First_Violation
      else if has_bomb_magic (bd_data blob) \<and> bd_ttl blob \<noteq> 0 then Some Bomb_Ttl_Nonzero
      else if has_bomb_magic (bd_data blob) \<and> \<not> validate_bomb_structure (bd_data blob)
      then Some Bomb_Malformed
      else None)"

subsection \<open>Suspension points\<close>

text \<open>Waiting for the hash of the owner key the hint resolved to, of the key in a published-key
  payload, of the encoded blob, or for the verification of the signature.\<close>

datatype ingest_pc =
  Await_Owner_Hash bytes
| Await_Pubk_Hash bytes
| Await_Content_Hash bytes bytes
| Await_Verify bytes bytes bytes
| Ingest_Done ingest_result

definition quota_precheck ::
    "'t externals \<Rightarrow> engine_config \<Rightarrow> io \<Rightarrow> bytes \<Rightarrow> blob_data \<Rightarrow> bytes \<Rightarrow> 't storage \<Rightarrow> bool" where
  "quota_precheck X cfg env ns blob encoded st =
     (is_tombstone (bd_data blob) \<or>
      (let (byte_limit, count_limit) = effective_quota cfg ns;
           current = get_namespace_quota X env st ns in
       \<not> (byte_limit > 0 \<and> nq_total_bytes current + of_nat (length encoded) > byte_limit) \<and>
       \<not> (count_limit > 0 \<and> nq_blob_count current + 1 > count_limit)))"

text \<open>From a resolved key to the dispatch of the content hash.\<close>

definition key_resolved ::
    "'t externals \<Rightarrow> engine_config \<Rightarrow> io \<Rightarrow> bytes \<Rightarrow> blob_data \<Rightarrow> bytes \<Rightarrow> 't storage \<Rightarrow> ingest_pc" where
  "key_resolved X cfg env ns blob pubkey st =
     (let encoded = encode_blob X blob in
      if quota_precheck X cfg env ns blob encoded st then Await_Content_Hash pubkey encoded
      else Ingest_Done (rejection Engine_Quota_Exceeded))"

definition delegate_path ::
    "'t externals \<Rightarrow> engine_config \<Rightarrow> io \<Rightarrow> bytes \<Rightarrow> blob_data \<Rightarrow> 't storage \<Rightarrow> ingest_pc" where
  "delegate_path X cfg env ns blob st =
     (case get_delegate_pubkey_by_hint X env st ns (bd_signer_hint blob) of
        None \<Rightarrow> Ingest_Done (rejection No_Delegation)
      | Some pk \<Rightarrow>
          if is_delegation (bd_data blob) then Ingest_Done (rejection No_Delegation)
          else if is_tombstone (bd_data blob) then Ingest_Done (rejection No_Delegation)
          else if is_bomb (bd_data blob) then Ingest_Done (rejection Bomb_Delegate_Not_Allowed)
          else key_resolved X cfg env ns blob pk st)"

definition not_owner_path ::
    "'t externals \<Rightarrow> engine_config \<Rightarrow> io \<Rightarrow> bytes \<Rightarrow> blob_data \<Rightarrow> 't storage \<Rightarrow> ingest_pc" where
  "not_owner_path X cfg env ns blob st =
     (if is_pubkey_blob (bd_data blob) then Await_Pubk_Hash (extract_pubk_signing_pk (bd_data blob))
      else delegate_path X cfg env ns blob st)"

definition ingest_begin ::
    "'t externals \<Rightarrow> engine_config \<Rightarrow> io \<Rightarrow> bytes \<Rightarrow> blob_data \<Rightarrow> 't storage \<Rightarrow> ingest_pc" where
  "ingest_begin X cfg env ns blob st =
     (case cheap_checks X cfg env ns blob st of
        Some e \<Rightarrow> Ingest_Done (rejection e)
      | None \<Rightarrow>
          (case get_owner_pubkey X env st (bd_signer_hint blob) of
             Some pk \<Rightarrow> Await_Owner_Hash pk
           | None \<Rightarrow> not_owner_path X cfg env ns blob st))"

subsection \<open>The last segment\<close>

definition accept :: "bytes \<Rightarrow> u64 \<Rightarrow> ingest_status \<Rightarrow> conn_id option \<Rightarrow> ingest_result" where
  "accept hash seq status source =
     (success \<lparr>ack_blob_hash = hash, ack_seq_num = seq, ack_status = status,
        ack_replication_count = 1\<rparr>)\<lparr>ir_source := source\<rparr>"

definition result_of_store :: "store_result \<Rightarrow> conn_id option \<Rightarrow> ingest_result" where
  "result_of_store r source =
     (case sr_status r of
        Stored \<Rightarrow> accept (sr_blob_hash r) (sr_seq_num r) Ingest_Stored source
      | Duplicate \<Rightarrow> accept (sr_blob_hash r) (sr_seq_num r) Ingest_Duplicate source
      | Capacity_Exceeded \<Rightarrow> rejection Storage_Full
      | Quota_Exceeded \<Rightarrow> rejection Engine_Quota_Exceeded
      | Store_Error \<Rightarrow> rejection Storage_Error)"

text \<open>Every transaction of a segment has surroundings of its own: the \<open>i\<close>-th deletion runs in
  \<open>envs i\<close>, and the last two are for the registration and the store.\<close>

fun delete_targets ::
    "'t externals \<Rightarrow> (nat \<Rightarrow> io) \<Rightarrow> nat \<Rightarrow> bytes \<Rightarrow> bytes list \<Rightarrow> 't storage \<Rightarrow> 't storage" where
  "delete_targets X envs i ns [] st = st"
| "delete_targets X envs i ns (t # ts) st =
     delete_targets X envs (Suc i) ns ts (snd (delete_blob_data X (envs i) ns t st))"

definition blob_targets :: "bytes \<Rightarrow> bytes list" where
  "blob_targets d =
     (if is_tombstone d then [extract_tombstone_target d]
      else if is_bomb d then extract_bomb_targets d else [])"

definition register_step ::
    "'t externals \<Rightarrow> io \<Rightarrow> blob_data \<Rightarrow> 't storage \<Rightarrow> (owner_error + unit) \<times> 't storage" where
  "register_step X env blob st =
     (if is_pubkey_blob (bd_data blob)
      then register_owner_pubkey X env (bd_signer_hint blob) (extract_pubk_signing_pk (bd_data blob)) st
      else (Inr (), st))"

definition ingest_commit ::
    "'t externals \<Rightarrow> engine_config \<Rightarrow> (nat \<Rightarrow> io) \<Rightarrow> bytes \<Rightarrow> blob_data \<Rightarrow> bytes \<Rightarrow> bytes \<Rightarrow> conn_id option
      \<Rightarrow> 't storage \<Rightarrow> ingest_result \<times> 't storage" where
  "ingest_commit X cfg envs ns blob encoded content_hash source st =
     (let targets = blob_targets (bd_data blob); n = length targets in
      if \<not> is_tombstone (bd_data blob) \<and> \<not> is_bomb (bd_data blob) \<and>
         has_tombstone_for X (envs 0) st ns content_hash
      then (rejection Tombstoned, st)
      else
        let st1 = delete_targets X envs 0 ns targets st in
        case register_step X (envs n) blob st1 of
          (Inl _, st2) \<Rightarrow> (rejection Pubk_Mismatch_Error, st2)
        | (Inr _, st2) \<Rightarrow>
            let (byte_limit, count_limit) = effective_quota cfg ns;
                (r, st3) = store_blob X (envs (Suc n)) ns blob content_hash encoded
                  (if is_tombstone (bd_data blob) then 0 else max_storage_bytes cfg)
                  byte_limit count_limit st2 in
            (result_of_store r source, st3))"

subsection \<open>From one suspension to the next\<close>

definition ingest_resume ::
    "'t externals \<Rightarrow> engine_config \<Rightarrow> (nat \<Rightarrow> io) \<Rightarrow> bytes \<Rightarrow> blob_data \<Rightarrow> conn_id option \<Rightarrow> ingest_pc
      \<Rightarrow> 't storage \<Rightarrow> ingest_pc \<times> 't storage" where
  "ingest_resume X cfg envs ns blob source pc st =
     (case pc of
        Await_Owner_Hash pk \<Rightarrow>
          (if sha3_256 X pk = ns then key_resolved X cfg (envs 0) ns blob pk st
           else not_owner_path X cfg (envs 0) ns blob st, st)
      | Await_Pubk_Hash pk \<Rightarrow>
          (if sha3_256 X pk \<noteq> ns then Ingest_Done (rejection Namespace_Mismatch)
           else key_resolved X cfg (envs 0) ns blob pk st, st)
      | Await_Content_Hash pk encoded \<Rightarrow>
          (let content_hash = blob_hash X encoded in
           if has_blob X (envs 0) st ns content_hash
           then Ingest_Done (accept content_hash 0 Ingest_Duplicate source)
           else Await_Verify pk encoded content_hash, st)
      | Await_Verify pk encoded content_hash \<Rightarrow>
          if \<not> verify_blob X ns blob pk then (Ingest_Done (rejection Invalid_Signature), st)
          else let (r, st') = ingest_commit X cfg envs ns blob encoded content_hash source st in
            (Ingest_Done r, st')
      | Ingest_Done r \<Rightarrow> (pc, st))"

text \<open>A call that no other task interferes with: at most four suspensions.\<close>

fun ingest_run ::
    "'t externals \<Rightarrow> engine_config \<Rightarrow> (nat \<Rightarrow> nat \<Rightarrow> io) \<Rightarrow> bytes \<Rightarrow> blob_data \<Rightarrow> conn_id option \<Rightarrow> nat
      \<Rightarrow> ingest_pc \<times> 't storage \<Rightarrow> ingest_pc \<times> 't storage" where
  "ingest_run X cfg envs ns blob source 0 s = s"
| "ingest_run X cfg envs ns blob source (Suc n) s =
     ingest_run X cfg envs ns blob source n
       (ingest_resume X cfg (envs (Suc n)) ns blob source (fst s) (snd s))"

definition ingest ::
    "'t externals \<Rightarrow> engine_config \<Rightarrow> (nat \<Rightarrow> nat \<Rightarrow> io) \<Rightarrow> bytes \<Rightarrow> blob_data \<Rightarrow> conn_id option
      \<Rightarrow> 't storage \<Rightarrow> ingest_pc \<times> 't storage" where
  "ingest X cfg envs ns blob source st =
     ingest_run X cfg envs ns blob source 4 (ingest_begin X cfg (envs 0 0) ns blob st, st)"

section \<open>Deletion\<close>

datatype delete_pc =
  Delete_Owner_Hash bytes
| Delete_Verify bytes
| Delete_Done ingest_result

definition delete_not_owner ::
    "'t externals \<Rightarrow> io \<Rightarrow> bytes \<Rightarrow> blob_data \<Rightarrow> 't storage \<Rightarrow> delete_pc" where
  "delete_not_owner X env ns req st =
     (case get_delegate_pubkey_by_hint X env st ns (bd_signer_hint req) of
        Some _ \<Rightarrow> Delete_Done (rejection No_Delegation)
      | None \<Rightarrow> Delete_Done (rejection No_Delegation))"

definition delete_begin ::
    "'t externals \<Rightarrow> io \<Rightarrow> bytes \<Rightarrow> blob_data \<Rightarrow> 't storage \<Rightarrow> delete_pc" where
  "delete_begin X env ns req st =
     (if \<not> timestamp_ok (io_now env) (bd_timestamp req)
      then Delete_Done (rejection Timestamp_Rejected)
      else if bd_ttl req \<noteq> 0 then Delete_Done (rejection Invalid_Ttl)
      else if bd_signature req = [] then Delete_Done (rejection Malformed_Blob)
      else if \<not> is_tombstone (bd_data req) then Delete_Done (rejection Malformed_Blob)
      else case get_owner_pubkey X env st (bd_signer_hint req) of
        Some pk \<Rightarrow> Delete_Owner_Hash pk
      | None \<Rightarrow> delete_not_owner X env ns req st)"

definition delete_commit ::
    "'t externals \<Rightarrow> (nat \<Rightarrow> io) \<Rightarrow> bytes \<Rightarrow> blob_data \<Rightarrow> conn_id option \<Rightarrow> 't storage
      \<Rightarrow> ingest_result \<times> 't storage" where
  "delete_commit X envs ns req source st =
     (let st1 = snd (delete_blob_data X (envs 0) ns (extract_tombstone_target (bd_data req)) st);
          (r, st2) = store_blob_plain X (envs 1) ns req st1 in
      (result_of_store r source, st2))"

definition delete_resume ::
    "'t externals \<Rightarrow> (nat \<Rightarrow> io) \<Rightarrow> bytes \<Rightarrow> blob_data \<Rightarrow> conn_id option \<Rightarrow> delete_pc \<Rightarrow> 't storage
      \<Rightarrow> delete_pc \<times> 't storage" where
  "delete_resume X envs ns req source pc st =
     (case pc of
        Delete_Owner_Hash pk \<Rightarrow>
          (if sha3_256 X pk = ns then Delete_Verify pk else delete_not_owner X (envs 0) ns req st, st)
      | Delete_Verify pk \<Rightarrow>
          if \<not> verify_blob X ns req pk then (Delete_Done (rejection Invalid_Signature), st)
          else let (r, st') = delete_commit X envs ns req source st in (Delete_Done r, st')
      | Delete_Done r \<Rightarrow> (pc, st))"

section \<open>Queries\<close>

definition get_blobs_since ::
    "'t externals \<Rightarrow> io \<Rightarrow> 't storage \<Rightarrow> bytes \<Rightarrow> u64 \<Rightarrow> u32 \<Rightarrow> blob_data list" where
  "get_blobs_since X env st namespace_id since_seq max_count =
     (let results = get_blobs_by_seq X env st namespace_id since_seq in
      if max_count > 0 \<and> length results > unat max_count then take (unat max_count) results
      else results)"

end
