(* ===== verification/Key_Scan.thy ===== *)
theory Key_Scan
  imports Prelude
begin

text \<open>
  Scans over key-sorted entry lists.  The sub-databases use composite keys, a fixed-width prefix
  (a namespace or a peer) followed by a fixed-width suffix; the code visits the entries of one
  prefix by seeking to a lower bound and walking until the prefix changes, or finds the last one by
  seeking to the upper bound and stepping back.  The lemmas here turn both walks into filters,
  once for all sub-databases.
\<close>

type_synonym entry = "bytes \<times> bytes"

definition sorted_keys :: "entry list \<Rightarrow> bool" where
  "sorted_keys es \<longleftrightarrow> sorted_wrt (<) (map fst es)"

definition keys_width :: "nat \<Rightarrow> entry list \<Rightarrow> bool" where
  "keys_width w es \<longleftrightarrow> list_all (\<lambda>e. length (fst e) = w) es"

definition has_prefix :: "bytes \<Rightarrow> entry \<Rightarrow> bool" where
  "has_prefix p e \<longleftrightarrow> take (length p) (fst e) = p"

lemma sorted_keys_Nil [simp]: "sorted_keys []"
  by (simp add: sorted_keys_def)

lemma sorted_keys_append:
  "sorted_keys (xs @ ys) \<longleftrightarrow>
     sorted_keys xs \<and> sorted_keys ys \<and> (\<forall>x \<in> set xs. \<forall>y \<in> set ys. fst x < fst y)"
  by (auto simp: sorted_keys_def sorted_wrt_append)

lemma sorted_keys_Cons: "sorted_keys (e # es) \<longleftrightarrow> (\<forall>x \<in> set es. fst e < fst x) \<and> sorted_keys es"
  by (auto simp: sorted_keys_def)

lemma keys_width_append [simp]: "keys_width w (xs @ ys) \<longleftrightarrow> keys_width w xs \<and> keys_width w ys"
  and keys_width_Cons [simp]: "keys_width w (e # es) \<longleftrightarrow> length (fst e) = w \<and> keys_width w es"
  and keys_width_Nil [simp]: "keys_width w []"
  by (simp_all add: keys_width_def)

lemma dropWhile_filter: "sorted_keys es \<Longrightarrow> dropWhile (\<lambda>e. fst e < b) es = filter (\<lambda>e. b \<le> fst e) es"
proof (induction es)
  case (Cons e es)
  show ?case
  proof (cases "fst e < b")
    case False
    then have "b \<le> fst x" if "x \<in> set es" for x
      using Cons.prems that by (fastforce simp: sorted_keys_Cons)
    then show ?thesis using False by simp
  qed (use Cons in \<open>simp add: sorted_keys_Cons\<close>)
qed simp

lemma takeWhile_filter:
  assumes "sorted_keys es"
    and "\<And>x y. x \<in> set es \<Longrightarrow> y \<in> set es \<Longrightarrow> fst x < fst y \<Longrightarrow> P y \<Longrightarrow> P x"
  shows "takeWhile P es = filter P es"
  using assms
proof (induction es)
  case (Cons e es)
  show ?case
  proof (cases "P e")
    case False
    then have "\<not> P x" if "x \<in> set es" for x
      using Cons.prems(1) Cons.prems(2) [of e x] that by (auto simp: sorted_keys_Cons)
    then show ?thesis using False by (simp add: filter_empty_conv)
  next
    case True
    have "takeWhile P es = filter P es"
      by (rule Cons.IH) (use Cons.prems in \<open>auto simp: sorted_keys_Cons\<close>)
    with True show ?thesis by simp
  qed
qed simp

lemma key_less_iff:
  fixes k l :: bytes
  shows "length k = length l \<Longrightarrow>
     k < l \<longleftrightarrow> take n k < take n l \<or> take n k = take n l \<and> drop n k < drop n l"
  using append_less_append_len [of "take n k" "take n l" "drop n k" "drop n l"] by simp

lemma prefix_bound_less:
  fixes k p s :: bytes
  assumes "length k = length p + length s"
  shows "k < p @ s \<longleftrightarrow> take (length p) k < p \<or> take (length p) k = p \<and> drop (length p) k < s"
proof -
  have "length (take (length p) k) = length p" using assms by simp
  from append_less_append_len [OF this, of "drop (length p) k" s] show ?thesis
    by (simp only: append_take_drop_id)
qed

lemma sorted_keys_unique:
  assumes "sorted_keys xs" and "sorted_keys ys" and "set xs = set ys"
  shows "xs = ys"
  using assms
proof (induction xs arbitrary: ys)
  case (Cons x xs)
  then obtain y zs where ys: "ys = y # zs" by (cases ys) auto
  have "\<not> fst x < fst y" "\<not> fst y < fst x"
    using Cons.prems unfolding ys sorted_keys_Cons
    by (metis insert_iff less_asym list.simps(15))+
  then have "fst x = fst y" by auto
  then have "x = y" using Cons.prems unfolding ys sorted_keys_Cons
    by (metis insert_iff less_irrefl list.simps(15))
  moreover have "set xs = set zs"
    using Cons.prems \<open>x = y\<close> unfolding ys sorted_keys_Cons by fastforce
  ultimately show ?case using Cons.IH [of zs] Cons.prems unfolding ys sorted_keys_Cons by simp
qed simp

lemma sorted_keys_last: "sorted_keys es \<Longrightarrow> e \<in> set es \<Longrightarrow> e = last es \<or> fst e < fst (last es)"
  by (cases es rule: rev_cases) (auto simp: sorted_keys_append)

section \<open>Forward scans\<close>

lemma prefix_scan:
  assumes s: "sorted_keys es" and w: "keys_width (length p + length lo) es"
  shows "takeWhile (has_prefix p) (dropWhile (\<lambda>e. fst e < p @ lo) es) =
    filter (\<lambda>e. has_prefix p e \<and> lo \<le> drop (length p) (fst e)) es"
proof -
  let ?n = "length p"
  let ?es = "filter (\<lambda>e. p @ lo \<le> fst e) es"
  have len: "length (fst e) = ?n + length lo" if "e \<in> set es" for e
    using w that by (auto simp: keys_width_def list_all_iff)
  have "takeWhile (has_prefix p) ?es = filter (has_prefix p) ?es"
  proof (rule takeWhile_filter)
    show "sorted_keys ?es" using s by (simp add: sorted_keys_def sorted_wrt_filter sorted_wrt_map)
    fix x y assume xy: "x \<in> set ?es" "y \<in> set ?es" "fst x < fst y" "has_prefix p y"
    have "p \<le> take ?n (fst x)"
      using xy(1) len [of x] prefix_bound_less [of "fst x" p lo] by (auto simp: not_less)
    moreover have "take ?n (fst x) \<le> take ?n (fst y)"
      using xy(1-3) len [of x] len [of y] key_less_iff [of "fst x" "fst y" ?n] by auto
    ultimately show "has_prefix p x" using xy(4) by (auto simp: has_prefix_def)
  qed
  also have "\<dots> = filter (\<lambda>e. has_prefix p e \<and> lo \<le> drop ?n (fst e)) es"
    unfolding filter_filter
  proof (rule filter_cong)
    fix e assume "e \<in> set es"
    then show "(p @ lo \<le> fst e \<and> has_prefix p e) = (has_prefix p e \<and> lo \<le> drop ?n (fst e))"
      using len [of e] prefix_bound_less [of "fst e" p lo]
      by (auto simp: has_prefix_def simp flip: not_less)
  qed simp
  finally show ?thesis by (simp only: dropWhile_filter [OF s])
qed

section \<open>The last entry of a prefix\<close>

text \<open>What \<open>lower_bound\<close> to the upper end of a prefix and one step back find.\<close>

definition step_back :: "bytes \<Rightarrow> entry list \<Rightarrow> entry list \<Rightarrow> entry option" where
  "step_back p below onward =
     (case onward of
        e # _ \<Rightarrow> if has_prefix p e then Some e
                 else if below = [] then None
                 else if has_prefix p (last below) then Some (last below) else None
      | [] \<Rightarrow> if below = [] then None
              else if has_prefix p (last below) then Some (last below) else None)"

lemma last_filter_below:
  assumes s: "sorted_keys es" and w: "keys_width (length p + m) es"
    and b: "\<forall>e \<in> set es. take (length p) (fst e) \<le> p"
  shows "(if es \<noteq> [] \<and> has_prefix p (last es) then Some (last es) else None) =
    (if filter (has_prefix p) es = [] then None else Some (last (filter (has_prefix p) es)))"
proof (cases es rule: rev_cases)
  case (snoc ys y)
  show ?thesis
  proof (cases "has_prefix p y")
    case False
    then have y: "take (length p) (fst y) < p"
      using b snoc by (auto simp: has_prefix_def order.strict_iff_order)
    have "\<not> has_prefix p x" if "x \<in> set ys" for x
    proof -
      have "length (fst x) = length (fst y)" using w that snoc
        by (auto simp: keys_width_def list_all_iff)
      moreover have "fst x < fst y" using s that snoc by (auto simp: sorted_keys_append)
      ultimately have "take (length p) (fst x) \<le> take (length p) (fst y)"
        using key_less_iff [of "fst x" "fst y" "length p"] by auto
      then show ?thesis using y by (auto simp: has_prefix_def)
    qed
    then show ?thesis using False snoc by (simp add: filter_empty_conv)
  qed (use snoc in simp)
qed simp

lemma step_back_last:
  assumes s: "sorted_keys es" and w: "keys_width (length p + length hi) es"
    and hi: "\<forall>e \<in> set es. drop (length p) (fst e) \<le> hi"
  shows "step_back p (takeWhile (\<lambda>e. fst e < p @ hi) es) (dropWhile (\<lambda>e. fst e < p @ hi) es) =
    (if filter (has_prefix p) es = [] then None else Some (last (filter (has_prefix p) es)))"
proof -
  let ?n = "length p"
  define below where "below = takeWhile (\<lambda>e. fst e < p @ hi) es"
  define onward where "onward = dropWhile (\<lambda>e. fst e < p @ hi) es"
  have es: "es = below @ onward" by (simp add: below_def onward_def)
  have len: "length (fst e) = ?n + length hi" if "e \<in> set es" for e
    using w that by (auto simp: keys_width_def list_all_iff)
  have "\<forall>e \<in> set below. fst e < p @ hi" by (auto simp: below_def dest: set_takeWhileD)
  then have below: "\<forall>e \<in> set below. take ?n (fst e) \<le> p"
    using len prefix_bound_less [of _ p hi] es by (fastforce dest: less_imp_le)
  have "sorted_keys below" "keys_width (length p + length hi) below"
    using s w unfolding es by (simp_all add: sorted_keys_append)
  then have lb: "(if below \<noteq> [] \<and> has_prefix p (last below) then Some (last below) else None) =
    (if filter (has_prefix p) below = [] then None else Some (last (filter (has_prefix p) below)))"
    using below by (rule last_filter_below)
  have onward: "p @ hi \<le> fst e" if "e \<in> set onward" for e
    using that by (simp add: onward_def dropWhile_filter [OF s])
  have "step_back p below onward = (if filter (has_prefix p) (below @ onward) = [] then None
      else Some (last (filter (has_prefix p) (below @ onward))))"
  proof (cases onward)
    case Nil
    then show ?thesis using lb by (auto simp: step_back_def split: if_splits)
  next
    case (Cons e rest)
    have e: "e \<in> set es" using es Cons by simp
    have rest: "fst e < fst x" "length (fst x) = length (fst e)" if "x \<in> set rest" for x
      using s es Cons len [of x] len [OF e] that by (auto simp: sorted_keys_append sorted_keys_Cons)
    have p_le: "p \<le> take ?n (fst e)"
      using onward [of e] Cons len [OF e] prefix_bound_less [of "fst e" p hi] by (auto simp: not_less)
    have none: "filter (has_prefix p) rest = []"
    proof -
      have "\<not> has_prefix p x" if x: "x \<in> set rest" for x
      proof
        assume px: "has_prefix p x"
        then have "take ?n (fst e) = p"
          using rest [OF x] p_le key_less_iff [of "fst e" "fst x" ?n] by (auto simp: has_prefix_def)
        then have "drop ?n (fst e) < drop ?n (fst x)"
          using rest [OF x] px key_less_iff [of "fst e" "fst x" ?n] by (auto simp: has_prefix_def)
        moreover have "hi \<le> drop ?n (fst e)"
          using onward [of e] Cons len [OF e] \<open>take ?n (fst e) = p\<close>
            prefix_bound_less [of "fst e" p hi] by (auto simp: not_less)
        moreover have "drop ?n (fst x) \<le> hi" using hi es Cons x by auto
        ultimately show False by auto
      qed
      then show ?thesis by (simp add: filter_empty_conv)
    qed
    show ?thesis
    proof (cases "has_prefix p e")
      case True
      then show ?thesis using Cons none by (simp add: step_back_def)
    next
      case False
      then show ?thesis using lb Cons none by (auto simp: step_back_def split: if_splits)
    qed
  qed
  then show ?thesis unfolding below_def onward_def by (simp only: takeWhile_dropWhile_id)
qed

end
