(* ===== verification/Storage_Inv.thy ===== *)
theory Storage_Inv
  imports Storage_Admin Key_Scan
begin

text \<open>
  The layout invariant of the eight sub-databases and its preservation by every operation that
  writes to them.  \<open>wf_storage\<close> fixes the width of every key and value, and that every stored blob
  decrypts under its own key and decodes to a well-formed blob.
\<close>

section \<open>Tables\<close>

definition table_all :: "'t externals \<Rightarrow> (bytes \<Rightarrow> bytes \<Rightarrow> bool) \<Rightarrow> 't \<Rightarrow> bool" where
  "table_all X P t \<longleftrightarrow> list_all (\<lambda>(k, v). P k v) (mdbx_entries X t)"

definition opens_wf :: "'t externals \<Rightarrow> 't storage \<Rightarrow> bytes \<Rightarrow> bytes \<Rightarrow> bool" where
  "opens_wf X st k v = (case open_value X st v k of Inl _ \<Rightarrow> False | Inr b \<Rightarrow> wf_blob b)"

definition wf_storage :: "'t externals \<Rightarrow> 't storage \<Rightarrow> bool" where
  "wf_storage X st \<longleftrightarrow>
     length (blob_key st) = 32 \<and>
     table_all X (\<lambda>k v. length k = 64 \<and> opens_wf X st k v) (blobs_map st) \<and>
     table_all X (\<lambda>k v. length k = 40 \<and> length v = 36) (seq_map st) \<and>
     table_all X (\<lambda>k v. length k = 40 \<and> length v = 32) (expiry_map st) \<and>
     table_all X (\<lambda>k v. length k = 64 \<and> length v = 32) (delegation_map st) \<and>
     table_all X (\<lambda>k v. length k = 64 \<and> v = []) (tombstone_map st) \<and>
     table_all X (\<lambda>k v. length k = 64 \<and> length v = 20) (cursor_map st) \<and>
     table_all X (\<lambda>k v. length k = 32 \<and> length v = 16) (quota_map st) \<and>
     table_all X (\<lambda>k v. length k = 32 \<and> length v = 2592) (owner_pubkeys_map st)"

definition wf_io :: "io \<Rightarrow> bool" where
  "wf_io env \<longleftrightarrow> (\<forall>i. length (io_nonce env i) = 12)"

definition empty_storage :: "'t externals \<Rightarrow> bytes \<Rightarrow> 't storage" where
  "empty_storage X key =
     (let t = mdbx_empty X in
      \<lparr>blobs_map = t, seq_map = t, expiry_map = t, delegation_map = t, tombstone_map = t,
       cursor_map = t, quota_map = t, owner_pubkeys_map = t, blob_key = key\<rparr>)"

section \<open>What a value depends on\<close>

lemma open_value_cong: "blob_key st = blob_key st' \<Longrightarrow> open_value X st = open_value X st'"
  by (intro ext) (simp add: open_value_def decrypt_value_def)

lemma encrypt_value_cong: "blob_key st = blob_key st' \<Longrightarrow> encrypt_value X st = encrypt_value X st'"
  by (intro ext) (simp add: encrypt_value_def)

lemma opens_wf_cong: "blob_key st = blob_key st' \<Longrightarrow> opens_wf X st = opens_wf X st'"
  by (intro ext) (simp add: opens_wf_def open_value_cong [of st st'])

lemma open_value_frame [frame_simps]:
  "open_value X (st\<lparr>blobs_map := t\<rparr>) = open_value X st"
  "open_value X (st\<lparr>seq_map := t\<rparr>) = open_value X st"
  "open_value X (st\<lparr>expiry_map := t\<rparr>) = open_value X st"
  "open_value X (st\<lparr>delegation_map := t\<rparr>) = open_value X st"
  "open_value X (st\<lparr>tombstone_map := t\<rparr>) = open_value X st"
  "open_value X (st\<lparr>cursor_map := t\<rparr>) = open_value X st"
  "open_value X (st\<lparr>quota_map := t\<rparr>) = open_value X st"
  "open_value X (st\<lparr>owner_pubkeys_map := t\<rparr>) = open_value X st"
  by (rule open_value_cong, simp)+

lemma opens_wf_frame [frame_simps]:
  "opens_wf X (st\<lparr>blobs_map := t\<rparr>) = opens_wf X st"
  "opens_wf X (st\<lparr>seq_map := t\<rparr>) = opens_wf X st"
  "opens_wf X (st\<lparr>expiry_map := t\<rparr>) = opens_wf X st"
  "opens_wf X (st\<lparr>delegation_map := t\<rparr>) = opens_wf X st"
  "opens_wf X (st\<lparr>tombstone_map := t\<rparr>) = opens_wf X st"
  "opens_wf X (st\<lparr>cursor_map := t\<rparr>) = opens_wf X st"
  "opens_wf X (st\<lparr>quota_map := t\<rparr>) = opens_wf X st"
  "opens_wf X (st\<lparr>owner_pubkeys_map := t\<rparr>) = opens_wf X st"
  by (rule opens_wf_cong, simp)+

text \<open>Every field but the quota table survives a quota update.\<close>

lemma add_quota_frame [frame_simps]:
  "blobs_map (add_quota X st ns b c) = blobs_map st"
  "seq_map (add_quota X st ns b c) = seq_map st"
  "expiry_map (add_quota X st ns b c) = expiry_map st"
  "delegation_map (add_quota X st ns b c) = delegation_map st"
  "tombstone_map (add_quota X st ns b c) = tombstone_map st"
  "cursor_map (add_quota X st ns b c) = cursor_map st"
  "owner_pubkeys_map (add_quota X st ns b c) = owner_pubkeys_map st"
  "blob_key (add_quota X st ns b c) = blob_key st"
  by (simp_all add: add_quota_def Let_def)

lemma sub_quota_frame [frame_simps]:
  "blobs_map (sub_quota X st ns b) = blobs_map st"
  "seq_map (sub_quota X st ns b) = seq_map st"
  "expiry_map (sub_quota X st ns b) = expiry_map st"
  "delegation_map (sub_quota X st ns b) = delegation_map st"
  "tombstone_map (sub_quota X st ns b) = tombstone_map st"
  "cursor_map (sub_quota X st ns b) = cursor_map st"
  "owner_pubkeys_map (sub_quota X st ns b) = owner_pubkeys_map st"
  "blob_key (sub_quota X st ns b) = blob_key st"
  by (simp_all add: sub_quota_def Let_def split: option.splits)

lemma clear_seq_frame [frame_simps]:
  "blobs_map (clear_seq X st ns h) = blobs_map st"
  "expiry_map (clear_seq X st ns h) = expiry_map st"
  "delegation_map (clear_seq X st ns h) = delegation_map st"
  "tombstone_map (clear_seq X st ns h) = tombstone_map st"
  "cursor_map (clear_seq X st ns h) = cursor_map st"
  "quota_map (clear_seq X st ns h) = quota_map st"
  "owner_pubkeys_map (clear_seq X st ns h) = owner_pubkeys_map st"
  "blob_key (clear_seq X st ns h) = blob_key st"
  by (simp_all add: clear_seq_def split: option.splits)

lemma drop_indexes_frame [frame_simps]:
  "blobs_map (drop_indexes X st ns h b) = blobs_map st"
  "seq_map (drop_indexes X st ns h b) = seq_map st"
  "cursor_map (drop_indexes X st ns h b) = cursor_map st"
  "quota_map (drop_indexes X st ns h b) = quota_map st"
  "owner_pubkeys_map (drop_indexes X st ns h b) = owner_pubkeys_map st"
  "blob_key (drop_indexes X st ns h b) = blob_key st"
  by (simp_all add: drop_indexes_def Let_def)

lemma next_seq_num_cong:
  assumes "seq_map st = seq_map st'"
  shows "next_seq_num X st = next_seq_num X st'"
  unfolding next_seq_num_def assms ..

lemma next_seq_num_blobs [frame_simps]: "next_seq_num X (st\<lparr>blobs_map := t\<rparr>) = next_seq_num X st"
  by (rule next_seq_num_cong) simp

lemma put_indexes_frame [frame_simps]:
  "blobs_map (snd (put_indexes X st ns b h e)) =
     mdbx_upsert X (blobs_map st) (make_blob_key ns h) e"
  "seq_map (snd (put_indexes X st ns b h e)) =
     mdbx_upsert X (seq_map st) (make_seq_key ns (next_seq_num X st ns))
       (h @ extract_blob_type (bd_data b))"
  "expiry_map (snd (put_indexes X st ns b h e)) =
     (if bd_ttl b > 0
      then mdbx_upsert X (expiry_map st)
             (make_expiry_key (saturating_expiry (bd_timestamp b) (bd_ttl b)) h) ns
      else expiry_map st)"
  "delegation_map (snd (put_indexes X st ns b h e)) =
     (if is_delegation (bd_data b)
      then mdbx_upsert X (delegation_map st)
             (make_blob_key ns (sha3_256 X (extract_delegate_pubkey (bd_data b)))) h
      else delegation_map st)"
  "tombstone_map (snd (put_indexes X st ns b h e)) =
     (if is_tombstone (bd_data b)
      then mdbx_upsert X (tombstone_map st)
             (make_blob_key ns (extract_tombstone_target (bd_data b))) []
      else tombstone_map st)"
  "cursor_map (snd (put_indexes X st ns b h e)) = cursor_map st"
  "quota_map (snd (put_indexes X st ns b h e)) = quota_map st"
  "owner_pubkeys_map (snd (put_indexes X st ns b h e)) = owner_pubkeys_map st"
  "blob_key (snd (put_indexes X st ns b h e)) = blob_key st"
  "fst (put_indexes X st ns b h e) = next_seq_num X st ns"
  by (simp_all add: put_indexes_def next_seq_num_blobs Let_def)

section \<open>Widths\<close>

lemma length_extract_blob_type [simp]: "length (extract_blob_type d) = 4"
  by (simp add: extract_blob_type_def)

lemma length_make_seq_key [simp]: "length (make_seq_key ns s) = length ns + 8"
  by (simp add: make_seq_key_def store_u64_be_eq)

lemma length_make_blob_key [simp]: "length (make_blob_key ns h) = length ns + length h"
  by (simp add: make_blob_key_def)

lemma length_make_cursor_key [simp]: "length (make_cursor_key p ns) = length p + length ns"
  by (simp add: make_cursor_key_def)

lemma length_make_expiry_key [simp]: "length (make_expiry_key t h) = 8 + length h"
  by (simp add: make_expiry_key_def store_u64_be_eq)

lemma length_encode_quota_value [simp]: "length (encode_quota_value q) = 16"
  by (simp add: encode_quota_value_def store_u64_be_eq)

lemma length_encode_cursor_value [simp]: "length (encode_cursor_value c) = 20"
  by (simp add: encode_cursor_value_def store_u64_be_eq store_u32_be_eq)

lemma is_tombstone_target: "is_tombstone d \<Longrightarrow> length (extract_tombstone_target d) = 32"
  by (simp add: is_tombstone_def extract_tombstone_target_def data_size_defs)

lemma decode_encode_quota [simp]: "decode_quota_value (encode_quota_value q) = q"
  by (simp add: decode_quota_value_def encode_quota_value_def store_u64_be_eq)

lemma decode_encode_cursor [simp]: "decode_cursor_value (encode_cursor_value c) = c"
  by (simp add: decode_cursor_value_def encode_cursor_value_def store_u64_be_eq store_u32_be_eq)

section \<open>The invariant is preserved\<close>

context externals
begin

lemma table_all_iff: "table_all X P t \<longleftrightarrow> (\<forall>k v. mdbx_get X t k = Some v \<longrightarrow> P k v)"
  by (auto simp: table_all_def list_all_iff tbl.in_entries_iff)

lemma table_allD: "table_all X P t \<Longrightarrow> mdbx_get X t k = Some v \<Longrightarrow> P k v"
  by (simp add: table_all_iff)

lemma table_all_upsert [simp]: "table_all X P t \<Longrightarrow> P k v \<Longrightarrow> table_all X P (mdbx_upsert X t k v)"
  by (simp add: table_all_iff tbl.get_upsert)

lemma table_all_erase [simp]: "table_all X P t \<Longrightarrow> table_all X P (mdbx_erase X t k)"
  by (simp add: table_all_iff tbl.get_erase)

lemma table_all_empty [simp]: "table_all X P (mdbx_empty X)"
  by (simp add: table_all_def tbl.entries_empty)

lemma length_sha3_256 [simp]: "length (sha3_256 X m) = 32"
  by (simp add: sha3_256_def sha3.length_sha3)

lemma seal_open:
  assumes "length (blob_key st) = 32" "length n = 12" "length ad \<le> 65536" "wf_blob b"
  obtains e where "encrypt_value X st n (encode_blob X b) ad = Inr e"
    and "open_value X st e ad = Inr b" and "length e = length (encode_blob X b) + 29"
proof -
  have "length (encode_blob X b) < 2 ^ 38 - 64" using length_encode_blob [OF assms(4)] by simp
  from AEAD_encrypt_ok [OF assms(2,1,3) this] obtain c
    where c: "AEAD_encrypt X (encode_blob X b) ad n (blob_key st) = Inr c"
      "length c = length (encode_blob X b) + 16" "AEAD_decrypt X c ad n (blob_key st) = Inr (Some (encode_blob X b))" .
  show ?thesis
  proof (rule that)
    show "encrypt_value X st n (encode_blob X b) ad = Inr (ENCRYPTION_VERSION # n @ c)"
      by (simp add: encrypt_value_def c)
    show "open_value X st (ENCRYPTION_VERSION # n @ c) ad = Inr b"
      using assms(2) c decode_encode_blob [OF assms(4)]
      by (simp add: open_value_def decrypt_value_def ENVELOPE_OVERHEAD_def aead_size_defs)
  qed (use assms(2) c in simp)
qed

lemma wf_empty: "length key = 32 \<Longrightarrow> wf_storage X (empty_storage X key)"
  by (simp add: wf_storage_def empty_storage_def Let_def)

lemma wf_blob_keyD: "wf_storage X st \<Longrightarrow> length (blob_key st) = 32"
  by (simp add: wf_storage_def)

lemma wf_tables:
  assumes "wf_storage X st"
  shows "mdbx_get X (blobs_map st) k = Some v \<Longrightarrow> length k = 64 \<and> opens_wf X st k v"
    and "mdbx_get X (seq_map st) k = Some v \<Longrightarrow> length k = 40 \<and> length v = 36"
    and "mdbx_get X (expiry_map st) k = Some v \<Longrightarrow> length k = 40 \<and> length v = 32"
    and "mdbx_get X (delegation_map st) k = Some v \<Longrightarrow> length k = 64 \<and> length v = 32"
    and "mdbx_get X (tombstone_map st) k = Some v \<Longrightarrow> length k = 64 \<and> v = []"
    and "mdbx_get X (cursor_map st) k = Some v \<Longrightarrow> length k = 64 \<and> length v = 20"
    and "mdbx_get X (quota_map st) k = Some v \<Longrightarrow> length k = 32 \<and> length v = 16"
    and "mdbx_get X (owner_pubkeys_map st) k = Some v \<Longrightarrow> length k = 32 \<and> length v = 2592"
  using assms unfolding wf_storage_def table_all_iff by blast+

lemma wf_blobs:
  assumes "wf_storage X st" and "mdbx_get X (blobs_map st) k = Some v"
  obtains b where "open_value X st v k = Inr b" and "wf_blob b" and "length k = 64"
  using wf_tables(1) [OF assms] by (auto simp: opens_wf_def split: sum.splits)

lemma wf_put_indexes:
  assumes "wf_storage X st" "length ns = 32" "length h = 32" "wf_blob b"
    and "open_value X st e (make_blob_key ns h) = Inr b"
  shows "wf_storage X (snd (put_indexes X st ns b h e))"
  using assms is_tombstone_target [of "bd_data b"]
  by (simp add: wf_storage_def frame_simps opens_wf_cong [of "snd (put_indexes X st ns b h e)" st])
    (simp add: opens_wf_def)

lemma wf_add_quota: "wf_storage X st \<Longrightarrow> length ns = 32 \<Longrightarrow> wf_storage X (add_quota X st ns b c)"
  by (simp add: wf_storage_def frame_simps opens_wf_cong [of "add_quota X st ns b c" st])
    (simp add: add_quota_def Let_def)

lemma wf_sub_quota: "wf_storage X st \<Longrightarrow> length ns = 32 \<Longrightarrow> wf_storage X (sub_quota X st ns b)"
  by (simp add: wf_storage_def frame_simps opens_wf_cong [of "sub_quota X st ns b" st])
    (simp add: sub_quota_def Let_def split: option.splits)

lemma wf_store_blob:
  assumes wf: "wf_storage X st" and env: "wf_io env" and ns: "length ns = 32" "length h = 32"
    and b: "wf_blob b"
  shows "wf_storage X (snd (store_blob X env ns b h (encode_blob X b) m q c st))"
proof -
  obtain e where e: "encrypt_value X st (io_nonce env 0) (encode_blob X b) (make_blob_key ns h) = Inr e"
      "open_value X st e (make_blob_key ns h) = Inr b"
    by (rule seal_open [of st "io_nonce env 0" "make_blob_key ns h" b])
      (use wf_blob_keyD [OF wf] env ns b in \<open>auto simp: wf_io_def\<close>)
  have "wf_storage X (snd (put_indexes X st ns b h e))" by (rule wf_put_indexes) fact+
  then show ?thesis using wf ns wf_add_quota
    by (auto simp: store_blob_def e Let_def split_beta split: option.splits)
qed

lemma wf_clear_seq: "wf_storage X st \<Longrightarrow> length ns = 32 \<Longrightarrow> wf_storage X (clear_seq X st ns h)"
proof -
  have scan: "scan_seq ns h es = Some k \<Longrightarrow> length k = 40" for es k
    by (induction es) (auto simp: in_namespace_def split: if_splits)
  assume "wf_storage X st" "length ns = 32"
  then show ?thesis
    by (simp add: wf_storage_def frame_simps opens_wf_cong [of "clear_seq X st ns h" st])
      (simp add: clear_seq_def find_seq_key_def scan split: option.splits)
qed

lemma wf_drop_indexes: "wf_storage X st \<Longrightarrow> wf_storage X (drop_indexes X st ns h b)"
  by (simp add: wf_storage_def frame_simps opens_wf_cong [of "drop_indexes X st ns h b" st])
    (simp add: drop_indexes_def Let_def)

lemma wf_erase_blob: "wf_storage X st \<Longrightarrow> wf_storage X (st\<lparr>blobs_map := mdbx_erase X (blobs_map st) k\<rparr>)"
  by (simp add: wf_storage_def frame_simps)

lemma wf_delete_blob_data:
  "wf_storage X st \<Longrightarrow> length ns = 32 \<Longrightarrow> wf_storage X (snd (delete_blob_data X env ns h st))"
  by (auto simp: delete_blob_data_def Let_def split: option.splits sum.splits
      intro!: wf_drop_indexes wf_clear_seq wf_sub_quota wf_erase_blob)

lemma wf_register_owner_pubkey:
  "wf_storage X st \<Longrightarrow> length hint = 32 \<Longrightarrow> length pk = 2592 \<Longrightarrow>
     wf_storage X (snd (register_owner_pubkey X env hint pk st))"
  by (simp add: register_owner_pubkey_def wf_storage_def frame_simps split: option.splits)

lemma wf_purge_blob:
  assumes "wf_storage X st" "length ns = 32" "purge_blob X st ns h = Inr st'"
  shows "wf_storage X st'"
proof -
  have t: "wf_storage X s \<Longrightarrow> wf_storage X (s\<lparr>tombstone_map := mdbx_erase X (tombstone_map s) k\<rparr>)" for s k
    by (simp add: wf_storage_def frame_simps)
  have t2: "wf_storage X (s\<lparr>tombstone_map := u, blobs_map := mdbx_erase X (blobs_map s) k\<rparr>)"
    if "wf_storage X (s\<lparr>tombstone_map := u\<rparr>)" for s u k
    using wf_erase_blob [OF that, of k] by simp
  show ?thesis using assms
    by (auto simp: purge_blob_def Let_def split: option.splits sum.splits if_splits
        intro!: wf_sub_quota wf_erase_blob t2 t)
qed

lemma wf_erase_expiry: "wf_storage X st \<Longrightarrow> wf_storage X (st\<lparr>expiry_map := mdbx_erase X (expiry_map st) k\<rparr>)"
  by (simp add: wf_storage_def frame_simps)

lemma wf_expiry_loop:
  assumes "wf_storage X st" "list_all (\<lambda>(k, v). length v = 32) es"
    and "expiry_loop X now es (n, st) = (m, Inr st')"
  shows "wf_storage X st'"
  using assms
proof (induction es arbitrary: n st)
  case (Cons e es)
  obtain k v where e: "e = (k, v)" by (cases e)
  show ?case
  proof (cases "length k \<noteq> 40 \<or> now < read_u64_be_ptr k")
    case True
    then show ?thesis using Cons.prems by (auto simp: e split: if_splits)
  next
    case False
    then obtain st1 where p: "purge_blob X st v (drop 8 k) = Inr st1"
        "expiry_loop X now es (Suc n, st1\<lparr>expiry_map := mdbx_erase X (expiry_map st1) k\<rparr>) = (m, Inr st')"
      using Cons.prems by (auto simp: e split: sum.splits)
    have "wf_storage X st1" by (rule wf_purge_blob [OF _ _ p(1)]) (use Cons.prems in \<open>simp_all add: e\<close>)
    from Cons.IH [OF wf_erase_expiry [OF this] _ p(2)] show ?thesis using Cons.prems by simp
  qed
qed simp

lemma wf_run_expiry_scan:
  assumes wf: "wf_storage X st"
  shows "wf_storage X (snd (run_expiry_scan X env st))"
proof -
  have "list_all (\<lambda>(k, v). length v = 32) (mdbx_entries X (expiry_map st))"
    using wf by (auto simp: wf_storage_def table_all_def list_all_iff)
  with wf wf_expiry_loop show ?thesis
    by (auto simp: run_expiry_scan_def split: prod.splits sum.splits)
qed

subsection \<open>Cursors, aggregates and batches\<close>

lemma entries_sorted_keys: "sorted_keys (mdbx_entries X t)"
  unfolding sorted_keys_def by (rule tbl.entries_sorted)

lemma entries_erase: "mdbx_entries X (mdbx_erase X t k) = filter (\<lambda>e. fst e \<noteq> k) (mdbx_entries X t)"
proof (rule sorted_keys_unique)
  show "sorted_keys (filter (\<lambda>e. fst e \<noteq> k) (mdbx_entries X t))"
    using entries_sorted_keys [of t] by (simp add: sorted_keys_def sorted_wrt_filter sorted_wrt_map)
  show "set (mdbx_entries X (mdbx_erase X t k)) = set (filter (\<lambda>e. fst e \<noteq> k) (mdbx_entries X t))"
    by (auto simp: tbl.in_entries_iff tbl.get_erase split: if_splits)
qed (rule entries_sorted_keys)

lemma clear_table_Some:
  "length (mdbx_entries X t) \<le> n \<Longrightarrow> \<exists>t'. clear_table X n t = Some t' \<and> mdbx_entries X t' = []"
proof (induction n arbitrary: t)
  case (Suc n)
  show ?case
  proof (cases "mdbx_entries X t")
    case (Cons e es)
    obtain k v where e: "e = (k, v)" by (cases e)
    have "length (mdbx_entries X (mdbx_erase X t k)) \<le> n"
      using Suc.prems by (simp add: entries_erase Cons e)
        (meson length_filter_le le_trans)
    from Suc.IH [OF this] show ?thesis by (simp add: Cons e)
  qed simp
qed simp

lemma table_all_no_entries: "mdbx_entries X t = [] \<Longrightarrow> table_all X P t"
  by (simp add: table_all_def)

lemma table_all_foldl_erase: "table_all X P t \<Longrightarrow> table_all X P (foldl (mdbx_erase X) t ks)"
  by (induction ks arbitrary: t) simp_all

lemma table_all_reset_loop:
  "table_all X (\<lambda>k v. length k = 64 \<and> length v = 20) t \<Longrightarrow> list_all (\<lambda>(k, v). length k = 64) es \<Longrightarrow>
     table_all X (\<lambda>k v. length k = 64 \<and> length v = 20) (snd (reset_loop X es (n, t)))"
  by (induction es arbitrary: n t) auto

lemma wf_cursor_table:
  "wf_storage X st \<Longrightarrow> table_all X (\<lambda>k v. length k = 64 \<and> length v = 20) t \<Longrightarrow>
     wf_storage X (st\<lparr>cursor_map := t\<rparr>)"
  by (simp add: wf_storage_def frame_simps)

lemma wf_cursor_entries: "wf_storage X st \<Longrightarrow> table_all X (\<lambda>k v. length k = 64 \<and> length v = 20) (cursor_map st)"
  by (simp add: wf_storage_def)

lemma wf_set_sync_cursor:
  "wf_storage X st \<Longrightarrow> length p = 32 \<Longrightarrow> length ns = 32 \<Longrightarrow> wf_storage X (set_sync_cursor X env p ns c st)"
  by (simp add: set_sync_cursor_def wf_cursor_table wf_cursor_entries)

lemma wf_delete_sync_cursor: "wf_storage X st \<Longrightarrow> wf_storage X (delete_sync_cursor X env p ns st)"
  by (simp add: delete_sync_cursor_def wf_cursor_table wf_cursor_entries)

lemma wf_delete_peer_cursors: "wf_storage X st \<Longrightarrow> wf_storage X (snd (delete_peer_cursors X env p st))"
  by (simp add: delete_peer_cursors_def Let_def wf_cursor_table wf_cursor_entries table_all_foldl_erase)

lemma wf_reset_all_round_counters:
  assumes "wf_storage X st"
  shows "wf_storage X (snd (reset_all_round_counters X env st))"
proof -
  have "list_all (\<lambda>(k, v). length k = 64) (mdbx_entries X (cursor_map st))"
    using wf_cursor_entries [OF assms] by (auto simp: table_all_def list_all_iff)
  from table_all_reset_loop [OF wf_cursor_entries [OF assms] this, of 0] assms show ?thesis
    by (simp add: reset_all_round_counters_def split_beta wf_cursor_table)
qed

lemma wf_cleanup_loop: "wf_storage X st \<Longrightarrow> wf_storage X (snd (cleanup_loop X env known ps (n, st)))"
proof (induction ps arbitrary: n st)
  case (Cons p ps)
  then show ?case using wf_delete_peer_cursors [OF Cons.prems, of env p] by (simp add: split_beta)
qed simp

lemma wf_cleanup_stale_cursors: "wf_storage X st \<Longrightarrow> wf_storage X (snd (cleanup_stale_cursors X env known st))"
  by (simp add: cleanup_stale_cursors_def wf_cleanup_loop)

lemma bump_keys: "fst ` set (bump ns b ts) = insert ns (fst ` set ts)"
  by (simp add: bump_def set_alist_upsert split: option.splits)

lemma aggregate_keys:
  "fst ` set ts \<subseteq> {x. length x = 32} \<Longrightarrow> fst ` set (aggregate_loop es ts) \<subseteq> {x. length x = 32}"
proof (induction es arbitrary: ts)
  case (Cons e es)
  obtain k v where e: "e = (k, v)" by (cases e)
  let ?ts = "if length k = 64 \<and> length v > 0 then bump (take 32 k) (of_nat (length v)) ts else ts"
  have "fst ` set ?ts \<subseteq> {x. length x = 32}" using Cons.prems by (simp add: bump_keys)
  from Cons.IH [OF this] show ?case by (simp only: e aggregate_loop.simps)
qed simp

lemma table_all_write_totals:
  "table_all X (\<lambda>k v. length k = 32 \<and> length v = 16) t \<Longrightarrow> fst ` set ts \<subseteq> {x. length x = 32} \<Longrightarrow>
     table_all X (\<lambda>k v. length k = 32 \<and> length v = 16)
       (foldl (\<lambda>t (ns_id, (b, c)). mdbx_upsert X t ns_id
          (encode_quota_value \<lparr>nq_total_bytes = b, nq_blob_count = c\<rparr>)) t ts)"
  by (induction ts arbitrary: t) (auto simp: split_beta)

text \<open>The rebuild returns, and leaves a well-formed state.\<close>

lemma wf_rebuild_quota_aggregates:
  assumes "wf_storage X st"
  shows "\<exists>st'. rebuild_quota_aggregates X env st = Some st' \<and> wf_storage X st'"
proof -
  obtain t0 where t0: "clear_table X (length (mdbx_entries X (quota_map st))) (quota_map st) = Some t0"
      "mdbx_entries X t0 = []"
    using clear_table_Some [of "quota_map st"] by blast
  have "fst ` set (aggregate_loop (mdbx_entries X (blobs_map st)) []) \<subseteq> {x. length x = 32}"
    by (rule aggregate_keys) simp
  from table_all_write_totals [OF table_all_no_entries [OF t0(2)] this] assms t0(1) show ?thesis
    by (simp add: rebuild_quota_aggregates_def Let_def) (simp add: wf_storage_def frame_simps)
qed

lemma wf_add_totals:
  "wf_storage X st \<Longrightarrow> fst ` set ts \<subseteq> {x. length x = 32} \<Longrightarrow>
     wf_storage X (foldl (\<lambda>s (ns_id, (b, c)). add_quota X s ns_id b c) st ts)"
  by (induction ts arbitrary: st) (auto simp: split_beta wf_add_quota)

end

definition wf_precomputed :: "'t externals \<Rightarrow> precomputed_blob \<Rightarrow> bool" where
  "wf_precomputed X pb \<longleftrightarrow>
     length (pb_target_namespace pb) = 32 \<and> length (pb_content_hash pb) = 32 \<and>
     wf_blob (pb_blob pb) \<and> pb_encoded pb = encode_blob X (pb_blob pb)"

context externals
begin

lemma wf_batch_loop:
  assumes "wf_storage X st" and "wf_io env" and "list_all (\<lambda>(pb, d). wf_precomputed X pb) items"
    and "fst ` set totals \<subseteq> {x. length x = 32}"
    and "batch_loop X env i items totals st = (rs, Inr (totals', st'))"
  shows "wf_storage X st' \<and> fst ` set totals' \<subseteq> {x. length x = 32}"
  using assms
proof (induction items arbitrary: i totals st rs)
  case (Cons item items)
  obtain pb d where item: "item = (pb, d)" by (cases item)
  show ?case
  proof (cases d)
    case (Some dup)
    obtain rs' where "batch_loop X env i items totals st = (rs', Inr (totals', st'))"
      using Cons.prems(5) by (auto simp: item Some split_beta prod_eq_iff)
    with Cons show ?thesis by simp
  next
    case None
    let ?ns = "pb_target_namespace pb" and ?h = "pb_content_hash pb" and ?b = "pb_blob pb"
    have pb: "wf_precomputed X pb" using Cons.prems(3) by (simp add: item)
    obtain e where e: "encrypt_value X st (io_nonce env i) (encode_blob X ?b) (make_blob_key ?ns ?h) = Inr e"
        "open_value X st e (make_blob_key ?ns ?h) = Inr ?b"
      by (rule seal_open [of st "io_nonce env i" "make_blob_key ?ns ?h" ?b])
        (use wf_blob_keyD [OF Cons.prems(1)] Cons.prems(2) pb in \<open>auto simp: wf_io_def wf_precomputed_def\<close>)
    define st1 where "st1 = snd (put_indexes X st ?ns ?b ?h e)"
    have st1: "wf_storage X st1" unfolding st1_def
      by (rule wf_put_indexes) (use Cons.prems(1) pb e(2) in \<open>auto simp: wf_precomputed_def\<close>)
    define ts where "ts = (if \<not> is_tombstone (bd_data ?b) then bump ?ns (of_nat (length e)) totals else totals)"
    have ts: "fst ` set ts \<subseteq> {x. length x = 32}"
      using Cons.prems(4) pb by (simp add: ts_def bump_keys wf_precomputed_def)
    obtain rs' where "batch_loop X env (Suc i) items ts st1 = (rs', Inr (totals', st'))"
      using Cons.prems(5) e(1) pb
      by (auto simp: item None split_beta prod_eq_iff wf_precomputed_def Let_def st1_def ts_def)
    then show ?thesis using Cons.IH [OF st1 Cons.prems(2) _ ts] Cons.prems(3) by simp
  qed
qed simp

lemma wf_store_blobs_atomic:
  assumes wf: "wf_storage X st" and env: "wf_io env" and pbs: "list_all (wf_precomputed X) pbs"
  shows "wf_storage X (snd (store_blobs_atomic X env pbs m q c st))"
proof -
  have "list_all (\<lambda>(pb, d). wf_precomputed X pb) (zip pbs ds)" for ds :: "store_result option list"
    using pbs by (auto simp: list_all_iff dest: set_zip_leftD)
  note loop = wf_batch_loop [OF wf env this]
  obtain rs r where bl: "batch_loop X env 0 (zip pbs (map (dedup_result X st) pbs)) [] st = (rs, r)"
    by (cases "batch_loop X env 0 (zip pbs (map (dedup_result X st) pbs)) [] st")
  have "wf_storage X (foldl (\<lambda>s (ns_id, (b, c)). add_quota X s ns_id b c) st' totals)"
    if "r = Inr (totals, st')" for totals st'
    using loop [OF _ bl [unfolded that]] by (intro wf_add_totals) auto
  then show ?thesis using wf
    by (simp add: store_blobs_atomic_def Let_def bl split: sum.splits prod.splits)
qed

end

end
