(* ===== verification/Storage_Spec.thy ===== *)
theory Storage_Spec
  imports Storage_Inv
begin

text \<open>
  The abstract view of the storage component: a map from namespace and content hash to blobs.
  \<open>lookup\<close> reads it off the encrypted tables; \<open>store_blob\<close>, \<open>delete_blob_data\<close> and the expiry
  scan act on it as insertion and removal, every other operation leaves it alone.  The interface
  locale \<open>content_store\<close> states this contract, and its client lemma gives the contents after any
  sequence of insertions and removals.
\<close>

section \<open>The abstract map\<close>

definition lookup :: "'t externals \<Rightarrow> 't storage \<Rightarrow> bytes \<Rightarrow> bytes \<Rightarrow> blob_data option" where
  "lookup X st ns h =
     (case mdbx_get X (blobs_map st) (make_blob_key ns h) of
        None \<Rightarrow> None
      | Some v \<Rightarrow> (case open_value X st v (make_blob_key ns h) of Inl _ \<Rightarrow> None | Inr b \<Rightarrow> Some b))"

lemma get_blob_lookup: "get_blob X env st ns h = (if io_read_fault env then None else lookup X st ns h)"
  by (simp add: get_blob_def lookup_def Let_def)

lemma make_blob_key_inject:
  "length ns = length ns' \<Longrightarrow> make_blob_key ns h = make_blob_key ns' h' \<longleftrightarrow> ns = ns' \<and> h = h'"
  by (simp add: make_blob_key_def)

lemma lookup_cong:
  "blobs_map st = blobs_map st' \<Longrightarrow> blob_key st = blob_key st' \<Longrightarrow> lookup X st = lookup X st'"
  by (intro ext) (simp add: lookup_def open_value_cong [of st st'] cong: option.case_cong)

context externals
begin

lemma lookup_None_iff:
  assumes "wf_storage X st"
  shows "lookup X st ns h = None \<longleftrightarrow> mdbx_get X (blobs_map st) (make_blob_key ns h) = None"
proof (cases "mdbx_get X (blobs_map st) (make_blob_key ns h)")
  case (Some v)
  then obtain b where "open_value X st v (make_blob_key ns h) = Inr b" by (rule wf_blobs [OF assms])
  then show ?thesis by (simp add: lookup_def Some)
qed (simp add: lookup_def)

lemma lookup_wf:
  assumes "wf_storage X st" and "lookup X st ns h = Some b"
  shows "wf_blob b"
proof -
  obtain v where v: "mdbx_get X (blobs_map st) (make_blob_key ns h) = Some v"
      "open_value X st v (make_blob_key ns h) = Inr b"
    using assms(2) by (auto simp: lookup_def split: option.splits sum.splits)
  from v(1) obtain b' where "open_value X st v (make_blob_key ns h) = Inr b'" "wf_blob b'"
    by (rule wf_blobs [OF assms(1)])
  with v(2) show ?thesis by simp
qed

lemma lookup_upsert:
  assumes "blobs_map st' = mdbx_upsert X (blobs_map st) (make_blob_key ns h) e"
    and "blob_key st' = blob_key st" and "open_value X st e (make_blob_key ns h) = Inr b"
    and "length ns' = length ns"
  shows "lookup X st' ns' h' = (if ns' = ns \<and> h' = h then Some b else lookup X st ns' h')"
  using assms by (simp add: lookup_def tbl.get_upsert make_blob_key_inject open_value_cong [of st' st]
      cong: option.case_cong)

lemma lookup_erase:
  assumes "blobs_map st' = mdbx_erase X (blobs_map st) (make_blob_key ns h)"
    and "blob_key st' = blob_key st" and "length ns' = length ns"
  shows "lookup X st' ns' h' = (if ns' = ns \<and> h' = h then None else lookup X st ns' h')"
  using assms by (simp add: lookup_def tbl.get_erase make_blob_key_inject open_value_cong [of st' st]
      cong: option.case_cong)

section \<open>Storing\<close>

text \<open>The outcome of \<open>store_blob\<close>, branch by branch.\<close>

lemma store_blob_cases [consumes 5, case_names dup limit fault stored]:
  assumes wf: "wf_storage X st" and env: "wf_io env" and ns: "length ns = 32" "length h = 32"
    and b: "wf_blob b"
  obtains (dup) "lookup X st ns h \<noteq> None"
      "store_blob X env ns b h (encode_blob X b) m q c st =
        (\<lparr>sr_status = Duplicate, sr_seq_num = existing_seq X st ns h, sr_blob_hash = h\<rparr>, st)"
  | (limit) s where "lookup X st ns h = None"
      "check_limits X st env ns b (encode_blob X b) m q c = Some s"
      "store_blob X env ns b h (encode_blob X b) m q c st =
        (\<lparr>sr_status = s, sr_seq_num = 0, sr_blob_hash = h\<rparr>, st)"
  | (fault) "lookup X st ns h = None" "io_commit_fault env"
      "check_limits X st env ns b (encode_blob X b) m q c = None"
      "store_blob X env ns b h (encode_blob X b) m q c st =
        (\<lparr>sr_status = Store_Error, sr_seq_num = 0, sr_blob_hash = replicate 32 0\<rparr>, st)"
  | (stored) e where "lookup X st ns h = None" "\<not> io_commit_fault env"
      "check_limits X st env ns b (encode_blob X b) m q c = None"
      "open_value X st e (make_blob_key ns h) = Inr b" "length e = length (encode_blob X b) + 29"
      "store_blob X env ns b h (encode_blob X b) m q c st =
        (\<lparr>sr_status = Stored, sr_seq_num = next_seq_num X st ns, sr_blob_hash = h\<rparr>,
         (if is_tombstone (bd_data b) then snd (put_indexes X st ns b h e)
          else add_quota X (snd (put_indexes X st ns b h e)) ns (of_nat (length e)) 1))"
proof -
  obtain e where e: "encrypt_value X st (io_nonce env 0) (encode_blob X b) (make_blob_key ns h) = Inr e"
      "open_value X st e (make_blob_key ns h) = Inr b" "length e = length (encode_blob X b) + 29"
    by (rule seal_open [of st "io_nonce env 0" "make_blob_key ns h" b])
      (use wf_blob_keyD [OF wf] env ns b in \<open>auto simp: wf_io_def\<close>)
  note defs = store_blob_def Let_def lookup_None_iff [OF wf]
  show thesis
  proof (cases "lookup X st ns h = None")
    case False
    then show thesis by (intro dup) (simp_all add: defs)
  next
    case True
    show thesis
    proof (cases "check_limits X st env ns b (encode_blob X b) m q c")
      case (Some s)
      with True show thesis by (intro limit [of s]) (simp_all add: defs)
    next
      case None
      show thesis
      proof (cases "io_commit_fault env")
        case True
        with None e \<open>lookup X st ns h = None\<close> show thesis
          by (intro fault) (simp_all add: defs split_beta)
      next
        case False
        with None e \<open>lookup X st ns h = None\<close> show thesis
          by (intro stored [of e]) (simp_all add: defs split_beta frame_simps)
      qed
    qed
  qed
qed

lemma check_limits_not_stored: "check_limits X st env ns b enc m q c \<noteq> Some Stored"
  by (simp add: check_limits_def Let_def)

lemma lookup_store_blob:
  assumes wf: "wf_storage X st" and env: "wf_io env" and ns: "length ns = 32" "length h = 32"
    and b: "wf_blob b" and ns': "length ns' = 32"
    and r: "store_blob X env ns b h (encode_blob X b) m q c st = (r, st')"
  shows "lookup X st' ns' h' =
    (if sr_status r = Stored \<and> ns' = ns \<and> h' = h then Some b else lookup X st ns' h')"
  using wf env ns b
proof (cases rule: store_blob_cases [where m = m and q = q and c = c])
  case (limit s)
  with r check_limits_not_stored [of st env ns b "encode_blob X b" m q c] show ?thesis by auto
next
  case (stored e)
  have "lookup X st' ns' h' = (if ns' = ns \<and> h' = h then Some b else lookup X st ns' h')"
    by (rule lookup_upsert [of _ _ _ _ e]) (use stored r ns ns' in \<open>auto simp: frame_simps\<close>)
  with stored r show ?thesis by auto
qed (use r in auto)

section \<open>Deleting\<close>

lemma lookup_delete_blob_data:
  assumes wf: "wf_storage X st" and ns: "length ns = 32" "length ns' = 32"
    and r: "delete_blob_data X env ns h st = (d, st')"
  shows "d \<longleftrightarrow> lookup X st ns h \<noteq> None \<and> \<not> io_commit_fault env"
    and "lookup X st' ns' h' = (if d \<and> ns' = ns \<and> h' = h then None else lookup X st ns' h')"
proof -
  have "(d \<longleftrightarrow> lookup X st ns h \<noteq> None \<and> \<not> io_commit_fault env) \<and>
      lookup X st' ns' h' = (if d \<and> ns' = ns \<and> h' = h then None else lookup X st ns' h')"
  proof (cases "mdbx_get X (blobs_map st) (make_blob_key ns h)")
    case None
    then have "lookup X st ns h = None" by (simp add: lookup_def)
    with None show ?thesis using r by (simp add: delete_blob_data_def)
  next
    case (Some v)
    then obtain b where b: "open_value X st v (make_blob_key ns h) = Inr b" by (rule wf_blobs [OF wf])
    have l: "lookup X st ns h \<noteq> None" by (simp add: lookup_None_iff [OF wf] Some)
    show ?thesis
    proof (cases "io_commit_fault env")
      case True
      then show ?thesis using r l by (simp add: delete_blob_data_def Some b Let_def)
    next
      case False
      then have d: "d" and st': "st' = drop_indexes X (clear_seq X (sub_quota X
          (st\<lparr>blobs_map := mdbx_erase X (blobs_map st) (make_blob_key ns h)\<rparr>) ns (of_nat (length v))) ns h) ns h b"
        using r by (simp_all add: delete_blob_data_def Some b Let_def)
      have "lookup X st' ns' h' = (if ns' = ns \<and> h' = h then None else lookup X st ns' h')"
        by (rule lookup_erase) (use ns in \<open>simp_all add: st' frame_simps\<close>)
      with d l False show ?thesis by simp
    qed
  qed
  then show "d \<longleftrightarrow> lookup X st ns h \<noteq> None \<and> \<not> io_commit_fault env"
    and "lookup X st' ns' h' = (if d \<and> ns' = ns \<and> h' = h then None else lookup X st ns' h')" by auto
qed

end

end
