(* ===== verification/Storage_Seq.thy ===== *)
theory Storage_Seq
  imports Storage_Spec
begin

text \<open>
  Sequence numbers.  Under the layout invariant the cursor walks of \<open>next_seq_num\<close>,
  \<open>get_hashes_by_namespace\<close>, \<open>get_blob_refs_since\<close> and the scans for a hash are filters of the
  sequence table, numbers grow, and a namespace's entries come out in their order.
\<close>

section \<open>Keys of the sequence table\<close>

lemma seq_of_make_seq_key [simp]: "length ns = 32 \<Longrightarrow> seq_of_key (make_seq_key ns s) = s"
  by (simp add: seq_of_key_def make_seq_key_def store_u64_be_eq)

lemma in_namespace_make_seq_key [simp]:
  "length ns = 32 \<Longrightarrow> length ns' = 32 \<Longrightarrow> in_namespace ns' (make_seq_key ns s) \<longleftrightarrow> ns' = ns"
  by (auto simp: in_namespace_def make_seq_key_def store_u64_be_eq)

lemma make_seq_key_of_key:
  assumes "in_namespace ns k"
  shows "make_seq_key ns (seq_of_key k) = k"
proof -
  have k: "length k = 40" "take 32 k = ns" using assms by (simp_all add: in_namespace_def)
  have l: "length (drop 32 k) = 8" using k by simp
  have "be_nat (drop 32 k) < 2 ^ 64" using be_nat_less [of "drop 32 k"] l by simp
  then have "be_bytes 8 (unat (seq_of_key k)) = drop 32 k"
    using l be_bytes_be_nat [of "drop 32 k" 8] by (simp add: seq_of_key_def read_u64_be_ptr_eq)
  then show ?thesis using append_take_drop_id [of 32 k] k(2)
    by (simp add: make_seq_key_def store_u64_be_eq)
qed

lemma make_seq_key_less [simp]: "make_seq_key ns a < make_seq_key ns b \<longleftrightarrow> a < b"
  using unsigned_less [of a, where ?'a = nat] unsigned_less [of b, where ?'a = nat]
  by (simp add: make_seq_key_def store_u64_be_eq be_bytes_less_iff word_less_nat_alt)

lemma make_seq_key_inject [simp]:
  "length ns = length ns' \<Longrightarrow> make_seq_key ns a = make_seq_key ns' b \<longleftrightarrow> ns = ns' \<and> a = b"
  by (simp add: make_seq_key_def store_u64_be_eq be_bytes_u64_inject)

lemma seq_key_less:
  "in_namespace ns k \<Longrightarrow> in_namespace ns l \<Longrightarrow> k < l \<longleftrightarrow> seq_of_key k < seq_of_key l"
  using make_seq_key_of_key [of ns k] make_seq_key_of_key [of ns l] make_seq_key_less by metis

lemma suffix_le_max:
  assumes "length d = 8"
  shows "d \<le> store_u64_be UINT64_MAX"
proof -
  have m: "be_nat (store_u64_be UINT64_MAX) = 2 ^ 64 - 1" by (simp add: store_u64_be_eq)
  have "length (store_u64_be UINT64_MAX) = length d" using assms by (simp add: store_u64_be_eq)
  from be_nat_less_iff [OF this] m be_nat_less [of d] assms show ?thesis by (simp add: not_less)
qed

lemma suffix_ge_seq: "length d = 8 \<Longrightarrow> store_u64_be s \<le> d \<longleftrightarrow> unat s \<le> be_nat d"
  using be_nat_less_iff [of d "store_u64_be s"] be_nat_unat_u64 [of s]
  by (simp add: store_u64_be_eq flip: not_less)

section \<open>Walks are filters\<close>

definition ns_entries :: "'t externals \<Rightarrow> 't storage \<Rightarrow> bytes \<Rightarrow> (bytes \<times> bytes) list" where
  "ns_entries X st ns = filter (\<lambda>e. in_namespace ns (fst e)) (mdbx_entries X (seq_map st))"

definition ref_of_entry :: "entry \<Rightarrow> blob_ref" where
  "ref_of_entry e = \<lparr>br_blob_hash = take 32 (snd e), br_seq_num = seq_of_key (fst e),
     br_blob_type = take 4 (drop 32 (snd e)), br_data_size = 0, br_timestamp = 0, br_ttl = 0\<rparr>"

context externals
begin

lemma seq_entry_width:
  "wf_storage X st \<Longrightarrow> e \<in> set (mdbx_entries X (seq_map st)) \<Longrightarrow> length (fst e) = 40 \<and> length (snd e) = 36"
  using wf_tables(2) [of st "fst e" "snd e"] by (simp add: tbl.in_entries_iff [symmetric])

lemma seq_keys_width: "wf_storage X st \<Longrightarrow> keys_width 40 (mdbx_entries X (seq_map st))"
  using seq_entry_width [of st] by (auto simp: keys_width_def list_all_iff)

lemma has_prefix_in_namespace:
  "length (fst e) = 40 \<Longrightarrow> length ns = 32 \<Longrightarrow> has_prefix ns e \<longleftrightarrow> in_namespace ns (fst e)"
  by (simp add: has_prefix_def in_namespace_def)

lemma ns_entries_prefix:
  assumes "wf_storage X st" "length ns = 32"
  shows "filter (has_prefix ns) (mdbx_entries X (seq_map st)) = ns_entries X st ns"
  unfolding ns_entries_def
  by (rule filter_cong) (use assms seq_entry_width in \<open>simp_all add: has_prefix_in_namespace\<close>)

lemma in_ns_entries:
  "(k, v) \<in> set (ns_entries X st ns) \<longleftrightarrow> mdbx_get X (seq_map st) k = Some v \<and> in_namespace ns k"
  by (auto simp: ns_entries_def tbl.in_entries_iff)

lemma ns_entries_sorted: "sorted_keys (ns_entries X st ns)"
  using entries_sorted_keys [of "seq_map st"]
  by (simp add: ns_entries_def sorted_keys_def sorted_wrt_filter sorted_wrt_map)

lemma walk_from:
  assumes wf: "wf_storage X st" and ns: "length ns = 32"
  shows "takeWhile (\<lambda>(k, v). in_namespace ns k) (lower_bound X (seq_map st) (make_seq_key ns s)) =
    filter (\<lambda>e. s \<le> seq_of_key (fst e)) (ns_entries X st ns)"
proof -
  let ?es = "mdbx_entries X (seq_map st)"
  have w: "keys_width (length ns + length (store_u64_be s)) ?es"
    using seq_keys_width [OF wf] ns by (simp add: store_u64_be_eq)
  have len: "length (fst e) = 40" if "e \<in> set ?es" for e using seq_entry_width [OF wf that] by simp
  have "takeWhile (\<lambda>(k, v). in_namespace ns k) (lower_bound X (seq_map st) (make_seq_key ns s)) =
      takeWhile (has_prefix ns) (dropWhile (\<lambda>e. fst e < ns @ store_u64_be s) ?es)"
    unfolding lower_bound_def make_seq_key_def
    by (rule takeWhile_cong) (use len ns in \<open>auto dest!: set_dropWhileD simp: has_prefix_in_namespace\<close>)
  also have "\<dots> = filter (\<lambda>e. has_prefix ns e \<and> store_u64_be s \<le> drop (length ns) (fst e)) ?es"
    by (rule prefix_scan [OF entries_sorted_keys w])
  also have "\<dots> = filter (\<lambda>e. in_namespace ns (fst e) \<and> s \<le> seq_of_key (fst e)) ?es"
  proof (rule filter_cong)
    fix e assume e: "e \<in> set ?es"
    have d: "length (drop 32 (fst e)) = 8" using len [OF e] by simp
    then have "unat (seq_of_key (fst e)) = be_nat (drop 32 (fst e))"
      using be_nat_less [of "drop 32 (fst e)"] by (simp add: seq_of_key_def read_u64_be_ptr_eq)
    then show "(has_prefix ns e \<and> store_u64_be s \<le> drop (length ns) (fst e)) =
        (in_namespace ns (fst e) \<and> s \<le> seq_of_key (fst e))"
      using len [OF e] ns suffix_ge_seq [OF d, of s]
      by (simp add: has_prefix_in_namespace word_le_nat_alt)
  qed simp
  finally show ?thesis by (simp add: ns_entries_def conj_commute)
qed

section \<open>The next number\<close>

lemma seq_step_back:
  assumes wf: "wf_storage X st" and ns: "length ns = 32"
  shows "step_back ns (before_bound X (seq_map st) (make_seq_key ns UINT64_MAX))
      (lower_bound X (seq_map st) (make_seq_key ns UINT64_MAX)) =
    (if ns_entries X st ns = [] then None else Some (last (ns_entries X st ns)))"
proof -
  let ?es = "mdbx_entries X (seq_map st)"
  have "keys_width (length ns + length (store_u64_be UINT64_MAX)) ?es"
    using seq_keys_width [OF wf] ns by (simp add: store_u64_be_eq)
  moreover have "\<forall>e \<in> set ?es. drop (length ns) (fst e) \<le> store_u64_be UINT64_MAX"
    using seq_entry_width [OF wf] ns suffix_le_max by simp
  ultimately show ?thesis
    using step_back_last [OF entries_sorted_keys] ns_entries_prefix [OF wf ns]
    by (simp add: before_bound_def lower_bound_def make_seq_key_def)
qed

lemma step_back_walk:
  assumes wf: "wf_storage X st" and ns: "length ns = 32"
  shows "(case lower_bound X (seq_map st) k of
      (key, _) # _ \<Rightarrow> if in_namespace ns key then f key
        else (case last_entry (before_bound X (seq_map st) k) of
                Some (prev, _) \<Rightarrow> if in_namespace ns prev then f prev else z
              | None \<Rightarrow> z)
    | [] \<Rightarrow> (case last_entry (mdbx_entries X (seq_map st)) of
               Some (key, _) \<Rightarrow> if in_namespace ns key then f key else z
             | None \<Rightarrow> z)) =
    (case step_back ns (before_bound X (seq_map st) k) (lower_bound X (seq_map st) k) of
       None \<Rightarrow> z | Some e \<Rightarrow> f (fst e))"
proof -
  let ?lo = "lower_bound X (seq_map st) k" and ?hi = "before_bound X (seq_map st) k"
  have split: "mdbx_entries X (seq_map st) = ?hi @ ?lo" by (simp add: bound_split)
  have p: "has_prefix ns e \<longleftrightarrow> in_namespace ns (fst e)" if "e \<in> set (?hi @ ?lo)" for e
    using seq_entry_width [OF wf, of e] that ns by (simp only: split [symmetric] has_prefix_in_namespace)
  have l: "has_prefix ns (last ?hi) \<longleftrightarrow> in_namespace ns (fst (last ?hi))" if "?hi \<noteq> []"
    using p [of "last ?hi"] that by simp
  show ?thesis
  proof (cases ?lo)
    case Nil
    then show ?thesis using split l by (auto simp: step_back_def last_entry_def split_beta)
  next
    case (Cons e es)
    then show ?thesis using l p [of e] by (auto simp: step_back_def last_entry_def split_beta)
  qed
qed

lemma next_seq_num_eq:
  assumes "wf_storage X st" and "length ns = 32"
  shows "next_seq_num X st ns =
    (if ns_entries X st ns = [] then 1 else seq_of_key (fst (last (ns_entries X st ns))) + 1)"
  unfolding next_seq_num_def Let_def
  using step_back_walk [OF assms, where f = "\<lambda>k. seq_of_key k + 1" and z = 1] seq_step_back [OF assms]
  by simp

lemma latest_seq_eq:
  assumes "wf_storage X st" and "length ns = 32"
  shows "latest_seq X st ns =
    (if ns_entries X st ns = [] then 0 else seq_of_key (fst (last (ns_entries X st ns))))"
  unfolding latest_seq_def Let_def
  using step_back_walk [OF assms, where f = seq_of_key and z = 0] seq_step_back [OF assms]
  by simp

lemma last_is_max:
  assumes "e \<in> set (ns_entries X st ns)"
  shows "seq_of_key (fst e) \<le> seq_of_key (fst (last (ns_entries X st ns)))"
proof -
  let ?es = "ns_entries X st ns"
  have ne: "?es \<noteq> []" using assms by auto
  have "e = last ?es \<or> fst e < fst (last ?es)"
    by (rule sorted_keys_last [OF ns_entries_sorted assms])
  moreover have "in_namespace ns (fst x)" if "x \<in> set ?es" for x
    using that by (simp add: ns_entries_def)
  ultimately show ?thesis
    using seq_key_less [of ns "fst e" "fst (last ?es)"] assms last_in_set [OF ne] by fastforce
qed

lemma next_seq_num_greater:
  assumes wf: "wf_storage X st" and ns: "length ns = 32" and e: "e \<in> set (ns_entries X st ns)"
    and nz: "next_seq_num X st ns \<noteq> 0"
  shows "seq_of_key (fst e) < next_seq_num X st ns"
proof -
  let ?m = "seq_of_key (fst (last (ns_entries X st ns)))"
  have n: "next_seq_num X st ns = ?m + 1" using e by (auto simp: next_seq_num_eq [OF wf ns])
  then have "?m < next_seq_num X st ns" using nz by (simp add: word_less_nat_alt unatSuc add.commute)
  with last_is_max [OF e] show ?thesis by simp
qed

lemma ns_entries_append:
  assumes wf: "wf_storage X st" and ns: "length ns = 32" "length ns' = 32"
    and nz: "next_seq_num X st ns \<noteq> 0"
    and st': "seq_map st' = mdbx_upsert X (seq_map st) (make_seq_key ns (next_seq_num X st ns)) v"
  shows "ns_entries X st' ns' =
    ns_entries X st ns' @ (if ns' = ns then [(make_seq_key ns (next_seq_num X st ns), v)] else [])"
proof (rule sorted_keys_unique)
  let ?k = "make_seq_key ns (next_seq_num X st ns)"
  have lt: "fst e < ?k" if "e \<in> set (ns_entries X st ns)" for e
    using next_seq_num_greater [OF wf ns(1) that nz] that seq_key_less [of ns "fst e" ?k] ns
    by (auto simp: ns_entries_def)
  then show "sorted_keys (ns_entries X st ns' @ (if ns' = ns then [(?k, v)] else []))"
    using ns_entries_sorted [of st ns'] by (auto simp: sorted_keys_append sorted_keys_Cons)
  have "mdbx_get X (seq_map st) ?k = None"
  proof (rule ccontr)
    assume "mdbx_get X (seq_map st) ?k \<noteq> None"
    then obtain u where "(?k, u) \<in> set (ns_entries X st ns)" using ns by (auto simp: in_ns_entries)
    from lt [OF this] show False by simp
  qed
  then have "(k, u) \<in> set (ns_entries X st' ns') \<longleftrightarrow>
      (k, u) \<in> set (ns_entries X st ns' @ (if ns' = ns then [(?k, v)] else []))" for k u
    using ns by (auto simp: in_ns_entries st' tbl.get_upsert)
  then show "set (ns_entries X st' ns') =
      set (ns_entries X st ns' @ (if ns' = ns then [(?k, v)] else []))" by auto
qed (rule ns_entries_sorted)

lemma ns_entries_update:
  assumes "mdbx_get X (seq_map st) k = Some u"
    and st': "seq_map st' = mdbx_upsert X (seq_map st) k v"
  shows "ns_entries X st' ns = map (\<lambda>e. if fst e = k then (k, v) else e) (ns_entries X st ns)"
proof (rule sorted_keys_unique)
  have "map fst (map (\<lambda>e. if fst e = k then (k, v) else e) es) = map fst es" for es :: "entry list"
    by (induction es) simp_all
  then show "sorted_keys (map (\<lambda>e. if fst e = k then (k, v) else e) (ns_entries X st ns))"
    using ns_entries_sorted [of st ns] by (simp only: sorted_keys_def)
  have "(l, w) \<in> set (ns_entries X st' ns) \<longleftrightarrow>
      (l, w) \<in> (\<lambda>e. if fst e = k then (k, v) else e) ` set (ns_entries X st ns)" for l w
    using assms(1) by (auto simp: in_ns_entries st' tbl.get_upsert image_iff split: if_splits)
  then show "set (ns_entries X st' ns) =
      set (map (\<lambda>e. if fst e = k then (k, v) else e) (ns_entries X st ns))" by auto
qed (rule ns_entries_sorted)

lemma ns_entries_cong: "seq_map st = seq_map st' \<Longrightarrow> ns_entries X st = ns_entries X st'"
  by (intro ext) (simp add: ns_entries_def)

section \<open>Listing a namespace\<close>

lemma hashes_loop_eq:
  "hashes_loop ns es = map (take 32 \<circ> snd)
     (filter (\<lambda>(k, v). length v = 36 \<and> take 32 v \<noteq> zero_hash) (takeWhile (\<lambda>(k, v). in_namespace ns k) es))"
  by (induction ns es rule: hashes_loop.induct) (simp_all add: in_namespace_def)

lemma get_hashes_by_namespace_eq:
  assumes wf: "wf_storage X st" and ns: "length ns = 32" and ok: "\<not> io_read_fault env"
  shows "get_hashes_by_namespace X env st ns =
    map (take 32 \<circ> snd) (filter (\<lambda>e. 1 \<le> seq_of_key (fst e) \<and> take 32 (snd e) \<noteq> zero_hash)
      (ns_entries X st ns))"
proof -
  have "length (snd e) = 36" if "e \<in> set (ns_entries X st ns)" for e
    using that seq_entry_width [OF wf, of e] by (simp add: ns_entries_def)
  then show ?thesis using ok
    by (simp add: get_hashes_by_namespace_def hashes_loop_eq walk_from [OF wf ns] split_beta)
      (rule arg_cong [where f = "map _"], rule filter_cong, auto)
qed

lemma refs_loop_eq:
  assumes "list_all (\<lambda>(k, v). length v = 36) es" and "mx = 0 \<or> length acc < mx"
  shows "refs_loop ns mx acc es = acc @
    (let refs = map ref_of_entry (filter (\<lambda>e. take 32 (snd e) \<noteq> zero_hash)
           (takeWhile (\<lambda>(k, v). in_namespace ns k) es))
     in if mx = 0 then refs else take (mx - length acc) refs)"
  using assms
proof (induction es arbitrary: acc)
  case (Cons e es)
  obtain k v where e: "e = (k, v)" by (cases e)
  let ?acc = "acc @ [ref_of_entry e]"
  show ?case
  proof (cases "in_namespace ns k \<and> take 32 v \<noteq> zero_hash")
    case True
    show ?thesis
    proof (cases "mx > 0 \<and> length ?acc \<ge> mx")
      case True
      then have "mx - length acc = 1" using Cons.prems(2) by auto
      with True \<open>in_namespace ns k \<and> take 32 v \<noteq> zero_hash\<close> Cons.prems show ?thesis
        by (simp add: e in_namespace_def ref_of_entry_def)
    next
      case False
      then have "refs_loop ns mx acc (e # es) = refs_loop ns mx ?acc es"
        using True Cons.prems by (auto simp: e in_namespace_def ref_of_entry_def)
      also have "\<dots> = ?acc @ (let refs = map ref_of_entry (filter (\<lambda>e. take 32 (snd e) \<noteq> zero_hash)
           (takeWhile (\<lambda>(k, v). in_namespace ns k) es))
         in if mx = 0 then refs else take (mx - length ?acc) refs)"
        using False Cons.prems by (intro Cons.IH) auto
      finally show ?thesis using True False Cons.prems
        by (auto simp: e Let_def take_Cons' Suc_diff_Suc)
    qed
  next
    case False
    then show ?thesis using Cons by (auto simp: e in_namespace_def)
  qed
qed simp

lemma succ_le_iff: "s + 1 \<noteq> 0 \<Longrightarrow> s + 1 \<le> t \<longleftrightarrow> s < (t :: u64)"
  by (simp add: word_le_nat_alt word_less_nat_alt unatSuc add.commute Suc_le_eq)

lemma get_blob_refs_since_eq:
  assumes wf: "wf_storage X st" and ns: "length ns = 32" and ok: "\<not> io_read_fault env"
    and since: "since + 1 \<noteq> 0"
  shows "get_blob_refs_since X env st ns since mx =
    (let refs = map ref_of_entry (filter (\<lambda>e. since < seq_of_key (fst e) \<and> take 32 (snd e) \<noteq> zero_hash)
           (ns_entries X st ns))
     in if mx = 0 then refs else take (unat mx) refs)"
proof -
  have w: "list_all (\<lambda>(k, v). length v = 36) (lower_bound X (seq_map st) k)" for k
    using seq_entry_width [OF wf]
    by (auto simp: list_all_iff lower_bound_def dest!: set_dropWhileD)
  have "filter (\<lambda>e. take 32 (snd e) \<noteq> zero_hash)
      (filter (\<lambda>e. since + 1 \<le> seq_of_key (fst e)) (ns_entries X st ns)) =
      filter (\<lambda>e. since < seq_of_key (fst e) \<and> take 32 (snd e) \<noteq> zero_hash) (ns_entries X st ns)"
    by (simp add: succ_le_iff [OF since] conj_commute)
  moreover have "unat mx = 0 \<longleftrightarrow> mx = 0" by (simp add: unat_eq_0)
  ultimately show ?thesis
    unfolding get_blob_refs_since_def
    by (subst refs_loop_eq) (auto simp: w walk_from [OF wf ns] ok Let_def)
qed

end

end
