(* ===== verification/Storage_Expiry.thy ===== *)
theory Storage_Expiry
  imports Storage_Seq
begin

text \<open>
  The expiry scan.  \<open>expiry_exact\<close> says that the expiry table lists exactly the stored blobs with
  a TTL, each under its expiry time; storing, deleting and the scan itself keep it, and under it
  the scan removes exactly the expired blobs.
\<close>

section \<open>Keys of the expiry table\<close>

lemma read_make_expiry_key [simp]: "read_u64_be_ptr (make_expiry_key t h) = t"
  by (simp add: make_expiry_key_def store_u64_be_eq)

lemma drop_make_expiry_key [simp]: "drop 8 (make_expiry_key t h) = h"
  by (simp add: make_expiry_key_def store_u64_be_eq)

lemma make_expiry_key_inject [simp]: "make_expiry_key t h = make_expiry_key t' h' \<longleftrightarrow> t = t' \<and> h = h'"
  by (metis read_make_expiry_key drop_make_expiry_key)

lemma make_expiry_key_of_key:
  assumes "8 \<le> length k"
  shows "make_expiry_key (read_u64_be_ptr k) (drop 8 k) = k"
proof -
  have l: "length (take 8 k) = 8" using assms by simp
  have "be_nat (take 8 k) < 2 ^ 64" using be_nat_less [of "take 8 k"] l by simp
  then have "be_bytes 8 (unat (read_u64_be_ptr k)) = take 8 k"
    using l be_bytes_be_nat [of "take 8 k" 8] assms by (simp add: read_u64_be_ptr_eq)
  then show ?thesis by (simp add: make_expiry_key_def store_u64_be_eq)
qed

lemma expiry_key_mono:
  assumes "length k = length l" and "8 \<le> length k" and "k < l"
  shows "read_u64_be_ptr k \<le> read_u64_be_ptr l"
proof -
  have le: "take 8 k \<le> take 8 l" using key_less_iff [of k l 8] assms by auto
  have "be_nat (take 8 k) \<le> be_nat (take 8 l)"
    using be_nat_less_iff [of "take 8 l" "take 8 k"] le assms by (simp flip: not_less)
  moreover have "be_nat (take 8 l) < 2 ^ 64" using be_nat_less [of "take 8 l"] assms by simp
  ultimately show ?thesis using assms
    by (simp add: read_u64_be_ptr_eq word_le_nat_alt)
qed

section \<open>The expiry index\<close>

definition expiry_exact :: "'t externals \<Rightarrow> 't storage \<Rightarrow> bool" where
  "expiry_exact X st \<longleftrightarrow>
     (\<forall>t h ns. length h = 32 \<longrightarrow> length ns = 32 \<longrightarrow>
        (mdbx_get X (expiry_map st) (make_expiry_key t h) = Some ns \<longleftrightarrow>
         (\<exists>b. lookup X st ns h = Some b \<and> bd_ttl b > 0 \<and>
            saturating_expiry (bd_timestamp b) (bd_ttl b) = t)))"

definition due :: "u64 \<Rightarrow> entry \<Rightarrow> bool" where
  "due now e \<longleftrightarrow> read_u64_be_ptr (fst e) \<le> now"

lemma expiry_loop_Cons:
  assumes "length (fst e) = 40"
  shows "expiry_loop X now (e # es) (n, st) =
    (if \<not> due now e then (n, Inr st)
     else case purge_blob X st (snd e) (drop 8 (fst e)) of
       Inl err \<Rightarrow> (n, Inl err)
     | Inr st1 \<Rightarrow> expiry_loop X now es
         (Suc n, st1\<lparr>expiry_map := mdbx_erase X (expiry_map st1) (fst e)\<rparr>))"
proof -
  obtain k v where e: "e = (k, v)" by (cases e)
  show ?thesis using assms unfolding e fst_conv snd_conv by (simp add: due_def not_le)
qed

context externals
begin

lemma purge_blob_ok:
  assumes wf: "wf_storage X st" and ns: "length ns = 32"
  obtains st' where "purge_blob X st ns h = Inr st'" and "wf_storage X st'"
    and "\<forall>ns' h'. length ns' = 32 \<longrightarrow>
      lookup X st' ns' h' = (if ns' = ns \<and> h' = h then None else lookup X st ns' h')"
    and "expiry_map st' = expiry_map st" and "seq_map st' = seq_map st"
    and "owner_pubkeys_map st' = owner_pubkeys_map st" and "delegation_map st' = delegation_map st"
proof (cases "mdbx_get X (blobs_map st) (make_blob_key ns h)")
  case None
  then have "lookup X st ns h = None" by (simp add: lookup_def)
  then show ?thesis using None wf by (intro that [of st]) (auto simp: purge_blob_def)
next
  case (Some v)
  then obtain b where b: "open_value X st v (make_blob_key ns h) = Inr b" by (rule wf_blobs [OF wf])
  let ?k = "make_blob_key ns h"
  define st1 where "st1 = (if is_tombstone (bd_data b)
      then st\<lparr>tombstone_map := mdbx_erase X (tombstone_map st) (make_blob_key ns (extract_tombstone_target (bd_data b)))\<rparr>
      else st)"
  define st2 where "st2 = st1\<lparr>blobs_map := mdbx_erase X (blobs_map st1) ?k\<rparr>"
  define st' where "st' = (if \<not> is_tombstone (bd_data b) then sub_quota X st2 ns (of_nat (length v)) else st2)"
  have p: "purge_blob X st ns h = Inr st'"
    by (simp add: purge_blob_def Some b Let_def st1_def st2_def st'_def)
  have m: "blobs_map st' = mdbx_erase X (blobs_map st) ?k" "blob_key st' = blob_key st"
    "expiry_map st' = expiry_map st" "seq_map st' = seq_map st"
    "owner_pubkeys_map st' = owner_pubkeys_map st" "delegation_map st' = delegation_map st"
    by (simp_all add: st'_def st2_def st1_def frame_simps)
  show ?thesis
    by (rule that [of st'])
      (use p m wf_purge_blob [OF wf ns p] ns in \<open>simp_all add: lookup_erase [OF m(1,2)]\<close>)
qed

lemma expiry_loop_ok:
  assumes "wf_storage X st" and "list_all (\<lambda>e. length (fst e) = 40 \<and> length (snd e) = 32) es"
  shows "\<exists>st'. expiry_loop X now es (n, st) = (n + length (takeWhile (due now) es), Inr st') \<and>
    wf_storage X st' \<and>
    (\<forall>ns h. length ns = 32 \<longrightarrow> lookup X st' ns h =
       (if \<exists>e \<in> set (takeWhile (due now) es). snd e = ns \<and> drop 8 (fst e) = h then None
        else lookup X st ns h)) \<and>
    (\<forall>k. mdbx_get X (expiry_map st') k =
       (if k \<in> fst ` set (takeWhile (due now) es) then None else mdbx_get X (expiry_map st) k)) \<and>
    seq_map st' = seq_map st \<and> owner_pubkeys_map st' = owner_pubkeys_map st"
  using assms
proof (induction es arbitrary: n st)
  case (Cons e es)
  show ?case
  proof (cases "due now e")
    case False
    then show ?thesis using Cons.prems by (simp add: expiry_loop_Cons)
  next
    case True
    have len: "length (fst e) = 40" "length (snd e) = 32" using Cons.prems(2) by simp_all
    obtain st1 where p: "purge_blob X st (snd e) (drop 8 (fst e)) = Inr st1" "wf_storage X st1"
      and l: "\<forall>ns' h'. length ns' = 32 \<longrightarrow> lookup X st1 ns' h' =
        (if ns' = snd e \<and> h' = drop 8 (fst e) then None else lookup X st ns' h')"
      and m: "expiry_map st1 = expiry_map st" "seq_map st1 = seq_map st"
        "owner_pubkeys_map st1 = owner_pubkeys_map st" "delegation_map st1 = delegation_map st"
      by (rule purge_blob_ok [OF Cons.prems(1) len(2), of "drop 8 (fst e)"])
    let ?st2 = "st1\<lparr>expiry_map := mdbx_erase X (expiry_map st1) (fst e)\<rparr>"
    have "lookup X ?st2 = lookup X st1" by (rule lookup_cong) simp_all
    with l have l2: "\<And>ns' h'. length ns' = 32 \<Longrightarrow> lookup X ?st2 ns' h' =
        (if ns' = snd e \<and> h' = drop 8 (fst e) then None else lookup X st ns' h')" by simp
    have "list_all (\<lambda>e. length (fst e) = 40 \<and> length (snd e) = 32) es" using Cons.prems(2) by simp
    from Cons.IH [OF wf_erase_expiry [OF p(2), of "fst e"] this, of "Suc n"]
    obtain st' where st': "expiry_loop X now es (Suc n, ?st2) =
        (Suc n + length (takeWhile (due now) es), Inr st')" "wf_storage X st'"
      "\<forall>ns h. length ns = 32 \<longrightarrow> lookup X st' ns h =
         (if \<exists>e \<in> set (takeWhile (due now) es). snd e = ns \<and> drop 8 (fst e) = h then None
          else lookup X ?st2 ns h)"
      "\<forall>k. mdbx_get X (expiry_map st') k =
         (if k \<in> fst ` set (takeWhile (due now) es) then None else mdbx_get X (expiry_map ?st2) k)"
      "seq_map st' = seq_map ?st2" "owner_pubkeys_map st' = owner_pubkeys_map ?st2" by blast
    show ?thesis
    proof (intro exI [of _ st'] conjI allI impI)
      show "expiry_loop X now (e # es) (n, st) = (n + length (takeWhile (due now) (e # es)), Inr st')"
        using True p st'(1) len by (simp add: expiry_loop_Cons)
      fix ns h :: bytes assume "length ns = 32"
      then show "lookup X st' ns h = (if \<exists>e \<in> set (takeWhile (due now) (e # es)).
          snd e = ns \<and> drop 8 (fst e) = h then None else lookup X st ns h)"
        using st'(3) l2 True by auto
    next
      fix k
      show "mdbx_get X (expiry_map st') k = (if k \<in> fst ` set (takeWhile (due now) (e # es))
          then None else mdbx_get X (expiry_map st) k)"
        using st'(4) True m by (simp add: tbl.get_erase)
    qed (use st' m in simp_all)
  qed
qed simp

lemma due_prefix:
  assumes wf: "wf_storage X st"
  shows "set (takeWhile (due now) (mdbx_entries X (expiry_map st))) =
    {e \<in> set (mdbx_entries X (expiry_map st)). due now e}"
proof -
  let ?es = "mdbx_entries X (expiry_map st)"
  have "takeWhile (due now) ?es = filter (due now) ?es"
  proof (rule takeWhile_filter [OF entries_sorted_keys])
    fix x y assume xy: "x \<in> set ?es" "y \<in> set ?es" "fst x < fst y" "due now y"
    have "length (fst e) = 40" if "e \<in> set ?es" for e
      using wf_tables(3) [OF wf, of "fst e" "snd e"] that by (simp add: tbl.in_entries_iff [symmetric])
    with xy show "due now x" using expiry_key_mono [of "fst x" "fst y"] by (simp add: due_def)
  qed
  then show ?thesis by simp
qed

lemma due_iff:
  assumes wf: "wf_storage X st" and ex: "expiry_exact X st" and "length ns = 32" "length h = 32"
  shows "(\<exists>e \<in> set (takeWhile (due now) (mdbx_entries X (expiry_map st))). snd e = ns \<and> drop 8 (fst e) = h)
    \<longleftrightarrow> (\<exists>b. lookup X st ns h = Some b \<and> is_blob_expired b now)"
proof -
  have key: "make_expiry_key (read_u64_be_ptr k) (drop 8 k) = k"
    if "mdbx_get X (expiry_map st) k = Some v" for k v
    using wf_tables(3) [OF wf that] by (intro make_expiry_key_of_key) simp
  have "(\<exists>e \<in> set (takeWhile (due now) (mdbx_entries X (expiry_map st))). snd e = ns \<and> drop 8 (fst e) = h)
    \<longleftrightarrow> (\<exists>t \<le> now. mdbx_get X (expiry_map st) (make_expiry_key t h) = Some ns)"
    (is "?L \<longleftrightarrow> ?R")
  proof
    assume ?L
    then obtain k where k: "mdbx_get X (expiry_map st) k = Some ns" "read_u64_be_ptr k \<le> now" "drop 8 k = h"
      by (auto simp: due_prefix [OF wf] due_def tbl.in_entries_iff)
    with key [OF k(1)] show ?R by metis
  next
    assume ?R
    then show ?L by (force simp: due_prefix [OF wf] due_def tbl.in_entries_iff)
  qed
  then show ?thesis using ex assms(3,4)
    by (auto simp: expiry_exact_def is_blob_expired_def word_gt_0)
qed

lemma expiry_scan_lookup:
  assumes wf: "wf_storage X st" and ex: "expiry_exact X st" and ok: "\<not> io_commit_fault env"
    and r: "run_expiry_scan X env st = (n, st')"
  shows "length ns = 32 \<Longrightarrow> length h = 32 \<Longrightarrow> lookup X st' ns h =
      (case lookup X st ns h of None \<Rightarrow> None
       | Some b \<Rightarrow> if is_blob_expired b (io_now env) then None else Some b)"
    and "expiry_exact X st'" and "wf_storage X st'" and "seq_map st' = seq_map st"
    and "owner_pubkeys_map st' = owner_pubkeys_map st"
proof -
  let ?es = "mdbx_entries X (expiry_map st)" and ?now = "io_now env"
  have "list_all (\<lambda>e. length (fst e) = 40 \<and> length (snd e) = 32) ?es"
    using wf_tables(3) [OF wf] by (auto simp: list_all_iff tbl.in_entries_iff)
  from expiry_loop_ok [OF wf this, of ?now 0] obtain s
    where s: "expiry_loop X ?now ?es (0, st) = (0 + length (takeWhile (due ?now) ?es), Inr s)"
      and s': "wf_storage X s" "\<forall>ns h. length ns = 32 \<longrightarrow> lookup X s ns h =
       (if \<exists>e \<in> set (takeWhile (due ?now) ?es). snd e = ns \<and> drop 8 (fst e) = h then None
        else lookup X st ns h)"
      "\<forall>k. mdbx_get X (expiry_map s) k =
       (if k \<in> fst ` set (takeWhile (due ?now) ?es) then None else mdbx_get X (expiry_map st) k)"
      "seq_map s = seq_map st" "owner_pubkeys_map s = owner_pubkeys_map st" by blast
  have "s = st'" using r ok by (simp add: run_expiry_scan_def s)
  with s' have st': "wf_storage X st'" "seq_map st' = seq_map st" "owner_pubkeys_map st' = owner_pubkeys_map st"
    and l: "\<forall>ns h. length ns = 32 \<longrightarrow> lookup X st' ns h =
       (if \<exists>e \<in> set (takeWhile (due ?now) ?es). snd e = ns \<and> drop 8 (fst e) = h then None
        else lookup X st ns h)"
    and k: "\<forall>k. mdbx_get X (expiry_map st') k =
       (if k \<in> fst ` set (takeWhile (due ?now) ?es) then None else mdbx_get X (expiry_map st) k)"
    by simp_all
  show look: "lookup X st' ns h = (case lookup X st ns h of None \<Rightarrow> None
       | Some b \<Rightarrow> if is_blob_expired b ?now then None else Some b)"
    if "length ns = 32" "length h = 32" for ns h
    using l that due_iff [OF wf ex that, of ?now] by (auto split: option.splits)
  have "make_expiry_key t h \<in> fst ` set (takeWhile (due ?now) ?es) \<longleftrightarrow>
      t \<le> ?now \<and> mdbx_get X (expiry_map st) (make_expiry_key t h) \<noteq> None" for t h
  proof -
    have "k \<in> fst ` {e \<in> S. due ?now e} \<longleftrightarrow> read_u64_be_ptr k \<le> ?now \<and> k \<in> fst ` S"
      for k and S :: "entry set"
      by (auto simp: due_def)
    then show ?thesis by (simp only: due_prefix [OF wf] tbl.keys_iff read_make_expiry_key)
  qed
  note mem = this
  show "expiry_exact X st'"
    unfolding expiry_exact_def
  proof (intro allI impI)
    fix t and h ns :: bytes assume len: "length h = 32" "length ns = 32"
    have base: "mdbx_get X (expiry_map st) (make_expiry_key t h) = Some ns \<longleftrightarrow>
        (\<exists>b. lookup X st ns h = Some b \<and> bd_ttl b > 0 \<and> saturating_expiry (bd_timestamp b) (bd_ttl b) = t)"
      using ex len unfolding expiry_exact_def by blast
    have "mdbx_get X (expiry_map st') (make_expiry_key t h) = Some ns \<longleftrightarrow>
        \<not> t \<le> ?now \<and> mdbx_get X (expiry_map st) (make_expiry_key t h) = Some ns"
      using k mem [of t h] by auto
    then show "mdbx_get X (expiry_map st') (make_expiry_key t h) = Some ns \<longleftrightarrow>
        (\<exists>b. lookup X st' ns h = Some b \<and> bd_ttl b > 0 \<and> saturating_expiry (bd_timestamp b) (bd_ttl b) = t)"
      unfolding base look [OF len(2,1)]
      by (cases "lookup X st ns h") (auto simp: is_blob_expired_def word_gt_0)
  qed
  show "wf_storage X st'" "seq_map st' = seq_map st" "owner_pubkeys_map st' = owner_pubkeys_map st"
    by fact+
qed

end

end
