(* ===== verification/Storage_Namespaces.thy ===== *)
theory Storage_Namespaces
  imports Storage_Seq
begin

text \<open>
  \<open>list_namespaces\<close> visits the sequence table by jumps: from the first entry of a namespace to its
  last, then to the first entry of the next namespace.  Under the layout invariant the jumps end
  within one step per entry and list every namespace once, in order, with its largest sequence
  number.
\<close>

section \<open>The successor of a namespace\<close>

lemma increment_rev_Some:
  "increment_rev r = Some r' \<Longrightarrow> length r' = length r \<and> be_nat (rev r') = be_nat (rev r) + 1"
proof (induction r arbitrary: r')
  case (Cons b bs)
  show ?case
  proof (cases "b < 0xFF")
    case True
    then have "unat (b + 1) = unat b + 1"
      using unat_word_ariths(1) [of b 1] by (simp add: word_less_nat_alt)
    with True Cons.prems show ?thesis by (auto simp: be_nat_append)
  next
    case False
    then have "unat b = 255" using unat_byte_le [of b] by (simp add: word_less_nat_alt)
    with False Cons show ?thesis by (auto simp: be_nat_append)
  qed
qed simp

lemma increment_rev_None: "increment_rev r = None \<Longrightarrow> be_nat (rev r) + 1 = 256 ^ length r"
proof (induction r)
  case (Cons b bs)
  have b: "\<not> b < 0xFF" using Cons.prems by (auto split: if_splits)
  then have "unat b = 255" using unat_byte_le [of b] by (simp add: word_less_nat_alt)
  with b Cons show ?case by (auto simp: be_nat_append split: if_splits)
qed simp

lemma next_namespace_Some:
  assumes "next_namespace ns = Some n"
  shows "length n = length ns" and "length m = length ns \<Longrightarrow> n \<le> m \<longleftrightarrow> ns < m"
proof -
  obtain r where r: "increment_rev (rev ns) = Some r" "n = rev r"
    using assms by (auto simp: next_namespace_def)
  show l: "length n = length ns" using increment_rev_Some [OF r(1)] r(2) by simp
  show "n \<le> m \<longleftrightarrow> ns < m" if m: "length m = length ns"
  proof -
    have "m < n \<longleftrightarrow> be_nat m < be_nat n" "ns < m \<longleftrightarrow> be_nat ns < be_nat m"
      using be_nat_less_iff [of m n] be_nat_less_iff [of ns m] l m by simp_all
    moreover have "be_nat n = be_nat ns + 1" using increment_rev_Some [OF r(1)] r(2) by simp
    ultimately show ?thesis by (auto simp: not_less [symmetric])
  qed
qed

lemma next_namespace_None:
  assumes "next_namespace ns = None" and "length m = length ns"
  shows "\<not> ns < m"
  using increment_rev_None [of "rev ns"] assms be_nat_less [of m] be_nat_less_iff [of ns m]
  by (simp add: next_namespace_def)

lemma zeros_least: "replicate (length d) (0 :: byte) \<le> d"
  by (induction d) (auto simp: word_neq_0_conv)

section \<open>The listing\<close>

definition namespace_of :: "entry \<Rightarrow> bytes" where
  "namespace_of e = take 32 (fst e)"

definition info_of :: "'t externals \<Rightarrow> 't storage \<Rightarrow> bytes \<Rightarrow> namespace_info" where
  "info_of X st ns = \<lparr>ni_namespace_id = ns, ni_latest_seq_num = latest_seq X st ns\<rparr>"

definition namespaces_of :: "entry list \<Rightarrow> bytes list" where
  "namespaces_of es = remdups_adj (map namespace_of es)"

lemma namespaces_of_Cons:
  "namespaces_of (e # es) = namespace_of e # namespaces_of (dropWhile (\<lambda>x. namespace_of x = namespace_of e) es)"
  by (simp add: namespaces_of_def remdups_adj_Cons' dropWhile_map comp_def)

lemma namespace_mono:
  assumes "sorted_keys (e # es)" and "keys_width 40 (e # es)" and "x \<in> set es"
  shows "namespace_of e \<le> namespace_of x"
proof -
  have "fst e < fst x" "length (fst e) = length (fst x)"
    using assms by (auto simp: sorted_keys_Cons keys_width_def list_all_iff)
  then show ?thesis using key_less_iff [of "fst e" "fst x" 32] by (auto simp: namespace_of_def)
qed

lemma dropWhile_namespace:
  assumes s: "sorted_keys es" and w: "keys_width 40 es" and b: "\<forall>x \<in> set es. ns \<le> namespace_of x"
  shows "dropWhile (\<lambda>x. namespace_of x = ns) es = filter (\<lambda>x. ns < namespace_of x) es"
  using assms
proof (induction es)
  case (Cons e es)
  show ?case
  proof (cases "namespace_of e = ns")
    case True
    then show ?thesis using Cons by (simp add: sorted_keys_Cons)
  next
    case False
    then have lt: "ns < namespace_of e" using Cons.prems(3) by auto
    then have "ns < namespace_of x" if "x \<in> set es" for x
      using namespace_mono [OF Cons.prems(1,2) that] by simp
    then show ?thesis using False lt by simp
  qed
qed simp

context externals
begin

lemma jump_eq:
  assumes wf: "wf_storage X st" and n: "next_namespace ns = Some n" and ns: "length ns = 32"
  shows "lower_bound X (seq_map st) (make_seq_key n 0) =
    filter (\<lambda>x. ns < namespace_of x) (mdbx_entries X (seq_map st))"
proof -
  let ?es = "mdbx_entries X (seq_map st)"
  have l: "length n = 32" using next_namespace_Some(1) [OF n] ns by simp
  have z: "make_seq_key n 0 = n @ replicate 8 0"
    by (simp add: make_seq_key_def store_u64_be_eq)
  have "make_seq_key n 0 \<le> fst x \<longleftrightarrow> ns < namespace_of x" if x: "x \<in> set ?es" for x
  proof -
    have w: "length (fst x) = 40" using seq_entry_width [OF wf x] by simp
    have "fst x < n @ replicate 8 0 \<longleftrightarrow> namespace_of x < n"
      using prefix_bound_less [of "fst x" n "replicate 8 0"] w l zeros_least [of "drop 32 (fst x)"]
      by (auto simp: namespace_of_def not_less [symmetric])
    then show ?thesis
      using next_namespace_Some(2) [OF n, of "namespace_of x"] w ns
      by (simp add: z namespace_of_def not_less [symmetric])
  qed
  then show ?thesis
    by (auto simp: lower_bound_def dropWhile_filter [OF entries_sorted_keys] intro: filter_cong)
qed

lemma namespaces_loop_eq:
  assumes wf: "wf_storage X st"
    and "es = filter (\<lambda>x. P (namespace_of x)) (mdbx_entries X (seq_map st))"
    and "\<And>a b. P a \<Longrightarrow> a < b \<Longrightarrow> P b" and "length es \<le> n"
  shows "namespaces_loop X st n es = Some (map (info_of X st) (namespaces_of es))"
  using assms(2-)
proof (induction n arbitrary: es P)
  case (Suc n)
  show ?case
  proof (cases es)
    case (Cons e rest)
    let ?E = "mdbx_entries X (seq_map st)" and ?ns = "namespace_of e"
    have s: "sorted_keys es" unfolding Suc.prems(1)
      using entries_sorted_keys [of "seq_map st"] by (simp add: sorted_keys_def sorted_wrt_filter sorted_wrt_map)
    have w: "keys_width 40 es" unfolding Suc.prems(1)
      using seq_entry_width [OF wf] by (auto simp: keys_width_def list_all_iff)
    have e: "e \<in> set es" by (simp add: Cons)
    have len: "length (fst e) = 40" using w Cons by simp
    have ns: "length ?ns = 32" using len by (simp add: namespace_of_def)
    have le: "\<forall>x \<in> set rest. ?ns \<le> namespace_of x" using namespace_mono s w Cons by blast
    have P: "P ?ns" using e Suc.prems(1) by auto
    have drop: "dropWhile (\<lambda>x. namespace_of x = ?ns) rest = filter (\<lambda>x. ?ns < namespace_of x) rest"
      using dropWhile_namespace [of rest ?ns] s w le Cons by (simp add: sorted_keys_Cons)
    show ?thesis
    proof (cases "next_namespace ?ns")
      case None
      have "\<not> ?ns < namespace_of x" if "x \<in> set rest" for x
        using next_namespace_None [OF None, of "namespace_of x"] w that ns Cons
        by (auto simp: namespace_of_def keys_width_def list_all_iff)
      then have "filter (\<lambda>x. ?ns < namespace_of x) rest = []" by (simp add: filter_empty_conv)
      then have "namespaces_of es = [?ns]"
        by (simp only: Cons namespaces_of_Cons drop) (simp add: namespaces_of_def)
      then show ?thesis using len None by (simp add: Cons info_of_def namespace_of_def Let_def)
    next
      case (Some m)
      let ?next = "filter (\<lambda>x. ?ns < namespace_of x) ?E"
      have "filter (\<lambda>x. ?ns < namespace_of x) es = ?next"
        unfolding Suc.prems(1) using Suc.prems(2) P by (auto intro: filter_cong)
      then have next_eq: "?next = filter (\<lambda>x. ?ns < namespace_of x) rest" by (simp add: Cons)
      have "length ?next \<le> n"
        unfolding next_eq using Suc.prems(3) Cons by (auto intro: le_trans [OF length_filter_le])
      then have "namespaces_loop X st n ?next = Some (map (info_of X st) (namespaces_of ?next))"
        by (intro Suc.IH [where P = "\<lambda>a. ?ns < a"]) auto
      moreover have "namespaces_of es = ?ns # namespaces_of ?next"
        by (simp only: Cons namespaces_of_Cons drop next_eq)
      ultimately show ?thesis using len Some jump_eq [OF wf Some ns]
        by (simp add: Cons info_of_def namespace_of_def Let_def)
    qed
  qed (simp add: namespaces_of_def)
qed (simp add: namespaces_of_def)

lemma list_namespaces_eq:
  assumes "wf_storage X st" and "\<not> io_read_fault env"
  shows "list_namespaces X env st =
    Some (map (info_of X st) (namespaces_of (mdbx_entries X (seq_map st))))"
  using assms namespaces_loop_eq [OF assms(1), of _ "\<lambda>_. True"] by (simp add: list_namespaces_def)

lemma latest_seq_max:
  assumes wf: "wf_storage X st" and ns: "length ns = 32" and ne: "ns_entries X st ns \<noteq> []"
  shows "latest_seq X st ns \<in> seq_of_key ` fst ` set (ns_entries X st ns)"
    and "s \<in> seq_of_key ` fst ` set (ns_entries X st ns) \<Longrightarrow> s \<le> latest_seq X st ns"
  using ne last_in_set [OF ne] last_is_max [of _ st ns] by (auto simp: latest_seq_eq [OF wf ns])

end

lemma namespaces_of_sorted:
  assumes "sorted_keys es" and "keys_width 40 es"
  shows "sorted_wrt (<) (namespaces_of es)"
  using assms
proof (induction es rule: measure_induct_rule [where f = length])
  case (less es)
  show ?case
  proof (cases es)
    case (Cons e rest)
    let ?d = "dropWhile (\<lambda>x. namespace_of x = namespace_of e) rest"
    have le: "\<forall>x \<in> set rest. namespace_of e \<le> namespace_of x"
      using namespace_mono less.prems Cons by blast
    have d: "?d = filter (\<lambda>x. namespace_of e < namespace_of x) rest"
      by (rule dropWhile_namespace) (use less.prems Cons le in \<open>simp_all add: sorted_keys_Cons\<close>)
    have "sorted_wrt (<) (namespaces_of ?d)"
    proof (rule less.IH)
      show "length ?d < length es" by (simp add: Cons le_imp_less_Suc length_dropWhile_le)
      show "sorted_keys ?d" unfolding d using less.prems Cons
        by (simp add: sorted_keys_def sorted_wrt_filter sorted_wrt_map)
      show "keys_width 40 ?d" unfolding d using less.prems Cons by (simp add: keys_width_def list_all_iff)
    qed
    moreover have "\<forall>n \<in> set (namespaces_of ?d). namespace_of e < n"
      unfolding d by (auto simp: namespaces_of_def)
    ultimately show ?thesis by (simp add: Cons namespaces_of_Cons)
  qed (simp add: namespaces_of_def)
qed

lemma list_namespaces_sorted:
  assumes "externals X" and "wf_storage X st" and "\<not> io_read_fault env"
  shows "\<exists>infos. list_namespaces X env st = Some infos \<and> sorted_wrt (<) (map ni_namespace_id infos) \<and>
    set (map ni_namespace_id infos) = (\<lambda>(k, v). take 32 k) ` set (mdbx_entries X (seq_map st))"
proof -
  let ?es = "mdbx_entries X (seq_map st)"
  have "sorted_wrt (<) (namespaces_of ?es)"
    using externals.entries_sorted_keys [OF assms(1)] externals.seq_keys_width [OF assms(1,2)]
    by (intro namespaces_of_sorted)
  then show ?thesis
    using externals.list_namespaces_eq [OF assms]
    by (intro exI [of _ "map (info_of X st) (namespaces_of ?es)"])
      (auto simp: info_of_def comp_def namespaces_of_def namespace_of_def split_beta)
qed

text \<open>C16: \<open>list_namespaces\<close> ends, and lists every namespace that has a sequence entry exactly once,
  in increasing order, each with the largest sequence number of its entries.\<close>

theorem list_namespaces_correct:
  assumes "externals X" and "wf_storage X st" and "\<not> io_read_fault env"
  shows "\<exists>infos. list_namespaces X env st = Some infos \<and>
    sorted_wrt (<) (map ni_namespace_id infos) \<and>
    set (map ni_namespace_id infos) = (\<lambda>(k, v). take 32 k) ` set (mdbx_entries X (seq_map st)) \<and>
    (\<forall>i \<in> set infos. ni_latest_seq_num i =
       Max (seq_of_key ` fst ` set (ns_entries X st (ni_namespace_id i))))"
proof -
  let ?es = "mdbx_entries X (seq_map st)"
  have s: "sorted_keys ?es" and w: "keys_width 40 ?es"
    using externals.entries_sorted_keys [OF assms(1)] externals.seq_keys_width [OF assms(1,2)] by auto
  have "latest_seq X st ns = Max (seq_of_key ` fst ` set (ns_entries X st ns))"
    if n: "ns \<in> set (namespaces_of ?es)" for ns
  proof -
    from n obtain e where e: "e \<in> set ?es" "ns = namespace_of e"
      unfolding namespaces_of_def remdups_adj_set set_map by blast
    then have "length (fst e) = 40" using w by (auto simp: keys_width_def list_all_iff)
    with e have ns: "length ns = 32" "ns_entries X st ns \<noteq> []"
      by (auto simp: namespace_of_def ns_entries_def in_namespace_def filter_empty_conv)
    from externals.latest_seq_max [OF assms(1,2) ns] show ?thesis
      by (intro Max_eqI [symmetric]) auto
  qed
  then show ?thesis
    using externals.list_namespaces_eq [OF assms] namespaces_of_sorted [OF s w]
    by (intro exI [of _ "map (info_of X st) (namespaces_of ?es)"])
      (auto simp: info_of_def comp_def namespaces_of_def namespace_of_def split_beta)
qed

end
