(* ===== verification/Storage_Reach.thy ===== *)
theory Storage_Reach
  imports Storage_Expiry Storage_Namespaces
begin

text \<open>
  The states a storage instance can reach, as an inductive relation with one rule per operation
  that writes, and the invariant of all of them: the layout invariant, an exact expiry index,
  positive sequence numbers, and a sequence entry for every stored blob.

  The store rule asks two things of the caller: the sequence space of the namespace is not used up
  (\<open>2 ^ 64 - 1\<close> blobs), and no other namespace holds a blob of the same content hash, which for
  signed blobs the engine guarantees since the signature covers the namespace.
\<close>

section \<open>Reachable states\<close>

inductive storage_step :: "'t externals \<Rightarrow> 't storage \<Rightarrow> 't storage \<Rightarrow> bool" for X st where
  store: "wf_io env \<Longrightarrow> length ns = 32 \<Longrightarrow> wf_blob b \<Longrightarrow> h = blob_hash X (encode_blob X b) \<Longrightarrow>
    next_seq_num X st ns \<noteq> 0 \<Longrightarrow>
    (\<And>ns'. length ns' = 32 \<Longrightarrow> ns' \<noteq> ns \<Longrightarrow> lookup X st ns' h = None) \<Longrightarrow>
    storage_step X st (snd (store_blob X env ns b h (encode_blob X b) m q c st))"
| delete: "length ns = 32 \<Longrightarrow> length h = 32 \<Longrightarrow> storage_step X st (snd (delete_blob_data X env ns h st))"
| expire: "storage_step X st (snd (run_expiry_scan X env st))"
| register: "length hint = 32 \<Longrightarrow> length pk = 2592 \<Longrightarrow>
    storage_step X st (snd (register_owner_pubkey X env hint pk st))"
| set_cursor: "length p = 32 \<Longrightarrow> length ns = 32 \<Longrightarrow>
    storage_step X st (set_sync_cursor X env p ns cur st)"
| delete_cursor: "storage_step X st (delete_sync_cursor X env p ns st)"
| delete_peer: "storage_step X st (snd (delete_peer_cursors X env p st))"
| reset: "storage_step X st (snd (reset_all_round_counters X env st))"
| cleanup: "storage_step X st (snd (cleanup_stale_cursors X env known st))"
| rebuild: "rebuild_quota_aggregates X env st = Some st' \<Longrightarrow> storage_step X st st'"

inductive storage_reach :: "'t externals \<Rightarrow> 't storage \<Rightarrow> bool" for X where
  init: "length key = 32 \<Longrightarrow> storage_reach X (empty_storage X key)"
| step: "storage_reach X st \<Longrightarrow> storage_step X st st' \<Longrightarrow> storage_reach X st'"

section \<open>The invariant\<close>

definition seq_indexed :: "'t externals \<Rightarrow> 't storage \<Rightarrow> bool" where
  "seq_indexed X st \<longleftrightarrow>
     (\<forall>ns h. length ns = 32 \<longrightarrow> lookup X st ns h \<noteq> None \<longrightarrow>
        (\<exists>e \<in> set (ns_entries X st ns). take 32 (snd e) = h))"

definition seq_positive :: "'t externals \<Rightarrow> 't storage \<Rightarrow> bool" where
  "seq_positive X st \<longleftrightarrow> list_all (\<lambda>(k, v). 1 \<le> seq_of_key k) (mdbx_entries X (seq_map st))"

definition storage_inv :: "'t externals \<Rightarrow> 't storage \<Rightarrow> bool" where
  "storage_inv X st \<longleftrightarrow>
     wf_storage X st \<and> expiry_exact X st \<and> seq_positive X st \<and> seq_indexed X st"

lemma storage_inv_cong:
  assumes "storage_inv X st" and "wf_storage X st'"
    and "blobs_map st' = blobs_map st" and "seq_map st' = seq_map st"
    and "expiry_map st' = expiry_map st" and "blob_key st' = blob_key st"
  shows "storage_inv X st'"
proof -
  have "lookup X st' = lookup X st" by (rule lookup_cong) fact+
  moreover have "ns_entries X st' = ns_entries X st"
    using assms(4) by (intro ext) (simp add: ns_entries_def)
  ultimately show ?thesis using assms
    by (simp add: storage_inv_def expiry_exact_def seq_indexed_def seq_positive_def)
qed

context externals
begin

lemma inv_empty: "length key = 32 \<Longrightarrow> storage_inv X (empty_storage X key)"
  using wf_empty [of key]
  by (simp add: storage_inv_def expiry_exact_def seq_indexed_def seq_positive_def lookup_def
      empty_storage_def Let_def tbl.get_empty tbl.entries_empty)

lemma seq_positive_iff: "seq_positive X st \<longleftrightarrow> (\<forall>k v. mdbx_get X (seq_map st) k = Some v \<longrightarrow> 1 \<le> seq_of_key k)"
  by (auto simp: seq_positive_def list_all_iff tbl.in_entries_iff)

lemma expiry_exact_put:
  assumes wf: "wf_storage X st" and ex: "expiry_exact X st" and len: "length ns = 32" "length h = 32"
    and fresh: "\<And>ns'. length ns' = 32 \<Longrightarrow> lookup X st ns' h = None"
    and l: "\<And>ns' h'. length ns' = 32 \<Longrightarrow>
      lookup X st' ns' h' = (if ns' = ns \<and> h' = h then Some b else lookup X st ns' h')"
    and e: "expiry_map st' = (if bd_ttl b > 0
      then mdbx_upsert X (expiry_map st)
             (make_expiry_key (saturating_expiry (bd_timestamp b) (bd_ttl b)) h) ns
      else expiry_map st)"
  shows "expiry_exact X st'"
  unfolding expiry_exact_def
proof (intro allI impI)
  fix t and h' ns' :: bytes assume len': "length h' = 32" "length ns' = 32"
  have base: "mdbx_get X (expiry_map st) (make_expiry_key t h') = Some ns' \<longleftrightarrow>
      (\<exists>b. lookup X st ns' h' = Some b \<and> bd_ttl b > 0 \<and> saturating_expiry (bd_timestamp b) (bd_ttl b) = t)"
    using ex len' unfolding expiry_exact_def by blast
  have none: "mdbx_get X (expiry_map st) (make_expiry_key t h) \<noteq> Some n" for n
    using ex len fresh [of n] wf_tables(3) [OF wf, of "make_expiry_key t h" n]
    unfolding expiry_exact_def by (metis option.distinct(1))
  show "mdbx_get X (expiry_map st') (make_expiry_key t h') = Some ns' \<longleftrightarrow>
      (\<exists>b. lookup X st' ns' h' = Some b \<and> bd_ttl b > 0 \<and> saturating_expiry (bd_timestamp b) (bd_ttl b) = t)"
  proof (cases "h' = h")
    case True
    then show ?thesis using fresh [OF len'(2)] none [of ns'] l [OF len'(2), of h']
      by (auto simp: e tbl.get_upsert)
  next
    case False
    then show ?thesis using base l [OF len'(2), of h'] by (simp add: e tbl.get_upsert)
  qed
qed

lemma expiry_exact_drop:
  assumes ex: "expiry_exact X st" and len: "length ns = 32" "length h = 32"
    and b: "lookup X st ns h = Some b"
    and l: "\<And>ns' h'. length ns' = 32 \<Longrightarrow>
      lookup X st' ns' h' = (if ns' = ns \<and> h' = h then None else lookup X st ns' h')"
    and e: "expiry_map st' = (if bd_ttl b > 0
      then mdbx_erase X (expiry_map st)
             (make_expiry_key (saturating_expiry (bd_timestamp b) (bd_ttl b)) h)
      else expiry_map st)"
  shows "expiry_exact X st'"
  unfolding expiry_exact_def
proof (intro allI impI)
  fix t and h' ns' :: bytes assume len': "length h' = 32" "length ns' = 32"
  have base: "mdbx_get X (expiry_map st) (make_expiry_key t h') = Some ns' \<longleftrightarrow>
      (\<exists>b. lookup X st ns' h' = Some b \<and> bd_ttl b > 0 \<and> saturating_expiry (bd_timestamp b) (bd_ttl b) = t)"
    using ex len' unfolding expiry_exact_def by blast
  have own: "bd_ttl b > 0 \<Longrightarrow>
      mdbx_get X (expiry_map st) (make_expiry_key (saturating_expiry (bd_timestamp b) (bd_ttl b)) h) = Some ns"
    using ex len b unfolding expiry_exact_def by blast
  show "mdbx_get X (expiry_map st') (make_expiry_key t h') = Some ns' \<longleftrightarrow>
      (\<exists>b. lookup X st' ns' h' = Some b \<and> bd_ttl b > 0 \<and> saturating_expiry (bd_timestamp b) (bd_ttl b) = t)"
    using base own b l [OF len'(2), of h'] by (auto simp: e tbl.get_erase split: if_splits)
qed

lemma inv_store:
  assumes inv: "storage_inv X st" and env: "wf_io env" and ns: "length ns = 32" and b: "wf_blob b"
    and h: "length h = 32" and room: "next_seq_num X st ns \<noteq> 0"
    and other: "\<And>ns'. length ns' = 32 \<Longrightarrow> ns' \<noteq> ns \<Longrightarrow> lookup X st ns' h = None"
  shows "storage_inv X (snd (store_blob X env ns b h (encode_blob X b) m q c st))"
proof -
  have wf: "wf_storage X st" and ex: "expiry_exact X st" and pos: "seq_positive X st"
    and idx: "seq_indexed X st" using inv by (simp_all add: storage_inv_def)
  have wf': "wf_storage X (snd (store_blob X env ns b h (encode_blob X b) m q c st))"
    by (rule wf_store_blob) fact+
  show ?thesis using wf env ns h b
  proof (cases rule: store_blob_cases [where m = m and q = q and c = c])
    case (stored e)
    define st' where "st' = snd (store_blob X env ns b h (encode_blob X b) m q c st)"
    let ?k = "make_seq_key ns (next_seq_num X st ns)" and ?v = "h @ extract_blob_type (bd_data b)"
    have maps: "seq_map st' = mdbx_upsert X (seq_map st) ?k ?v"
      "expiry_map st' = (if bd_ttl b > 0 then mdbx_upsert X (expiry_map st)
         (make_expiry_key (saturating_expiry (bd_timestamp b) (bd_ttl b)) h) ns else expiry_map st)"
      using stored(6) by (simp_all add: st'_def frame_simps)
    have l: "lookup X st' ns' h' = (if ns' = ns \<and> h' = h then Some b else lookup X st ns' h')"
      if "length ns' = 32" for ns' h'
      using lookup_store_blob [OF wf env ns h b that, of m q c] stored(6) by (simp add: st'_def)
    have "expiry_exact X st'"
      by (rule expiry_exact_put [OF wf ex ns h _ l maps(2)]) (use other stored(1) in blast)+
    moreover have "seq_positive X st'"
      using pos ns room
      by (auto simp: seq_positive_iff maps tbl.get_upsert word_le_nat_alt unat_gt_0 Suc_le_eq)
    moreover have "seq_indexed X st'"
      unfolding seq_indexed_def
    proof (intro allI impI)
      fix ns' h' assume n: "length ns' = 32" "lookup X st' ns' h' \<noteq> None"
      have en: "ns_entries X st' ns' = ns_entries X st ns' @ (if ns' = ns then [(?k, ?v)] else [])"
        by (rule ns_entries_append [OF wf ns n(1) room maps(1)])
      show "\<exists>e \<in> set (ns_entries X st' ns'). take 32 (snd e) = h'"
      proof (cases "ns' = ns \<and> h' = h")
        case True
        then show ?thesis using en h by auto
      next
        case False
        then have "lookup X st ns' h' \<noteq> None" using n l by auto
        then show ?thesis using idx n(1) en unfolding seq_indexed_def by auto
      qed
    qed
    ultimately show ?thesis using wf' unfolding storage_inv_def st'_def by blast
  qed (use inv in simp_all)
qed

lemma scan_seq_Some:
  "scan_seq ns h es = Some k \<Longrightarrow> \<exists>v. (k, v) \<in> set es \<and> in_namespace ns k \<and> take 32 v = h"
  by (induction es) (auto split: if_splits)

lemma find_seq_key_Some:
  assumes "find_seq_key X st ns h = Some k"
  obtains v where "mdbx_get X (seq_map st) k = Some v" and "in_namespace ns k" and "take 32 v = h"
  using scan_seq_Some [OF assms [unfolded find_seq_key_def]] by (auto simp: lower_bound_iff)

lemma clear_seq_entries:
  assumes "e \<in> set (ns_entries X st ns')" and "ns' \<noteq> ns \<or> take 32 (snd e) \<noteq> h"
    and "length ns = 32" "length ns' = 32"
  shows "e \<in> set (ns_entries X (clear_seq X st ns h) ns')"
proof (cases "find_seq_key X st ns h")
  case (Some k)
  then obtain v where v: "mdbx_get X (seq_map st) k = Some v" "in_namespace ns k" "take 32 v = h"
    by (rule find_seq_key_Some)
  obtain l u where e: "e = (l, u)" by (cases e)
  have "l \<noteq> k" using assms v by (auto simp: e in_ns_entries in_namespace_def)
  then show ?thesis using assms(1) by (simp add: e in_ns_entries clear_seq_def Some tbl.get_upsert)
qed (use assms in \<open>simp add: clear_seq_def\<close>)

lemma seq_positive_clear: "seq_positive X st \<Longrightarrow> seq_positive X (clear_seq X st ns h)"
  by (auto simp: seq_positive_iff clear_seq_def tbl.get_upsert split: option.splits
      elim!: find_seq_key_Some)

lemma delete_blob_data_cases [consumes 1, case_names absent fault deleted]:
  assumes wf: "wf_storage X st"
  obtains (absent) "lookup X st ns h = None" "delete_blob_data X env ns h st = (False, st)"
  | (fault) "io_commit_fault env" "delete_blob_data X env ns h st = (False, st)"
  | (deleted) v b where "\<not> io_commit_fault env" "lookup X st ns h = Some b"
      "mdbx_get X (blobs_map st) (make_blob_key ns h) = Some v"
      "delete_blob_data X env ns h st = (True, drop_indexes X (clear_seq X (sub_quota X
          (st\<lparr>blobs_map := mdbx_erase X (blobs_map st) (make_blob_key ns h)\<rparr>) ns (of_nat (length v))) ns h) ns h b)"
proof (cases "mdbx_get X (blobs_map st) (make_blob_key ns h)")
  case None
  then show thesis by (intro absent) (simp_all add: lookup_def delete_blob_data_def)
next
  case (Some v)
  then obtain b where b: "open_value X st v (make_blob_key ns h) = Inr b" by (rule wf_blobs [OF wf])
  show thesis
  proof (cases "io_commit_fault env")
    case True
    then show thesis by (intro fault) (simp_all add: delete_blob_data_def Some b Let_def)
  next
    case False
    then show thesis
      by (intro deleted [of b v]) (simp_all add: lookup_def delete_blob_data_def Some b Let_def)
  qed
qed

lemma inv_delete:
  assumes inv: "storage_inv X st" and ns: "length ns = 32" and h: "length h = 32"
  shows "storage_inv X (snd (delete_blob_data X env ns h st))"
proof -
  have wf: "wf_storage X st" and ex: "expiry_exact X st" and pos: "seq_positive X st"
    and idx: "seq_indexed X st" using inv by (simp_all add: storage_inv_def)
  from wf show ?thesis
  proof (cases rule: delete_blob_data_cases [where ns = ns and h = h and env = env])
    case (deleted v b)
    let ?s1 = "sub_quota X (st\<lparr>blobs_map := mdbx_erase X (blobs_map st) (make_blob_key ns h)\<rparr>) ns (of_nat (length v))"
    define st' where "st' = snd (delete_blob_data X env ns h st)"
    have st': "st' = drop_indexes X (clear_seq X ?s1 ns h) ns h b" by (simp add: st'_def deleted)
    have l: "lookup X st' ns' h' = (if ns' = ns \<and> h' = h then None else lookup X st ns' h')"
      if "length ns' = 32" for ns' h'
      using lookup_delete_blob_data(2) [OF wf ns that, of env h] deleted(4) by (simp add: st'_def)
    have e: "expiry_map st' = (if bd_ttl b > 0 then mdbx_erase X (expiry_map st)
        (make_expiry_key (saturating_expiry (bd_timestamp b) (bd_ttl b)) h) else expiry_map st)"
      by (simp add: st' drop_indexes_def Let_def frame_simps)
    have "expiry_exact X st'" by (rule expiry_exact_drop [OF ex ns h deleted(2) l e])
    moreover have s1: "seq_map ?s1 = seq_map st" by (simp add: frame_simps)
    have "seq_map st' = seq_map (clear_seq X ?s1 ns h)" by (simp add: st' frame_simps)
    then have "seq_positive X st'"
      using seq_positive_clear [of ?s1 ns h] pos by (simp add: seq_positive_def s1)
    moreover have "seq_indexed X st'"
      unfolding seq_indexed_def
    proof (intro allI impI)
      fix ns' h' assume n: "length ns' = 32" "lookup X st' ns' h' \<noteq> None"
      then have ne: "ns' \<noteq> ns \<or> h' \<noteq> h" and "lookup X st ns' h' \<noteq> None"
        using l by (auto split: if_splits)
      then obtain e where e: "e \<in> set (ns_entries X st ns')" "take 32 (snd e) = h'"
        using idx n(1) unfolding seq_indexed_def by blast
      have "e \<in> set (ns_entries X ?s1 ns')" using e(1) by (simp add: ns_entries_def s1)
      then have "e \<in> set (ns_entries X (clear_seq X ?s1 ns h) ns')"
        by (rule clear_seq_entries) (use ne e ns n in auto)
      then show "\<exists>e \<in> set (ns_entries X st' ns'). take 32 (snd e) = h'"
        using e(2) by (intro bexI [of _ e]) (simp_all add: st' ns_entries_def frame_simps)
    qed
    moreover have "wf_storage X st'" unfolding st'_def by (rule wf_delete_blob_data) fact+
    ultimately show ?thesis unfolding storage_inv_def st'_def by blast
  qed (use inv in simp_all)
qed

lemma inv_expire:
  assumes inv: "storage_inv X st"
  shows "storage_inv X (snd (run_expiry_scan X env st))"
proof (cases "io_commit_fault env")
  case True
  then show ?thesis using inv by (simp add: run_expiry_scan_def split: prod.splits sum.splits)
next
  case False
  obtain n st' where r: "run_expiry_scan X env st = (n, st')" by (cases "run_expiry_scan X env st")
  have wf: "wf_storage X st" and ex: "expiry_exact X st" using inv by (simp_all add: storage_inv_def)
  note s = expiry_scan_lookup [OF wf ex False r]
  have "ns_entries X st' = ns_entries X st" by (rule ns_entries_cong) (rule s)
  moreover have "lookup X st ns h \<noteq> None" if l: "lookup X st' ns h \<noteq> None" and n: "length ns = 32" for ns h
  proof -
    from l obtain v where "mdbx_get X (blobs_map st') (make_blob_key ns h) = Some v"
      by (auto simp: lookup_def split: option.splits)
    from wf_tables(1) [OF s(3) this] n have "length h = 32" by simp
    then show ?thesis using s(1) [OF n] l by (auto split: option.splits)
  qed
  ultimately show ?thesis using inv s
    by (simp add: r storage_inv_def seq_positive_def seq_indexed_def)
qed

lemma cleanup_frame:
  "blobs_map (snd (cleanup_loop X env known ps (n, st))) = blobs_map st \<and>
   seq_map (snd (cleanup_loop X env known ps (n, st))) = seq_map st \<and>
   expiry_map (snd (cleanup_loop X env known ps (n, st))) = expiry_map st \<and>
   blob_key (snd (cleanup_loop X env known ps (n, st))) = blob_key st"
  by (induction ps arbitrary: n st) (simp_all add: delete_peer_cursors_def Let_def)

lemma rebuild_frame:
  assumes "rebuild_quota_aggregates X env st = Some st'"
  shows "blobs_map st' = blobs_map st" "seq_map st' = seq_map st" "expiry_map st' = expiry_map st"
    "blob_key st' = blob_key st"
  using assms by (auto simp: rebuild_quota_aggregates_def Let_def split: option.splits if_splits)

lemma step_inv:
  assumes "storage_step X st st'" and inv: "storage_inv X st"
  shows "storage_inv X st'"
  using assms(1)
proof cases
  case (store env ns b h m q c)
  have "length h = 32" by (simp add: store(5) length_blob_hash)
  from inv_store [OF inv store(2-4) this store(6,7)] show ?thesis by (simp add: store(1))
next
  case (delete ns h env)
  then show ?thesis using inv by (simp add: inv_delete)
next
  case (expire env)
  then show ?thesis using inv by (simp add: inv_expire)
next
  case (register hint pk env)
  show ?thesis unfolding register(1)
    by (rule storage_inv_cong [OF inv wf_register_owner_pubkey])
      (use register inv in \<open>simp_all add: storage_inv_def register_owner_pubkey_def split: option.splits\<close>)
next
  case (set_cursor p ns env cur)
  show ?thesis unfolding set_cursor(1)
    by (rule storage_inv_cong [OF inv wf_set_sync_cursor])
      (use set_cursor inv in \<open>simp_all add: storage_inv_def set_sync_cursor_def\<close>)
next
  case (delete_cursor env p ns)
  show ?thesis unfolding delete_cursor
    by (rule storage_inv_cong [OF inv wf_delete_sync_cursor])
      (use delete_cursor inv in \<open>simp_all add: storage_inv_def delete_sync_cursor_def\<close>)
next
  case (delete_peer env p)
  show ?thesis unfolding delete_peer
    by (rule storage_inv_cong [OF inv wf_delete_peer_cursors])
      (use delete_peer inv in \<open>simp_all add: storage_inv_def delete_peer_cursors_def Let_def\<close>)
next
  case (reset env)
  show ?thesis unfolding reset
    by (rule storage_inv_cong [OF inv wf_reset_all_round_counters])
      (use reset inv in \<open>simp_all add: storage_inv_def reset_all_round_counters_def split_beta\<close>)
next
  case (cleanup env known)
  show ?thesis unfolding cleanup
    by (rule storage_inv_cong [OF inv wf_cleanup_stale_cursors])
      (use cleanup inv in \<open>simp_all add: storage_inv_def cleanup_stale_cursors_def cleanup_frame\<close>)
next
  case (rebuild env)
  have "wf_storage X st'"
    using wf_rebuild_quota_aggregates [of st env] rebuild inv by (simp add: storage_inv_def)
  with rebuild inv show ?thesis by (auto intro: storage_inv_cong [of X st] rebuild_frame)
qed

lemma reach_inv: "storage_reach X st \<Longrightarrow> storage_inv X st"
  by (induction rule: storage_reach.induct) (auto intro: inv_empty step_inv)

text \<open>Each stored blob is announced to sync, the all-zero hash, which marks deleted entries,
  excepted.\<close>

lemma hashes_listed:
  assumes inv: "storage_inv X st" and "\<not> io_read_fault env" and "length ns = 32"
    and "lookup X st ns h \<noteq> None" and "h \<noteq> zero_hash"
  shows "h \<in> set (get_hashes_by_namespace X env st ns)"
proof -
  obtain e where e: "e \<in> set (ns_entries X st ns)" "take 32 (snd e) = h"
    using inv assms(3,4) unfolding storage_inv_def seq_indexed_def by blast
  have wf: "wf_storage X st" using inv by (simp add: storage_inv_def)
  have "1 \<le> seq_of_key (fst e)"
    using inv e(1) by (auto simp: storage_inv_def seq_positive_def list_all_iff ns_entries_def split_beta)
  then show ?thesis
    using e assms(5) get_hashes_by_namespace_eq [OF wf assms(3,2)] by auto
qed

end

section \<open>Properties of reachable states\<close>


text \<open>C12: in every reachable state a committed expiry scan removes exactly the blobs that are
  expired at the time of the scan, and nothing else.\<close>

theorem expiry_scan_exact:
  assumes "externals X" and "storage_reach X st" and "\<not> io_commit_fault env"
    and "length ns = 32" and "length h = 32"
  shows "lookup X (snd (run_expiry_scan X env st)) ns h =
    (case lookup X st ns h of
       None \<Rightarrow> None
     | Some b \<Rightarrow> if is_blob_expired b (io_now env) then None else Some b)"
proof -
  have "storage_inv X st" by (rule externals.reach_inv) fact+
  then show ?thesis
    using externals.expiry_scan_lookup(1) [OF assms(1) _ _ assms(3) prod.collapse [symmetric] assms(4,5)]
    by (simp add: storage_inv_def)
qed

end
