(* ===== verification/Engine_Node.thy ===== *)
theory Engine_Node
  imports Engine Storage_Reach
begin

text \<open>
  The engine at work: a node is the storage, the configuration, and the coroutines that are
  suspended somewhere in \<open>ingest\<close> or \<open>delete_blob\<close>.  A step runs one segment of one coroutine, or a
  housekeeping operation on the storage, or a change of the configuration; which one is open, so a
  reachable state is a state after any interleaving.  The parameter \<open>E\<close> says which surroundings
  (clock, faults, memory use) the steps may meet.
\<close>

section \<open>Nodes and their steps\<close>

datatype task_pc = Ingest_Task ingest_pc | Delete_Task delete_pc

record task =
  tk_ns :: bytes
  tk_blob :: blob_data
  tk_source :: "conn_id option"
  tk_pc :: task_pc

record 't node =
  nd_storage :: "'t storage"
  nd_config :: engine_config
  nd_tasks :: "nat \<rightharpoonup> task"

inductive housekeeping :: "'t externals \<Rightarrow> (io \<Rightarrow> bool) \<Rightarrow> 't storage \<Rightarrow> 't storage \<Rightarrow> bool" for X E st where
  expire: "E env \<Longrightarrow> housekeeping X E st (snd (run_expiry_scan X env st))"
| set_cursor: "E env \<Longrightarrow> length p = 32 \<Longrightarrow> length ns = 32 \<Longrightarrow>
    housekeeping X E st (set_sync_cursor X env p ns cur st)"
| delete_cursor: "E env \<Longrightarrow> housekeeping X E st (delete_sync_cursor X env p ns st)"
| delete_peer: "E env \<Longrightarrow> housekeeping X E st (snd (delete_peer_cursors X env p st))"
| reset: "E env \<Longrightarrow> housekeeping X E st (snd (reset_all_round_counters X env st))"
| cleanup: "E env \<Longrightarrow> housekeeping X E st (snd (cleanup_stale_cursors X env known st))"
| rebuild: "E env \<Longrightarrow> rebuild_quota_aggregates X env st = Some st' \<Longrightarrow> housekeeping X E st st'"

inductive node_step :: "'t externals \<Rightarrow> (io \<Rightarrow> bool) \<Rightarrow> 't node \<Rightarrow> 't node \<Rightarrow> bool" for X E n where
  begin_ingest: "E env \<Longrightarrow> nd_tasks n i = None \<Longrightarrow> length ns = 32 \<Longrightarrow> wf_blob b \<Longrightarrow>
    node_step X E n (n\<lparr>nd_tasks := (nd_tasks n)(i \<mapsto> \<lparr>tk_ns = ns, tk_blob = b, tk_source = src,
      tk_pc = Ingest_Task (ingest_begin X (nd_config n) env ns b (nd_storage n))\<rparr>)\<rparr>)"
| resume_ingest: "(\<And>k. E (envs k)) \<Longrightarrow> nd_tasks n i = Some t \<Longrightarrow> tk_pc t = Ingest_Task pc \<Longrightarrow>
    ingest_resume X (nd_config n) envs (tk_ns t) (tk_blob t) (tk_source t) pc (nd_storage n) = (pc', st') \<Longrightarrow>
    node_step X E n (n\<lparr>nd_storage := st', nd_tasks := (nd_tasks n)(i \<mapsto> t\<lparr>tk_pc := Ingest_Task pc'\<rparr>)\<rparr>)"
| begin_delete: "E env \<Longrightarrow> nd_tasks n i = None \<Longrightarrow> length ns = 32 \<Longrightarrow> wf_blob b \<Longrightarrow>
    node_step X E n (n\<lparr>nd_tasks := (nd_tasks n)(i \<mapsto> \<lparr>tk_ns = ns, tk_blob = b, tk_source = src,
      tk_pc = Delete_Task (delete_begin X env ns b (nd_storage n))\<rparr>)\<rparr>)"
| resume_delete: "(\<And>k. E (envs k)) \<Longrightarrow> nd_tasks n i = Some t \<Longrightarrow> tk_pc t = Delete_Task pc \<Longrightarrow>
    delete_resume X envs (tk_ns t) (tk_blob t) (tk_source t) pc (nd_storage n) = (pc', st') \<Longrightarrow>
    node_step X E n (n\<lparr>nd_storage := st', nd_tasks := (nd_tasks n)(i \<mapsto> t\<lparr>tk_pc := Delete_Task pc'\<rparr>)\<rparr>)"
| finish: "node_step X E n (n\<lparr>nd_tasks := (nd_tasks n)(i := None)\<rparr>)"
| maintain: "housekeeping X E (nd_storage n) st' \<Longrightarrow> node_step X E n (n\<lparr>nd_storage := st'\<rparr>)"
| reconfigure: "node_step X E n (n\<lparr>nd_config := cfg\<rparr>)"

inductive node_reach :: "'t externals \<Rightarrow> (io \<Rightarrow> bool) \<Rightarrow> 't node \<Rightarrow> bool" for X E where
  init: "length key = 32 \<Longrightarrow>
    node_reach X E \<lparr>nd_storage = empty_storage X key, nd_config = cfg, nd_tasks = Map.empty\<rparr>"
| step: "node_reach X E n \<Longrightarrow> node_step X E n n' \<Longrightarrow> node_reach X E n'"

section \<open>Operations that only remove\<close>

definition shrinks :: "'t externals \<Rightarrow> 't storage \<Rightarrow> 't storage \<Rightarrow> bool" where
  "shrinks X st st' \<longleftrightarrow>
     blob_key st' = blob_key st \<and>
     (\<forall>k v. mdbx_get X (blobs_map st') k = Some v \<longrightarrow> mdbx_get X (blobs_map st) k = Some v) \<and>
     (\<forall>k. mdbx_get X (tombstone_map st') k \<noteq> None \<longrightarrow> mdbx_get X (tombstone_map st) k \<noteq> None)"

lemma shrinks_refl [simp]: "shrinks X st st"
  by (simp add: shrinks_def)

lemma shrinks_trans: "shrinks X a b \<Longrightarrow> shrinks X b c \<Longrightarrow> shrinks X a c"
  by (auto simp: shrinks_def)

lemma shrinks_same:
  "blobs_map st' = blobs_map st \<Longrightarrow> tombstone_map st' = tombstone_map st \<Longrightarrow>
    blob_key st' = blob_key st \<Longrightarrow> shrinks X st st'"
  by (simp add: shrinks_def)

lemma shrinks_lookup: "shrinks X st st' \<Longrightarrow> lookup X st' ns h = Some b \<Longrightarrow> lookup X st ns h = Some b"
  by (auto simp: shrinks_def lookup_def open_value_cong [of st' st] split: option.splits sum.splits)

lemma cleanup_loop_frame:
  "tombstone_map (snd (cleanup_loop X env known ps (n, st))) = tombstone_map st"
  "blobs_map (snd (cleanup_loop X env known ps (n, st))) = blobs_map st"
  "blob_key (snd (cleanup_loop X env known ps (n, st))) = blob_key st"
  by (induction ps arbitrary: n st) (simp_all add: delete_peer_cursors_def Let_def)

context externals
begin

lemma shrinks_purge: "purge_blob X st ns h = Inr st' \<Longrightarrow> shrinks X st st'"
  by (auto simp: purge_blob_def Let_def shrinks_def frame_simps tbl.get_erase
      split: option.splits sum.splits if_splits)

lemma shrinks_expiry_loop:
  "expiry_loop X now es (n, st) = (m, Inr st') \<Longrightarrow> shrinks X st st'"
proof (induction es arbitrary: n st)
  case (Cons e es)
  obtain k v where e: "e = (k, v)" by (cases e)
  show ?case
  proof (cases "length k \<noteq> 40 \<or> read_u64_be_ptr k > now")
    case False
    then obtain s where s: "purge_blob X st v (drop 8 k) = Inr s"
      using Cons.prems by (auto simp: e split: sum.splits)
    let ?s = "s\<lparr>expiry_map := mdbx_erase X (expiry_map s) k\<rparr>"
    have "shrinks X s ?s" by (rule shrinks_same) simp_all
    moreover have "shrinks X ?s st'" using Cons.IH [of "Suc n" ?s] Cons.prems s False by (simp add: e)
    ultimately show ?thesis using shrinks_purge [OF s] shrinks_trans by blast
  qed (use Cons.prems in \<open>auto simp: e split: if_splits\<close>)
qed simp

lemma shrinks_expiry: "shrinks X st (snd (run_expiry_scan X env st))"
  by (auto simp: run_expiry_scan_def split: prod.splits sum.splits dest: shrinks_expiry_loop)

lemma shrinks_delete: "shrinks X st (snd (delete_blob_data X env ns h st))"
  by (auto simp: delete_blob_data_def drop_indexes_def Let_def shrinks_def frame_simps tbl.get_erase
      split: option.splits sum.splits if_splits)

lemma shrinks_register: "shrinks X st (snd (register_owner_pubkey X env hint pk st))"
  by (auto simp: register_owner_pubkey_def split: option.splits intro!: shrinks_same)

lemma housekeeping_shrinks:
  assumes "housekeeping X E st st'"
  shows "shrinks X st st'"
  using assms
proof cases
  case (rebuild env)
  then show ?thesis
    by (auto simp: rebuild_quota_aggregates_def Let_def split: option.splits if_splits intro!: shrinks_same)
qed (auto simp: shrinks_expiry set_sync_cursor_def delete_sync_cursor_def delete_peer_cursors_def
    reset_all_round_counters_def cleanup_stale_cursors_def Let_def split_beta cleanup_loop_frame
    intro!: shrinks_same)

lemma housekeeping_wf:
  assumes "housekeeping X E st st'" and "wf_storage X st"
  shows "wf_storage X st'"
  using assms
proof cases
  case (rebuild env)
  then show ?thesis using wf_rebuild_quota_aggregates [OF assms(2), of env] by auto
qed (use assms(2) in \<open>auto intro!: wf_run_expiry_scan wf_set_sync_cursor wf_delete_sync_cursor
      wf_delete_peer_cursors wf_reset_all_round_counters wf_cleanup_stale_cursors\<close>)

end

end
