(* ===== verification/Engine_Auth.thy ===== *)
theory Engine_Auth
  imports Engine_Node
begin

text \<open>
  Who may write: in every reachable state of a node, every stored blob carries a signature that
  verifies under a key which owns the namespace, or under a key named by a delegation blob that
  itself carries the owner's signature; and it is stored under the hash of its encoding.  The
  evidence is attached to the suspended coroutines too, so it survives any interleaving.
\<close>

section \<open>Authority\<close>

definition owner_signed :: "'t externals \<Rightarrow> bytes \<Rightarrow> blob_data \<Rightarrow> bool" where
  "owner_signed X ns b \<longleftrightarrow> (\<exists>pk. length pk = 2592 \<and> sha3_256 X pk = ns \<and> verify_blob X ns b pk)"

definition delegate_may_write :: "bytes \<Rightarrow> bool" where
  "delegate_may_write d \<longleftrightarrow> \<not> is_delegation d \<and> \<not> is_tombstone d \<and> \<not> is_bomb d"

definition authorized :: "'t externals \<Rightarrow> bytes \<Rightarrow> blob_data \<Rightarrow> bool" where
  "authorized X ns b \<longleftrightarrow>
     owner_signed X ns b \<or>
     (\<exists>d. owner_signed X ns d \<and> is_delegation (bd_data d) \<and> delegate_may_write (bd_data b) \<and>
        verify_blob X ns b (extract_delegate_pubkey (bd_data d)))"

definition key_ok :: "'t externals \<Rightarrow> bytes \<Rightarrow> blob_data \<Rightarrow> bytes \<Rightarrow> bool" where
  "key_ok X ns b pk \<longleftrightarrow>
     length pk = 2592 \<and> sha3_256 X pk = ns \<or>
     (\<exists>d. owner_signed X ns d \<and> is_delegation (bd_data d) \<and> delegate_may_write (bd_data b) \<and>
        pk = extract_delegate_pubkey (bd_data d))"

lemma key_ok_authorized: "key_ok X ns b pk \<Longrightarrow> verify_blob X ns b pk \<Longrightarrow> authorized X ns b"
  by (auto simp: key_ok_def authorized_def owner_signed_def)

definition stored_ok :: "'t externals \<Rightarrow> 't storage \<Rightarrow> bool" where
  "stored_ok X st \<longleftrightarrow>
     (\<forall>ns h b. length ns = 32 \<longrightarrow> lookup X st ns h = Some b \<longrightarrow>
        authorized X ns b \<and> h = blob_hash X (encode_blob X b))"

lemma stored_ok_shrinks: "stored_ok X st \<Longrightarrow> shrinks X st st' \<Longrightarrow> stored_ok X st'"
  unfolding stored_ok_def using shrinks_lookup by blast

fun ingest_pc_ok :: "'t externals \<Rightarrow> bytes \<Rightarrow> blob_data \<Rightarrow> ingest_pc \<Rightarrow> bool" where
  "ingest_pc_ok X ns b (Await_Owner_Hash pk) \<longleftrightarrow> length pk = 2592"
| "ingest_pc_ok X ns b (Await_Pubk_Hash pk) \<longleftrightarrow> length pk = 2592"
| "ingest_pc_ok X ns b (Await_Content_Hash pk e) \<longleftrightarrow> key_ok X ns b pk \<and> e = encode_blob X b"
| "ingest_pc_ok X ns b (Await_Verify pk e h) \<longleftrightarrow>
     key_ok X ns b pk \<and> e = encode_blob X b \<and> h = blob_hash X e"
| "ingest_pc_ok X ns b (Ingest_Done r) \<longleftrightarrow> True"

fun delete_pc_ok :: "'t externals \<Rightarrow> bytes \<Rightarrow> blob_data \<Rightarrow> delete_pc \<Rightarrow> bool" where
  "delete_pc_ok X ns b (Delete_Owner_Hash pk) \<longleftrightarrow> length pk = 2592 \<and> is_tombstone (bd_data b)"
| "delete_pc_ok X ns b (Delete_Verify pk) \<longleftrightarrow>
     length pk = 2592 \<and> sha3_256 X pk = ns \<and> is_tombstone (bd_data b)"
| "delete_pc_ok X ns b (Delete_Done r) \<longleftrightarrow> True"

definition task_ok :: "'t externals \<Rightarrow> task \<Rightarrow> bool" where
  "task_ok X t \<longleftrightarrow>
     length (tk_ns t) = 32 \<and> wf_blob (tk_blob t) \<and>
     (case tk_pc t of
        Ingest_Task pc \<Rightarrow> ingest_pc_ok X (tk_ns t) (tk_blob t) pc
      | Delete_Task pc \<Rightarrow> delete_pc_ok X (tk_ns t) (tk_blob t) pc)"

definition node_inv :: "'t externals \<Rightarrow> 't node \<Rightarrow> bool" where
  "node_inv X n \<longleftrightarrow>
     wf_storage X (nd_storage n) \<and> stored_ok X (nd_storage n) \<and>
     (\<forall>i t. nd_tasks n i = Some t \<longrightarrow> task_ok X t)"

lemma node_inv_task:
  assumes "node_inv X n" and "task_ok X t"
  shows "node_inv X (n\<lparr>nd_tasks := (nd_tasks n)(i \<mapsto> t)\<rparr>)"
  using assms by (auto simp: node_inv_def)

lemma node_inv_resumed:
  assumes "node_inv X n" and "task_ok X t" and "wf_storage X st" and "stored_ok X st"
  shows "node_inv X (n\<lparr>nd_storage := st, nd_tasks := (nd_tasks n)(i \<mapsto> t)\<rparr>)"
  using assms by (auto simp: node_inv_def)

section \<open>One segment\<close>

lemma get_owner_pubkey_length: "get_owner_pubkey X env st hint = Some pk \<Longrightarrow> length pk = 2592"
  by (auto simp: get_owner_pubkey_def split: option.splits if_splits)

lemma pubk_key_length: "is_pubkey_blob d \<Longrightarrow> length (extract_pubk_signing_pk d) = 2592"
  by (simp add: is_pubkey_blob_def extract_pubk_signing_pk_def PUBKEY_DATA_SIZE_def)

lemma delegate_key_ok:
  assumes ok: "stored_ok X st" and ns: "length ns = 32"
    and pk: "get_delegate_pubkey_by_hint X env st ns hint = Some pk"
    and may: "delegate_may_write (bd_data b)"
  shows "key_ok X ns b pk"
proof -
  obtain h d where d: "lookup X st ns h = Some d" "is_delegation (bd_data d)"
      "pk = extract_delegate_pubkey (bd_data d)"
    using pk by (auto simp: get_delegate_pubkey_by_hint_def get_blob_lookup Let_def
        split: option.splits if_splits)
  then have "authorized X ns d" using ok ns by (auto simp: stored_ok_def)
  then have "owner_signed X ns d" using d(2) by (auto simp: authorized_def delegate_may_write_def)
  with d may show ?thesis by (auto simp: key_ok_def)
qed

lemma key_resolved_ok: "key_ok X ns b pk \<Longrightarrow> ingest_pc_ok X ns b (key_resolved X cfg env ns b pk st)"
  by (simp add: key_resolved_def Let_def)

lemma not_owner_path_ok:
  assumes "stored_ok X st" and "length ns = 32"
  shows "ingest_pc_ok X ns b (not_owner_path X cfg env ns b st)"
  using delegate_key_ok [OF assms, of env "bd_signer_hint b"] pubk_key_length [of "bd_data b"]
  by (auto simp: not_owner_path_def delegate_path_def delegate_may_write_def key_resolved_ok
      split: option.splits)

lemma ingest_begin_ok:
  assumes "stored_ok X st" and "length ns = 32"
  shows "ingest_pc_ok X ns b (ingest_begin X cfg env ns b st)"
  using not_owner_path_ok [OF assms, of b cfg env] get_owner_pubkey_length [of X env st]
  by (simp add: ingest_begin_def split: option.splits)

context externals
begin

text \<open>What a store can add is its own blob, under its own key.\<close>

lemma stored_ok_store:
  assumes ok: "stored_ok X st" and wf: "wf_storage X st" and env: "wf_io env" and ns: "length ns = 32"
    and b: "wf_blob b" "authorized X ns b" and h: "h = blob_hash X (encode_blob X b)"
  shows "stored_ok X (snd (store_blob X env ns b h (encode_blob X b) m q c st))"
    and "wf_storage X (snd (store_blob X env ns b h (encode_blob X b) m q c st))"
proof -
  have lh: "length h = 32" by (simp add: h length_blob_hash)
  show "wf_storage X (snd (store_blob X env ns b h (encode_blob X b) m q c st))"
    by (rule wf_store_blob) fact+
  note lk = lookup_store_blob [OF wf env ns lh b(1) _ prod.collapse [symmetric], of _ m q c]
  show "stored_ok X (snd (store_blob X env ns b h (encode_blob X b) m q c st))"
    unfolding stored_ok_def
  proof (intro allI impI)
    fix ns' h' b' assume "length ns' = 32"
      and "lookup X (snd (store_blob X env ns b h (encode_blob X b) m q c st)) ns' h' = Some b'"
    then show "authorized X ns' b' \<and> h' = blob_hash X (encode_blob X b')"
      using lk [of ns' h'] ok b h by (auto simp: stored_ok_def split: if_splits)
  qed
qed

lemma delete_targets_ok:
  "wf_storage X st \<Longrightarrow> length ns = 32 \<Longrightarrow>
    wf_storage X (delete_targets X envs i ns ts st) \<and> shrinks X st (delete_targets X envs i ns ts st)"
proof (induction ts arbitrary: i st)
  case (Cons t ts)
  from Cons.IH [OF wf_delete_blob_data [OF Cons.prems, of "envs i" t] Cons.prems(2)]
  show ?case using shrinks_delete [of st "envs i" ns t] shrinks_trans by fastforce
qed simp

lemma register_step_ok:
  "wf_storage X st \<Longrightarrow> wf_blob b \<Longrightarrow>
    wf_storage X (snd (register_step X env b st)) \<and> shrinks X st (snd (register_step X env b st))"
  by (simp add: register_step_def wf_register_owner_pubkey wf_blob_def pubk_key_length shrinks_register)

lemma ingest_commit_ok:
  assumes ok: "stored_ok X st" and wf: "wf_storage X st" and envs: "\<And>k. wf_io (envs k)"
    and ns: "length ns = 32" and b: "wf_blob b" "authorized X ns b"
  shows "wf_storage X (snd (ingest_commit X cfg envs ns b (encode_blob X b) (blob_hash X (encode_blob X b)) src st))
    \<and> stored_ok X (snd (ingest_commit X cfg envs ns b (encode_blob X b) (blob_hash X (encode_blob X b)) src st))"
proof -
  let ?n = "length (blob_targets (bd_data b))"
  let ?s1 = "delete_targets X envs 0 ns (blob_targets (bd_data b)) st"
  let ?s2 = "snd (register_step X (envs ?n) b ?s1)"
  have s1: "wf_storage X ?s1" "stored_ok X ?s1"
    using delete_targets_ok [OF wf ns] stored_ok_shrinks [OF ok] by auto
  have s2: "wf_storage X ?s2" "stored_ok X ?s2"
    using register_step_ok [OF s1(1) b(1)] stored_ok_shrinks [OF s1(2)] by auto
  note s3 = stored_ok_store [OF s2(2,1) envs ns b refl]
  show ?thesis
    using ok wf s2 s3 by (auto simp: ingest_commit_def Let_def split_beta split: sum.splits prod.splits)
qed

lemma ingest_resume_ok:
  assumes ok: "stored_ok X st" and wf: "wf_storage X st" and envs: "\<And>k. wf_io (envs k)"
    and ns: "length ns = 32" and b: "wf_blob b" and pc: "ingest_pc_ok X ns b pc"
    and r: "ingest_resume X cfg envs ns b src pc st = (pc', st')"
  shows "wf_storage X st' \<and> stored_ok X st' \<and> ingest_pc_ok X ns b pc'"
proof (cases pc)
  case (Await_Owner_Hash pk)
  then show ?thesis
    using r pc ok wf not_owner_path_ok [OF ok ns, of b cfg "envs 0"]
    by (auto simp: ingest_resume_def key_resolved_ok key_ok_def)
next
  case (Await_Pubk_Hash pk)
  then show ?thesis
    using r pc ok wf by (auto simp: ingest_resume_def key_resolved_ok key_ok_def)
next
  case (Await_Content_Hash pk e)
  then show ?thesis using r pc ok wf by (auto simp: ingest_resume_def Let_def)
next
  case (Await_Verify pk e h)
  show ?thesis
  proof (cases "verify_blob X ns b pk")
    case True
    then have "authorized X ns b" using pc Await_Verify key_ok_authorized by fastforce
    from ingest_commit_ok [OF ok wf envs ns b this] show ?thesis
      using r pc True Await_Verify by (auto simp: ingest_resume_def split_beta)
  qed (use r Await_Verify ok wf in \<open>auto simp: ingest_resume_def\<close>)
next
  case (Ingest_Done r')
  then show ?thesis using r ok wf by (auto simp: ingest_resume_def)
qed

lemma delete_not_owner_done: "delete_pc_ok X ns b (delete_not_owner X env ns b st)"
  by (simp add: delete_not_owner_def split: option.splits)

lemma delete_begin_ok: "delete_pc_ok X ns b (delete_begin X env ns b st)"
  by (auto simp: delete_begin_def delete_not_owner_done dest: get_owner_pubkey_length split: option.splits)

lemma delete_resume_ok:
  assumes ok: "stored_ok X st" and wf: "wf_storage X st" and envs: "\<And>k. wf_io (envs k)"
    and ns: "length ns = 32" and b: "wf_blob b" and pc: "delete_pc_ok X ns b pc"
    and r: "delete_resume X envs ns b src pc st = (pc', st')"
  shows "wf_storage X st' \<and> stored_ok X st' \<and> delete_pc_ok X ns b pc'"
proof (cases pc)
  case (Delete_Owner_Hash pk)
  then show ?thesis using r pc ok wf by (auto simp: delete_resume_def delete_not_owner_done)
next
  case (Delete_Verify pk)
  show ?thesis
  proof (cases "verify_blob X ns b pk")
    case True
    then have a: "authorized X ns b" using pc Delete_Verify by (auto simp: authorized_def owner_signed_def)
    let ?s = "snd (delete_blob_data X (envs 0) ns (extract_tombstone_target (bd_data b)) st)"
    have s: "stored_ok X ?s" "wf_storage X ?s"
      using stored_ok_shrinks [OF ok shrinks_delete] wf_delete_blob_data [OF wf ns] by auto
    from stored_ok_store [OF s envs ns b a refl] show ?thesis
      using r True Delete_Verify
      by (auto simp: delete_resume_def delete_commit_def store_blob_plain_def store_blob_precomputed_def
          Let_def split_beta)
  qed (use r Delete_Verify ok wf in \<open>auto simp: delete_resume_def\<close>)
next
  case (Delete_Done r')
  then show ?thesis using r ok wf by (auto simp: delete_resume_def)
qed

section \<open>Every step\<close>

lemma node_step_inv:
  assumes step: "node_step X E n n'" and E: "\<And>e. E e \<Longrightarrow> wf_io e" and inv: "node_inv X n"
  shows "node_inv X n'"
  using step
proof cases
  case (begin_ingest env i ns b src)
  have "task_ok X \<lparr>tk_ns = ns, tk_blob = b, tk_source = src,
      tk_pc = Ingest_Task (ingest_begin X (nd_config n) env ns b (nd_storage n))\<rparr>"
    using begin_ingest inv ingest_begin_ok [of X "nd_storage n" ns] by (simp add: task_ok_def node_inv_def)
  from node_inv_task [OF inv this] show ?thesis by (simp add: begin_ingest(1))
next
  case (resume_ingest envs i t pc pc' st')
  have t: "task_ok X t" using inv resume_ingest by (auto simp: node_inv_def)
  have "wf_storage X st' \<and> stored_ok X st' \<and> ingest_pc_ok X (tk_ns t) (tk_blob t) pc'"
    by (rule ingest_resume_ok [OF _ _ _ _ _ _ resume_ingest(5)])
      (use t inv resume_ingest E in \<open>auto simp: task_ok_def node_inv_def\<close>)
  then show ?thesis
    using t resume_ingest(1) by (auto simp: task_ok_def intro!: node_inv_resumed [OF inv])
next
  case (begin_delete env i ns b src)
  have "task_ok X \<lparr>tk_ns = ns, tk_blob = b, tk_source = src,
      tk_pc = Delete_Task (delete_begin X env ns b (nd_storage n))\<rparr>"
    using begin_delete by (simp add: task_ok_def delete_begin_ok)
  from node_inv_task [OF inv this] show ?thesis by (simp add: begin_delete(1))
next
  case (resume_delete envs i t pc pc' st')
  have t: "task_ok X t" using inv resume_delete by (auto simp: node_inv_def)
  have "wf_storage X st' \<and> stored_ok X st' \<and> delete_pc_ok X (tk_ns t) (tk_blob t) pc'"
    by (rule delete_resume_ok [OF _ _ _ _ _ _ resume_delete(5)])
      (use t inv resume_delete E in \<open>auto simp: task_ok_def node_inv_def\<close>)
  then show ?thesis
    using t resume_delete(1) by (auto simp: task_ok_def intro!: node_inv_resumed [OF inv])
next
  case (finish i)
  then show ?thesis using inv by (auto simp: node_inv_def)
next
  case (maintain st')
  then show ?thesis
    using inv housekeeping_wf [OF maintain(2)]
      stored_ok_shrinks [OF _ housekeeping_shrinks [OF maintain(2)]] by (simp add: node_inv_def)
next
  case (reconfigure cfg)
  then show ?thesis using inv by (simp add: node_inv_def)
qed

lemma node_reach_inv:
  assumes "node_reach X E n" and E: "\<And>e. E e \<Longrightarrow> wf_io e"
  shows "node_inv X n"
  using assms(1)
proof induction
  case (init key cfg)
  have "lookup X (empty_storage X key) ns h = None" for ns h
    by (simp add: lookup_def empty_storage_def tbl.get_empty Let_def)
  then show ?case using init by (simp add: node_inv_def stored_ok_def wf_empty)
next
  case (step n n')
  then show ?case using node_step_inv [OF _ E] by blast
qed

end

text \<open>C8: in every state a node can reach, through any interleaving of ingestions, deletions,
  expiry scans, cursor updates and configuration changes, and with any storage faults, every stored
  blob sits under the hash of its encoding and carries a signature of a key that hashes to its
  namespace, or of a delegate that an owner-signed delegation blob names; and what a delegate signed
  is no delegation, no tombstone and no batched tombstone.\<close>

theorem stored_blobs_authorized:
  assumes "externals X" and "node_reach X wf_io n" and "length ns = 32"
    and "lookup X (nd_storage n) ns h = Some b"
  shows "h = blob_hash X (encode_blob X b) \<and>
    (owner_signed X ns b \<or>
     (\<exists>d. owner_signed X ns d \<and> is_delegation (bd_data d) \<and>
        \<not> is_delegation (bd_data b) \<and> \<not> is_tombstone (bd_data b) \<and> \<not> is_bomb (bd_data b) \<and>
        verify_blob X ns b (extract_delegate_pubkey (bd_data d))))"
proof -
  have "node_inv X n" by (rule externals.node_reach_inv [OF assms(1,2)])
  then show ?thesis
    using assms(3,4) unfolding node_inv_def stored_ok_def authorized_def delegate_may_write_def by blast
qed

end
