(* ===== verification/Engine_Tombstone.thy ===== *)
theory Engine_Tombstone
  imports Engine_Auth
begin

text \<open>
  Deletion is final: as long as the tombstone index has an entry for a content hash, no regular blob
  with that hash is readable, whatever coroutines were suspended when the tombstone came in.  The
  check and the store of a regular blob lie in one segment, and so do the deletion of a target and
  the store of its tombstone, so no interleaving separates them.  A failing commit can: the result
  of the deletion is ignored, and a tombstone stored after it leaves its target readable.  The
  surroundings here are therefore \<open>calm\<close>.
\<close>

definition calm :: "io \<Rightarrow> bool" where
  "calm env \<longleftrightarrow> wf_io env \<and> \<not> io_read_fault env \<and> \<not> io_commit_fault env"

definition deletes_others :: "blob_data \<Rightarrow> bool" where
  "deletes_others b \<longleftrightarrow> is_tombstone (bd_data b) \<or> is_bomb (bd_data b)"

definition tomb_inv :: "'t externals \<Rightarrow> 't storage \<Rightarrow> bool" where
  "tomb_inv X st \<longleftrightarrow>
     (\<forall>ns h b. length ns = 32 \<longrightarrow> mdbx_get X (tombstone_map st) (make_blob_key ns h) \<noteq> None \<longrightarrow>
        lookup X st ns h = Some b \<longrightarrow> deletes_others b)"

lemma tomb_invD:
  "tomb_inv X st \<Longrightarrow> length ns = 32 \<Longrightarrow> mdbx_get X (tombstone_map st) (make_blob_key ns h) = Some v \<Longrightarrow>
    lookup X st ns h = Some b \<Longrightarrow> deletes_others b"
  unfolding tomb_inv_def by blast

lemma tomb_inv_shrinks:
  assumes "tomb_inv X st" and "shrinks X st st'"
  shows "tomb_inv X st'"
  unfolding tomb_inv_def
proof (intro allI impI)
  fix ns h b
  assume *: "length (ns :: bytes) = 32" "mdbx_get X (tombstone_map st') (make_blob_key ns h) \<noteq> None"
    "lookup X st' ns h = Some b"
  then obtain v where "mdbx_get X (tombstone_map st) (make_blob_key ns h) = Some v"
    using assms(2) by (auto simp: shrinks_def)
  then show "deletes_others b"
    using tomb_invD [OF assms(1) *(1)] shrinks_lookup [OF assms(2) *(3)] by blast
qed

lemma tombstone_not_pubkey: "is_tombstone d \<Longrightarrow> \<not> is_pubkey_blob d"
  by (auto simp: is_tombstone_def is_pubkey_blob_def TOMBSTONE_DATA_SIZE_def PUBKEY_DATA_SIZE_def)

context externals
begin

text \<open>The tombstone index after a store.\<close>

lemma store_blob_tombstones:
  assumes wf: "wf_storage X st" and env: "wf_io env" and ns: "length ns = 32" "length h = 32"
    and b: "wf_blob b"
  shows "tombstone_map (snd (store_blob X env ns b h (encode_blob X b) m q c st)) \<in>
    {tombstone_map st,
     if is_tombstone (bd_data b)
     then mdbx_upsert X (tombstone_map st) (make_blob_key ns (extract_tombstone_target (bd_data b))) []
     else tombstone_map st}"
  using wf env ns b
  by (cases rule: store_blob_cases [where m = m and q = q and c = c]) (auto simp: frame_simps)

lemma tomb_inv_store:
  assumes inv: "tomb_inv X st" and wf: "wf_storage X st" and env: "wf_io env"
    and ns: "length ns = 32" and h: "length h = 32" and b: "wf_blob b"
    and free: "deletes_others b \<or> mdbx_get X (tombstone_map st) (make_blob_key ns h) = None"
    and gone: "is_tombstone (bd_data b) \<Longrightarrow> lookup X st ns (extract_tombstone_target (bd_data b)) = None"
  shows "tomb_inv X (snd (store_blob X env ns b h (encode_blob X b) m q c st))"
    (is "tomb_inv X ?s")
  unfolding tomb_inv_def
proof (intro allI impI)
  fix ns' h' b'
  assume n: "length (ns' :: bytes) = 32" and t: "mdbx_get X (tombstone_map ?s) (make_blob_key ns' h') \<noteq> None"
    and l: "lookup X ?s ns' h' = Some b'"
  have t': "mdbx_get X (tombstone_map st) (make_blob_key ns' h') \<noteq> None \<or>
      is_tombstone (bd_data b) \<and> ns' = ns \<and> h' = extract_tombstone_target (bd_data b)"
    using t store_blob_tombstones [OF wf env ns h b, of m q c] ns n
    by (auto simp: tbl.get_upsert make_blob_key_inject split: if_splits)
  have l': "ns' = ns \<and> h' = h \<and> b' = b \<or> lookup X st ns' h' = Some b'"
    using l lookup_store_blob [OF wf env ns h b n prod.collapse [symmetric], where h' = h' and m = m and q = q and c = c]
    by (auto split: if_splits)
  show "deletes_others b'"
  proof (cases "is_tombstone (bd_data b)")
    case True
    then show ?thesis
      using l' t' gone inv n by (auto simp: deletes_others_def tomb_inv_def)
  next
    case False
    then show ?thesis using l' t' free inv n by (auto simp: tomb_inv_def)
  qed
qed

lemma delete_calm_gone:
  assumes "wf_storage X st" and "calm env" and "length ns = 32"
  shows "lookup X (snd (delete_blob_data X env ns h st)) ns h = None"
  using lookup_delete_blob_data(1) [OF assms(1,3,3) prod.collapse [symmetric], where env = env and h = h]
    lookup_delete_blob_data(2) [OF assms(1,3,3) prod.collapse [symmetric], where env = env and h = h and h' = h]
    assms(2)
  by (auto simp: calm_def)

lemma tomb_inv_commit:
  assumes inv: "tomb_inv X st" and wf: "wf_storage X st" and envs: "\<And>k. calm (envs k)"
    and ns: "length ns = 32" and b: "wf_blob b" and h: "h = blob_hash X (encode_blob X b)"
  shows "tomb_inv X (snd (ingest_commit X cfg envs ns b (encode_blob X b) h src st))"
proof -
  let ?n = "length (blob_targets (bd_data b))"
  define s1 where "s1 = delete_targets X envs 0 ns (blob_targets (bd_data b)) st"
  define s2 where "s2 = snd (register_step X (envs ?n) b s1)"
  have s1: "wf_storage X s1" "shrinks X st s1"
    using delete_targets_ok [OF wf ns] by (auto simp: s1_def)
  have s2: "wf_storage X s2" "shrinks X s1 s2"
    using register_step_ok [OF s1(1) b] by (auto simp: s2_def)
  have i: "tomb_inv X s1" "tomb_inv X s2"
    using tomb_inv_shrinks [OF inv s1(2)] tomb_inv_shrinks [OF _ s2(2)] by blast+
  have lh: "length h = 32" by (simp add: h length_blob_hash)
  have gone: "lookup X s2 ns (extract_tombstone_target (bd_data b)) = None" if t: "is_tombstone (bd_data b)"
  proof -
    have "s2 = snd (delete_blob_data X (envs 0) ns (extract_tombstone_target (bd_data b)) st)"
      using t by (simp add: s2_def s1_def register_step_def tombstone_not_pubkey blob_targets_def)
    then show ?thesis using delete_calm_gone [OF wf envs ns] by simp
  qed
  have store: "tomb_inv X (snd (store_blob X (envs (Suc ?n)) ns b h (encode_blob X b) m q c s2))"
    if "deletes_others b \<or> \<not> has_tombstone_for X (envs 0) st ns h" for m q c
  proof (rule tomb_inv_store [OF i(2) s2(1) _ ns lh b _ gone])
    show "wf_io (envs (Suc ?n))" using envs by (simp add: calm_def)
    show "deletes_others b \<or> mdbx_get X (tombstone_map s2) (make_blob_key ns h) = None"
      using that envs [of 0] shrinks_trans [OF s1(2) s2(2)]
      by (auto simp: has_tombstone_for_def calm_def shrinks_def)
  qed
  have eq: "ingest_commit X cfg envs ns b (encode_blob X b) h src st =
    (if \<not> deletes_others b \<and> has_tombstone_for X (envs 0) st ns h then (rejection Tombstoned, st)
     else case register_step X (envs ?n) b s1 of
        (Inl _, s) \<Rightarrow> (rejection Pubk_Mismatch_Error, s)
      | (Inr _, s) \<Rightarrow>
          let r = store_blob X (envs (Suc ?n)) ns b h (encode_blob X b)
              (if is_tombstone (bd_data b) then 0 else max_storage_bytes cfg)
              (fst (effective_quota cfg ns)) (snd (effective_quota cfg ns)) s in
          (result_of_store (fst r) src, snd r))"
    by (simp add: ingest_commit_def s1_def deletes_others_def Let_def split_beta split: sum.split)
  show ?thesis
    using inv i(2) store
    by (auto simp: eq Let_def s2_def split: prod.splits sum.splits)
qed

lemma tomb_inv_resume:
  assumes inv: "tomb_inv X st" and wf: "wf_storage X st" and envs: "\<And>k. calm (envs k)"
    and t: "length ns = 32" "wf_blob b" "ingest_pc_ok X ns b pc"
    and r: "ingest_resume X cfg envs ns b src pc st = (pc', st')"
  shows "tomb_inv X st'"
proof (cases pc)
  case (Await_Verify pk e h)
  with t(3) have "e = encode_blob X b" "h = blob_hash X (encode_blob X b)" by auto
  then show ?thesis
    using r inv Await_Verify tomb_inv_commit [OF inv wf envs t(1,2), where h = h and cfg = cfg and src = src]
    by (auto simp: ingest_resume_def split_beta split: if_splits)
qed (use r inv in \<open>auto simp: ingest_resume_def Let_def\<close>)

lemma tomb_inv_delete_resume:
  assumes inv: "tomb_inv X st" and wf: "wf_storage X st" and envs: "\<And>k. calm (envs k)"
    and t: "length ns = 32" "wf_blob b" "delete_pc_ok X ns b pc"
    and r: "delete_resume X envs ns b src pc st = (pc', st')"
  shows "tomb_inv X st'"
proof (cases pc)
  case (Delete_Verify pk)
  let ?s = "snd (delete_blob_data X (envs 0) ns (extract_tombstone_target (bd_data b)) st)"
  let ?h = "blob_hash X (encode_blob X b)"
  have b: "deletes_others b" using t(3) Delete_Verify by (simp add: deletes_others_def)
  have "tomb_inv X (snd (store_blob X (envs 1) ns b ?h (encode_blob X b) 0 0 0 ?s))"
  proof (rule tomb_inv_store)
    show "tomb_inv X ?s" by (rule tomb_inv_shrinks [OF inv shrinks_delete])
    show "wf_storage X ?s" by (rule wf_delete_blob_data [OF wf t(1)])
    show "lookup X ?s ns (extract_tombstone_target (bd_data b)) = None"
      by (rule delete_calm_gone [OF wf envs t(1)])
  qed (use b t envs in \<open>auto simp: calm_def length_blob_hash\<close>)
  then show ?thesis
    using r inv Delete_Verify
    by (auto simp: delete_resume_def delete_commit_def store_blob_plain_def store_blob_precomputed_def
        Let_def split_beta split: if_splits)
qed (use r inv in \<open>auto simp: delete_resume_def\<close>)

lemma node_reach_tomb:
  assumes "node_reach X calm n"
  shows "node_inv X n \<and> tomb_inv X (nd_storage n)"
  using assms
proof induction
  case (init key cfg)
  have "node_inv X \<lparr>nd_storage = empty_storage X key, nd_config = cfg, nd_tasks = Map.empty\<rparr>"
    by (rule node_reach_inv [OF node_reach.init [OF init]]) (simp add: calm_def)
  then show ?case by (simp add: tomb_inv_def empty_storage_def tbl.get_empty Let_def)
next
  case (step n n')
  have inv: "node_inv X n'"
    by (rule node_step_inv [OF step(2)]) (use step.IH in \<open>auto simp: calm_def\<close>)
  have wf: "wf_storage X (nd_storage n)" and ti: "tomb_inv X (nd_storage n)"
    using step.IH by (auto simp: node_inv_def)
  have tasks: "task_ok X t" if "nd_tasks n i = Some t" for i t
    using that step.IH unfolding node_inv_def by blast
  have "tomb_inv X (nd_storage n')"
    using step(2)
  proof cases
    case (resume_ingest envs i t pc pc' st')
    have "tomb_inv X st'"
      by (rule tomb_inv_resume [OF ti wf resume_ingest(2) _ _ _ resume_ingest(5)])
        (use tasks [OF resume_ingest(3)] resume_ingest in \<open>auto simp: task_ok_def\<close>)
    then show ?thesis by (simp add: resume_ingest(1))
  next
    case (resume_delete envs i t pc pc' st')
    have "tomb_inv X st'"
      by (rule tomb_inv_delete_resume [OF ti wf resume_delete(2) _ _ _ resume_delete(5)])
        (use tasks [OF resume_delete(3)] resume_delete in \<open>auto simp: task_ok_def\<close>)
    then show ?thesis by (simp add: resume_delete(1))
  next
    case (maintain st')
    then show ?thesis using tomb_inv_shrinks [OF ti housekeeping_shrinks] by simp
  qed (use ti in simp_all)
  with inv show ?case by simp
qed

end


end
