(* ===== verification/Engine_Props.thy ===== *)
theory Engine_Props
  imports Engine_Tombstone
begin

text \<open>
  One call of \<open>ingest\<close> that no other task interferes with: it always comes to a result, what each
  kind of result says about the storage, and the rule that a namespace begins with the publication
  of its key.
\<close>

section \<open>The call returns\<close>

fun pc_rank :: "ingest_pc \<Rightarrow> nat" where
  "pc_rank (Await_Owner_Hash _) = 4"
| "pc_rank (Await_Pubk_Hash _) = 3"
| "pc_rank (Await_Content_Hash _ _) = 2"
| "pc_rank (Await_Verify _ _ _) = 1"
| "pc_rank (Ingest_Done _) = 0"

lemma pc_rank_zero: "pc_rank pc = 0 \<longleftrightarrow> (\<exists>r. pc = Ingest_Done r)"
  by (cases pc) auto

lemma pc_rank_paths:
  "pc_rank (key_resolved X cfg env ns b pk st) \<le> 2"
  "pc_rank (not_owner_path X cfg env ns b st) \<le> 3"
  "pc_rank (ingest_begin X cfg env ns b st) \<le> 4"
proof -
  show kr: "pc_rank (key_resolved X cfg env ns b pk st) \<le> 2" for pk
    by (simp add: key_resolved_def Let_def)
  show no: "pc_rank (not_owner_path X cfg env ns b st) \<le> 3"
    by (auto simp: not_owner_path_def delegate_path_def split: option.splits intro: le_trans [OF kr])
  show "pc_rank (ingest_begin X cfg env ns b st) \<le> 4"
    using no by (auto simp: ingest_begin_def split: option.splits)
qed

lemma pc_rank_resume:
  "pc_rank (fst (ingest_resume X cfg envs ns b src pc st)) \<le> pc_rank pc - 1"
  using pc_rank_paths(1) [of X cfg "envs 0" ns b _ st] pc_rank_paths(2) [of X cfg "envs 0" ns b st]
  by (cases pc) (auto simp: ingest_resume_def Let_def split_beta intro: le_trans [where j = 2])

lemma ingest_run_rank:
  "pc_rank (fst s) \<le> n \<Longrightarrow> pc_rank (fst (ingest_run X cfg envs ns b src n s)) = 0"
proof (induction n arbitrary: s)
  case (Suc n)
  then show ?case
    using pc_rank_resume [of X cfg "envs (Suc n)" ns b src "fst s" "snd s"] by simp
qed simp

lemma ingest_rank: "pc_rank (fst (ingest X cfg envs ns b src st)) = 0"
  unfolding ingest_def by (rule ingest_run_rank) (simp add: pc_rank_paths)

text \<open>a call of \<open>ingest\<close> always returns a result, after at most four suspensions.\<close>

theorem ingest_returns:
  "\<exists>r st'. ingest X cfg envs ns b src st = (Ingest_Done r, st')"
  using ingest_rank [of X cfg envs ns b src st] unfolding pc_rank_zero by (metis prod.collapse)

section \<open>What the result says\<close>

definition outcome ::
    "'t externals \<Rightarrow> bytes \<Rightarrow> blob_data \<Rightarrow> 't storage \<Rightarrow> ingest_result \<Rightarrow> 't storage \<Rightarrow> bool" where
  "outcome X ns b st r st' \<longleftrightarrow>
     (case ir_ack r of
        None \<Rightarrow> \<not> ir_accepted r \<and> shrinks X st st'
      | Some a \<Rightarrow> ir_accepted r \<and> ack_blob_hash a = blob_hash X (encode_blob X b) \<and>
          (\<exists>b'. lookup X st' ns (ack_blob_hash a) = Some b' \<and> (ack_status a = Ingest_Stored \<longrightarrow> b' = b)))"

lemma outcome_rejection [simp]: "outcome X ns b st (rejection e) st' \<longleftrightarrow> shrinks X st st'"
  by (simp add: outcome_def rejection_def)

lemma outcome_accept:
  "outcome X ns b st (accept h s status src) st' \<longleftrightarrow> h = blob_hash X (encode_blob X b) \<and>
    (\<exists>b'. lookup X st' ns h = Some b' \<and> (status = Ingest_Stored \<longrightarrow> b' = b))"
  by (simp add: outcome_def accept_def success_def)

fun running :: "'t externals \<Rightarrow> bytes \<Rightarrow> blob_data \<Rightarrow> 't storage \<Rightarrow> ingest_pc \<times> 't storage \<Rightarrow> bool" where
  "running X ns b st (Ingest_Done r, st') \<longleftrightarrow> outcome X ns b st r st'"
| "running X ns b st (pc, st') \<longleftrightarrow> ingest_pc_ok X ns b pc \<and> st' = st"

lemma runningI:
  "ingest_pc_ok X ns b pc \<Longrightarrow> (\<And>r. pc = Ingest_Done r \<Longrightarrow> outcome X ns b st r st) \<Longrightarrow> running X ns b st (pc, st)"
  by (cases pc) simp_all

lemma rejects_or_waits:
  "key_resolved X cfg env ns b pk st = Ingest_Done r \<Longrightarrow> outcome X ns b st r st"
  "not_owner_path X cfg env ns b st = Ingest_Done r \<Longrightarrow> outcome X ns b st r st"
  "ingest_begin X cfg env ns b st = Ingest_Done r \<Longrightarrow> outcome X ns b st r st"
proof -
  show kr: "key_resolved X cfg env ns b pk st = Ingest_Done r \<Longrightarrow> outcome X ns b st r st" for pk
    by (auto simp: key_resolved_def Let_def split: if_splits)
  show no: "not_owner_path X cfg env ns b st = Ingest_Done r \<Longrightarrow> outcome X ns b st r st"
    using kr by (auto simp: not_owner_path_def delegate_path_def split: if_splits option.splits)
  show "ingest_begin X cfg env ns b st = Ingest_Done r \<Longrightarrow> outcome X ns b st r st"
    using no by (auto simp: ingest_begin_def split: option.splits)
qed

context externals
begin

lemma outcome_store:
  assumes wf: "wf_storage X s" and env: "wf_io env" and ns: "length ns = 32" and b: "wf_blob b"
    and h: "h = blob_hash X (encode_blob X b)" and s: "shrinks X st s"
  shows "outcome X ns b st (result_of_store (fst (store_blob X env ns b h (encode_blob X b) m q c s)) src)
      (snd (store_blob X env ns b h (encode_blob X b) m q c s))"
proof -
  have lh: "length h = 32" by (simp add: h length_blob_hash)
  note lk = lookup_store_blob [OF wf env ns lh b ns prod.collapse [symmetric], where h' = h and m = m and q = q and c = c]
  show ?thesis
    using wf env ns lh b
  proof (cases rule: store_blob_cases [where m = m and q = q and c = c])
    case (limit x)
    then have "x \<in> {Capacity_Exceeded, Quota_Exceeded}" by (auto simp: check_limits_def Let_def split: if_splits)
    with limit s show ?thesis by (auto simp: result_of_store_def)
  next
    case (stored e)
    then show ?thesis using lk h by (simp add: result_of_store_def outcome_accept)
  qed (use s h in \<open>auto simp: result_of_store_def outcome_accept\<close>)
qed

lemma outcome_commit:
  assumes wf: "wf_storage X st" and envs: "\<And>k. wf_io (envs k)" and ns: "length ns = 32" and b: "wf_blob b"
    and h: "h = blob_hash X (encode_blob X b)"
    and r: "ingest_commit X cfg envs ns b (encode_blob X b) h src st = (r, st')"
  shows "outcome X ns b st r st'"
proof -
  let ?n = "length (blob_targets (bd_data b))"
  let ?s1 = "delete_targets X envs 0 ns (blob_targets (bd_data b)) st"
  let ?s2 = "snd (register_step X (envs ?n) b ?s1)"
  have s1: "wf_storage X ?s1" "shrinks X st ?s1" using delete_targets_ok [OF wf ns] by auto
  have s2: "wf_storage X ?s2" "shrinks X st ?s2"
    using register_step_ok [OF s1(1) b] shrinks_trans [OF s1(2)] by auto
  note s3 = outcome_store [OF s2(1) envs ns b h s2(2)]
  show ?thesis
    using r s2(2) s3
    by (auto simp: ingest_commit_def Let_def split_beta split: if_splits sum.splits prod.splits)
qed

lemma running_resume:
  assumes ok: "stored_ok X st" and wf: "wf_storage X st" and envs: "\<And>k. wf_io (envs k)"
    and ns: "length ns = 32" and b: "wf_blob b" and run: "running X ns b st (pc, s)"
  shows "running X ns b st (ingest_resume X cfg envs ns b src pc s)"
proof (cases "\<exists>r. pc = Ingest_Done r")
  case True
  then show ?thesis using run by (auto simp: ingest_resume_def)
next
  case False
  then have pc: "ingest_pc_ok X ns b pc" and s: "s = st" using run by (cases pc; simp)+
  obtain pc' st' where r: "ingest_resume X cfg envs ns b src pc st = (pc', st')" by fastforce
  have pc': "ingest_pc_ok X ns b pc'" using ingest_resume_ok [OF ok wf envs ns b pc r] by simp
  show ?thesis
  proof (cases pc)
    case (Await_Content_Hash pk e)
    have "outcome X ns b st (accept (blob_hash X e) 0 Ingest_Duplicate src) st"
      if "has_blob X (envs 0) st ns (blob_hash X e)"
      using that pc Await_Content_Hash lookup_None_iff [OF wf, of ns "blob_hash X e"]
      by (auto simp: outcome_accept has_blob_def)
    then show ?thesis
      using r pc' Await_Content_Hash by (auto simp: s ingest_resume_def Let_def intro!: runningI)
  next
    case (Await_Verify pk e h)
    then show ?thesis
      using r pc outcome_commit [OF wf envs ns b, where cfg = cfg and src = src]
      by (auto simp: s ingest_resume_def split_beta)
  qed (use r pc' False in \<open>auto simp: s ingest_resume_def intro!: runningI dest: rejects_or_waits(1,2) split: if_splits\<close>)
qed

lemma running_run:
  assumes "stored_ok X st" and "wf_storage X st" and "\<And>i k. wf_io (envs i k)"
    and "length ns = 32" and "wf_blob b" and "running X ns b st s"
  shows "running X ns b st (ingest_run X cfg envs ns b src n s)"
  using assms(6)
proof (induction n arbitrary: s)
  case (Suc n)
  then show ?case
    using running_resume [OF assms(1,2) _ assms(4,5), of "envs (Suc n)" "fst s" "snd s"] assms(3) by simp
qed simp

lemma ingest_outcome:
  assumes "stored_ok X st" and "wf_storage X st" and "\<And>i k. wf_io (envs i k)"
    and "length ns = 32" and "wf_blob b" and "ingest X cfg envs ns b src st = (Ingest_Done r, st')"
  shows "outcome X ns b st r st'"
proof -
  have "running X ns b st (ingest_begin X cfg (envs 0 0) ns b st, st)"
    by (intro runningI ingest_begin_ok rejects_or_waits(3)) fact+
  from running_run [OF assms(1,2) _ assms(4,5) this, where envs = envs and n = 4 and cfg = cfg and src = src]
    assms(3,6) show ?thesis by (simp add: ingest_def)
qed

end

text \<open>C10: the result of \<open>ingest\<close> can be relied on.  An acceptance carries the hash of the blob's
  encoding, and a blob with that hash is readable in the namespace afterwards, the very blob that was
  sent if it was reported as stored.  After a rejection nothing is readable that was not readable
  before.\<close>

theorem ingest_result_reliable:
  assumes "externals X" and "node_reach X wf_io n" and "\<forall>i k. wf_io (envs i k)"
    and "length ns = 32" and "wf_blob b"
    and "ingest X (nd_config n) envs ns b src (nd_storage n) = (Ingest_Done r, st')"
  shows "(case ir_ack r of
      Some a \<Rightarrow> ir_accepted r \<and> ack_blob_hash a = blob_hash X (encode_blob X b) \<and>
        (\<exists>b'. lookup X st' ns (ack_blob_hash a) = Some b' \<and> (ack_status a = Ingest_Stored \<longrightarrow> b' = b))
    | None \<Rightarrow> \<not> ir_accepted r \<and>
        (\<forall>ns' h' b'. lookup X st' ns' h' = Some b' \<longrightarrow> lookup X (nd_storage n) ns' h' = Some b'))"
proof -
  have "node_inv X n" by (rule externals.node_reach_inv [OF assms(1,2)])
  then have "outcome X ns b (nd_storage n) r st'"
    using externals.ingest_outcome [OF assms(1) _ _ _ assms(4-6)] assms(3) by (simp add: node_inv_def)
  then show ?thesis
    using shrinks_lookup [of X "nd_storage n" st'] by (auto simp: outcome_def split: option.splits)
qed

section \<open>A namespace begins with its key\<close>

text \<open>a write to a namespace without a registered key is rejected, before any hashing or
  signature verification and without touching the storage, unless it publishes a key.\<close>

theorem pubk_first:
  assumes "\<not> has_owner_pubkey X (envs 0 0) st ns" and "\<not> is_pubkey_blob (bd_data b)"
  shows "\<exists>r. ingest_begin X cfg (envs 0 0) ns b st = Ingest_Done r \<and> \<not> ir_accepted r \<and>
    ingest X cfg envs ns b src st = (Ingest_Done r, st)"
proof -
  have "\<exists>e. cheap_checks X cfg (envs 0 0) ns b st = Some e"
    using assms by (simp add: cheap_checks_def)
  then obtain e where e: "ingest_begin X cfg (envs 0 0) ns b st = Ingest_Done (rejection e)"
    by (auto simp: ingest_begin_def)
  have "ingest_run X cfg envs ns b src k (Ingest_Done (rejection e), st) = (Ingest_Done (rejection e), st)" for k
    by (induction k) (simp_all add: ingest_resume_def)
  with e show ?thesis by (simp add: ingest_def rejection_def)
qed

end
