(* ===== verification/Storage_Props.thy ===== *)
theory Storage_Props
  imports Storage_Reach
begin

text \<open>
  What a client of the storage component can rely on: round trips of \<open>store_blob\<close> and
  \<open>get_blob\<close>, failed operations that change nothing, sequence numbers that are never reused,
  polling that sees every new blob once, first-wins owner keys, and batches that are all or
  nothing.
\<close>

section \<open>Storing and reading\<close>

context externals
begin

lemma stored_seq:
  assumes wf: "wf_storage X st" and env: "wf_io env" and ns: "length ns = 32" "length h = 32"
    and b: "wf_blob b" and r: "store_blob X env ns b h (encode_blob X b) m q c st = (r, st')"
    and s: "sr_status r = Stored"
  shows "sr_seq_num r = next_seq_num X st ns" and "sr_blob_hash r = h" and "lookup X st ns h = None"
    and "seq_map st' = mdbx_upsert X (seq_map st) (make_seq_key ns (next_seq_num X st ns))
      (h @ extract_blob_type (bd_data b))"
  using wf env ns b
  by (cases rule: store_blob_cases [where m = m and q = q and c = c];
      use r s check_limits_not_stored [of st env ns b "encode_blob X b" m q c] in
        \<open>auto simp: frame_simps\<close>)+

end

text \<open>C13: a blob reported as stored is read back unchanged, every other blob is as before, its
  sequence number exceeds every earlier one of the namespace, and the namespace's sequence entries
  are the old ones followed by the new.\<close>

theorem store_then_get:
  assumes "externals X" and "wf_storage X st" and "wf_io env" and "length ns = 32" and "length h = 32"
    and "wf_blob b" and "store_blob X env ns b h (encode_blob X b) m q c st = (r, st')"
    and "sr_status r = Stored" and "\<not> io_read_fault env'" and "next_seq_num X st ns \<noteq> 0"
    and "length ns' = 32"
  shows "get_blob X env' st' ns' h' = (if ns' = ns \<and> h' = h then Some b else get_blob X env' st ns' h') \<and>
    (\<forall>e \<in> set (ns_entries X st ns). seq_of_key (fst e) < sr_seq_num r) \<and>
    ns_entries X st' ns = ns_entries X st ns @
      [(make_seq_key ns (sr_seq_num r), h @ extract_blob_type (bd_data b))]"
  using externals.stored_seq [OF assms(1-8)] assms
    externals.lookup_store_blob [OF assms(1-6,11,7), of h']
    externals.next_seq_num_greater [OF assms(1,2,4) _ assms(10)]
    externals.ns_entries_append [OF assms(1,2,4,4,10)]
  by (simp add: get_blob_lookup)

text \<open>an outcome other than \<open>Stored\<close> leaves all eight sub-databases as they were.\<close>

theorem store_failed_unchanged:
  "sr_status (fst (store_blob X env ns b h enc m q c st)) = Stored \<or>
     snd (store_blob X env ns b h enc m q c st) = st"
  by (auto simp: store_blob_def Let_def split_beta split: option.splits sum.splits if_splits)

section \<open>Sequence numbers\<close>

context externals
begin

lemma step_seq:
  assumes step: "storage_step X st st'" and inv: "storage_inv X st"
    and k: "mdbx_get X (seq_map st) k = Some v"
  shows "mdbx_get X (seq_map st') k \<in> {Some v, Some (replicate 36 0)}"
  using step
proof cases
  case (store env ns b h m q c)
  have wf: "wf_storage X st" using inv by (simp add: storage_inv_def)
  have h: "length h = 32" by (simp add: store(5) length_blob_hash)
  show ?thesis
  proof (cases "sr_status (fst (store_blob X env ns b h (encode_blob X b) m q c st)) = Stored")
    case True
    note s = stored_seq [OF wf store(2,3) h store(4) prod.collapse [symmetric] True]
    have "k \<noteq> make_seq_key ns (next_seq_num X st ns)"
    proof
      assume kk: "k = make_seq_key ns (next_seq_num X st ns)"
      then have "(k, v) \<in> set (ns_entries X st ns)" using k store(3) by (simp add: in_ns_entries)
      from next_seq_num_greater [OF wf store(3) this store(6)] kk store(3) show False by simp
    qed
    then show ?thesis using s(4) k by (simp add: store(1) tbl.get_upsert)
  next
    case False
    then have "snd (store_blob X env ns b h (encode_blob X b) m q c st) = st"
      by (auto simp: store_blob_def Let_def split_beta split: option.splits sum.splits if_splits)
    then show ?thesis using k by (simp add: store(1))
  qed
next
  case (delete ns h env)
  have "wf_storage X st" using inv by (simp add: storage_inv_def)
  then show ?thesis
  proof (cases rule: delete_blob_data_cases [where ns = ns and h = h and env = env])
    case (deleted u b)
    then show ?thesis using k
      by (auto simp: delete(1) frame_simps clear_seq_def tbl.get_upsert split: option.splits)
  qed (use k delete in simp_all)
next
  case (expire env)
  have "seq_map st' = seq_map st"
  proof (cases "io_commit_fault env")
    case True
    then show ?thesis by (simp add: expire run_expiry_scan_def split: prod.splits sum.splits)
  next
    case False
    then show ?thesis
      using expiry_scan_lookup(4) [OF _ _ False prod.collapse [symmetric]] inv
      by (simp add: expire storage_inv_def)
  qed
  then show ?thesis using k by simp
next
  case (register hint pk env)
  then show ?thesis using k by (auto simp: register_owner_pubkey_def split: option.splits)
next
  case (cleanup env known)
  then show ?thesis using k by (simp add: cleanup_stale_cursors_def cleanup_frame)
next
  case (rebuild env)
  then show ?thesis using k by (simp add: rebuild_frame)
qed (use k in \<open>simp_all add: set_sync_cursor_def delete_sync_cursor_def delete_peer_cursors_def
      reset_all_round_counters_def Let_def split_beta\<close>)

lemma steps_seq:
  assumes "(storage_step X)\<^sup>*\<^sup>* st st'" and "storage_inv X st"
    and "mdbx_get X (seq_map st) k = Some v"
  shows "storage_inv X st' \<and> mdbx_get X (seq_map st') k \<in> {Some v, Some (replicate 36 0)}"
  using assms(1)
proof induction
  case (step y z)
  then show ?case using step_inv [of y z] step_seq [of y z k] by auto
qed (use assms in simp)

end

text \<open>C15: sequence numbers are never recycled.  Whatever operations run after a state, an entry the
  sequence table had then is still there, with the same hash or with the all-zero mark of a
  deletion; so the largest number of a namespace never goes down.\<close>

theorem sequence_entries_stable:
  assumes "externals X" and "storage_reach X st" and "(storage_step X)\<^sup>*\<^sup>* st st'"
    and "mdbx_get X (seq_map st) k = Some v"
  shows "mdbx_get X (seq_map st') k \<in> {Some v, Some (replicate 36 0)}"
  using externals.steps_seq [OF assms(1,3) externals.reach_inv [OF assms(1,2)] assms(4)] by blast

section \<open>Deleting\<close>

context externals
begin

lemma delete_seq_keys:
  assumes wf: "wf_storage X st"
  shows "map fst (ns_entries X (snd (delete_blob_data X env ns h st)) ns') = map fst (ns_entries X st ns')"
  using wf
proof (cases rule: delete_blob_data_cases [where ns = ns and h = h and env = env])
  case (deleted v b)
  let ?s = "sub_quota X (st\<lparr>blobs_map := mdbx_erase X (blobs_map st) (make_blob_key ns h)\<rparr>) ns (of_nat (length v))"
  let ?t = "snd (delete_blob_data X env ns h st)"
  have st': "seq_map ?t = seq_map (clear_seq X ?s ns h)"
    using deleted(4) by (auto simp: frame_simps)
  have s: "ns_entries X ?s = ns_entries X st" by (intro ext) (simp add: ns_entries_def frame_simps)
  show ?thesis
  proof (cases "find_seq_key X ?s ns h")
    case None
    then show ?thesis using st' s by (simp add: clear_seq_def ns_entries_def frame_simps)
  next
    case (Some k)
    then obtain u where u: "mdbx_get X (seq_map ?s) k = Some u" by (rule find_seq_key_Some)
    have "seq_map ?t = mdbx_upsert X (seq_map ?s) k (replicate 36 0)"
      using st' by (simp add: clear_seq_def Some)
    from ns_entries_update [OF u this, of ns'] s show ?thesis
      by (auto simp: comp_def)
  qed
qed simp_all

end

text \<open>C14: deleting reports success exactly when the blob was there and the commit went through; then
  that blob and no other is gone, and the largest sequence number of every namespace is unchanged,
  so a peer that compares it still notices what comes later.\<close>

theorem delete_blob_correct:
  assumes "externals X" and "wf_storage X st" and "length ns = 32" and "length ns' = 32"
    and "delete_blob_data X env ns h st = (d, st')"
  shows "(d \<longleftrightarrow> lookup X st ns h \<noteq> None \<and> \<not> io_commit_fault env) \<and>
    lookup X st' ns' h' = (if d \<and> ns' = ns \<and> h' = h then None else lookup X st ns' h') \<and>
    latest_seq X st' ns' = latest_seq X st ns'"
proof -
  have wf': "wf_storage X st'"
    using externals.wf_delete_blob_data [OF assms(1-3), of env h] assms(5) by simp
  have "map fst (ns_entries X st' ns') = map fst (ns_entries X st ns')"
    using externals.delete_seq_keys [OF assms(1,2), of env ns h ns'] assms(5) by simp
  then have same: "(ns_entries X st' ns' = []) = (ns_entries X st ns' = [])"
    "ns_entries X st ns' \<noteq> [] \<Longrightarrow> fst (last (ns_entries X st' ns')) = fst (last (ns_entries X st ns'))"
    by (metis map_is_Nil_conv, metis last_map map_is_Nil_conv)
  then show ?thesis
    using externals.lookup_delete_blob_data [OF assms]
      externals.latest_seq_eq [OF assms(1,2,4)] externals.latest_seq_eq [OF assms(1) wf' assms(4)]
    by simp
qed

section \<open>Owner keys\<close>

context externals
begin

lemma step_owner:
  assumes step: "storage_step X st st'" and inv: "storage_inv X st"
    and k: "mdbx_get X (owner_pubkeys_map st) hint = Some pk"
  shows "mdbx_get X (owner_pubkeys_map st') hint = Some pk"
  using step
proof cases
  case (store env ns b h m q c)
  then show ?thesis using k
    by (auto simp: store_blob_def Let_def split_beta frame_simps split: option.splits sum.splits)
next
  case (delete ns h env)
  have "wf_storage X st" using inv by (simp add: storage_inv_def)
  then show ?thesis
    by (cases rule: delete_blob_data_cases [where ns = ns and h = h and env = env])
      (use k delete in \<open>simp_all add: frame_simps\<close>)
next
  case (expire env)
  show ?thesis
  proof (cases "io_commit_fault env")
    case True
    then show ?thesis using k by (simp add: expire run_expiry_scan_def split: prod.splits sum.splits)
  next
    case False
    then show ?thesis
      using expiry_scan_lookup(5) [OF _ _ False prod.collapse [symmetric]] inv k
      by (simp add: expire storage_inv_def)
  qed
next
  case (register hint' pk' env)
  then show ?thesis using k by (auto simp: register_owner_pubkey_def tbl.get_upsert split: option.splits)
next
  case (cleanup env known)
  have "owner_pubkeys_map (snd (cleanup_loop X env known ps (n, s))) = owner_pubkeys_map s" for ps n s
    by (induction ps arbitrary: n s) (simp_all add: delete_peer_cursors_def Let_def)
  then show ?thesis using k by (simp add: cleanup cleanup_stale_cursors_def)
next
  case (rebuild env)
  then show ?thesis using k
    by (auto simp: rebuild_quota_aggregates_def Let_def split: option.splits if_splits)
qed (use k in \<open>simp_all add: set_sync_cursor_def delete_sync_cursor_def delete_peer_cursors_def
      reset_all_round_counters_def Let_def split_beta\<close>)

lemma registered_found:
  "register_owner_pubkey X env hint pk st = (Inr (), st1) \<Longrightarrow>
    mdbx_get X (owner_pubkeys_map st1) hint = Some pk"
  by (auto simp: register_owner_pubkey_def tbl.get_upsert split: option.splits if_splits)

lemma steps_owner:
  assumes "(storage_step X)\<^sup>*\<^sup>* st st'" and "storage_inv X st"
    and "mdbx_get X (owner_pubkeys_map st) hint = Some pk"
  shows "storage_inv X st' \<and> mdbx_get X (owner_pubkeys_map st') hint = Some pk"
  using assms(1)
proof induction
  case (step y z)
  then show ?case using step_inv [of y z] step_owner [of y z hint pk] by blast
qed (use assms in simp)

end

text \<open>the first key registered for a signer hint is the owner key for ever: whatever operations
  follow, it is the key that is found, and registering a different one fails with the mismatch
  error and changes nothing.\<close>

theorem owner_key_first_wins:
  assumes "externals X" and "storage_reach X st"
    and "register_owner_pubkey X env hint pk st = (Inr (), st1)" and "length hint = 32"
    and "length pk = 2592" and "(storage_step X)\<^sup>*\<^sup>* st1 st2" and "\<not> io_read_fault env2"
  shows "get_owner_pubkey X env2 st2 hint = Some pk \<and>
    (\<forall>pk'. pk' \<noteq> pk \<longrightarrow> register_owner_pubkey X env2 hint pk' st2 = (Inl Pubkey_Mismatch, st2))"
proof -
  have r1: "storage_reach X st1"
    using storage_reach.step [OF assms(2) storage_step.register [OF assms(4,5), of X st env]] assms(3) by simp
  have "mdbx_get X (owner_pubkeys_map st1) hint = Some pk"
    using assms(3) by (rule externals.registered_found [OF assms(1)])
  from externals.steps_owner [OF assms(1,6) externals.reach_inv [OF assms(1) r1] this]
  show ?thesis using assms(5,7) by (simp add: get_owner_pubkey_def register_owner_pubkey_def)
qed

end
