(* ===== verification/Storage_Example.thy ===== *)
theory Storage_Example
  imports Storage_Props Storage_Namespaces
begin

text \<open>
  One concrete run of the storage component on the reference libraries: an empty database, then a
  database with one expiring blob in it.  The properties of the storage theories are applied to
  these two states here.
\<close>

section \<open>The run\<close>

definition ex_io :: io where
  "ex_io = \<lparr>io_now = 200, io_used_bytes = 0, io_nonce = (\<lambda>_. replicate 12 0),
     io_read_fault = False, io_commit_fault = False\<rparr>"

definition ex_ns :: bytes where "ex_ns = replicate 32 1"

definition ex_blob :: blob_data where
  "ex_blob = \<lparr>bd_signer_hint = replicate 32 2, bd_data = [7, 8, 9], bd_ttl = 10, bd_timestamp = 100,
     bd_signature = [5]\<rparr>"

definition ex_hash :: bytes where "ex_hash = blob_hash ref_externals (encode_blob ref_externals ex_blob)"

definition ex_st0 :: "ref_table storage" where
  "ex_st0 = empty_storage ref_externals (replicate 32 0)"

definition ex_run :: "store_result \<times> ref_table storage" where
  "ex_run = store_blob ref_externals ex_io ex_ns ex_blob ex_hash (encode_blob ref_externals ex_blob)
     0 0 0 ex_st0"

definition ex_st1 :: "ref_table storage" where "ex_st1 = snd ex_run"

lemma ex_wf [simp]:
  "length ex_ns = 32" "length ex_hash = 32" "wf_blob ex_blob" "wf_io ex_io"
  "\<not> io_read_fault ex_io" "\<not> io_commit_fault ex_io"
  by (simp_all add: ex_ns_def ex_hash_def ex_blob_def ex_io_def wf_blob_def wf_io_def blob_hash_def
      sha3_256_def ref.sha3.length_sha3)

context externals
begin

lemma empty_tables:
  "mdbx_entries X (seq_map (empty_storage X key)) = []"
  "lookup X (empty_storage X key) ns h = None"
  "next_seq_num X (empty_storage X key) ns = 1"
  by (simp_all add: empty_storage_def tbl.entries_empty tbl.get_empty lookup_def next_seq_num_def
      lower_bound_def last_entry_def Let_def)

lemma check_no_limits: "check_limits X st env ns b enc 0 0 0 = None"
  by (simp add: check_limits_def)

lemma first_store:
  assumes key: "length key = 32" and env: "wf_io env" "\<not> io_commit_fault env" and ns: "length ns = 32"
    and b: "wf_blob b" and h: "h = blob_hash X (encode_blob X b)"
    and r: "store_blob X env ns b h (encode_blob X b) 0 0 0 (empty_storage X key) = (r, st)"
  shows "storage_step X (empty_storage X key) st" and "storage_reach X st" and "wf_storage X st"
    and "sr_status r = Stored" and "sr_seq_num r = 1" and "lookup X st ns h = Some b"
proof -
  let ?s = "empty_storage X key"
  have reach: "storage_reach X ?s" by (rule storage_reach.init [OF key])
  have wf: "wf_storage X ?s" using reach_inv [OF reach] by (simp add: storage_inv_def)
  have lh: "length h = 32" by (simp add: h blob_hash_def sha3_256_def sha3.length_sha3)
  have "storage_step X ?s (snd (store_blob X env ns b h (encode_blob X b) 0 0 0 ?s))"
    by (rule storage_step.store) (use env ns b h in \<open>simp_all add: empty_tables\<close>)
  then show step: "storage_step X ?s st" by (simp add: r)
  show r': "storage_reach X st" by (rule storage_reach.step [OF reach step])
  show "wf_storage X st" using reach_inv [OF r'] by (simp add: storage_inv_def)
  have *: "sr_status r = Stored \<and> sr_seq_num r = 1"
    using wf env(1) ns lh b
    by (cases rule: store_blob_cases [where m = 0 and q = 0 and c = 0])
      (use r env(2) in \<open>auto simp: empty_tables check_no_limits\<close>)
  then show "sr_status r = Stored" "sr_seq_num r = 1" by auto
  show "lookup X st ns h = Some b"
    using lookup_store_blob [OF wf env(1) ns lh b ns r] * by simp
qed

end

lemma ex_run_ok:
  "storage_step ref_externals ex_st0 ex_st1" "storage_reach ref_externals ex_st0"
  "storage_reach ref_externals ex_st1" "wf_storage ref_externals ex_st0" "wf_storage ref_externals ex_st1"
  "sr_status (fst ex_run) = Stored" "sr_seq_num (fst ex_run) = 1"
  "lookup ref_externals ex_st1 ex_ns ex_hash = Some ex_blob"
  "next_seq_num ref_externals ex_st0 ex_ns = 1"
proof -
  have r: "store_blob ref_externals ex_io ex_ns ex_blob ex_hash (encode_blob ref_externals ex_blob)
     0 0 0 (empty_storage ref_externals (replicate 32 0)) = (fst ex_run, ex_st1)"
    by (simp add: ex_st1_def ex_run_def ex_st0_def)
  note * = ref.first_store [OF _ _ _ _ _ ex_hash_def r]
  from * show "storage_step ref_externals ex_st0 ex_st1" "storage_reach ref_externals ex_st1"
    "wf_storage ref_externals ex_st1" "sr_status (fst ex_run) = Stored" "sr_seq_num (fst ex_run) = 1"
    "lookup ref_externals ex_st1 ex_ns ex_hash = Some ex_blob"
    by (simp_all add: ex_st0_def)
  show "storage_reach ref_externals ex_st0"
    unfolding ex_st0_def by (rule storage_reach.init) simp
  then show "wf_storage ref_externals ex_st0"
    using ref.reach_inv by (auto simp: storage_inv_def)
  show "next_seq_num ref_externals ex_st0 ex_ns = 1" by (simp add: ex_st0_def ref.empty_tables)
qed

section \<open>The properties on the run\<close>


text \<open>At time 200 the blob, written at 100 to live for 10 seconds, is gone after a scan.\<close>

theorem expiry_scan_exact_witness:
  "lookup ref_externals ex_st1 ex_ns ex_hash = Some ex_blob \<and>
   lookup ref_externals (snd (run_expiry_scan ref_externals ex_io ex_st1)) ex_ns ex_hash = None"
proof -
  have "is_blob_expired ex_blob (io_now ex_io)"
    by (simp add: is_blob_expired_def ex_blob_def ex_io_def saturating_expiry_def)
  then show ?thesis
    using expiry_scan_exact [OF ref.externals_axioms ex_run_ok(3), of ex_io ex_ns ex_hash] ex_run_ok(8)
    by simp
qed

lemma ex_hash_nonzero: "ex_hash \<noteq> zero_hash"
proof -
  have "ex_hash ! 3 = 32"
    by (simp add: ex_hash_def blob_hash_def sha3_256_def ref_externals_def pad_hash_def encode_blob_def
        flat_create_def ex_blob_def be_bytes_4)
  moreover have "zero_hash ! 3 = 0" by (simp add: zero_hash_def)
  ultimately show ?thesis by auto
qed

lemma ex_run_eq:
  "store_blob ref_externals ex_io ex_ns ex_blob ex_hash (encode_blob ref_externals ex_blob) 0 0 0 ex_st0 =
    (fst ex_run, ex_st1)"
  by (simp add: ex_run_def ex_st1_def)

theorem store_then_get_witness:
  "get_blob ref_externals ex_io ex_st1 ex_ns ex_hash = Some ex_blob \<and>
   ns_entries ref_externals ex_st1 ex_ns = ns_entries ref_externals ex_st0 ex_ns @
     [(make_seq_key ex_ns 1, ex_hash @ extract_blob_type (bd_data ex_blob))]"
  using store_then_get [OF ref.externals_axioms ex_run_ok(4) _ _ _ _ ex_run_eq ex_run_ok(6),
      of ex_io ex_ns ex_hash] by (simp add: ex_run_ok)

lemma ex_ns_entries:
  "ns_entries ref_externals ex_st1 ex_ns =
    [(make_seq_key ex_ns 1, ex_hash @ extract_blob_type (bd_data ex_blob))]"
proof -
  note st = ref.stored_seq(4) [OF ex_run_ok(4) ex_wf(4,1,2,3) ex_run_eq ex_run_ok(6)]
  from ref.ns_entries_append [OF ex_run_ok(4) ex_wf(1) ex_wf(1) _ st]
  show ?thesis by (simp add: ex_run_ok(9) ns_entries_def ex_st0_def ref.empty_tables)
qed

lemma ex_seq_entry:
  "mdbx_get ref_externals (seq_map ex_st1) (make_seq_key ex_ns 1) =
    Some (ex_hash @ extract_blob_type (bd_data ex_blob))"
proof -
  have "(make_seq_key ex_ns 1, ex_hash @ extract_blob_type (bd_data ex_blob)) \<in>
      set (mdbx_entries ref_externals (seq_map ex_st1))"
    using ex_ns_entries by (auto simp: ns_entries_def filter_eq_Cons_iff)
  then show ?thesis by (simp add: ref.tbl.in_entries_iff)
qed

theorem list_namespaces_correct_witness:
  "\<exists>infos. list_namespaces ref_externals ex_io ex_st1 = Some infos \<and>
    ex_ns \<in> set (map ni_namespace_id infos)"
proof -
  have "ex_ns \<in> (\<lambda>(k, v). take 32 k) ` set (mdbx_entries ref_externals (seq_map ex_st1))"
    using ex_seq_entry ref.tbl.in_entries_iff [of "make_seq_key ex_ns 1"]
    by (auto simp: make_seq_key_def intro!: rev_image_eqI)
  then show ?thesis
    using list_namespaces_correct [OF ref.externals_axioms ex_run_ok(5) ex_wf(5)] by (metis (no_types))
qed

text \<open>Deleting the blob keeps its sequence number occupied.\<close>

definition ex_st2 :: "ref_table storage" where
  "ex_st2 = snd (delete_blob_data ref_externals ex_io ex_ns ex_hash ex_st1)"

theorem sequence_entries_stable_witness:
  "mdbx_get ref_externals (seq_map ex_st2) (make_seq_key ex_ns 1) \<in>
    {Some (ex_hash @ extract_blob_type (bd_data ex_blob)), Some (replicate 36 0)}"
proof (rule sequence_entries_stable [OF ref.externals_axioms ex_run_ok(3) _ ex_seq_entry])
  show "(storage_step ref_externals)\<^sup>*\<^sup>* ex_st1 ex_st2"
    unfolding ex_st2_def by (intro r_into_rtranclp storage_step.delete) simp_all
qed

theorem delete_blob_correct_witness:
  "fst (delete_blob_data ref_externals ex_io ex_ns ex_hash ex_st1) \<and>
    lookup ref_externals ex_st2 ex_ns ex_hash = None"
  using delete_blob_correct [OF ref.externals_axioms ex_run_ok(5) ex_wf(1,1) prod.collapse [symmetric],
      where env = ex_io and h = ex_hash and h' = ex_hash]
  by (simp add: ex_run_ok ex_st2_def)

theorem owner_key_first_wins_witness:
  "get_owner_pubkey ref_externals ex_io (snd (register_owner_pubkey ref_externals ex_io ex_ns
      (replicate 2592 3) ex_st0)) ex_ns = Some (replicate 2592 3)"
proof -
  have "register_owner_pubkey ref_externals ex_io ex_ns (replicate 2592 3) ex_st0 =
      (Inr (), snd (register_owner_pubkey ref_externals ex_io ex_ns (replicate 2592 3) ex_st0))"
    by (simp add: register_owner_pubkey_def ex_st0_def empty_storage_def ref.tbl.get_empty Let_def)
  from owner_key_first_wins [OF ref.externals_axioms ex_run_ok(2) this _ _ rtranclp.rtrancl_refl, of ex_io]
  show ?thesis by simp
qed

end
