(* ===== verification/Engine_Example.thy ===== *)
theory Engine_Example
  imports Engine_Props Storage_Example
begin

text \<open>
  A concrete node on the reference libraries: its owner publishes a key, then writes a tombstone.
  The properties of the engine theories are applied to the states this run reaches.
\<close>

section \<open>A call is a run of its segments\<close>

lemma ingest_run_done [simp]:
  "ingest_run X cfg envs ns b src k (Ingest_Done r, st) = (Ingest_Done r, st)"
  by (induction k) (simp_all add: ingest_resume_def)

lemma reach_run:
  assumes "node_reach X E n" and "\<And>i k. E (envs i k)"
    and "nd_tasks n i = Some \<lparr>tk_ns = ns, tk_blob = b, tk_source = src, tk_pc = Ingest_Task (fst s)\<rparr>"
    and "nd_storage n = snd s"
  shows "\<exists>n'. node_reach X E n' \<and> nd_config n' = nd_config n \<and>
    (\<forall>j. j \<noteq> i \<longrightarrow> nd_tasks n' j = nd_tasks n j) \<and>
    nd_storage n' = snd (ingest_run X (nd_config n) envs ns b src k s)"
  using assms(1,3,4)
proof (induction k arbitrary: n s)
  case 0
  then show ?case by (intro exI [of _ n]) simp
next
  case (Suc k)
  let ?s = "ingest_resume X (nd_config n) (envs (Suc k)) ns b src (fst s) (snd s)"
  let ?t = "\<lparr>tk_ns = ns, tk_blob = b, tk_source = src, tk_pc = Ingest_Task (fst ?s)\<rparr>"
  let ?n = "n\<lparr>nd_storage := snd ?s, nd_tasks := (nd_tasks n)(i \<mapsto> ?t)\<rparr>"
  have "node_step X E n ?n"
    using node_step.resume_ingest [OF _ Suc.prems(2), where envs = "envs (Suc k)" and E = E and X = X
        and pc' = "fst ?s" and st' = "snd ?s" and pc = "fst s"] assms(2) Suc.prems(3) by simp
  from Suc.IH [OF node_reach.step [OF Suc.prems(1) this], of ?s] show ?case by fastforce
qed

lemma reach_ingest:
  assumes "node_reach X E n" and "\<And>i k. E (envs i k)" and "nd_tasks n = Map.empty"
    and "length ns = 32" and "wf_blob b"
  shows "\<exists>n'. node_reach X E n' \<and> nd_config n' = nd_config n \<and> nd_tasks n' = Map.empty \<and>
    nd_storage n' = snd (ingest X (nd_config n) envs ns b src (nd_storage n))"
proof -
  let ?pc = "ingest_begin X (nd_config n) (envs 0 0) ns b (nd_storage n)"
  let ?n = "n\<lparr>nd_tasks := (nd_tasks n)(0 \<mapsto> \<lparr>tk_ns = ns, tk_blob = b, tk_source = src, tk_pc = Ingest_Task ?pc\<rparr>)\<rparr>"
  have "node_step X E n ?n"
    by (rule node_step.begin_ingest) (use assms in simp_all)
  from reach_run [OF node_reach.step [OF assms(1) this], where envs = envs and i = 0 and ns = ns and b = b
      and src = src and s = "(?pc, nd_storage n)" and k = 4] assms(2)
  obtain m where m: "node_reach X E m" "nd_config m = nd_config n"
      "\<forall>j. j \<noteq> 0 \<longrightarrow> nd_tasks m j = nd_tasks ?n j"
      "nd_storage m = snd (ingest X (nd_config n) envs ns b src (nd_storage n))"
    by (auto simp: ingest_def)
  have "node_reach X E (m\<lparr>nd_tasks := (nd_tasks m)(0 := None)\<rparr>)"
    by (rule node_reach.step [OF m(1) node_step.finish])
  moreover have "(nd_tasks m)(0 := None) = Map.empty" using m(3) assms(3) by auto
  ultimately show ?thesis using m by (intro exI [of _ "m\<lparr>nd_tasks := (nd_tasks m)(0 := None)\<rparr>"]) simp
qed

section \<open>Calls that reach the storage\<close>

lemma four: "(4::nat) = Suc (Suc (Suc (Suc 0)))" by simp

lemma no_quota [simp]: "effective_quota (new_engine m 0 0 t) ns = (0, 0)"
  by (simp add: effective_quota_def new_engine_def)

lemma quota_precheck_none: "quota_precheck X (new_engine m 0 0 t) env ns b e st"
  by (simp add: quota_precheck_def Let_def)

lemma ingest_reaches_commit:
  assumes "cheap_checks X (new_engine m 0 0 t) (envs 0 0) ns b st = None" and "sha3_256 X pk = ns"
    and "get_owner_pubkey X (envs 0 0) st (bd_signer_hint b) = Some pk \<or>
      get_owner_pubkey X (envs 0 0) st (bd_signer_hint b) = None \<and>
      is_pubkey_blob (bd_data b) \<and> extract_pubk_signing_pk (bd_data b) = pk"
    and "\<not> has_blob X (envs 3 0) st ns (blob_hash X (encode_blob X b))" and "verify_blob X ns b pk"
    and "ingest_commit X (new_engine m 0 0 t) (envs 2) ns b (encode_blob X b)
      (blob_hash X (encode_blob X b)) src st = (r, st')"
  shows "ingest X (new_engine m 0 0 t) envs ns b src st = (Ingest_Done r, st')"
  using assms
  unfolding ingest_def four
  by (auto simp: ingest_begin_def not_owner_path_def ingest_resume_def key_resolved_def
      quota_precheck_none Let_def numeral_2_eq_2 numeral_3_eq_3)

context externals
begin

lemma calm_store:
  assumes "wf_storage X st" and "calm env" and "length ns = 32" and "wf_blob b"
    and "lookup X st ns (blob_hash X (encode_blob X b)) = None"
    and "store_blob X env ns b (blob_hash X (encode_blob X b)) (encode_blob X b) 0 0 0 st = (r, st')"
  shows "sr_status r = Stored" and "sr_blob_hash r = blob_hash X (encode_blob X b)"
    and "lookup X st' ns h' = (if h' = blob_hash X (encode_blob X b) then Some b else lookup X st ns h')"
    and "owner_pubkeys_map st' = owner_pubkeys_map st"
    and "tombstone_map st' =
      (if is_tombstone (bd_data b)
       then mdbx_upsert X (tombstone_map st) (make_blob_key ns (extract_tombstone_target (bd_data b))) []
       else tombstone_map st)"
proof -
  have e: "wf_io env" "\<not> io_commit_fault env" using assms(2) by (auto simp: calm_def)
  have h: "length (blob_hash X (encode_blob X b)) = 32" by (simp add: length_blob_hash)
  show *: "sr_status r = Stored" and "sr_blob_hash r = blob_hash X (encode_blob X b)"
    and "owner_pubkeys_map st' = owner_pubkeys_map st"
    and "tombstone_map st' =
      (if is_tombstone (bd_data b)
       then mdbx_upsert X (tombstone_map st) (make_blob_key ns (extract_tombstone_target (bd_data b))) []
       else tombstone_map st)"
    using assms(1) e(1) assms(3) h assms(4)
    by (cases rule: store_blob_cases [where m = 0 and q = 0 and c = 0];
        use assms(5,6) e(2) in \<open>auto simp: check_no_limits frame_simps\<close>)+
  show "lookup X st' ns h' = (if h' = blob_hash X (encode_blob X b) then Some b else lookup X st ns h')"
    using lookup_store_blob [OF assms(1) e(1) assms(3) h assms(4,3,6)] * by simp
qed

text \<open>The last segment for a blob that passes every check.\<close>

lemma commit_stores:
  assumes wf: "wf_storage X st" and envs: "\<And>k. calm (envs k)" and ns: "length ns = 32" and b: "wf_blob b"
    and fresh: "lookup X st ns (blob_hash X (encode_blob X b)) = None"
    and tomb: "deletes_others b \<or> mdbx_get X (tombstone_map st) (make_blob_key ns (blob_hash X (encode_blob X b))) = None"
    and reg: "register_step X (envs (length (blob_targets (bd_data b)))) b
      (delete_targets X envs 0 ns (blob_targets (bd_data b)) st) = (Inr (), s2)"
    and r: "ingest_commit X (new_engine 0 0 0 t) envs ns b (encode_blob X b)
      (blob_hash X (encode_blob X b)) src st = (r, st')"
  shows "lookup X st' ns h' = (if h' = blob_hash X (encode_blob X b) then Some b else lookup X s2 ns h')"
    and "owner_pubkeys_map st' = owner_pubkeys_map s2"
    and "is_tombstone (bd_data b) \<Longrightarrow>
      mdbx_get X (tombstone_map st') (make_blob_key ns (extract_tombstone_target (bd_data b))) = Some []"
    and "\<not> is_tombstone (bd_data b) \<Longrightarrow> tombstone_map st' = tombstone_map s2"
    and "\<exists>q. r = accept (blob_hash X (encode_blob X b)) q Ingest_Stored src"
proof -
  let ?h = "blob_hash X (encode_blob X b)"
  let ?env = "envs (Suc (length (blob_targets (bd_data b))))"
  have s2: "wf_storage X s2" "shrinks X st s2"
    using delete_targets_ok [OF wf ns, of envs 0 "blob_targets (bd_data b)"]
      register_step_ok [OF _ b] reg shrinks_trans by (metis snd_conv)+
  have f2: "lookup X s2 ns ?h = None"
    using fresh shrinks_lookup [OF s2(2), of ns ?h] by (cases "lookup X s2 ns ?h") simp_all
  have nt: "\<not> (\<not> is_tombstone (bd_data b) \<and> \<not> is_bomb (bd_data b) \<and> has_tombstone_for X (envs 0) st ns ?h)"
    using tomb by (auto simp: deletes_others_def has_tombstone_for_def)
  have st': "st' = snd (store_blob X ?env ns b ?h (encode_blob X b) 0 0 0 s2)"
    using r nt by (auto simp: ingest_commit_def Let_def reg split_beta new_engine_def effective_quota_def
        split: if_splits)
  have c: "calm ?env" by (rule envs)
  note store = calm_store [OF s2(1) c ns b f2 prod.collapse [symmetric]]
  show "lookup X st' ns h' = (if h' = ?h then Some b else lookup X s2 ns h')"
    and "owner_pubkeys_map st' = owner_pubkeys_map s2"
    and "is_tombstone (bd_data b) \<Longrightarrow>
      mdbx_get X (tombstone_map st') (make_blob_key ns (extract_tombstone_target (bd_data b))) = Some []"
    and "\<not> is_tombstone (bd_data b) \<Longrightarrow> tombstone_map st' = tombstone_map s2"
    using store(3) [of h'] store(4,5) by (simp_all add: st' tbl.get_upsert)
  show "\<exists>q. r = accept ?h q Ingest_Stored src"
    using r nt store(1,2) by (auto simp: ingest_commit_def Let_def reg split_beta new_engine_def effective_quota_def
        result_of_store_def split: if_splits)
qed

end

section \<open>The node\<close>

definition ex_env :: io where
  "ex_env = \<lparr>io_now = 3000000, io_used_bytes = 0, io_nonce = (\<lambda>_. replicate 12 0),
     io_read_fault = False, io_commit_fault = False\<rparr>"

definition ex_own :: bytes where "ex_own = replicate 32 1"

definition ex_pk :: bytes where "ex_pk = replicate 2592 1"

definition ex_pubk :: blob_data where
  "ex_pubk = \<lparr>bd_signer_hint = ex_own, bd_data = PUBKEY_MAGIC @ ex_pk @ replicate 1568 0, bd_ttl = 0,
     bd_timestamp = 1000000, bd_signature = ex_own\<rparr>"

definition ex_tomb :: blob_data where
  "ex_tomb = \<lparr>bd_signer_hint = ex_own, bd_data = TOMBSTONE_MAGIC @ replicate 32 9, bd_ttl = 0,
     bd_timestamp = 1000000, bd_signature = ex_own\<rparr>"

definition ex_n0 :: "ref_table node" where
  "ex_n0 = \<lparr>nd_storage = ex_st0, nd_config = new_engine 0 0 0 0, nd_tasks = Map.empty\<rparr>"

lemma ex_env_ok [simp]: "calm ex_env" "wf_io ex_env" "\<not> io_read_fault ex_env"
  by (simp_all add: ex_env_def calm_def wf_io_def)

lemma ex_blobs [simp]:
  "wf_blob ex_pubk" "wf_blob ex_tomb" "length ex_own = 32" "length ex_pk = 2592"
  "is_pubkey_blob (bd_data ex_pubk)" "\<not> is_tombstone (bd_data ex_pubk)" "is_tombstone (bd_data ex_tomb)"
  "\<not> is_bomb (bd_data ex_pubk)" "\<not> is_bomb (bd_data ex_tomb)"
  "extract_pubk_signing_pk (bd_data ex_pubk) = ex_pk"
  "extract_tombstone_target (bd_data ex_tomb) = replicate 32 9"
  by (simp_all add: wf_blob_def ex_pubk_def ex_tomb_def ex_own_def ex_pk_def is_pubkey_blob_def
      is_tombstone_def is_bomb_def PUBKEY_MAGIC_def TOMBSTONE_MAGIC_def BOMB_MAGIC_def
      PUBKEY_DATA_SIZE_def TOMBSTONE_DATA_SIZE_def extract_pubk_signing_pk_def
      extract_tombstone_target_def)

lemma ex_keys [simp]:
  "sha3_256 ref_externals ex_pk = ex_own"
  "verify_blob ref_externals ex_own ex_pubk ex_pk" "verify_blob ref_externals ex_own ex_tomb ex_pk"
  by (simp_all add: sha3_256_def ref_externals_def pad_hash_def ex_pk_def ex_own_def verify_blob_def
      signer_verify_def build_signing_input_def ex_pubk_def ex_tomb_def)

lemma ex_checks:
  "cheap_checks ref_externals (new_engine 0 0 0 0) ex_env ex_own ex_pubk st = None"
  "has_owner_pubkey ref_externals ex_env st ex_own \<Longrightarrow>
    cheap_checks ref_externals (new_engine 0 0 0 0) ex_env ex_own ex_tomb st = None"
  by (simp_all add: cheap_checks_def new_engine_def timestamp_ok_def MAX_FUTURE_SECONDS_def
      MAX_PAST_SECONDS_def ex_env_def has_bomb_magic_def BOMB_MAGIC_def)
    (simp_all add: ex_pubk_def ex_tomb_def ex_own_def ex_pk_def PUBKEY_MAGIC_def TOMBSTONE_MAGIC_def
      BOMB_MIN_DATA_SIZE_def)

definition ex_s1 :: "ref_table storage" where
  "ex_s1 = snd (ingest ref_externals (new_engine 0 0 0 0) (\<lambda>_ _. ex_env) ex_own ex_pubk None ex_st0)"

definition ex_s2 :: "ref_table storage" where
  "ex_s2 = snd (ingest ref_externals (new_engine 0 0 0 0) (\<lambda>_ _. ex_env) ex_own ex_tomb None ex_s1)"

abbreviation ex_hash_of :: "blob_data \<Rightarrow> bytes" where
  "ex_hash_of b \<equiv> blob_hash ref_externals (encode_blob ref_externals b)"

lemma ex_empty [simp]:
  "mdbx_get ref_externals (owner_pubkeys_map ex_st0) k = None"
  "mdbx_get ref_externals (tombstone_map ex_st0) k = None"
  "lookup ref_externals ex_st0 ns h = None"
  by (simp_all add: ex_st0_def ref.empty_tables) (simp_all add: empty_storage_def ref.tbl.get_empty Let_def)

lemma ex_hashes_differ: "ex_hash_of ex_tomb \<noteq> ex_hash_of ex_pubk"
proof -
  have "ex_hash_of ex_tomb ! 7 = 36" "ex_hash_of ex_pubk ! 7 = 68"
    by (simp_all add: blob_hash_def sha3_256_def ref_externals_def pad_hash_def encode_blob_def
        flat_create_def be_bytes_4 ex_tomb_def ex_pubk_def TOMBSTONE_MAGIC_def PUBKEY_MAGIC_def ex_own_def ex_pk_def)
  then show ?thesis by auto
qed

lemma ex_s1_ok:
  "lookup ref_externals ex_s1 ex_own h = (if h = ex_hash_of ex_pubk then Some ex_pubk else None)"
  "mdbx_get ref_externals (owner_pubkeys_map ex_s1) ex_own = Some ex_pk"
  "mdbx_get ref_externals (tombstone_map ex_s1) k = None"
  "\<exists>q. ingest ref_externals (new_engine 0 0 0 0) (\<lambda>_ _. ex_env) ex_own ex_pubk None ex_st0 =
    (Ingest_Done (accept (ex_hash_of ex_pubk) q Ingest_Stored None), ex_s1)"
proof -
  let ?c = "ingest_commit ref_externals (new_engine 0 0 0 0) (\<lambda>_. ex_env) ex_own ex_pubk
    (encode_blob ref_externals ex_pubk) (ex_hash_of ex_pubk) None ex_st0"
  have hint: "bd_signer_hint ex_pubk = ex_own" by (simp add: ex_pubk_def)
  have run: "ingest ref_externals (new_engine 0 0 0 0) (\<lambda>_ _. ex_env) ex_own ex_pubk None ex_st0 =
      (Ingest_Done (fst ?c), snd ?c)"
  proof (rule ingest_reaches_commit [where pk = ex_pk])
    show "\<not> has_blob ref_externals ex_env ex_st0 ex_own (ex_hash_of ex_pubk)"
      using ref.lookup_None_iff [OF ex_run_ok(4), of ex_own "ex_hash_of ex_pubk"]
      by (simp add: has_blob_def)
  qed (simp_all add: ex_checks hint get_owner_pubkey_def)
  then have s1: "ex_s1 = snd ?c" by (simp add: ex_s1_def)
  let ?s2 = "ex_st0\<lparr>owner_pubkeys_map := mdbx_upsert ref_externals (owner_pubkeys_map ex_st0) ex_own ex_pk\<rparr>"
  have "register_step ref_externals ex_env ex_pubk ex_st0 = (Inr (), ?s2)"
    using ex_env_ok(1) by (simp add: register_step_def register_owner_pubkey_def hint calm_def)
  then have reg: "register_step ref_externals ex_env ex_pubk
      (delete_targets ref_externals (\<lambda>_. ex_env) 0 ex_own (blob_targets (bd_data ex_pubk)) ex_st0) = (Inr (), ?s2)"
    by (simp add: blob_targets_def)
  note c = ref.commit_stores [OF ex_run_ok(4) ex_env_ok(1) ex_blobs(3,1) _ _ reg prod.collapse [symmetric]]
  have "lookup ref_externals ?s2 = lookup ref_externals ex_st0" by (rule lookup_cong) simp_all
  then show "lookup ref_externals ex_s1 ex_own h = (if h = ex_hash_of ex_pubk then Some ex_pubk else None)"
    using c(1) [where h' = h and t = 0 and src = None] by (simp add: s1)
  show "mdbx_get ref_externals (owner_pubkeys_map ex_s1) ex_own = Some ex_pk"
    using c(2) [where t = 0 and src = None] by (simp add: s1 ref.tbl.get_upsert)
  show "mdbx_get ref_externals (tombstone_map ex_s1) k = None"
    using c(4) [where t = 0 and src = None] by (simp add: s1)
  show "\<exists>q. ingest ref_externals (new_engine 0 0 0 0) (\<lambda>_ _. ex_env) ex_own ex_pubk None ex_st0 =
    (Ingest_Done (accept (ex_hash_of ex_pubk) q Ingest_Stored None), ex_s1)"
    using c(5) [where t = 0 and src = None] run by (simp add: s1)
qed

lemma ex_reach1:
  assumes "\<And>e. e = ex_env \<Longrightarrow> E e"
  shows "\<exists>n. node_reach ref_externals E n \<and> nd_config n = new_engine 0 0 0 0 \<and>
    nd_tasks n = Map.empty \<and> nd_storage n = ex_s1"
proof -
  have "node_reach ref_externals E ex_n0"
    unfolding ex_n0_def ex_st0_def by (rule node_reach.init) simp
  from reach_ingest [OF this, of "\<lambda>_ _. ex_env" ex_own ex_pubk None] assms
  show ?thesis by (auto simp: ex_n0_def ex_s1_def)
qed

lemma ex_s1_wf: "wf_storage ref_externals ex_s1"
proof -
  obtain n where "node_reach ref_externals wf_io n" "nd_storage n = ex_s1" using ex_reach1 [of wf_io] by auto
  then show ?thesis using ref.node_reach_inv [of wf_io n] by (auto simp: node_inv_def)
qed

lemma ex_s2_tombstone: "has_tombstone_for ref_externals ex_env ex_s2 ex_own (replicate 32 9)"
proof -
  let ?c = "ingest_commit ref_externals (new_engine 0 0 0 0) (\<lambda>_. ex_env) ex_own ex_tomb
    (encode_blob ref_externals ex_tomb) (ex_hash_of ex_tomb) None ex_s1"
  have hint: "bd_signer_hint ex_tomb = ex_own" by (simp add: ex_tomb_def)
  have own: "has_owner_pubkey ref_externals ex_env ex_s1 ex_own" by (simp add: has_owner_pubkey_def ex_s1_ok)
  have "ingest ref_externals (new_engine 0 0 0 0) (\<lambda>_ _. ex_env) ex_own ex_tomb None ex_s1 =
      (Ingest_Done (fst ?c), snd ?c)"
  proof (rule ingest_reaches_commit [where pk = ex_pk])
    show "\<not> has_blob ref_externals ex_env ex_s1 ex_own (ex_hash_of ex_tomb)"
      using ref.lookup_None_iff [OF ex_s1_wf, of ex_own "ex_hash_of ex_tomb"] ex_hashes_differ
      by (simp add: has_blob_def ex_s1_ok)
  qed (simp_all add: ex_checks own hint get_owner_pubkey_def ex_s1_ok)
  then have s2: "ex_s2 = snd ?c" by (simp add: ex_s2_def)
  let ?d = "snd (delete_blob_data ref_externals ex_env ex_own (replicate 32 9) ex_s1)"
  have reg: "register_step ref_externals ex_env ex_tomb
      (delete_targets ref_externals (\<lambda>_. ex_env) 0 ex_own (blob_targets (bd_data ex_tomb)) ex_s1) = (Inr (), ?d)"
    by (simp add: blob_targets_def register_step_def tombstone_not_pubkey)
  have "mdbx_get ref_externals (tombstone_map ex_s2) (make_blob_key ex_own (replicate 32 9)) = Some []"
    using ref.commit_stores(3) [OF ex_s1_wf ex_env_ok(1) ex_blobs(3,2) _ _ reg prod.collapse [symmetric], where t = 0 and src = None]
      ex_hashes_differ by (simp add: s2 ex_s1_ok deletes_others_def)
  then show ?thesis by (simp add: has_tombstone_for_def)
qed

section \<open>The properties on the run\<close>

theorem stored_blobs_authorized_witness:
  "ex_hash_of ex_pubk = blob_hash ref_externals (encode_blob ref_externals ex_pubk) \<and>
   (owner_signed ref_externals ex_own ex_pubk \<or>
    (\<exists>d. owner_signed ref_externals ex_own d \<and> is_delegation (bd_data d) \<and>
       \<not> is_delegation (bd_data ex_pubk) \<and> \<not> is_tombstone (bd_data ex_pubk) \<and> \<not> is_bomb (bd_data ex_pubk) \<and>
       verify_blob ref_externals ex_own ex_pubk (extract_delegate_pubkey (bd_data d))))"
proof -
  obtain n where n: "node_reach ref_externals wf_io n" "nd_storage n = ex_s1" using ex_reach1 [of wf_io] by auto
  show ?thesis
    by (rule stored_blobs_authorized [OF ref.externals_axioms n(1) ex_blobs(3)]) (simp add: n ex_s1_ok)
qed


theorem ingest_result_reliable_witness:
  "lookup ref_externals ex_s1 ex_own (ex_hash_of ex_pubk) \<noteq> None \<and>
   (\<exists>r st'. ingest ref_externals (new_engine 0 0 0 0) (\<lambda>_ _. ex_env) ex_own ex_pubk None ex_s1 = (Ingest_Done r, st') \<and>
     (case ir_ack r of
        Some a \<Rightarrow> ir_accepted r \<and> ack_blob_hash a = ex_hash_of ex_pubk \<and>
          (\<exists>b'. lookup ref_externals st' ex_own (ack_blob_hash a) = Some b' \<and>
            (ack_status a = Ingest_Stored \<longrightarrow> b' = ex_pubk))
      | None \<Rightarrow> \<not> ir_accepted r \<and>
          (\<forall>ns' h' b'. lookup ref_externals st' ns' h' = Some b' \<longrightarrow>
             lookup ref_externals ex_s1 ns' h' = Some b')))"
proof -
  obtain n where n: "node_reach ref_externals wf_io n" "nd_config n = new_engine 0 0 0 0" "nd_storage n = ex_s1"
    using ex_reach1 [of wf_io] by auto
  let ?i = "ingest ref_externals (new_engine 0 0 0 0) (\<lambda>_ _. ex_env) ex_own ex_pubk None ex_s1"
  have "pc_rank (fst ?i) = 0"
    unfolding ingest_def by (rule ingest_run_rank) (simp add: pc_rank_paths)
  then obtain r where r: "?i = (Ingest_Done r, snd ?i)" unfolding pc_rank_zero by (metis prod.collapse)
  have "ingest ref_externals (nd_config n) (\<lambda>_ _. ex_env) ex_own ex_pubk None (nd_storage n) =
      (Ingest_Done r, snd ?i)" using r by (simp add: n)
  moreover have "\<forall>i k :: nat. wf_io ex_env" by simp
  ultimately have "case ir_ack r of
      Some a \<Rightarrow> ir_accepted r \<and> ack_blob_hash a = ex_hash_of ex_pubk \<and>
        (\<exists>b'. lookup ref_externals (snd ?i) ex_own (ack_blob_hash a) = Some b' \<and>
          (ack_status a = Ingest_Stored \<longrightarrow> b' = ex_pubk))
    | None \<Rightarrow> \<not> ir_accepted r \<and>
        (\<forall>ns' h' b'. lookup ref_externals (snd ?i) ns' h' = Some b' \<longrightarrow>
           lookup ref_externals ex_s1 ns' h' = Some b')"
    unfolding n(3) [symmetric]
    by (rule ingest_result_reliable [OF ref.externals_axioms n(1) _ ex_blobs(3,1), rotated])
  moreover have "lookup ref_externals ex_s1 ex_own (ex_hash_of ex_pubk) \<noteq> None" by (simp add: ex_s1_ok)
  ultimately show ?thesis using r by blast
qed

theorem pubk_first_witness:
  "\<exists>r. ingest_begin ref_externals (new_engine 0 0 0 0) ex_env ex_own ex_tomb ex_st0 = Ingest_Done r \<and>
     \<not> ir_accepted r \<and>
     ingest ref_externals (new_engine 0 0 0 0) (\<lambda>_ _. ex_env) ex_own ex_tomb None ex_st0 = (Ingest_Done r, ex_st0)"
  by (rule pubk_first) (simp_all add: has_owner_pubkey_def tombstone_not_pubkey)

section \<open>A hint that is not checked\<close>

text \<open>A published-key blob is verified against the key it contains, and that key is then registered
  under the hint of the blob, which nothing compares with the hash of the key.  The owner of another
  namespace can so occupy the hint of \<open>ex_own\<close>, after which the rightful publication is refused.\<close>

definition ex_squat_ns :: bytes where "ex_squat_ns = replicate 32 2"

definition ex_squat_pk :: bytes where "ex_squat_pk = replicate 2592 2"

definition ex_squat :: blob_data where
  "ex_squat = \<lparr>bd_signer_hint = ex_own, bd_data = PUBKEY_MAGIC @ ex_squat_pk @ replicate 1568 0, bd_ttl = 0,
     bd_timestamp = 1000000, bd_signature = ex_squat_ns\<rparr>"

definition ex_squatted :: "ref_table storage" where
  "ex_squatted = snd (ingest ref_externals (new_engine 0 0 0 0) (\<lambda>_ _. ex_env) ex_squat_ns ex_squat None ex_st0)"

lemma ex_squat_ok [simp]:
  "wf_blob ex_squat" "length ex_squat_ns = 32" "is_pubkey_blob (bd_data ex_squat)"
  "\<not> is_tombstone (bd_data ex_squat)" "\<not> is_bomb (bd_data ex_squat)" "bd_signer_hint ex_squat = ex_own"
  "extract_pubk_signing_pk (bd_data ex_squat) = ex_squat_pk" "length ex_squat_pk = 2592"
  "sha3_256 ref_externals ex_squat_pk = ex_squat_ns" "verify_blob ref_externals ex_squat_ns ex_squat ex_squat_pk"
  "cheap_checks ref_externals (new_engine 0 0 0 0) ex_env ex_squat_ns ex_squat st = None"
  by (simp_all add: wf_blob_def ex_squat_def ex_own_def ex_squat_ns_def ex_squat_pk_def is_pubkey_blob_def
      is_tombstone_def is_bomb_def PUBKEY_MAGIC_def TOMBSTONE_MAGIC_def BOMB_MAGIC_def
      PUBKEY_DATA_SIZE_def TOMBSTONE_DATA_SIZE_def extract_pubk_signing_pk_def
      cheap_checks_def new_engine_def timestamp_ok_def MAX_FUTURE_SECONDS_def MAX_PAST_SECONDS_def
      ex_env_def has_bomb_magic_def BOMB_MIN_DATA_SIZE_def sha3_256_def ref_externals_def pad_hash_def
      verify_blob_def signer_verify_def build_signing_input_def)

lemma ex_squatted_ok:
  "mdbx_get ref_externals (owner_pubkeys_map ex_squatted) ex_own = Some ex_squat_pk"
  "lookup ref_externals ex_squatted ex_squat_ns (ex_hash_of ex_squat) = Some ex_squat"
  "mdbx_get ref_externals (blobs_map ex_squatted) (make_blob_key ex_own h) = None"
  "mdbx_get ref_externals (tombstone_map ex_squatted) k = None"
proof -
  let ?c = "ingest_commit ref_externals (new_engine 0 0 0 0) (\<lambda>_. ex_env) ex_squat_ns ex_squat
    (encode_blob ref_externals ex_squat) (ex_hash_of ex_squat) None ex_st0"
  have "ingest ref_externals (new_engine 0 0 0 0) (\<lambda>_ _. ex_env) ex_squat_ns ex_squat None ex_st0 =
      (Ingest_Done (fst ?c), snd ?c)"
  proof (rule ingest_reaches_commit [where pk = ex_squat_pk])
    show "\<not> has_blob ref_externals ex_env ex_st0 ex_squat_ns (ex_hash_of ex_squat)"
      using ref.lookup_None_iff [OF ex_run_ok(4), of ex_squat_ns "ex_hash_of ex_squat"]
      by (simp add: has_blob_def)
  qed (simp_all add: get_owner_pubkey_def)
  then have s1: "ex_squatted = snd ?c" by (simp add: ex_squatted_def)
  let ?s2 = "ex_st0\<lparr>owner_pubkeys_map := mdbx_upsert ref_externals (owner_pubkeys_map ex_st0) ex_own ex_squat_pk\<rparr>"
  have reg0: "register_step ref_externals ex_env ex_squat ex_st0 = (Inr (), ?s2)"
    using ex_env_ok(1) by (simp add: register_step_def register_owner_pubkey_def calm_def)
  then have reg: "register_step ref_externals ex_env ex_squat
      (delete_targets ref_externals (\<lambda>_. ex_env) 0 ex_squat_ns (blob_targets (bd_data ex_squat)) ex_st0) = (Inr (), ?s2)"
    by (simp add: blob_targets_def)
  note c = ref.commit_stores [OF ex_run_ok(4) ex_env_ok(1) ex_squat_ok(2,1) _ _ reg prod.collapse [symmetric],
      where t = 0 and src = None]
  show "lookup ref_externals ex_squatted ex_squat_ns (ex_hash_of ex_squat) = Some ex_squat"
    using c(1) by (simp add: s1)
  show "mdbx_get ref_externals (owner_pubkeys_map ex_squatted) ex_own = Some ex_squat_pk"
    using c(2) by (simp add: s1 ref.tbl.get_upsert)
  show "mdbx_get ref_externals (tombstone_map ex_squatted) k = None" using c(4) by (simp add: s1)
  let ?s3 = "store_blob ref_externals ex_env ex_squat_ns ex_squat (ex_hash_of ex_squat)
    (encode_blob ref_externals ex_squat) 0 0 0 ?s2"
  have wf2: "wf_storage ref_externals ?s2"
    using ref.register_step_ok [OF ex_run_ok(4) ex_squat_ok(1), of ex_env] reg0 by simp
  have s3: "ex_squatted = snd ?s3"
    using reg by (simp add: s1 ingest_commit_def Let_def split_beta has_tombstone_for_def blob_targets_def)
      (simp add: new_engine_def effective_quota_def)
  have ne: "ex_own \<noteq> ex_squat_ns" by (simp add: ex_own_def ex_squat_ns_def)
  have "lookup ref_externals ex_squatted ex_own h = lookup ref_externals ?s2 ex_own h"
    using ref.lookup_store_blob [OF wf2 ex_env_ok(2) ex_squat_ok(2) _ ex_squat_ok(1) ex_blobs(3) prod.collapse [symmetric],
        of "ex_hash_of ex_squat" 0 0 0 h] ne by (simp add: s3 ref.length_blob_hash)
  also have "\<dots> = None" using lookup_cong [of ?s2 ex_st0 ref_externals] by simp
  finally show "mdbx_get ref_externals (blobs_map ex_squatted) (make_blob_key ex_own h) = None"
    using ref.lookup_None_iff ref.wf_store_blob [OF wf2 ex_env_ok(2) ex_squat_ok(2) _ ex_squat_ok(1)]
    by (simp add: s3 ref.length_blob_hash)
qed

theorem pubk_squatting:
  "ingest ref_externals (new_engine 0 0 0 0) (\<lambda>_ _. ex_env) ex_own ex_pubk None ex_squatted =
    (Ingest_Done (rejection Pubk_Mismatch_Error), ex_squatted)"
proof -
  have hint: "bd_signer_hint ex_pubk = ex_own" by (simp add: ex_pubk_def)
  have ne: "ex_squat_ns \<noteq> ex_own" "ex_squat_pk \<noteq> ex_pk"
    by (simp_all add: ex_own_def ex_squat_ns_def ex_squat_pk_def ex_pk_def)
  have reg: "register_step ref_externals ex_env ex_pubk ex_squatted = (Inl Pubkey_Mismatch, ex_squatted)"
    using ne by (simp add: register_step_def register_owner_pubkey_def hint ex_squatted_ok)
  have own: "get_owner_pubkey ref_externals ex_env ex_squatted ex_own = Some ex_squat_pk"
    by (simp add: get_owner_pubkey_def ex_squatted_ok)
  show ?thesis
    unfolding ingest_def four
    using ne
    by (simp add: ingest_begin_def ex_checks hint own ingest_resume_def not_owner_path_def key_resolved_def
        quota_precheck_none Let_def has_blob_def ex_squatted_ok ingest_commit_def blob_targets_def reg has_tombstone_for_def)
qed

end
