(* ===== verification/Transport_Codec.thy ===== *)
theory Transport_Codec
  imports Endian Externals
begin

text \<open>
  \<open>db/schemas/transport.fbs\<close>, \<open>db/net/protocol.cpp\<close>, \<open>db/net/role.h\<close> and \<open>db/net/auth_helpers.h\<close>: the
  message types, the envelope every message travels in, and the payload that authenticates a
  connection.  The enumeration is open, as the wire type is one byte: a byte without a name is
  \<open>Unknown_Msg\<close>.
\<close>

section \<open>Message types\<close>

datatype transport_msg_type =
  MsgNone | KemPubkey | KemCiphertext | AuthSignature | AuthPubkey | Ping | Pong | Goodbye
| SyncRequest | SyncAccept | NamespaceList | BlobRequest | BlobTransfer | SyncComplete
| PeerListRequest | PeerListResponse | MsgDelete | DeleteAck | Subscribe | Unsubscribe | Notification
| StorageFull | TrustedHello | PQRequired | QuotaExceeded | ReconcileInit | ReconcileRanges
| ReconcileItems | SyncRejected | WriteAck | ReadRequest | ReadResponse | ListRequest | ListResponse
| StatsRequest | StatsResponse | ExistsRequest | ExistsResponse | NodeInfoRequest | NodeInfoResponse
| NamespaceListRequest | NamespaceListResponse | StorageStatusRequest | StorageStatusResponse
| NamespaceStatsRequest | NamespaceStatsResponse | MetadataRequest | MetadataResponse
| BatchExistsRequest | BatchExistsResponse | DelegationListRequest | DelegationListResponse
| BatchReadRequest | BatchReadResponse | PeerInfoRequest | PeerInfoResponse | TimeRangeRequest
| TimeRangeResponse | BlobNotify | BlobFetch | BlobFetchResponse | SyncNamespaceAnnounce
| ErrorResponse | BlobWrite | Unknown_Msg byte

type_synonym message = "transport_msg_type \<times> bytes"

primrec msg_type_byte :: "transport_msg_type \<Rightarrow> byte" where
  "msg_type_byte MsgNone = 0"
| "msg_type_byte KemPubkey = 1"
| "msg_type_byte KemCiphertext = 2"
| "msg_type_byte AuthSignature = 3"
| "msg_type_byte AuthPubkey = 4"
| "msg_type_byte Ping = 5"
| "msg_type_byte Pong = 6"
| "msg_type_byte Goodbye = 7"
| "msg_type_byte SyncRequest = 9"
| "msg_type_byte SyncAccept = 10"
| "msg_type_byte NamespaceList = 11"
| "msg_type_byte BlobRequest = 12"
| "msg_type_byte BlobTransfer = 13"
| "msg_type_byte SyncComplete = 14"
| "msg_type_byte PeerListRequest = 15"
| "msg_type_byte PeerListResponse = 16"
| "msg_type_byte MsgDelete = 17"
| "msg_type_byte DeleteAck = 18"
| "msg_type_byte Subscribe = 19"
| "msg_type_byte Unsubscribe = 20"
| "msg_type_byte Notification = 21"
| "msg_type_byte StorageFull = 22"
| "msg_type_byte TrustedHello = 23"
| "msg_type_byte PQRequired = 24"
| "msg_type_byte QuotaExceeded = 25"
| "msg_type_byte ReconcileInit = 26"
| "msg_type_byte ReconcileRanges = 27"
| "msg_type_byte ReconcileItems = 28"
| "msg_type_byte SyncRejected = 29"
| "msg_type_byte WriteAck = 30"
| "msg_type_byte ReadRequest = 31"
| "msg_type_byte ReadResponse = 32"
| "msg_type_byte ListRequest = 33"
| "msg_type_byte ListResponse = 34"
| "msg_type_byte StatsRequest = 35"
| "msg_type_byte StatsResponse = 36"
| "msg_type_byte ExistsRequest = 37"
| "msg_type_byte ExistsResponse = 38"
| "msg_type_byte NodeInfoRequest = 39"
| "msg_type_byte NodeInfoResponse = 40"
| "msg_type_byte NamespaceListRequest = 41"
| "msg_type_byte NamespaceListResponse = 42"
| "msg_type_byte StorageStatusRequest = 43"
| "msg_type_byte StorageStatusResponse = 44"
| "msg_type_byte NamespaceStatsRequest = 45"
| "msg_type_byte NamespaceStatsResponse = 46"
| "msg_type_byte MetadataRequest = 47"
| "msg_type_byte MetadataResponse = 48"
| "msg_type_byte BatchExistsRequest = 49"
| "msg_type_byte BatchExistsResponse = 50"
| "msg_type_byte DelegationListRequest = 51"
| "msg_type_byte DelegationListResponse = 52"
| "msg_type_byte BatchReadRequest = 53"
| "msg_type_byte BatchReadResponse = 54"
| "msg_type_byte PeerInfoRequest = 55"
| "msg_type_byte PeerInfoResponse = 56"
| "msg_type_byte TimeRangeRequest = 57"
| "msg_type_byte TimeRangeResponse = 58"
| "msg_type_byte BlobNotify = 59"
| "msg_type_byte BlobFetch = 60"
| "msg_type_byte BlobFetchResponse = 61"
| "msg_type_byte SyncNamespaceAnnounce = 62"
| "msg_type_byte ErrorResponse = 63"
| "msg_type_byte BlobWrite = 64"
| "msg_type_byte (Unknown_Msg b) = b"

definition msg_types :: "transport_msg_type list" where
  "msg_types = [
    MsgNone, KemPubkey, KemCiphertext, AuthSignature, AuthPubkey, Ping, Pong, Goodbye, SyncRequest,
    SyncAccept, NamespaceList, BlobRequest, BlobTransfer, SyncComplete, PeerListRequest,
    PeerListResponse, MsgDelete, DeleteAck, Subscribe, Unsubscribe, Notification, StorageFull,
    TrustedHello, PQRequired, QuotaExceeded, ReconcileInit, ReconcileRanges, ReconcileItems,
    SyncRejected, WriteAck, ReadRequest, ReadResponse, ListRequest, ListResponse, StatsRequest,
    StatsResponse, ExistsRequest, ExistsResponse, NodeInfoRequest, NodeInfoResponse,
    NamespaceListRequest, NamespaceListResponse, StorageStatusRequest, StorageStatusResponse,
    NamespaceStatsRequest, NamespaceStatsResponse, MetadataRequest, MetadataResponse,
    BatchExistsRequest, BatchExistsResponse, DelegationListRequest, DelegationListResponse,
    BatchReadRequest, BatchReadResponse, PeerInfoRequest, PeerInfoResponse, TimeRangeRequest,
    TimeRangeResponse, BlobNotify, BlobFetch, BlobFetchResponse, SyncNamespaceAnnounce, ErrorResponse,
    BlobWrite]"

definition msg_type_of_byte :: "byte \<Rightarrow> transport_msg_type" where
  "msg_type_of_byte b =
     (case find (\<lambda>t. msg_type_byte t = b) msg_types of None \<Rightarrow> Unknown_Msg b | Some t \<Rightarrow> t)"

section \<open>The envelope\<close>

record decoded_message =
  dm_type :: transport_msg_type
  dm_payload :: bytes
  dm_request_id :: u32

definition TransportCodec_encode :: "'t externals \<Rightarrow> transport_msg_type \<Rightarrow> bytes \<Rightarrow> u32 \<Rightarrow> bytes" where
  "TransportCodec_encode X type payload request_id =
     fb_create_transport X (msg_type_byte type) payload request_id"

definition TransportCodec_decode :: "'t externals \<Rightarrow> bytes \<Rightarrow> decoded_message option" where
  "TransportCodec_decode X dat =
     (if \<not> fb_verify_transport X dat then None
      else let msg = fb_get_transport X dat in
        Some \<lparr>dm_type = msg_type_of_byte (ft_type msg),
              dm_payload = (case ft_payload msg of None \<Rightarrow> [] | Some p \<Rightarrow> p),
              dm_request_id = ft_request_id msg\<rparr>)"

section \<open>Roles and the authentication payload\<close>

datatype role = Role_Peer | Role_Client | Role_Observer | Role_Admin | Role_Relay

primrec role_byte :: "role \<Rightarrow> byte" where
  "role_byte Role_Peer = 0x00"
| "role_byte Role_Client = 0x01"
| "role_byte Role_Observer = 0x02"
| "role_byte Role_Admin = 0x03"
| "role_byte Role_Relay = 0x04"

text \<open>The cast \<open>static_cast<Role>(byte)\<close> is only made for an implemented role.\<close>

definition is_implemented_role :: "byte \<Rightarrow> bool" where
  "is_implemented_role b \<longleftrightarrow> b = role_byte Role_Peer \<or> b = role_byte Role_Client"

record auth_payload =
  ap_role :: role
  ap_pubkey :: bytes
  ap_signature :: bytes

definition SIGNER_PUBLIC_KEY_SIZE :: nat where "SIGNER_PUBLIC_KEY_SIZE = 2592"

definition encode_auth_payload :: "role \<Rightarrow> bytes \<Rightarrow> bytes \<Rightarrow> bytes" where
  "encode_auth_payload rl signing_pubkey signature =
     write_u32_be [role_byte rl] (of_nat (length signing_pubkey)) @ signing_pubkey @ signature"

definition decode_auth_payload :: "bytes \<Rightarrow> auth_payload option" where
  "decode_auth_payload dat =
     (if length dat < 5 then None
      else if \<not> is_implemented_role (dat ! 0) then None
      else let pk_size = read_u32_be_ptr (drop 1 dat) in
        if unat pk_size \<noteq> SIGNER_PUBLIC_KEY_SIZE then None
        else if unat pk_size > length dat - 5 then None
        else Some \<lparr>ap_role = (if dat ! 0 = role_byte Role_Peer then Role_Peer else Role_Client),
                   ap_pubkey = take (unat pk_size) (drop 5 dat),
                   ap_signature = drop (5 + unat pk_size) dat\<rparr>)"

section \<open>Round trips\<close>

definition known_type :: "transport_msg_type \<Rightarrow> bool" where
  "known_type t \<longleftrightarrow> t \<in> set msg_types"

lemma find_distinct:
  "distinct (map f xs) \<Longrightarrow> x \<in> set xs \<Longrightarrow> find (\<lambda>y. f y = f x) xs = Some x"
  by (induction xs) (auto simp: image_iff)

lemma msg_type_round_trip: "known_type t \<Longrightarrow> msg_type_of_byte (msg_type_byte t) = t"
proof -
  assume "known_type t"
  moreover have "distinct (map msg_type_byte msg_types)" by (simp add: msg_types_def)
  ultimately show ?thesis
    using find_distinct [of msg_type_byte msg_types t] by (simp add: msg_type_of_byte_def known_type_def)
qed

context externals
begin

lemma transport_round_trip:
  "known_type t \<Longrightarrow> length p < 2 ^ 30 \<Longrightarrow>
    TransportCodec_decode X (TransportCodec_encode X t p r) =
      Some \<lparr>dm_type = t, dm_payload = p, dm_request_id = r\<rparr>"
  by (simp add: TransportCodec_decode_def TransportCodec_encode_def ft.transport_verify ft.transport_get
      msg_type_round_trip)

lemma transport_size:
  "4 \<le> length (TransportCodec_encode X t p r)" "length (TransportCodec_encode X t p r) < length p + 64"
  by (simp_all add: TransportCodec_encode_def ft.transport_length)

lemma transport_not_chunked: "TransportCodec_encode X t p r ! 0 \<noteq> 1"
proof -
  have "TransportCodec_encode X t p r \<noteq> []" using transport_size(1) [of t p r] by auto
  then show ?thesis
    using ft.transport_root [of "msg_type_byte t" p r]
    by (auto simp: TransportCodec_encode_def hd_conv_nth)
qed

end

lemma auth_payload_round_trip:
  assumes "is_implemented_role (role_byte rl)" and "length pk = 2592"
  shows "decode_auth_payload (encode_auth_payload rl pk s) =
    Some \<lparr>ap_role = rl, ap_pubkey = pk, ap_signature = s\<rparr>"
proof -
  define n where "n = (of_nat (length pk) :: u32)"
  have n: "unat n = 2592" using assms(2) by (simp add: n_def)
  have enc: "encode_auth_payload rl pk s = role_byte rl # be_bytes 4 (unat n) @ pk @ s"
    by (simp add: encode_auth_payload_def n_def wire_simps)
  have "rl = Role_Peer \<or> rl = Role_Client" using assms(1) by (cases rl) (auto simp: is_implemented_role_def)
  moreover have "read_u32_be_ptr (drop 1 (encode_auth_payload rl pk s)) = n" by (simp add: enc)
  ultimately show ?thesis
    unfolding decode_auth_payload_def using assms n
    by (auto simp: Let_def SIGNER_PUBLIC_KEY_SIZE_def enc)
qed

end
