(* ===== verification/Peer_Types.thy ===== *)
theory Peer_Types
  imports Engine Transport_Codec
begin

text \<open>
  The types the peer components share (\<open>db/peer/peer_types.h\<close>,
  \<open>db/peer/sync_reject.h\<close>) and the list of connected peers.  A timer pointer in \<open>PeerInfo\<close> is modelled
  by whether it is set.
\<close>

section \<open>Connected peers\<close>

record peer_info =
  pi_connection :: conn_id
  pi_address :: string
  pi_is_bootstrap :: bool
  pi_role :: role
  pi_strike_count :: u32
  pi_syncing :: bool
  pi_advertised_blob_cap :: u64
  pi_sync_inbox :: "message list"
  pi_sync_notify :: bool
  pi_subscribed_namespaces :: "bytes list"
  pi_peer_is_full :: bool
  pi_bucket_tokens :: u64
  pi_bucket_last_refill :: u64
  pi_last_sync_initiated :: u64
  pi_last_message_time :: u64
  pi_announced_namespaces :: "bytes list"
  pi_announce_received :: bool
  pi_announce_notify :: bool

record node_metrics =
  nm_ingests :: u64
  nm_rejections :: u64
  nm_syncs :: u64
  nm_rate_limited :: u64
  nm_peers_connected_total :: u64
  nm_peers_disconnected_total :: u64
  nm_cursor_hits :: u64
  nm_cursor_misses :: u64
  nm_full_resyncs :: u64
  nm_quota_rejections :: u64
  nm_sync_rejections :: u64
  nm_error_responses :: u64

fun find_peer :: "conn_id \<Rightarrow> peer_info list \<Rightarrow> peer_info option" where
  "find_peer conn [] = None"
| "find_peer conn (p # ps) = (if pi_connection p = conn then Some p else find_peer conn ps)"

text \<open>A write through the pointer \<open>find_peer\<close> returns.\<close>

fun update_peer :: "conn_id \<Rightarrow> (peer_info \<Rightarrow> peer_info) \<Rightarrow> peer_info list \<Rightarrow> peer_info list" where
  "update_peer conn f [] = []"
| "update_peer conn f (p # ps) = (if pi_connection p = conn then f p # ps else p # update_peer conn f ps)"

lemma find_update_peer:
  assumes "\<And>p. pi_connection (f p) = pi_connection p"
  shows "find_peer c (update_peer conn f ps) =
    (if c = conn then map_option f (find_peer c ps) else find_peer c ps)"
  using assms by (induction ps) auto

lemma find_peer_connection: "find_peer conn ps = Some p \<Longrightarrow> pi_connection p = conn"
  by (induction ps) (auto split: if_splits)

section \<open>Sync rejection reasons\<close>

definition SYNC_REJECT_COOLDOWN :: byte where "SYNC_REJECT_COOLDOWN = 0x01"
definition SYNC_REJECT_SESSION_LIMIT :: byte where "SYNC_REJECT_SESSION_LIMIT = 0x02"
definition SYNC_REJECT_BYTE_RATE :: byte where "SYNC_REJECT_BYTE_RATE = 0x03"

end
