(* ===== verification/Peer_Messages.thy ===== *)
theory Peer_Messages
  imports Peer_Types
begin

text \<open>
  The static encoders and decoders of \<open>db/peer/peer_manager.cpp\<close>: address lists of the peer
  exchange, namespace lists of subscriptions and announcements, notifications.  Strings are the bytes of
  their characters.
\<close>

section \<open>Address lists\<close>

definition string_bytes :: "string \<Rightarrow> bytes" where
  "string_bytes s = map of_char s"

definition bytes_string :: "bytes \<Rightarrow> string" where
  "bytes_string bs = map (\<lambda>b. char_of (unat b)) bs"

definition encode_peer_list :: "string list \<Rightarrow> bytes" where
  "encode_peer_list addresses =
     write_u16_be [] (of_nat (length addresses)) @
     concat (map (\<lambda>addr. write_u16_be [] (of_nat (length addr)) @ string_bytes addr) addresses)"

definition get_u16 :: "bytes \<Rightarrow> nat \<Rightarrow> u16" where
  "get_u16 payload offset = push_bit 8 (ucast (payload ! offset)) OR ucast (payload ! (offset + 1))"

fun decode_peer_loop :: "bytes \<Rightarrow> nat \<Rightarrow> nat \<Rightarrow> string list" where
  "decode_peer_loop payload 0 offset = []"
| "decode_peer_loop payload (Suc n) offset =
     (if offset + 2 > length payload then []
      else let len = unat (get_u16 payload offset); o1 = offset + 2 in
        if o1 + len > length payload then []
        else bytes_string (take len (drop o1 payload)) # decode_peer_loop payload n (o1 + len))"

definition decode_peer_list :: "bytes \<Rightarrow> string list" where
  "decode_peer_list payload =
     (if length payload < 2 then [] else decode_peer_loop payload (unat (get_u16 payload 0)) 2)"

section \<open>Namespace lists and notifications\<close>

definition encode_namespaces :: "bytes list \<Rightarrow> bytes" where
  "encode_namespaces namespaces = write_u16_be [] (of_nat (length namespaces)) @ concat namespaces"

definition decode_namespaces :: "bytes \<Rightarrow> bytes list" where
  "decode_namespaces payload =
     (if length payload < 2 then []
      else case read_u16_be payload of
        Inl _ \<Rightarrow> []
      | Inr count \<Rightarrow>
          (case checked_mul (ucast count) 32 of
             None \<Rightarrow> []
           | Some product \<Rightarrow>
               (case checked_add 2 product of
                  None \<Rightarrow> []
                | Some expected \<Rightarrow>
                    if length payload \<noteq> unat expected then []
                    else records 32 (unat count) (drop 2 payload))))"

definition encode_notification :: "bytes \<Rightarrow> bytes \<Rightarrow> u64 \<Rightarrow> u32 \<Rightarrow> bool \<Rightarrow> bytes" where
  "encode_notification namespace_id hash seq_num blob_size tombstone =
     encode_blob_ref namespace_id hash seq_num blob_size tombstone"

section \<open>Round trips\<close>

lemma bytes_string_bytes: "bytes_string (string_bytes s) = s"
proof -
  have "char_of (unat (of_char c :: byte)) = c" for c
  proof -
    have "(of_char c :: byte) = of_nat (of_char c)" by (simp add: of_nat_of_char)
    moreover have "(of_char c :: nat) < 256" by simp
    ultimately show ?thesis by (simp add: unat_of_nat)
  qed
  then show ?thesis by (simp add: bytes_string_def string_bytes_def comp_def)
qed

lemma read_u16_be_bytes: "read_u16_be (be_bytes 2 (unat v) @ post) = Inr v"
  using unsigned_less [of v, where ?'a = nat] by (simp add: read_u16_be_eq)

lemma get_u16_append: "get_u16 (pre @ be_bytes 2 (unat v) @ post) (length pre) = v"
proof -
  have "get_u16 (pre @ be_bytes 2 (unat v) @ post) (length pre) = get_u16 (be_bytes 2 (unat v) @ post) 0"
    by (simp add: get_u16_def nth_append be_bytes_2)
  moreover have "read_u16_be (be_bytes 2 (unat v) @ post) = Inr (get_u16 (be_bytes 2 (unat v) @ post) 0)"
    by (simp add: read_u16_be_def get_u16_def)
  ultimately show ?thesis by (simp add: read_u16_be_bytes)
qed

lemma decode_peer_step:
  assumes "length bs = unat (n :: u16)"
  shows "decode_peer_loop (pre @ be_bytes 2 (unat n) @ bs @ rest) (Suc k) (length pre) =
    bytes_string bs # decode_peer_loop (pre @ be_bytes 2 (unat n) @ bs @ rest) k (length pre + 2 + length bs)"
  unfolding decode_peer_loop.simps get_u16_append Let_def using assms by simp

lemma decode_peer_encode:
  assumes "list_all (\<lambda>a. length a < 2 ^ 16) addrs"
  shows "decode_peer_loop (pre @ concat (map (\<lambda>a. write_u16_be [] (of_nat (length a)) @ string_bytes a) addrs) @ post)
    (length addrs) (length pre) = addrs"
  using assms
proof (induction addrs arbitrary: pre)
  case (Cons a addrs)
  define n where "n = (of_nat (length a) :: u16)"
  have n: "unat n = length a" using Cons.prems by (simp add: n_def)
  let ?rest = "concat (map (\<lambda>a. write_u16_be [] (of_nat (length a)) @ string_bytes a) addrs) @ post"
  have b: "pre @ concat (map (\<lambda>a. write_u16_be [] (of_nat (length a)) @ string_bytes a) (a # addrs)) @ post =
      pre @ be_bytes 2 (unat n) @ string_bytes a @ ?rest"
    by (simp only: list.map concat.simps write_u16_be_eq append_Nil append_assoc n_def)
  have l: "length (string_bytes a) = length a" by (simp add: string_bytes_def)
  have "decode_peer_loop (pre @ be_bytes 2 (unat n) @ string_bytes a @ ?rest) (Suc (length addrs)) (length pre) =
      a # decode_peer_loop (pre @ be_bytes 2 (unat n) @ string_bytes a @ ?rest) (length addrs) (length pre + 2 + length a)"
    using decode_peer_step [of "string_bytes a" n pre ?rest "length addrs"] l n by (simp only: bytes_string_bytes)
  moreover have "decode_peer_loop (pre @ be_bytes 2 (unat n) @ string_bytes a @ ?rest) (length addrs) (length pre + 2 + length a) = addrs"
    using Cons.IH [of "pre @ be_bytes 2 (unat n) @ string_bytes a"] Cons.prems l by simp
  ultimately show ?case unfolding b by simp
qed simp

text \<open>A peer learns the addresses it was sent: an encoded list of fewer than \<open>2 ^ 16\<close> addresses, each
  shorter than \<open>2 ^ 16\<close> characters, decodes to itself, also with trailing bytes.\<close>

lemma peer_list_round_trip:
  assumes "length addresses < 2 ^ 16" and "list_all (\<lambda>a. length a < 2 ^ 16) addresses"
  shows "decode_peer_list (encode_peer_list addresses @ rest) = addresses"
proof -
  define n where "n = (of_nat (length addresses) :: u16)"
  have n: "unat n = length addresses" using assms(1) by (simp add: n_def)
  let ?body = "concat (map (\<lambda>a. write_u16_be [] (of_nat (length a)) @ string_bytes a) addresses)"
  have b: "encode_peer_list addresses @ rest = be_bytes 2 (unat n) @ ?body @ rest"
    by (simp only: encode_peer_list_def write_u16_be_eq append_Nil append_assoc n_def)
  have "get_u16 (be_bytes 2 (unat n) @ ?body @ rest) 0 = n" using get_u16_append [of "[]"] by simp
  then show ?thesis
    unfolding b decode_peer_list_def using n decode_peer_encode [OF assms(2), of "be_bytes 2 (unat n)" rest] by simp
qed

lemma namespaces_round_trip:
  assumes "list_all (\<lambda>n. length n = 32) namespaces" and "length namespaces < 2 ^ 16"
  shows "decode_namespaces (encode_namespaces namespaces) = namespaces"
proof -
  define n where "n = (of_nat (length namespaces) :: u16)"
  have n: "length namespaces = unat n" using assms(2) by (simp add: n_def)
  have un: "unat (ucast n :: u64) = unat n"
    using n assms(2) by (simp add: unsigned_ucast_eq take_bit_nat_eq_self)
  have w: "\<forall>x \<in> set namespaces. length x = 32" using assms(1) by (simp add: list_all_iff)
  then have len: "length (concat namespaces) = 32 * unat n" unfolding n [symmetric] by (induction namespaces) simp_all
  have b: "encode_namespaces namespaces = be_bytes 2 (unat n) @ concat namespaces"
    by (simp only: encode_namespaces_def write_u16_be_eq append_Nil n_def)
  have "unat n < 2 ^ 16" using n assms(2) by simp
  then have c: "checked_mul (ucast n) 32 = Some (ucast n * 32)" "unat (ucast n * 32 :: u64) = 32 * unat n"
    "checked_add 2 (ucast n * 32) = Some (2 + ucast n * 32)" "unat (2 + ucast n * 32 :: u64) = 2 + 32 * unat n"
    using un by (simp_all add: checked_mul_exact checked_add_exact unat_word_ariths)
  show ?thesis
    unfolding b decode_namespaces_def using len c records_concat [OF w, of "[]"] n by (simp add: read_u16_be_bytes)
qed

end
