(* ===== verification/Reconciliation.thy ===== *)
theory Reconciliation
  imports Endian
begin

text \<open>
  \<open>db/sync/reconciliation.cpp\<close>: the range-based set reconciliation two peers run to find out which
  blobs one has and the other lacks.  Each side answers ranges of the hash space with a skip, an item
  list, or the fingerprints of two halves.  \<open>None\<close> in \<open>process_range\<close> stands for undefined behaviour:
  with bounds that are not increasing the code forms an iterator range that ends before it
  begins, or reads an element past the end.
\<close>

unbundle bit_operations_syntax

section \<open>Messages\<close>

definition RECONCILE_VERSION :: byte where "RECONCILE_VERSION = 0x01"
definition SPLIT_THRESHOLD :: u32 where "SPLIT_THRESHOLD = 16"
definition MAX_RECONCILE_ROUNDS :: nat where "MAX_RECONCILE_ROUNDS = 64"

datatype range_mode = Skip | Fingerprint | Item_List

record range_entry =
  re_upper_bound :: bytes
  re_mode :: range_mode
  re_count :: u32
  re_fingerprint :: bytes
  re_items :: "bytes list"

record reconcile_init =
  ri_version :: byte
  ri_namespace_id :: bytes
  ri_count :: u32
  ri_fingerprint :: bytes

record reconcile_result =
  rr_response_ranges :: "range_entry list"
  rr_have_items :: "bytes list"
  rr_complete :: bool

definition MIN_HASH :: bytes where "MIN_HASH = replicate 32 0"

definition make_max_hash :: bytes where "make_max_hash = replicate 32 0xFF"

section \<open>Ranges of a sorted list\<close>

definition xor_fingerprint :: "bytes list \<Rightarrow> nat \<Rightarrow> nat \<Rightarrow> bytes" where
  "xor_fingerprint hashes begin_ix end_ix =
     foldl (\<lambda>fp h. map2 (XOR) fp h) (replicate 32 0) (take (end_ix - begin_ix) (drop begin_ix hashes))"

text \<open>\<open>std::lower_bound\<close> on a sorted vector: the index of the first element not below the bound.\<close>

definition lower_bound_ix :: "bytes list \<Rightarrow> bytes \<Rightarrow> nat" where
  "lower_bound_ix hashes bound = length (takeWhile (\<lambda>h. h < bound) hashes)"

definition range_indices :: "bytes list \<Rightarrow> bytes \<Rightarrow> bytes \<Rightarrow> nat \<times> nat" where
  "range_indices hashes lower upper = (lower_bound_ix hashes lower, lower_bound_ix hashes upper)"

definition count_in_range :: "bytes list \<Rightarrow> bytes \<Rightarrow> bytes \<Rightarrow> u64" where
  "count_in_range hashes lower upper =
     (let (b, e) = range_indices hashes lower upper in of_nat e - of_nat b)"

section \<open>Answering ranges\<close>

definition skip_entry :: "bytes \<Rightarrow> range_entry" where
  "skip_entry upper = \<lparr>re_upper_bound = upper, re_mode = Skip, re_count = 0,
     re_fingerprint = replicate 32 0, re_items = []\<rparr>"

definition items_entry :: "bytes \<Rightarrow> u32 \<Rightarrow> bytes list \<Rightarrow> range_entry" where
  "items_entry upper count items = \<lparr>re_upper_bound = upper, re_mode = Item_List, re_count = count,
     re_fingerprint = replicate 32 0, re_items = items\<rparr>"

definition fingerprint_entry :: "bytes \<Rightarrow> u32 \<Rightarrow> bytes \<Rightarrow> range_entry" where
  "fingerprint_entry upper count fp = \<lparr>re_upper_bound = upper, re_mode = Fingerprint, re_count = count,
     re_fingerprint = fp, re_items = []\<rparr>"

text \<open>One turn of the loop: the ranges of the answer, the items received, and whether the range is
  settled.\<close>

definition process_range ::
    "bytes list \<Rightarrow> bytes \<Rightarrow> range_entry \<Rightarrow> (range_entry list \<times> bytes list \<times> bool) option" where
  "process_range our_sorted lower entry =
     (let upper = re_upper_bound entry; (b, e) = range_indices our_sorted lower upper in
      case re_mode entry of
        Skip \<Rightarrow> Some ([skip_entry upper], [], True)
      | Item_List \<Rightarrow>
          if b \<le> e
          then Some ([items_entry upper (of_nat (e - b)) (take (e - b) (drop b our_sorted))], re_items entry, True)
          else None
      | Fingerprint \<Rightarrow>
          let our_count = (of_nat e - of_nat b :: u32); our_fp = xor_fingerprint our_sorted b e in
          if our_fp = re_fingerprint entry \<and> our_count = re_count entry
          then Some ([skip_entry upper], [], True)
          else if \<not> b \<le> e then None
          else if our_count \<le> SPLIT_THRESHOLD
          then Some ([items_entry upper our_count (take (e - b) (drop b our_sorted))], [], False)
          else let mid = b + (e - b) div 2 in
            Some ([fingerprint_entry (our_sorted ! mid) (of_nat (mid - b)) (xor_fingerprint our_sorted b mid),
                   fingerprint_entry upper (of_nat (e - mid)) (xor_fingerprint our_sorted mid e)], [], False))"

fun process_loop :: "bytes list \<Rightarrow> bytes \<Rightarrow> range_entry list \<Rightarrow> reconcile_result option" where
  "process_loop our_sorted lower [] =
     Some \<lparr>rr_response_ranges = [], rr_have_items = [], rr_complete = True\<rparr>"
| "process_loop our_sorted lower (entry # ranges) =
     (case process_range our_sorted lower entry of
        None \<Rightarrow> None
      | Some (response, items, settled) \<Rightarrow>
          (case process_loop our_sorted (re_upper_bound entry) ranges of
             None \<Rightarrow> None
           | Some r \<Rightarrow>
               Some \<lparr>rr_response_ranges = response @ rr_response_ranges r,
                     rr_have_items = items @ rr_have_items r,
                     rr_complete = (settled \<and> rr_complete r)\<rparr>))"

definition process_ranges :: "bytes list \<Rightarrow> range_entry list \<Rightarrow> reconcile_result option" where
  "process_ranges our_sorted received_ranges = process_loop our_sorted MIN_HASH received_ranges"

section \<open>Both sides in one process\<close>

text \<open>The items of the item lists among some ranges.\<close>

definition listed_items :: "range_entry list \<Rightarrow> bytes list" where
  "listed_items ranges = concat (map re_items (filter (\<lambda>r. re_mode r = Item_List) ranges))"

text \<open>The rounds, with the items collected from each side; a \<open>std::set\<close> that is only inserted into
  is the list of what was inserted.\<close>

fun reconcile_rounds ::
    "bytes list \<Rightarrow> bytes list \<Rightarrow> nat \<Rightarrow> bool \<Rightarrow> range_entry list \<Rightarrow> bytes list \<times> bytes list
      \<Rightarrow> (bytes list \<times> bytes list) option" where
  "reconcile_rounds sorted_a sorted_b 0 a_turn current items = Some items"
| "reconcile_rounds sorted_a sorted_b (Suc n) a_turn current (items_from_a, items_from_b) =
     (case process_ranges (if a_turn then sorted_a else sorted_b) current of
        None \<Rightarrow> None
      | Some result \<Rightarrow>
          let received = listed_items current;
              sent = listed_items (rr_response_ranges result);
              have = rr_have_items result;
              items = (if a_turn then (items_from_a @ sent, items_from_b @ received @ have)
                       else (items_from_a @ received @ have, items_from_b @ sent)) in
          if rr_complete result then Some items
          else reconcile_rounds sorted_a sorted_b n (\<not> a_turn) (rr_response_ranges result) items)"

definition reconcile_local ::
    "bytes list \<Rightarrow> bytes list \<Rightarrow> (bytes list \<times> bytes list) option" where
  "reconcile_local sorted_a sorted_b =
     (let init_range = fingerprint_entry make_max_hash (of_nat (length sorted_a))
            (xor_fingerprint sorted_a 0 (length sorted_a)) in
      case reconcile_rounds sorted_a sorted_b MAX_RECONCILE_ROUNDS False [init_range] ([], []) of
        None \<Rightarrow> None
      | Some (items_from_a, items_from_b) \<Rightarrow>
          Some (filter (\<lambda>h. h \<notin> set sorted_a) (sorted_list_of_set (set items_from_b)),
                filter (\<lambda>h. h \<notin> set sorted_b) (sorted_list_of_set (set items_from_a))))"

section \<open>Wire formats\<close>

definition encode_reconcile_init :: "reconcile_init \<Rightarrow> bytes" where
  "encode_reconcile_init i =
     write_u32_be ([ri_version i] @ ri_namespace_id i) (ri_count i) @ ri_fingerprint i"

definition decode_reconcile_init :: "bytes \<Rightarrow> reconcile_init option" where
  "decode_reconcile_init payload =
     (if length payload < 1 + 32 + 4 + 32 then None
      else if payload ! 0 \<noteq> RECONCILE_VERSION then None
      else Some \<lparr>ri_version = payload ! 0, ri_namespace_id = take 32 (drop 1 payload),
                 ri_count = read_u32_be_ptr (drop 33 payload),
                 ri_fingerprint = take 32 (drop 37 payload)\<rparr>)"

definition mode_byte :: "range_mode \<Rightarrow> byte" where
  "mode_byte m = (case m of Skip \<Rightarrow> 0 | Fingerprint \<Rightarrow> 1 | Item_List \<Rightarrow> 2)"

definition encode_range :: "range_entry \<Rightarrow> bytes" where
  "encode_range entry =
     re_upper_bound entry @ [mode_byte (re_mode entry)] @
     (case re_mode entry of
        Skip \<Rightarrow> []
      | Fingerprint \<Rightarrow> write_u32_be [] (re_count entry) @ re_fingerprint entry
      | Item_List \<Rightarrow> write_u32_be [] (re_count entry) @ concat (re_items entry))"

definition encode_reconcile_ranges :: "bytes \<Rightarrow> range_entry list \<Rightarrow> bytes" where
  "encode_reconcile_ranges namespace_id ranges =
     write_u32_be namespace_id (of_nat (length ranges)) @ concat (map encode_range ranges)"

text \<open>One entry of a message, and the offset behind it.\<close>

definition decode_range :: "bytes \<Rightarrow> nat \<Rightarrow> (range_entry \<times> nat) option" where
  "decode_range payload offset =
     (if offset + 33 > length payload then None
      else
        let upper = take 32 (drop offset payload); mode = payload ! (offset + 32); o1 = offset + 33 in
        if mode = 0 then Some (skip_entry upper, o1)
        else if mode = 1 then
          (if o1 + 4 + 32 > length payload then None
           else Some (fingerprint_entry upper (read_u32_be_ptr (drop o1 payload))
                        (take 32 (drop (o1 + 4) payload)), o1 + 36))
        else if mode = 2 then
          (if o1 + 4 > length payload then None
           else
             let count = read_u32_be_ptr (drop o1 payload); o2 = o1 + 4 in
             case checked_mul (ucast count) 32 of
               None \<Rightarrow> None
             | Some items_size \<Rightarrow>
                 (case checked_add (of_nat o2) items_size of
                    None \<Rightarrow> None
                  | Some items_end \<Rightarrow>
                      if unat items_end > length payload then None
                      else Some (items_entry upper count
                                   (records 32 (unat count) (drop o2 payload)), o2 + 32 * unat count)))
        else None)"

fun decode_range_loop :: "bytes \<Rightarrow> nat \<Rightarrow> nat \<Rightarrow> range_entry list option" where
  "decode_range_loop payload 0 offset = Some []"
| "decode_range_loop payload (Suc n) offset =
     (case decode_range payload offset of
        None \<Rightarrow> None
      | Some (entry, offset') \<Rightarrow> map_option (\<lambda>es. entry # es) (decode_range_loop payload n offset'))"

definition decode_reconcile_ranges :: "bytes \<Rightarrow> (bytes \<times> range_entry list) option" where
  "decode_reconcile_ranges payload =
     (if length payload < 32 + 4 then None
      else map_option (\<lambda>rs. (take 32 payload, rs))
             (decode_range_loop payload (unat (read_u32_be_ptr (drop 32 payload))) 36))"

definition encode_reconcile_items :: "bytes \<Rightarrow> bytes list \<Rightarrow> bytes" where
  "encode_reconcile_items namespace_id items =
     write_u32_be namespace_id (of_nat (length items)) @ concat items"

definition decode_reconcile_items :: "bytes \<Rightarrow> (bytes \<times> bytes list) option" where
  "decode_reconcile_items payload =
     (if length payload < 32 + 4 then None
      else let count = read_u32_be_ptr (drop 32 payload) in
        case checked_mul (ucast count) 32 of
          None \<Rightarrow> None
        | Some items_size \<Rightarrow>
            (case checked_add 36 items_size of
               None \<Rightarrow> None
             | Some total_size \<Rightarrow>
                 if length payload < unat total_size then None
                 else Some (take 32 payload, records 32 (unat count) (drop 36 payload))))"

end
