(* ===== verification/Reconcile_Proof.thy ===== *)
theory Reconcile_Proof
  imports Reconciliation
begin

text \<open>
  The reconciliation finds exactly the differences.  The ranges in flight always cut the hash space
  into consecutive pieces that describe the sender's items; a fingerprint piece holds, after each of
  the second party's turns, at most half as many of its items as before, so the limit of 64 rounds
  is enough for any two sets of fewer than \<open>2 ^ 32\<close> items.
\<close>

section \<open>The items of a range\<close>

definition in_rng :: "bytes \<Rightarrow> bytes \<Rightarrow> bytes list \<Rightarrow> bytes list" where
  "in_rng l u xs = filter (\<lambda>x. l \<le> x \<and> x < u) xs"

definition fp_of :: "bytes list \<Rightarrow> bytes" where
  "fp_of xs = foldl (\<lambda>fp h. map2 (XOR) fp h) (replicate 32 0) xs"

lemma in_rng_empty: "(\<And>x. x \<in> set xs \<Longrightarrow> u \<le> x) \<Longrightarrow> in_rng l u xs = []"
  by (auto simp: in_rng_def filter_empty_conv dest: leD)

lemma lower_bound_ix_slice:
  assumes "sorted_wrt (<) xs" and "l \<le> u"
  shows "lower_bound_ix xs l \<le> lower_bound_ix xs u"
    and "take (lower_bound_ix xs u - lower_bound_ix xs l) (drop (lower_bound_ix xs l) xs) = in_rng l u xs"
proof -
  have "lower_bound_ix xs l \<le> lower_bound_ix xs u \<and>
    take (lower_bound_ix xs u - lower_bound_ix xs l) (drop (lower_bound_ix xs l) xs) = in_rng l u xs"
    using assms(1)
  proof (induction xs)
    case (Cons x xs)
    consider "x < l" | "l \<le> x" "x < u" | "u \<le> x" by fastforce
    then show ?case
    proof cases
      case 1
      then have "x < u" using assms(2) by simp
      with 1 Cons show ?thesis by (simp add: lower_bound_ix_def in_rng_def)
    next
      case 2
      then have "lower_bound_ix xs l = 0" using Cons.prems by (cases xs) (auto simp: lower_bound_ix_def)
      with 2 Cons show ?thesis by (simp add: lower_bound_ix_def in_rng_def)
    next
      case 3
      then have "in_rng l u (x # xs) = []" using Cons.prems by (intro in_rng_empty) auto
      with 3 assms(2) show ?thesis by (auto simp: lower_bound_ix_def)
    qed
  qed (simp add: lower_bound_ix_def in_rng_def)
  then show "lower_bound_ix xs l \<le> lower_bound_ix xs u"
    and "take (lower_bound_ix xs u - lower_bound_ix xs l) (drop (lower_bound_ix xs l) xs) = in_rng l u xs"
    by auto
qed

lemma slice_length:
  assumes "sorted_wrt (<) xs" and "l \<le> u"
  shows "lower_bound_ix xs u = lower_bound_ix xs l + length (in_rng l u xs)"
proof -
  have "lower_bound_ix xs u \<le> length xs" by (simp add: lower_bound_ix_def length_takeWhile_le)
  then have "length (take (lower_bound_ix xs u - lower_bound_ix xs l) (drop (lower_bound_ix xs l) xs)) =
      lower_bound_ix xs u - lower_bound_ix xs l" by simp
  then show ?thesis using lower_bound_ix_slice [OF assms] by simp
qed

lemma sorted_take_drop:
  assumes "sorted_wrt (<) (ys :: bytes list)" and "k < length ys"
  shows "filter (\<lambda>x. x < ys ! k) ys = take k ys" and "filter (\<lambda>x. ys ! k \<le> x) ys = drop k ys"
proof -
  have t: "x < ys ! k" if "x \<in> set (take k ys)" for x
    using that assms sorted_wrt_nth_less [OF assms(1)] by (auto simp: in_set_conv_nth)
  have d: "ys ! k \<le> x" if "x \<in> set (drop k ys)" for x
  proof -
    from that obtain j where j: "x = ys ! (k + j)" "k + j < length ys" by (auto simp: in_set_conv_nth)
    then show ?thesis using sorted_wrt_nth_less [OF assms(1), of k "k + j"] by (cases "j = 0") auto
  qed
  have "filter (\<lambda>x. x < ys ! k) (take k ys) = take k ys" "filter (\<lambda>x. x < ys ! k) (drop k ys) = []"
    "filter (\<lambda>x. ys ! k \<le> x) (take k ys) = []" "filter (\<lambda>x. ys ! k \<le> x) (drop k ys) = drop k ys"
    using t d by (auto simp: filter_empty_conv filter_id_conv dest!: leD)
  then show "filter (\<lambda>x. x < ys ! k) ys = take k ys" "filter (\<lambda>x. ys ! k \<le> x) ys = drop k ys"
    by (metis append_take_drop_id append_Nil append_Nil2 filter_append)+
qed

lemma in_rng_sub: "l \<le> l' \<Longrightarrow> u' \<le> u \<Longrightarrow> in_rng l' u' xs = in_rng l' u' (in_rng l u xs)"
  by (auto simp: in_rng_def intro!: filter_cong)

lemma length_in_rng_sub: "l \<le> l' \<Longrightarrow> u' \<le> u \<Longrightarrow> length (in_rng l' u' xs) \<le> length (in_rng l u xs)"
  by (subst in_rng_sub [of l l' u' u]) (simp_all add: in_rng_def [of l' u'])

lemma in_rng_split:
  assumes "sorted_wrt (<) xs" and k: "k < length (in_rng l u xs)"
  defines "s \<equiv> in_rng l u xs ! k"
  shows "l \<le> s" "s < u" "in_rng l s xs = take k (in_rng l u xs)" "in_rng s u xs = drop k (in_rng l u xs)"
proof -
  have sorted: "sorted_wrt (<) (in_rng l u xs)" using assms(1) by (simp add: in_rng_def sorted_wrt_filter)
  have "s \<in> set (in_rng l u xs)" using k by (simp add: s_def)
  then show s: "l \<le> s" "s < u" by (auto simp: in_rng_def)
  have "in_rng l s xs = filter (\<lambda>x. x < s) (in_rng l u xs)"
    using s by (auto simp: in_rng_def intro!: filter_cong)
  then show "in_rng l s xs = take k (in_rng l u xs)" using sorted_take_drop(1) [OF sorted k] by (simp add: s_def)
  have "in_rng s u xs = filter (\<lambda>x. s \<le> x) (in_rng l u xs)"
    using s by (auto simp: in_rng_def intro!: filter_cong)
  then show "in_rng s u xs = drop k (in_rng l u xs)" using sorted_take_drop(2) [OF sorted k] by (simp add: s_def)
qed

section \<open>Ranges in flight\<close>

text \<open>What an entry says of the sender's items \<open>S\<close> and, for a skip, of the receiver's items \<open>P\<close>.\<close>

definition entry_ok :: "bytes list \<Rightarrow> bytes list \<Rightarrow> bytes \<Rightarrow> range_entry \<Rightarrow> bool" where
  "entry_ok S P l r \<longleftrightarrow>
     l < re_upper_bound r \<and>
     (let own = in_rng l (re_upper_bound r) S in
      case re_mode r of
        Skip \<Rightarrow> own = in_rng l (re_upper_bound r) P
      | Fingerprint \<Rightarrow> re_count r = of_nat (length own) \<and> re_fingerprint r = fp_of own
      | Item_List \<Rightarrow> re_items r = own)"

fun chain :: "bytes list \<Rightarrow> bytes list \<Rightarrow> bytes \<Rightarrow> range_entry list \<Rightarrow> bytes \<Rightarrow> bool" where
  "chain S P l [] u \<longleftrightarrow> l = u"
| "chain S P l (r # rs) u \<longleftrightarrow> entry_ok S P l r \<and> chain S P (re_upper_bound r) rs u"

fun fp_bound :: "bytes list \<Rightarrow> nat \<Rightarrow> bytes \<Rightarrow> range_entry list \<Rightarrow> bool" where
  "fp_bound Q k l [] \<longleftrightarrow> True"
| "fp_bound Q k l (r # rs) \<longleftrightarrow>
     (re_mode r = Fingerprint \<longrightarrow> length (in_rng l (re_upper_bound r) Q) \<le> k) \<and>
     fp_bound Q k (re_upper_bound r) rs"

definition no_fingerprints :: "range_entry list \<Rightarrow> bool" where
  "no_fingerprints rs \<longleftrightarrow> list_all (\<lambda>r. re_mode r \<noteq> Fingerprint) rs"

lemma chain_append: "chain S P l (rs @ rs') u \<longleftrightarrow> (\<exists>m. chain S P l rs m \<and> chain S P m rs' u)"
  by (induction rs arbitrary: l) auto

lemma fp_bound_append:
  "chain S P l rs m \<Longrightarrow> fp_bound Q k l (rs @ rs') \<longleftrightarrow> fp_bound Q k l rs \<and> fp_bound Q k m rs'"
  by (induction rs arbitrary: l) auto

text \<open>Equal fingerprints and counts mean equal items: the assumption on the hashes under which the
  protocol is used.\<close>

definition no_collision :: "bytes list \<Rightarrow> bytes list \<Rightarrow> bool" where
  "no_collision a b \<longleftrightarrow>
     (\<forall>l u. fp_of (in_rng l u a) = fp_of (in_rng l u b) \<longrightarrow>
        length (in_rng l u a) = length (in_rng l u b) \<longrightarrow> in_rng l u a = in_rng l u b)"

lemma no_collision_sym: "no_collision a b \<Longrightarrow> no_collision b a"
  unfolding no_collision_def by metis

definition small_set :: "bytes list \<Rightarrow> bool" where
  "small_set xs \<longleftrightarrow> sorted_wrt (<) xs \<and> length xs < 2 ^ 32"

lemma small_set_in_rng: "small_set xs \<Longrightarrow> length (in_rng l u xs) < 2 ^ 32"
  unfolding small_set_def in_rng_def using length_filter_le le_less_trans by blast

lemma of_nat_u32_eq: "m < 2 ^ 32 \<Longrightarrow> n < 2 ^ 32 \<Longrightarrow> (of_nat m :: u32) = of_nat n \<longleftrightarrow> m = n"
  by (simp add: word_unat_eq_iff)

section \<open>One answer\<close>

text \<open>The two halves an answer splits a large range into.\<close>

lemma split_ok:
  assumes sP: "sorted_wrt (<) P" and lu: "l \<le> u"
    and own: "take (length (in_rng l u P)) (drop (lower_bound_ix P l) P) = in_rng l u P"
    and big: "\<not> length (in_rng l u P) \<le> 16"
  defines "b \<equiv> lower_bound_ix P l" and "c \<equiv> length (in_rng l u P)"
  defines "resp \<equiv> [fingerprint_entry (P ! (b + c div 2)) (of_nat (c div 2)) (fp_of (take (c div 2) (in_rng l u P))),
      fingerprint_entry u (of_nat (c - c div 2)) (xor_fingerprint P (b + c div 2) (b + c))]"
  shows "chain P S l resp u" and "c \<le> n \<Longrightarrow> fp_bound P (n - n div 2) l resp"
    and "length (in_rng l u S) \<le> n \<Longrightarrow> fp_bound S n l resp"
proof -
  let ?own = "in_rng l u P" let ?s = "?own ! (c div 2)"
  have k: "c div 2 < c" "0 < c div 2" using big by (auto simp: c_def)
  note sp = in_rng_split [OF sP k(1) [unfolded c_def], folded c_def]
  have own: "take c (drop b P) = ?own" using own by (simp add: b_def c_def)
  have mid: "P ! (b + c div 2) = ?s"
  proof -
    have "b + c div 2 < length P"
      using arg_cong [OF own, of length] k by (simp add: c_def [symmetric] min_def split: if_splits)
    then show ?thesis unfolding own [symmetric] using k(1) by simp
  qed
  have "drop (c div 2) (take c (drop b P)) = in_rng ?s u P" unfolding own by (rule sp(4) [symmetric])
  then have up: "xor_fingerprint P (b + c div 2) (b + c) = fp_of (in_rng ?s u P)"
    by (simp add: xor_fingerprint_def fp_of_def drop_take add.commute)
  have "?own ! 0 < ?s"
    by (rule sorted_wrt_nth_less [of "(<)"])
      (use sP k in \<open>simp_all add: c_def in_rng_def sorted_wrt_filter\<close>)
  moreover have "?own ! 0 \<in> set ?own" using k(1) unfolding c_def by (intro nth_mem) linarith
  ultimately have ls: "l < ?s" by (auto simp: in_rng_def)
  have lens: "length (in_rng l ?s P) = c div 2" "length (in_rng ?s u P) = c - c div 2"
    unfolding sp(3,4) using k(1) by (simp_all add: c_def)
  have r: "resp = [fingerprint_entry ?s (of_nat (length (in_rng l ?s P))) (fp_of (in_rng l ?s P)),
      fingerprint_entry u (of_nat (length (in_rng ?s u P))) (fp_of (in_rng ?s u P))]"
    unfolding resp_def mid up lens unfolding sp(3) ..
  show "chain P S l resp u"
    using ls sp(2) by (simp add: r entry_ok_def fingerprint_entry_def)
  show "fp_bound P (n - n div 2) l resp" if "c \<le> n"
    unfolding r using that by (simp add: fingerprint_entry_def lens) linarith
  show "fp_bound S n l resp" if "length (in_rng l u S) \<le> n"
    unfolding r
    using that length_in_rng_sub [OF order_refl less_imp_le [OF sp(2)], of l S]
      length_in_rng_sub [OF sp(1) order_refl, of u S]
    by (simp add: fingerprint_entry_def)
qed

text \<open>Everything the later proofs need to know about the answer to one entry.\<close>

lemma process_range_ok:
  assumes P: "small_set P" and S: "small_set S" and nc: "no_collision S P" and ok: "entry_ok S P l r"
  defines "u \<equiv> re_upper_bound r"
  obtains resp items settled where
    "process_range P l r = Some (resp, items, settled)" "chain P S l resp u"
    "items = (if re_mode r = Item_List then re_items r else [])"
    "re_mode r \<noteq> Fingerprint \<longrightarrow> settled"
    "settled \<longrightarrow> in_rng l u S = in_rng l u P \<or> re_mode r = Item_List \<and> listed_items resp = in_rng l u P"
    "\<forall>k. (re_mode r = Fingerprint \<longrightarrow> length (in_rng l u P) \<le> k) \<longrightarrow> fp_bound P (k - k div 2) l resp"
    "\<forall>k. (re_mode r = Fingerprint \<longrightarrow> length (in_rng l u S) \<le> k) \<longrightarrow> fp_bound S k l resp"
    "(re_mode r = Fingerprint \<longrightarrow> length (in_rng l u P) \<le> 16) \<longrightarrow> no_fingerprints resp"
proof -
  let ?own = "in_rng l u P"
  have lu: "l < u" "l \<le> u" using ok by (auto simp: entry_ok_def u_def)
  have sP: "sorted_wrt (<) P" using P by (simp add: small_set_def)
  note sl = lower_bound_ix_slice [OF sP lu(2)] slice_length [OF sP lu(2)]
  let ?b = "lower_bound_ix P l"
  define c where "c = length ?own"
  have own: "take c (drop ?b P) = ?own" using sl(2) unfolding sl(3) by (simp add: c_def)
  have fp: "xor_fingerprint P ?b (?b + k) = fp_of (take k ?own)" if "k \<le> c" for k
  proof -
    have "take k ?own = take k (drop ?b P)" unfolding own [symmetric] using that by (simp add: min_def)
    then show ?thesis by (simp add: xor_fingerprint_def fp_of_def)
  qed
  have all: "take c ?own = ?own" by (simp add: c_def)
  have ix: "range_indices P l u = (?b, ?b + c)" by (simp add: range_indices_def sl(3) c_def)
  have cw: "(of_nat (?b + c) - of_nat ?b :: u32) = of_nat c" by simp
  have pr: "process_range P l r =
     (case re_mode r of
        Skip \<Rightarrow> Some ([skip_entry u], [], True)
      | Item_List \<Rightarrow> Some ([items_entry u (of_nat c) ?own], re_items r, True)
      | Fingerprint \<Rightarrow>
          if fp_of ?own = re_fingerprint r \<and> (of_nat c :: u32) = re_count r
          then Some ([skip_entry u], [], True)
          else if (of_nat c :: u32) \<le> SPLIT_THRESHOLD
          then Some ([items_entry u (of_nat c) ?own], [], False)
          else
            Some ([fingerprint_entry (P ! (?b + c div 2)) (of_nat (c div 2)) (fp_of (take (c div 2) ?own)),
                   fingerprint_entry u (of_nat (c - c div 2)) (xor_fingerprint P (?b + c div 2) (?b + c))], [], False))"
    unfolding process_range_def u_def [symmetric] Let_def ix split cw fp [of c, unfolded all, OF order_refl]
    by (simp add: own fp split: range_mode.split)
  show thesis
  proof (cases "re_mode r")
    case Skip
    then show thesis
      using ok lu by (intro that [of "[skip_entry u]" "[]" True])
        (auto simp: pr entry_ok_def skip_entry_def u_def no_fingerprints_def)
  next
    case Item_List
    then show thesis
      using lu by (intro that [of "[items_entry u (of_nat c) ?own]" "re_items r" True])
        (auto simp: pr entry_ok_def items_entry_def listed_items_def no_fingerprints_def)
  next
    case Fingerprint
    have cr: "re_count r = of_nat (length (in_rng l u S))" "re_fingerprint r = fp_of (in_rng l u S)"
      using ok Fingerprint by (auto simp: entry_ok_def u_def Let_def)
    have small: "c < 2 ^ 32" "length (in_rng l u S) < 2 ^ 32"
      using small_set_in_rng [OF P] small_set_in_rng [OF S] by (simp_all only: c_def)
    show thesis
    proof (cases "fp_of ?own = re_fingerprint r \<and> (of_nat c :: u32) = re_count r")
      case True
      then have "c = length (in_rng l u S)" using of_nat_u32_eq [OF small] cr by simp
      then have "in_rng l u S = ?own"
        using nc True cr by (simp add: no_collision_def c_def)
      then show thesis
        using True Fingerprint lu by (intro that [of "[skip_entry u]" "[]" True])
          (auto simp: pr entry_ok_def skip_entry_def no_fingerprints_def)
    next
      case False
      have thr: "(of_nat c :: u32) \<le> SPLIT_THRESHOLD \<longleftrightarrow> c \<le> 16"
        using small(1) by (simp add: SPLIT_THRESHOLD_def word_le_nat_alt)
      show thesis
      proof (cases "c \<le> 16")
        case True
        with False Fingerprint lu show thesis
          by (intro that [of "[items_entry u (of_nat c) ?own]" "[]" False])
            (auto simp: pr thr entry_ok_def items_entry_def no_fingerprints_def)
      next
        case big: False
        have pr': "process_range P l r =
            Some ([fingerprint_entry (P ! (?b + c div 2)) (of_nat (c div 2)) (fp_of (take (c div 2) ?own)),
              fingerprint_entry u (of_nat (c - c div 2)) (xor_fingerprint P (?b + c div 2) (?b + c))], [], False)"
          unfolding pr Fingerprint thr using False big by simp
        show thesis
          by (rule that [OF pr' split_ok(1) [OF sP lu(2) own [unfolded c_def] big [unfolded c_def], folded c_def]])
            (use big Fingerprint split_ok(2,3) [OF sP lu(2) own [unfolded c_def] big [unfolded c_def], folded c_def] in \<open>auto simp: c_def\<close>)
      qed
    qed
  qed
qed

section \<open>One message\<close>

lemma listed_items_append [simp]: "listed_items (xs @ ys) = listed_items xs @ listed_items ys"
  by (simp add: listed_items_def)

lemma listed_items_Cons:
  "listed_items (r # rs) = (if re_mode r = Item_List then re_items r else []) @ listed_items rs"
  by (simp add: listed_items_def)

lemma chain_listed: "chain S P l rs u \<Longrightarrow> set (listed_items rs) \<subseteq> set S"
proof (induction rs arbitrary: l)
  case (Cons r rs)
  then show ?case by (auto simp: listed_items_Cons entry_ok_def in_rng_def Let_def split: if_splits)
qed (simp add: listed_items_def)

lemma no_fingerprints_append [simp]: "no_fingerprints (xs @ ys) \<longleftrightarrow> no_fingerprints xs \<and> no_fingerprints ys"
  by (simp add: no_fingerprints_def)

text \<open>What is settled by a message: every item that only one side has is listed by that side.\<close>

definition settles :: "bytes list \<Rightarrow> bytes list \<Rightarrow> bytes \<Rightarrow> bytes \<Rightarrow> range_entry list \<Rightarrow> range_entry list \<Rightarrow> bool" where
  "settles S P l u rs resp \<longleftrightarrow>
     (\<forall>x. l \<le> x \<and> x < u \<longrightarrow>
        (x \<in> set S - set P \<longrightarrow> x \<in> set (listed_items rs)) \<and>
        (x \<in> set P - set S \<longrightarrow> x \<in> set (listed_items resp)))"

lemma settles_append:
  "settles S P l m rs resp \<Longrightarrow> settles S P m u rs' resp' \<Longrightarrow> settles S P l u (rs @ rs') (resp @ resp')"
  unfolding settles_def by (metis listed_items_append Un_iff set_append not_le)

lemma in_rng_iff: "x \<in> set (in_rng l u xs) \<longleftrightarrow> x \<in> set xs \<and> l \<le> x \<and> x < u"
  by (simp add: in_rng_def)

lemma process_loop_ok:
  assumes P: "small_set P" and S: "small_set S" and nc: "no_collision S P" and ch: "chain S P l rs u"
  obtains res where "process_loop P l rs = Some res" "chain P S l (rr_response_ranges res) u"
    "rr_have_items res = listed_items rs" "no_fingerprints rs \<longrightarrow> rr_complete res"
    "rr_complete res \<longrightarrow> settles S P l u rs (rr_response_ranges res)"
    "\<forall>k. fp_bound P k l rs \<longrightarrow> fp_bound P (k - k div 2) l (rr_response_ranges res)"
    "\<forall>k. fp_bound S k l rs \<longrightarrow> fp_bound S k l (rr_response_ranges res)"
    "fp_bound P 16 l rs \<longrightarrow> no_fingerprints (rr_response_ranges res)"
  using ch
proof (induction rs arbitrary: l thesis)
  case Nil
  then show ?case
    by (intro Nil(1) [of "\<lparr>rr_response_ranges = [], rr_have_items = [], rr_complete = True\<rparr>"])
      (auto simp: listed_items_def no_fingerprints_def settles_def)
next
  case (Cons r rs)
  let ?m = "re_upper_bound r"
  have ok: "entry_ok S P l r" and ch': "chain S P ?m rs u" using Cons.prems by auto
  obtain resp items settled where one:
    "process_range P l r = Some (resp, items, settled)" "chain P S l resp ?m"
    "items = (if re_mode r = Item_List then re_items r else [])"
    "re_mode r \<noteq> Fingerprint \<longrightarrow> settled"
    "settled \<longrightarrow> in_rng l ?m S = in_rng l ?m P \<or> re_mode r = Item_List \<and> listed_items resp = in_rng l ?m P"
    "\<forall>k. (re_mode r = Fingerprint \<longrightarrow> length (in_rng l ?m P) \<le> k) \<longrightarrow> fp_bound P (k - k div 2) l resp"
    "\<forall>k. (re_mode r = Fingerprint \<longrightarrow> length (in_rng l ?m S) \<le> k) \<longrightarrow> fp_bound S k l resp"
    "(re_mode r = Fingerprint \<longrightarrow> length (in_rng l ?m P) \<le> 16) \<longrightarrow> no_fingerprints resp"
    by (rule process_range_ok [OF P S nc ok])
  obtain res where rest: "process_loop P ?m rs = Some res" "chain P S ?m (rr_response_ranges res) u"
    "rr_have_items res = listed_items rs" "no_fingerprints rs \<longrightarrow> rr_complete res"
    "rr_complete res \<longrightarrow> settles S P ?m u rs (rr_response_ranges res)"
    "\<forall>k. fp_bound P k ?m rs \<longrightarrow> fp_bound P (k - k div 2) ?m (rr_response_ranges res)"
    "\<forall>k. fp_bound S k ?m rs \<longrightarrow> fp_bound S k ?m (rr_response_ranges res)"
    "fp_bound P 16 ?m rs \<longrightarrow> no_fingerprints (rr_response_ranges res)"
    by (rule Cons.IH [OF _ ch'])
  have own: "re_mode r = Item_List \<Longrightarrow> re_items r = in_rng l ?m S"
    using ok by (simp add: entry_ok_def Let_def)
  have here: "settles S P l ?m [r] resp" if st: settled
  proof -
    consider "in_rng l ?m S = in_rng l ?m P" | "re_mode r = Item_List" "listed_items resp = in_rng l ?m P"
      using one(5) st by blast
    then show ?thesis
    proof cases
      case 1
      then have "x \<in> set S \<longleftrightarrow> x \<in> set P" if "l \<le> x" "x < ?m" for x
        using that in_rng_iff [of x l ?m S] in_rng_iff [of x l ?m P] by simp
      then show ?thesis by (simp add: settles_def)
    next
      case 2
      then show ?thesis by (simp add: settles_def listed_items_Cons own in_rng_iff)
    qed
  qed
  show ?case
  proof (rule Cons.prems(1))
    show "process_loop P l (r # rs) = Some \<lparr>rr_response_ranges = resp @ rr_response_ranges res,
        rr_have_items = items @ rr_have_items res, rr_complete = (settled \<and> rr_complete res)\<rparr>"
      using one(1) rest(1) by simp
  qed (use one rest here settles_append [of S P l ?m "[r]" resp u rs] in
      \<open>auto simp: chain_append fp_bound_append listed_items_Cons no_fingerprints_def\<close>)
qed

section \<open>The rounds\<close>

text \<open>What has been collected so far is the right side's, and, at the end, nothing is missing.\<close>

definition sound_items :: "bytes list \<Rightarrow> bytes list \<Rightarrow> bytes list \<times> bytes list \<Rightarrow> bool" where
  "sound_items a b items \<longleftrightarrow> set (fst items) \<subseteq> set a \<and> set (snd items) \<subseteq> set b"

definition exact_items :: "bytes list \<Rightarrow> bytes list \<Rightarrow> bytes list \<times> bytes list \<Rightarrow> bool" where
  "exact_items a b items \<longleftrightarrow> sound_items a b items \<and>
     set a - set b \<subseteq> set (fst items) \<and> set b - set a \<subseteq> set (snd items)"

definition hashes_ok :: "bytes list \<Rightarrow> bool" where
  "hashes_ok xs \<longleftrightarrow> small_set xs \<and> (\<forall>x \<in> set xs. MIN_HASH \<le> x \<and> x < make_max_hash)"

text \<open>One round: it ends with the exact differences, or hands on ranges with smaller fingerprints.\<close>

lemma one_round:
  assumes a: "hashes_ok a" and b: "hashes_ok b" and nc: "no_collision a b" and it: "sound_items a b items"
    and P: "P = (if t then a else b)" and S: "S = (if t then b else a)"
    and ch: "chain S P MIN_HASH cur make_max_hash"
  obtains (finish) items' where "reconcile_rounds a b (Suc n) t cur items = Some items'" "exact_items a b items'"
  | (continue) resp items' where
    "reconcile_rounds a b (Suc n) t cur items = reconcile_rounds a b n (\<not> t) resp items'"
    "sound_items a b items'" "\<not> no_fingerprints cur" "chain P S MIN_HASH resp make_max_hash"
    "\<forall>k. fp_bound P k MIN_HASH cur \<longrightarrow> fp_bound P (k - k div 2) MIN_HASH resp"
    "\<forall>k. fp_bound S k MIN_HASH cur \<longrightarrow> fp_bound S k MIN_HASH resp"
    "fp_bound P 16 MIN_HASH cur \<longrightarrow> no_fingerprints resp"
proof -
  have sm: "small_set P" "small_set S" and nc': "no_collision S P"
    using a b nc no_collision_sym P S by (auto simp: hashes_ok_def)
  obtain res where r: "process_loop P MIN_HASH cur = Some res"
    "chain P S MIN_HASH (rr_response_ranges res) make_max_hash"
    "rr_have_items res = listed_items cur" "no_fingerprints cur \<longrightarrow> rr_complete res"
    "rr_complete res \<longrightarrow> settles S P MIN_HASH make_max_hash cur (rr_response_ranges res)"
    "\<forall>k. fp_bound P k MIN_HASH cur \<longrightarrow> fp_bound P (k - k div 2) MIN_HASH (rr_response_ranges res)"
    "\<forall>k. fp_bound S k MIN_HASH cur \<longrightarrow> fp_bound S k MIN_HASH (rr_response_ranges res)"
    "fp_bound P 16 MIN_HASH cur \<longrightarrow> no_fingerprints (rr_response_ranges res)"
    by (rule process_loop_ok [OF sm nc' ch])
  define sent got where "sent = listed_items (rr_response_ranges res)" and "got = listed_items cur"
  have sub: "set got \<subseteq> set S" "set sent \<subseteq> set P"
    using chain_listed [OF ch] chain_listed [OF r(2)] by (simp_all add: got_def sent_def)
  define items' where "items' = (if t then (fst items @ sent, snd items @ got @ got)
    else (fst items @ got @ got, snd items @ sent))"
  have step: "reconcile_rounds a b (Suc n) t cur items =
      (if rr_complete res then Some items'
       else reconcile_rounds a b n (\<not> t) (rr_response_ranges res) items')"
    using r(1,3) by (cases items) (simp add: process_ranges_def P items'_def sent_def got_def Let_def)
  have sound: "sound_items a b items'"
    using it sub unfolding items'_def sound_items_def P S by (auto split: if_splits)
  show thesis
  proof (cases "rr_complete res")
    case True
    have all: "MIN_HASH \<le> x \<and> x < make_max_hash" if "x \<in> set a \<union> set b" for x
      using a b that by (auto simp: hashes_ok_def)
    have "set S - set P \<subseteq> set got" "set P - set S \<subseteq> set sent"
      using True r(5) all unfolding settles_def sent_def got_def P S by (auto split: if_splits)
    then have "exact_items a b items'"
      using sound unfolding exact_items_def items'_def P S by (auto split: if_splits)
    with True step show thesis by (intro finish) auto
  next
    case False
    with step r sound show thesis by (intro continue) auto
  qed
qed

lemma rounds_exact:
  assumes a: "hashes_ok a" and b: "hashes_ok b" and nc: "no_collision a b"
    and "sound_items a b items" and "chain a b MIN_HASH cur make_max_hash"
    and "fp_bound b (16 * 2 ^ j) MIN_HASH cur"
  shows "\<exists>items'. reconcile_rounds a b (2 * j + 2 + m) False cur items = Some items' \<and> exact_items a b items'"
  using assms(4-6)
proof (induction j arbitrary: cur items)
  case 0
  show ?case
  proof (cases rule: one_round [where t = False and n = "Suc m", OF a b nc 0(1) refl refl, simplified, OF 0(2)])
    case (2 resp items')
    then have nf: "no_fingerprints resp" using 0(3) by simp
    show ?thesis
      by (cases rule: one_round [where t = True and n = m, OF a b nc 2(2) refl refl, simplified, OF 2(4)])
        (use 2(1) nf in auto)
  qed auto
next
  case (Suc j)
  show ?case
  proof (cases rule: one_round [where t = False and n = "Suc (2 * j + 2 + m)", OF a b nc Suc.prems(1) refl refl, simplified, OF Suc.prems(2)])
    case (2 resp items')
    have "fp_bound b (16 * 2 ^ j) MIN_HASH resp"
      using 2(5) [rule_format, OF Suc.prems(3)] by simp
    note resp = this
    show ?thesis
    proof (cases rule: one_round [where t = True and n = "2 * j + 2 + m", OF a b nc 2(2) refl refl, simplified, OF 2(4)])
      case (2 resp' items'')
      then show ?thesis using Suc.IH [OF 2(2) 2(4)] resp \<open>reconcile_rounds a b _ False cur items = _\<close> by simp
    qed (use 2(1) in auto)
  qed auto
qed

section \<open>The result\<close>

lemma replicate_zero_le: "replicate (length xs) (0 :: byte) \<le> xs"
proof (induction xs)
  case (Cons x xs)
  then show ?case by (cases "x = 0") (auto simp: word_gt_0)
qed simp

lemma le_replicate_max: "xs \<le> replicate (length xs) (0xFF :: byte)"
proof (induction xs)
  case (Cons x xs)
  have "x \<le> 0xFF" using unat_byte_le [of x] by (simp add: word_le_nat_alt)
  with Cons show ?case by (cases "x = 0xFF") auto
qed simp

lemma hashes_okI:
  assumes "sorted_wrt (<) xs" "length xs < 2 ^ 32" "list_all (\<lambda>h. length h = 32 \<and> h \<noteq> make_max_hash) xs"
  shows "hashes_ok xs"
proof -
  have "MIN_HASH \<le> x \<and> x < make_max_hash" if "x \<in> set xs" for x
    using assms(3) that replicate_zero_le [of x] le_replicate_max [of x]
    unfolding MIN_HASH_def make_max_hash_def by (auto simp: list_all_iff less_le)
  then show ?thesis using assms by (simp add: hashes_ok_def small_set_def)
qed

lemma less_replicate: "x < y \<Longrightarrow> 0 < n \<Longrightarrow> replicate n (x :: byte) < replicate n y"
  by (cases n) auto

lemma hash_space: "MIN_HASH < make_max_hash"
  unfolding MIN_HASH_def make_max_hash_def by (rule less_replicate) simp_all

lemma in_rng_all: "hashes_ok xs \<Longrightarrow> in_rng MIN_HASH make_max_hash xs = xs"
  by (auto simp: hashes_ok_def in_rng_def filter_id_conv)

text \<open>Two parties that reconcile sorted lists of hashes end, within the 64 rounds the code allows,
  with exactly the two differences: the first is told the hashes only the second has, and the second
  the hashes only the first has.  The hashes are 32 bytes long, fewer than \<open>2 ^ 32\<close>, and none is the
  upper end of the hash space; ranges with equal count and equal fingerprint are assumed equal.\<close>

theorem reconcile_local_exact:
  assumes "sorted_wrt (<) a" "length a < 2 ^ 32" "list_all (\<lambda>h. length h = 32 \<and> h \<noteq> make_max_hash) a"
    and "sorted_wrt (<) b" "length b < 2 ^ 32" "list_all (\<lambda>h. length h = 32 \<and> h \<noteq> make_max_hash) b"
    and nc: "no_collision a b"
  shows "reconcile_local a b =
    Some (sorted_list_of_set (set b - set a), sorted_list_of_set (set a - set b))"
proof -
  have a: "hashes_ok a" and b: "hashes_ok b" using assms by (auto intro: hashes_okI)
  let ?r = "fingerprint_entry make_max_hash (of_nat (length a)) (xor_fingerprint a 0 (length a))"
  have "chain a b MIN_HASH [?r] make_max_hash"
    using in_rng_all [OF a] hash_space
    by (simp add: entry_ok_def fingerprint_entry_def fp_of_def xor_fingerprint_def)
  moreover have "fp_bound b (16 * 2 ^ 28) MIN_HASH [?r]"
    using in_rng_all [OF b] assms(5) by (simp add: fingerprint_entry_def)
  ultimately obtain fa fb where r: "reconcile_rounds a b (2 * 28 + 2 + 6) False [?r] ([], []) = Some (fa, fb)"
    and ex: "exact_items a b (fa, fb)"
    using rounds_exact [OF a b nc, of "([], [])" "[?r]" 28 6] by (auto simp: sound_items_def)
  have diff: "filter (\<lambda>h. h \<notin> N) (sorted_list_of_set (set xs)) = sorted_list_of_set (M - N)"
    if "set xs \<subseteq> M" "M - N \<subseteq> set xs" for xs :: "bytes list" and M N
  proof (rule sorted_distinct_set_unique)
    show "set (filter (\<lambda>h. h \<notin> N) (sorted_list_of_set (set xs))) = set (sorted_list_of_set (M - N))"
      using that finite_subset [OF that(2)] by auto
  qed (simp_all add: sorted_wrt_filter)
  show ?thesis
    using ex r diff [of fb "set b" "set a"] diff [of fa "set a" "set b"]
    by (simp add: reconcile_local_def MAX_RECONCILE_ROUNDS_def exact_items_def sound_items_def)
qed

text \<open>Two small sets without collisions.\<close>

lemma two_and_one:
  "(replicate 32 1 :: bytes) < replicate 32 2" "(replicate 32 1 :: bytes) \<noteq> replicate 32 2"
  "replicate 32 1 \<noteq> make_max_hash" "replicate 32 2 \<noteq> make_max_hash"
  by (simp_all add: replicate_eq_replicate make_max_hash_def less_replicate)

lemma no_collision_two_and_one:
  "no_collision [replicate 32 1, replicate 32 2] [replicate 32 2]"
proof -
  have "fp_of [replicate 32 v] = replicate 32 v" for v :: byte
    by (simp add: fp_of_def zip_replicate)
  then show ?thesis unfolding no_collision_def in_rng_def using two_and_one(2) by auto
qed

theorem reconcile_local_exact_witness:
  "reconcile_local [replicate 32 1, replicate 32 2] [replicate 32 2] =
     Some (sorted_list_of_set {}, sorted_list_of_set {replicate 32 1})"
  using reconcile_local_exact [of "[replicate 32 1, replicate 32 2]" "[replicate 32 2]"]
    no_collision_two_and_one two_and_one by (simp add: insert_Diff_if)

end
