(* ===== verification/Reconcile_Wire.thy ===== *)
theory Reconcile_Wire
  imports Reconcile_Proof
begin

text \<open>
  The messages of the reconciliation (\<open>db/sync/reconciliation.cpp\<close>): what one side encodes is what
  the other side decodes.
\<close>

text \<open>The entries that the code builds: the fields a mode does not use have their default values.\<close>

definition canonical_entry :: "range_entry \<Rightarrow> bool" where
  "canonical_entry r \<longleftrightarrow> length (re_upper_bound r) = 32 \<and>
     (case re_mode r of
        Skip \<Rightarrow> r = skip_entry (re_upper_bound r)
      | Fingerprint \<Rightarrow> length (re_fingerprint r) = 32 \<and>
          r = fingerprint_entry (re_upper_bound r) (re_count r) (re_fingerprint r)
      | Item_List \<Rightarrow> list_all (\<lambda>h. length h = 32) (re_items r) \<and> length (re_items r) < 2 ^ 32 \<and>
          r = items_entry (re_upper_bound r) (of_nat (length (re_items r))) (re_items r))"

lemma records_all:
  assumes "list_all (\<lambda>h. length h = 32) xs"
  shows "records 32 (length xs) (concat xs @ r) = xs" and "length (concat xs) = 32 * length xs"
proof -
  show "records 32 (length xs) (concat xs @ r) = xs" using assms by (intro records_concat) (simp add: list_all_iff)
  show "length (concat xs) = 32 * length xs" using assms by (induction xs) simp_all
qed

text \<open>The size arithmetic of an item list cannot overflow for a count of 32 bits.\<close>

lemma items_size:
  "\<exists>s. checked_mul (ucast (n :: u32)) 32 = Some s \<and> unat s = 32 * unat n"
proof -
  have "unat n < 2 ^ 32" using unsigned_less [of n, where ?'a = nat] by simp
  moreover from this have u: "unat (ucast n :: u64) = unat n"
    by (simp add: unsigned_ucast_eq take_bit_nat_eq_self)
  ultimately show ?thesis by (simp add: checked_mul_exact unat_word_ariths)
qed

lemma items_end:
  assumes "o2 + unat s < 2 ^ 64"
  shows "\<exists>e. checked_add (of_nat o2) s = Some e \<and> unat e = o2 + unat s"
  using assms by (simp add: checked_add_exact unat_word_ariths)

lemma decode_range_encode:
  assumes c: "canonical_entry r" and len: "length (pre @ encode_range r @ post) < 2 ^ 64"
  shows "decode_range (pre @ encode_range r @ post) (length pre) = Some (r, length pre + length (encode_range r))"
proof (cases "re_mode r")
  case Skip
  with c obtain up where r: "r = skip_entry up" "length up = 32" by (auto simp: canonical_entry_def)
  show ?thesis
    by (simp add: r decode_range_def encode_range_def skip_entry_def mode_byte_def nth_append)
next
  case Fingerprint
  with c obtain up n fp where r: "r = fingerprint_entry up n fp" "length up = 32" "length fp = 32"
    by (auto simp: canonical_entry_def)
  show ?thesis
    by (simp add: r decode_range_def encode_range_def fingerprint_entry_def mode_byte_def nth_append wire_simps)
next
  case Item_List
  with c obtain up n xs where r: "r = items_entry up n xs" "length up = 32"
    "list_all (\<lambda>h. length h = 32) xs" "length xs = unat n"
    by (auto simp: canonical_entry_def)
  obtain s where s: "checked_mul (ucast n) 32 = Some s" "unat s = 32 * unat n"
    using items_size [of n] by auto
  have b: "encode_range r = up @ [2] @ be_bytes 4 (unat n) @ concat xs"
    by (simp add: r encode_range_def items_entry_def mode_byte_def wire_simps)
  have "length pre + 37 + unat s < 2 ^ 64"
    using len r(2,4) records_all(2) [OF r(3)] by (simp add: b s(2))
  from items_end [OF this] obtain e where
    e: "checked_add (of_nat (length pre + 37)) s = Some e" "unat e = length pre + 37 + 32 * unat n"
    unfolding s(2) by blast
  show ?thesis
    unfolding b unfolding r(1) using r(2-4) s e records_all [OF r(3)]
    by (simp add: decode_range_def nth_append Let_def add.commute)
qed

lemma decode_range_loop_encode:
  assumes "list_all canonical_entry rs" and "length (pre @ concat (map encode_range rs) @ post) < 2 ^ 64"
  shows "decode_range_loop (pre @ concat (map encode_range rs) @ post) (length rs) (length pre) = Some rs"
  using assms
proof (induction rs arbitrary: pre)
  case (Cons r rs)
  have "decode_range (pre @ encode_range r @ (concat (map encode_range rs) @ post)) (length pre) =
      Some (r, length pre + length (encode_range r))"
    using Cons.prems by (intro decode_range_encode) auto
  with Cons.IH [of "pre @ encode_range r"] Cons.prems show ?case by simp
qed simp

lemma length_fold_xor: "list_all (\<lambda>h. length h = n) xs \<Longrightarrow> length fp = n \<Longrightarrow>
    length (foldl (\<lambda>fp h. map2 (XOR) fp h) fp xs) = n" for fp :: bytes
  by (induction xs arbitrary: fp) auto

lemma length_xor_fingerprint: "list_all (\<lambda>h. length h = 32) xs \<Longrightarrow> length (xor_fingerprint xs i j) = 32"
  unfolding xor_fingerprint_def
  by (rule length_fold_xor) (auto simp: list_all_iff dest: in_set_takeD in_set_dropD)

lemma slice_all: "list_all P xs \<Longrightarrow> list_all P (take n (drop m xs))"
  by (auto simp: list_all_iff dest: in_set_takeD in_set_dropD)

lemma lower_bound_ix_le: "lower_bound_ix xs u \<le> length xs"
  by (simp add: lower_bound_ix_def length_takeWhile_le)

lemma canonical_items:
  "length up = 32 \<Longrightarrow> list_all (\<lambda>h. length h = 32) ys \<Longrightarrow> length ys < 2 ^ 32 \<Longrightarrow> n = of_nat (length ys) \<Longrightarrow>
   canonical_entry (items_entry up n ys)"
  by (simp add: canonical_entry_def items_entry_def)

text \<open>Whatever an answer is computed from, the entries it consists of are canonical.\<close>

lemma process_range_canonical:
  assumes xs: "list_all (\<lambda>h. length h = 32) xs" "length xs < 2 ^ 32" and r: "length (re_upper_bound r) = 32"
    and p: "process_range xs l r = Some (resp, items, settled)"
  shows "list_all canonical_entry resp"
proof -
  let ?b = "lower_bound_ix xs l" and ?e = "lower_bound_ix xs (re_upper_bound r)"
  have e: "?e \<le> length xs" by (rule lower_bound_ix_le)
  have items: "canonical_entry (items_entry (re_upper_bound r) (of_nat ?e - of_nat ?b)
      (take (?e - ?b) (drop ?b xs)))" if "?b \<le> ?e"
  proof -
    have len: "length (take (?e - ?b) (drop ?b xs)) = ?e - ?b" "?e - ?b < 2 ^ 32" using e xs(2) by auto
    show ?thesis
      by (rule canonical_items [OF r slice_all [OF xs(1)]]) (simp_all only: len of_nat_diff [OF that])
  qed
  have mid: "length (xs ! (?b + (?e - ?b) div 2)) = 32"
    if "?b \<le> ?e" "\<not> (of_nat ?e - of_nat ?b :: u32) \<le> SPLIT_THRESHOLD"
  proof -
    have "?b \<noteq> ?e" using that(2) by (metis diff_self word_zero_le)
    then have "?b + (?e - ?b) div 2 < length xs" using that(1) e by linarith
    then show ?thesis using xs(1) by (simp add: list_all_length)
  qed
  show ?thesis
    using p items mid r length_xor_fingerprint [OF xs(1)] unfolding process_range_def range_indices_def
    by (auto simp: Let_def canonical_entry_def skip_entry_def fingerprint_entry_def of_nat_diff
        split: range_mode.splits if_splits)
qed

lemma process_loop_canonical:
  assumes "list_all (\<lambda>h. length h = 32) xs" "length xs < 2 ^ 32"
    and "list_all (\<lambda>r. length (re_upper_bound r) = 32) rs" "process_loop xs l rs = Some res"
  shows "list_all canonical_entry (rr_response_ranges res)"
  using assms(3,4)
proof (induction rs arbitrary: l res)
  case (Cons r rs)
  then show ?case
    using process_range_canonical [OF assms(1,2)]
    by (auto split: option.splits prod.splits)
qed auto

lemma canonical_round_trip:
  assumes c: "list_all canonical_entry rs" and "length ns = 32" and "length rs < 2 ^ 32"
    and "length (encode_reconcile_ranges ns rs @ rest) < 2 ^ 64"
  shows "decode_reconcile_ranges (encode_reconcile_ranges ns rs @ rest) = Some (ns, rs)"
proof -
  define n where "n = (of_nat (length rs) :: u32)"
  have n: "unat n = length rs" using assms(3) by (simp add: n_def)
  let ?pre = "ns @ be_bytes 4 (unat n)"
  have e: "encode_reconcile_ranges ns rs @ rest = ?pre @ concat (map encode_range rs) @ rest"
    by (simp only: encode_reconcile_ranges_def wire_simps append_assoc n_def)
  have "decode_range_loop (?pre @ concat (map encode_range rs) @ rest) (length rs) (length ?pre) = Some rs"
    using c assms(4) unfolding e by (rule decode_range_loop_encode)
  moreover have "read_u32_be_ptr (drop 32 (?pre @ concat (map encode_range rs) @ rest)) = n"
    using assms(2) by simp
  ultimately show ?thesis
    unfolding e decode_reconcile_ranges_def using assms(2) n by simp
qed

text \<open>C23: The ranges one side answers with arrive unchanged: decoding the encoded answer of
  \<open>process_ranges\<close> gives the namespace and the very ranges, for any bytes appended to the message.\<close>

theorem reconcile_ranges_round_trip:
  assumes "list_all (\<lambda>h. length h = 32) hashes" "length hashes < 2 ^ 32"
    and "list_all (\<lambda>r. length (re_upper_bound r) = 32) received" "process_ranges hashes received = Some res"
    and "length ns = 32" "length (rr_response_ranges res) < 2 ^ 32"
    and "length (encode_reconcile_ranges ns (rr_response_ranges res) @ rest) < 2 ^ 64"
  shows "decode_reconcile_ranges (encode_reconcile_ranges ns (rr_response_ranges res) @ rest) =
    Some (ns, rr_response_ranges res)"
  using process_loop_canonical [OF assms(1-3)] assms(4-7)
  by (intro canonical_round_trip) (simp_all add: process_ranges_def)

theorem reconcile_ranges_round_trip_witness:
  "process_ranges [replicate 32 1] [fingerprint_entry make_max_hash 0 (replicate 32 0)] =
     Some \<lparr>rr_response_ranges = [items_entry make_max_hash 1 [replicate 32 1]], rr_have_items = [],
       rr_complete = False\<rparr> \<and>
   decode_reconcile_ranges (encode_reconcile_ranges (replicate 32 7) [items_entry make_max_hash 1 [replicate 32 1]] @ [9])
     = Some (replicate 32 7, [items_entry make_max_hash 1 [replicate 32 1]])"
proof -
  let ?x = "replicate 32 (1 :: byte)"
  have ix: "lower_bound_ix [?x] MIN_HASH = 0" "lower_bound_ix [?x] make_max_hash = 1"
    unfolding lower_bound_ix_def MIN_HASH_def make_max_hash_def
    using less_replicate [of 0 1 32] less_replicate [of 1 "0xFF" 32] by (auto simp: less_not_sym)
  have fp: "xor_fingerprint [?x] 0 (Suc 0) = ?x" by (simp add: xor_fingerprint_def zip_replicate)
  have p: "process_ranges [?x] [fingerprint_entry make_max_hash 0 (replicate 32 0)] =
     Some \<lparr>rr_response_ranges = [items_entry make_max_hash 1 [?x]], rr_have_items = [], rr_complete = False\<rparr>"
    by (simp add: process_ranges_def process_range_def range_indices_def fingerprint_entry_def ix fp
        SPLIT_THRESHOLD_def replicate_eq_replicate)
  then show ?thesis
    using reconcile_ranges_round_trip [OF _ _ _ p, of "replicate 32 7" "[9]"]
    by (simp add: fingerprint_entry_def make_max_hash_def encode_reconcile_ranges_def encode_range_def
        items_entry_def wire_simps)
qed

section \<open>The other two messages\<close>

lemma reconcile_init_round_trip:
  assumes "ri_version i = RECONCILE_VERSION" "length (ri_namespace_id i) = 32" "length (ri_fingerprint i) = 32"
  shows "decode_reconcile_init (encode_reconcile_init i @ rest) = Some i"
  using assms by (cases i) (simp add: decode_reconcile_init_def encode_reconcile_init_def wire_simps)

lemma reconcile_items_round_trip:
  assumes "length ns = 32" "list_all (\<lambda>h. length h = 32) items" "length items < 2 ^ 32"
  shows "decode_reconcile_items (encode_reconcile_items ns items @ rest) = Some (ns, items)"
proof -
  define n where "n = (of_nat (length items) :: u32)"
  have n: "length items = unat n" using assms(3) by (simp add: n_def)
  obtain s where s: "checked_mul (ucast n) 32 = Some s" "unat s = 32 * unat n"
    using items_size [of n] by auto
  have "36 + unat s < 2 ^ 64" using assms(3) by (simp add: s(2) n)
  from items_end [OF this] obtain e where e: "checked_add 36 s = Some e" "unat e = 36 + 32 * unat n"
    using s(2) by auto
  have b: "encode_reconcile_items ns items @ rest = ns @ be_bytes 4 (unat n) @ concat items @ rest"
    by (simp only: encode_reconcile_items_def wire_simps n_def append_assoc)
  show ?thesis
    unfolding b decode_reconcile_items_def
    using assms(1) s e records_all [OF assms(2)] n by simp
qed

end
