(* ===== verification/Sync_Protocol.thy ===== *)
theory Sync_Protocol
  imports Engine Reconcile_Wire
begin

text \<open>
  \<open>db/sync/sync_protocol.cpp\<close>: what a sync round reads from the storage and writes into it, and the
  messages it exchanges.  \<open>ingest_blobs\<close> waits for one \<open>ingest\<close> after the other; the callback for
  a stored blob appends a notification to a list.
\<close>

section \<open>Data\<close>

record sync_stats =
  ss_blobs_sent :: u32
  ss_blobs_received :: u32
  ss_namespaces_synced :: u32
  ss_storage_full_count :: u32
  ss_quota_exceeded_count :: u32

definition no_stats :: sync_stats where
  "no_stats = \<lparr>ss_blobs_sent = 0, ss_blobs_received = 0, ss_namespaces_synced = 0,
     ss_storage_full_count = 0, ss_quota_exceeded_count = 0\<rparr>"

record namespaced_blob =
  nb_target_namespace :: bytes
  nb_blob :: blob_data

record notification =
  nt_namespace_id :: bytes
  nt_blob_hash :: bytes
  nt_seq_num :: u64
  nt_blob_size :: u32
  nt_is_tombstone :: bool
  nt_expiry_time :: u64
  nt_source :: "conn_id option"

section \<open>Reading from the storage\<close>

definition collect_namespace_hashes :: "'t externals \<Rightarrow> io \<Rightarrow> 't storage \<Rightarrow> bytes \<Rightarrow> bytes list" where
  "collect_namespace_hashes X env st namespace_id =
     filter (\<lambda>hash. case get_blob X env st namespace_id hash of
         None \<Rightarrow> False
       | Some blob \<Rightarrow> \<not> is_blob_expired blob (io_now env))
       (get_hashes_by_namespace X env st namespace_id)"

fun get_blobs_by_hashes :: "'t externals \<Rightarrow> io \<Rightarrow> 't storage \<Rightarrow> bytes \<Rightarrow> bytes list \<Rightarrow> blob_data list" where
  "get_blobs_by_hashes X env st namespace_id [] = []"
| "get_blobs_by_hashes X env st namespace_id (hash # hashes) =
     (case get_blob X env st namespace_id hash of
        None \<Rightarrow> get_blobs_by_hashes X env st namespace_id hashes
      | Some blob \<Rightarrow>
          if is_blob_expired blob (io_now env) then get_blobs_by_hashes X env st namespace_id hashes
          else blob # get_blobs_by_hashes X env st namespace_id hashes)"

section \<open>Ingesting received blobs\<close>

definition stored_notification ::
    "bytes \<Rightarrow> blob_data \<Rightarrow> write_ack \<Rightarrow> conn_id option \<Rightarrow> notification" where
  "stored_notification target_namespace blob ack source =
     \<lparr>nt_namespace_id = target_namespace, nt_blob_hash = ack_blob_hash ack, nt_seq_num = ack_seq_num ack,
      nt_blob_size = of_nat (length (bd_data blob)), nt_is_tombstone = is_tombstone (bd_data blob),
      nt_expiry_time = saturating_expiry (bd_timestamp blob) (bd_ttl blob), nt_source = source\<rparr>"

text \<open>What the loop does with the result of one \<open>ingest\<close>.\<close>

definition note_result ::
    "namespaced_blob \<Rightarrow> conn_id option \<Rightarrow> ingest_result \<Rightarrow> sync_stats \<times> notification list
      \<Rightarrow> sync_stats \<times> notification list" where
  "note_result nb source result acc =
     (let (stats, notes) = acc in
      if ir_accepted result
      then (stats\<lparr>ss_blobs_received := ss_blobs_received stats + 1\<rparr>,
            case ir_ack result of
              Some ack \<Rightarrow>
                if ack_status ack = Ingest_Stored
                then notes @ [stored_notification (nb_target_namespace nb) (nb_blob nb) ack source]
                else notes
            | None \<Rightarrow> notes)
      else (case ir_error result of
              Some Storage_Full \<Rightarrow> (stats\<lparr>ss_storage_full_count := ss_storage_full_count stats + 1\<rparr>, notes)
            | Some Engine_Quota_Exceeded \<Rightarrow>
                (stats\<lparr>ss_quota_exceeded_count := ss_quota_exceeded_count stats + 1\<rparr>, notes)
            | _ \<Rightarrow> (stats, notes)))"

text \<open>The clock is read once, before the loop; each blob that is not expired is ingested in its own
  surroundings \<open>envs k\<close>.\<close>

fun ingest_blobs_loop ::
    "'t externals \<Rightarrow> engine_config \<Rightarrow> u64 \<Rightarrow> (nat \<Rightarrow> nat \<Rightarrow> nat \<Rightarrow> io) \<Rightarrow> conn_id option \<Rightarrow> namespaced_blob list
      \<Rightarrow> (sync_stats \<times> notification list) \<times> 't storage \<Rightarrow> (sync_stats \<times> notification list) \<times> 't storage" where
  "ingest_blobs_loop X cfg now envs source [] s = s"
| "ingest_blobs_loop X cfg now envs source (nb # nbs) (acc, st) =
     (if is_blob_expired (nb_blob nb) now then ingest_blobs_loop X cfg now envs source nbs (acc, st)
      else
        case ingest X cfg (envs (length nbs)) (nb_target_namespace nb) (nb_blob nb) source st of
          (Ingest_Done result, st') \<Rightarrow>
            ingest_blobs_loop X cfg now envs source nbs (note_result nb source result acc, st')
        | (_, st') \<Rightarrow> (acc, st'))"

definition ingest_blobs ::
    "'t externals \<Rightarrow> engine_config \<Rightarrow> u64 \<Rightarrow> (nat \<Rightarrow> nat \<Rightarrow> nat \<Rightarrow> io) \<Rightarrow> conn_id option \<Rightarrow> namespaced_blob list
      \<Rightarrow> 't storage \<Rightarrow> (sync_stats \<times> notification list) \<times> 't storage" where
  "ingest_blobs X cfg now envs source ns_blobs st =
     ingest_blobs_loop X cfg now envs source ns_blobs ((no_stats, []), st)"

section \<open>Messages\<close>

definition encode_namespace_list :: "namespace_info list \<Rightarrow> bytes" where
  "encode_namespace_list namespaces =
     write_u32_be [] (of_nat (length namespaces)) @
     concat (map (\<lambda>ns. write_u64_be (ni_namespace_id ns) (ni_latest_seq_num ns)) namespaces)"

definition decode_namespace_list :: "bytes \<Rightarrow> namespace_info list" where
  "decode_namespace_list payload =
     (if length payload < 4 then []
      else let count = read_u32_be_ptr payload in
        case checked_mul (ucast count) 40 of
          None \<Rightarrow> []
        | Some product \<Rightarrow>
            (case checked_add 4 product of
               None \<Rightarrow> []
             | Some expected \<Rightarrow>
                 if length payload < unat expected then []
                 else map (\<lambda>r. \<lparr>ni_namespace_id = take 32 r, ni_latest_seq_num = read_u64_be_ptr (drop 32 r)\<rparr>)
                        (records 40 (unat count) (drop 4 payload))))"

definition encode_blob_request :: "bytes \<Rightarrow> bytes list \<Rightarrow> bytes" where
  "encode_blob_request namespace_id hashes =
     write_u32_be namespace_id (of_nat (length hashes)) @ concat hashes"

definition decode_blob_request :: "bytes \<Rightarrow> bytes \<times> bytes list" where
  "decode_blob_request payload =
     (if length payload < 36 then (replicate 32 0, [])
      else let ns = take 32 payload; count = read_u32_be_ptr (drop 32 payload) in
        case checked_mul (ucast count) 32 of
          None \<Rightarrow> (ns, [])
        | Some product \<Rightarrow>
            (case checked_add 36 product of
               None \<Rightarrow> (ns, [])
             | Some expected \<Rightarrow>
                 if length payload < unat expected then (ns, [])
                 else (ns, records 32 (unat count) (drop 36 payload))))"

definition encode_transfer_item :: "'t externals \<Rightarrow> namespaced_blob \<Rightarrow> bytes" where
  "encode_transfer_item X nb =
     (let encoded = encode_blob X (nb_blob nb) in
      write_u32_be (nb_target_namespace nb) (of_nat (length encoded)) @ encoded)"

definition encode_blob_transfer :: "'t externals \<Rightarrow> namespaced_blob list \<Rightarrow> bytes" where
  "encode_blob_transfer X ns_blobs =
     write_u32_be [] (of_nat (length ns_blobs)) @ concat (map (encode_transfer_item X) ns_blobs)"

definition encode_single_blob_transfer :: "'t externals \<Rightarrow> bytes \<Rightarrow> blob_data \<Rightarrow> bytes" where
  "encode_single_blob_transfer X target_namespace blob =
     (let encoded = encode_blob X blob in
      write_u32_be (write_u32_be [] 1 @ target_namespace) (of_nat (length encoded)) @ encoded)"

text \<open>The loop stops at the first item that does not fit; a blob that does not decode raises.\<close>

fun decode_transfer_loop :: "'t externals \<Rightarrow> bytes \<Rightarrow> nat \<Rightarrow> u64 \<Rightarrow> codec_error + namespaced_blob list" where
  "decode_transfer_loop X payload 0 offset = Inr []"
| "decode_transfer_loop X payload (Suc n) offset =
     (case checked_add offset 32 of
        None \<Rightarrow> Inr []
      | Some ns_end \<Rightarrow>
          if unat ns_end > length payload then Inr []
          else let ns = take 32 (drop (unat offset) payload) in
            case checked_add ns_end 4 of
              None \<Rightarrow> Inr []
            | Some len_end \<Rightarrow>
                if unat len_end > length payload then Inr []
                else let len = read_u32_be_ptr (drop (unat ns_end) payload) in
                  case checked_add len_end (ucast len) of
                    None \<Rightarrow> Inr []
                  | Some blob_end \<Rightarrow>
                      if unat blob_end > length payload then Inr []
                      else case decode_blob X (take (unat len) (drop (unat len_end) payload)) of
                        Inl e \<Rightarrow> Inl e
                      | Inr blob \<Rightarrow>
                          map_sum id (\<lambda>bs. \<lparr>nb_target_namespace = ns, nb_blob = blob\<rparr> # bs)
                            (decode_transfer_loop X payload n blob_end))"

definition decode_blob_transfer :: "'t externals \<Rightarrow> bytes \<Rightarrow> codec_error + namespaced_blob list" where
  "decode_blob_transfer X payload =
     (if length payload < 4 then Inr []
      else decode_transfer_loop X payload (unat (read_u32_be_ptr payload)) 4)"

end
