(* ===== verification/Sync_Orchestrator.thy ===== *)
theory Sync_Orchestrator
  imports Peer_Types Sync_Protocol
begin

text \<open>
  \<open>db/peer/sync_orchestrator.cpp\<close>: the two coroutines of a sync session, \<open>run_sync_with_peer\<close> and
  \<open>handle_sync_as_responder\<close>, the loops that maintain the storage, and the message queue.

  A coroutine is cut at every \<open>co_await\<close>.  A segment ends with an action (a message to send, a wait for
  a message, blobs to ingest, the peer exchange, the end) and the next one starts with the event that
  answers it; \<open>sync_pc\<close> holds the position and the local variables the frame keeps in between.  The
  storage, the peers and the metrics may change arbitrarily between two segments.  \<open>Do_Raise\<close> is an
  exception that leaves the coroutine, \<open>Do_Stuck\<close> is undefined behaviour.  The tail of a session,
  the exchange of blobs and the update of the cursors, is the same code in both coroutines and one
  definition here.  Counters that only the log prints are left out.
\<close>

section \<open>State\<close>

record sync_config =
  sy_sync_namespaces :: "bytes list"
  sy_rate_limit_bytes_per_sec :: u64
  sy_full_resync_interval :: u32
  sy_cursor_stale_seconds :: u64
  sy_blob_transfer_timeout :: u32
  sy_sync_timeout :: u32
  sy_sync_cooldown_seconds :: u32
  sy_max_sync_sessions :: u32
  sy_safety_net_interval_seconds :: u32
  sy_compaction_interval_hours :: u32
  sy_has_pex :: bool

definition set_sync_config :: "u32 \<Rightarrow> u32 \<Rightarrow> u32 \<Rightarrow> sync_config \<Rightarrow> sync_config" where
  "set_sync_config cooldown max_sessions safety_net_interval cfg =
     cfg\<lparr>sy_sync_cooldown_seconds := cooldown, sy_max_sync_sessions := max_sessions,
         sy_safety_net_interval_seconds := safety_net_interval\<rparr>"

definition set_rate_limit :: "u64 \<Rightarrow> sync_config \<Rightarrow> sync_config" where
  "set_rate_limit bytes_per_sec cfg = cfg\<lparr>sy_rate_limit_bytes_per_sec := bytes_per_sec\<rparr>"

definition set_compaction_interval :: "u32 \<Rightarrow> sync_config \<Rightarrow> sync_config" where
  "set_compaction_interval hours cfg = cfg\<lparr>sy_compaction_interval_hours := hours\<rparr>"

definition set_cursor_config :: "u32 \<Rightarrow> u64 \<Rightarrow> sync_config \<Rightarrow> sync_config" where
  "set_cursor_config interval stale_seconds cfg =
     cfg\<lparr>sy_full_resync_interval := interval, sy_cursor_stale_seconds := stale_seconds\<rparr>"

definition set_blob_transfer_timeout :: "u32 \<Rightarrow> sync_config \<Rightarrow> sync_config" where
  "set_blob_transfer_timeout seconds cfg = cfg\<lparr>sy_blob_transfer_timeout := seconds\<rparr>"

definition set_sync_timeout :: "u32 \<Rightarrow> sync_config \<Rightarrow> sync_config" where
  "set_sync_timeout seconds cfg = cfg\<lparr>sy_sync_timeout := seconds\<rparr>"

record 't sync_world =
  sw_storage :: "'t storage"
  sw_peers :: "peer_info list"
  sw_metrics :: node_metrics

record sync_locals =
  sl_peer_namespaces :: "namespace_info list"
  sl_peer_hash :: bytes
  sl_now_ts :: u64
  sl_skip :: "bytes list"
  sl_missing :: "(bytes \<times> bytes list) list"
  sl_stats :: sync_stats

datatype sync_action =
  Do_Send transport_msg_type bytes
| Do_Recv u32
| Do_Ingest "namespaced_blob list"
| Do_Pex
| Do_Return
| Do_Raise
| Do_Stuck

datatype sync_event =
  Sent bool
| Received "message option"
| Ingested sync_stats
| Pex_Done

definition MAX_HASHES_PER_REQUEST :: nat where "MAX_HASHES_PER_REQUEST = 64"

text \<open>Where the blob exchange is: waiting for transfers of a batch, with the batches left and the
  numbers expected and received, or serving what the peer still asks for.\<close>

datatype serve_context =
  In_Transfer "(bytes \<times> bytes list) list" u32 u32
| In_Remaining

datatype sync_pc =
  I_Requested
| I_Accept
| I_Namespaces_Sent "namespace_info list"
| I_Namespaces "namespace_info list"
| I_Init_Sent sync_locals "bytes list" bytes "bytes list"
| I_Round sync_locals "bytes list" bytes "bytes list" "bytes list" nat
| I_Ranges_Sent sync_locals "bytes list" bytes "bytes list" "bytes list" nat
| I_Items_Sent sync_locals "bytes list" bytes "bytes list" "bytes list"
| I_Complete_Sent sync_locals
| R_Accept_Sent
| R_Namespaces_Sent "namespace_info list"
| R_Namespaces "namespace_info list"
| R_Idle sync_locals "(bytes \<times> bytes list) list"
| R_Round sync_locals "(bytes \<times> bytes list) list" bytes "bytes list" "bytes list" nat
| R_Ranges_Sent sync_locals "(bytes \<times> bytes list) list" bytes "bytes list" "bytes list" nat
| R_Items_Sent sync_locals "(bytes \<times> bytes list) list" bytes "bytes list" "bytes list"
| T_Request_Sent sync_locals "(bytes \<times> bytes list) list" u32
| T_Transfer sync_locals "(bytes \<times> bytes list) list" u32 u32
| T_Ingest sync_locals "(bytes \<times> bytes list) list" u32 u32
| T_Serving sync_locals serve_context bytes "bytes list"
| T_Remaining sync_locals
| T_Full_Sent sync_locals
| T_Quota_Sent sync_locals
| T_Pex
| Session_Over

type_synonym 't sync_step = "sync_pc \<times> 't sync_world \<times> sync_action"

section \<open>Peers and the message queue\<close>

definition release :: "conn_id \<Rightarrow> 't sync_world \<Rightarrow> 't sync_step" where
  "release conn w =
     (Session_Over, w\<lparr>sw_peers := update_peer conn (\<lambda>p. p\<lparr>pi_syncing := False\<rparr>) (sw_peers w)\<rparr>, Do_Return)"

text \<open>\<open>if (!peer) co_return\<close> after a suspension.\<close>

definition with_peer :: "conn_id \<Rightarrow> 't sync_world \<Rightarrow> (peer_info \<Rightarrow> 't sync_step) \<Rightarrow> 't sync_step" where
  "with_peer conn w k =
     (case find_peer conn (sw_peers w) of None \<Rightarrow> (Session_Over, w, Do_Return) | Some p \<Rightarrow> k p)"

definition route_sync_message :: "conn_id \<Rightarrow> transport_msg_type \<Rightarrow> bytes \<Rightarrow> peer_info list \<Rightarrow> peer_info list" where
  "route_sync_message conn type payload peers =
     update_peer conn (\<lambda>p. p\<lparr>pi_sync_inbox := pi_sync_inbox p @ [(type, payload)]\<rparr>) peers"

text \<open>\<open>recv_sync_msg\<close>: the segment before the wait (\<open>None\<close> when it has to wait), and the one after it,
  which the arrival of a message or the timeout starts.\<close>

definition pop_inbox :: "conn_id \<Rightarrow> peer_info list \<Rightarrow> (message option \<times> peer_info list)" where
  "pop_inbox conn peers =
     (case find_peer conn peers of
        None \<Rightarrow> (None, peers)
      | Some p \<Rightarrow>
          (case pi_sync_inbox p of
             [] \<Rightarrow> (None, peers)
           | m # ms \<Rightarrow> (Some m, update_peer conn (\<lambda>p. p\<lparr>pi_sync_inbox := ms\<rparr>) peers)))"

definition recv_sync_msg_begin ::
    "conn_id \<Rightarrow> peer_info list \<Rightarrow> (message option) option \<times> peer_info list" where
  "recv_sync_msg_begin conn peers =
     (case find_peer conn peers of
        None \<Rightarrow> (Some None, peers)
      | Some p \<Rightarrow>
          if pi_sync_inbox p \<noteq> []
          then map_prod Some id (pop_inbox conn peers)
          else (None, update_peer conn (\<lambda>p. p\<lparr>pi_sync_notify := True\<rparr>) peers))"

definition recv_sync_msg_resume :: "conn_id \<Rightarrow> peer_info list \<Rightarrow> message option \<times> peer_info list" where
  "recv_sync_msg_resume conn peers =
     (case find_peer conn peers of
        None \<Rightarrow> (None, peers)
      | Some _ \<Rightarrow> pop_inbox conn (update_peer conn (\<lambda>p. p\<lparr>pi_sync_notify := False\<rparr>) peers))"

section \<open>Cursors\<close>

datatype full_resync_reason = No_Resync | Periodic | Time_Gap

definition check_full_resync :: "sync_config \<Rightarrow> sync_cursor \<Rightarrow> u64 \<Rightarrow> full_resync_reason" where
  "check_full_resync cfg cursor now =
     (if sy_full_resync_interval cfg > 0 \<and> sc_round_count cursor mod sy_full_resync_interval cfg = 0 then Periodic
      else if sy_cursor_stale_seconds cfg > 0 \<and> sc_last_sync_timestamp cursor > 0 \<and>
              now - sc_last_sync_timestamp cursor > sy_cursor_stale_seconds cfg then Time_Gap
      else No_Resync)"

definition full_resync_needed ::
    "'t externals \<Rightarrow> io \<Rightarrow> sync_config \<Rightarrow> 't storage \<Rightarrow> bytes \<Rightarrow> u64 \<Rightarrow> namespace_info list \<Rightarrow> bool" where
  "full_resync_needed X env cfg st peer_hash now peer_namespaces \<longleftrightarrow>
     list_ex (\<lambda>pns. case get_sync_cursor X env st peer_hash (ni_namespace_id pns) of
         None \<Rightarrow> False
       | Some cursor \<Rightarrow> check_full_resync cfg cursor now \<noteq> No_Resync) peer_namespaces"

text \<open>The namespaces that need no blobs, and the storage without the cursors of peers that went back.\<close>

fun cursor_skips ::
    "'t externals \<Rightarrow> io \<Rightarrow> bytes \<Rightarrow> namespace_info list \<Rightarrow> bytes list \<times> 't storage \<Rightarrow> bytes list \<times> 't storage" where
  "cursor_skips X env peer_hash [] s = s"
| "cursor_skips X env peer_hash (pns # rest) (skip, st) =
     (case get_sync_cursor X env st peer_hash (ni_namespace_id pns) of
        None \<Rightarrow> cursor_skips X env peer_hash rest (skip, st)
      | Some cursor \<Rightarrow>
          if sc_seq_num cursor = ni_latest_seq_num pns
          then cursor_skips X env peer_hash rest (ni_namespace_id pns # skip, st)
          else if ni_latest_seq_num pns < sc_seq_num cursor
          then cursor_skips X env peer_hash rest
                 (skip, delete_sync_cursor X env peer_hash (ni_namespace_id pns) st)
          else cursor_skips X env peer_hash rest (skip, st))"

fun update_cursors ::
    "'t externals \<Rightarrow> io \<Rightarrow> bytes \<Rightarrow> u64 \<Rightarrow> namespace_info list \<Rightarrow> 't storage \<Rightarrow> 't storage" where
  "update_cursors X env peer_hash now [] st = st"
| "update_cursors X env peer_hash now (pns # rest) st =
     (let old_cursor = get_sync_cursor X env st peer_hash (ni_namespace_id pns);
          updated = \<lparr>sc_seq_num = ni_latest_seq_num pns,
                     sc_round_count = (case old_cursor of None \<Rightarrow> 0 | Some c \<Rightarrow> sc_round_count c) + 1,
                     sc_last_sync_timestamp = now\<rparr> in
      update_cursors X env peer_hash now rest (set_sync_cursor X env peer_hash (ni_namespace_id pns) updated st))"

section \<open>Namespaces and hashes\<close>

definition filter_namespaces ::
    "sync_config \<Rightarrow> peer_info option \<Rightarrow> namespace_info list \<Rightarrow> namespace_info list" where
  "filter_namespaces cfg peer namespaces =
     (let ours = (if sy_sync_namespaces cfg = [] then namespaces
                  else filter (\<lambda>ns. ni_namespace_id ns \<in> set (sy_sync_namespaces cfg)) namespaces) in
      case peer of
        None \<Rightarrow> ours
      | Some p \<Rightarrow>
          if pi_announced_namespaces p = [] then ours
          else filter (\<lambda>ns. ni_namespace_id ns \<in> set (pi_announced_namespaces p)) ours)"

definition should_skip_for_peer_cap :: "u64 \<Rightarrow> u64 \<Rightarrow> bool" where
  "should_skip_for_peer_cap blob_size advertised_blob_cap \<longleftrightarrow>
     advertised_blob_cap > 0 \<and> blob_size > advertised_blob_cap"

text \<open>The sorted snapshot of our hashes of a namespace, without blobs the peer would not take.\<close>

definition snapshot_hashes ::
    "'t externals \<Rightarrow> io \<Rightarrow> 't storage \<Rightarrow> peer_info option \<Rightarrow> bytes \<Rightarrow> bytes list" where
  "snapshot_hashes X env st peer ns =
     (let our_hashes = sort (collect_namespace_hashes X env st ns);
          cap = (case peer of None \<Rightarrow> 0 | Some p \<Rightarrow> pi_advertised_blob_cap p) in
      if cap > 0
      then filter (\<lambda>hash. case get_blob X env st ns hash of
               None \<Rightarrow> True
             | Some blob \<Rightarrow> \<not> should_skip_for_peer_cap (of_nat (length (bd_data blob))) cap) our_hashes
      else our_hashes)"

text \<open>\<open>missing_per_ns[ns] = missing\<close> in a map ordered by the namespace.\<close>

fun map_assign :: "bytes \<Rightarrow> 'a \<Rightarrow> (bytes \<times> 'a) list \<Rightarrow> (bytes \<times> 'a) list" where
  "map_assign k v [] = [(k, v)]"
| "map_assign k v ((k', v') # m) =
     (if k < k' then (k, v) # (k', v') # m
      else if k = k' then (k, v) # m
      else (k', v') # map_assign k v m)"

definition namespace_done :: "bytes \<Rightarrow> bytes list \<Rightarrow> bytes list \<Rightarrow> sync_locals \<Rightarrow> sync_locals" where
  "namespace_done ns our_hashes peer_items L =
     (let missing = filter (\<lambda>h. h \<notin> set our_hashes) peer_items;
          L1 = (if ns \<notin> set (sl_skip L) \<and> missing \<noteq> []
                then L\<lparr>sl_missing := map_assign ns missing (sl_missing L)\<rparr> else L) in
      L1\<lparr>sl_stats := (sl_stats L1)\<lparr>ss_namespaces_synced := ss_namespaces_synced (sl_stats L1) + 1\<rparr>\<rparr>)"

section \<open>One message of the reconciliation\<close>

datatype round_outcome =
  Reply_Ranges bytes "bytes list"
| Reply_Items bytes "bytes list"
| Round_Over "bytes list"
| Invalid_Ranges
| Round_Stuck

text \<open>Our items in the ranges for which the peer listed its own.\<close>

fun our_range_items :: "bytes list \<Rightarrow> bytes \<Rightarrow> range_entry list \<Rightarrow> bytes list" where
  "our_range_items our_hashes lower [] = []"
| "our_range_items our_hashes lower (r # rs) =
     (if re_mode r = Item_List
      then (let (b, e) = range_indices our_hashes lower (re_upper_bound r) in take (e - b) (drop b our_hashes))
      else []) @ our_range_items our_hashes (re_upper_bound r) rs"

definition reconcile_reply :: "bytes list \<Rightarrow> bytes \<Rightarrow> bytes list \<Rightarrow> message \<Rightarrow> round_outcome" where
  "reconcile_reply our_hashes ns peer_items msg =
     (let (type, payload) = msg in
      if type = ReconcileRanges then
        (case decode_reconcile_ranges payload of
           None \<Rightarrow> Invalid_Ranges
         | Some (_, ranges) \<Rightarrow>
             if ranges = [] then Round_Over peer_items
             else if \<not> list_ex (\<lambda>r. re_mode r = Fingerprint) ranges then
               Reply_Items (encode_reconcile_items ns (our_range_items our_hashes MIN_HASH ranges))
                 (peer_items @ listed_items ranges)
             else
               (case process_ranges our_hashes ranges of
                  None \<Rightarrow> Round_Stuck
                | Some result \<Rightarrow>
                    Reply_Ranges (encode_reconcile_ranges ns (rr_response_ranges result))
                      (peer_items @ rr_have_items result)))
      else if type = ReconcileItems then
        (case decode_reconcile_items payload of
           None \<Rightarrow> Round_Over peer_items
         | Some (_, items) \<Rightarrow> Round_Over (peer_items @ items))
      else Round_Over peer_items)"

section \<open>The exchange of blobs\<close>

function batches :: "'a list \<Rightarrow> 'a list list" where
  "batches xs = (if xs = [] then [] else take MAX_HASHES_PER_REQUEST xs # batches (drop MAX_HASHES_PER_REQUEST xs))"
  by pat_completeness auto

termination batches
  by (relation "measure length") (auto simp: MAX_HASHES_PER_REQUEST_def)

declare batches.simps [simp del]

definition request_batches :: "(bytes \<times> bytes list) list \<Rightarrow> (bytes \<times> bytes list) list" where
  "request_batches missing_per_ns = concat (map (\<lambda>(ns, missing). map (Pair ns) (batches missing)) missing_per_ns)"

text \<open>The next request, or the wait for what the peer still needs.\<close>

fun next_batch :: "sync_locals \<Rightarrow> (bytes \<times> bytes list) list \<Rightarrow> 't sync_world \<Rightarrow> 't sync_step" where
  "next_batch L [] w = (T_Remaining L, w, Do_Recv 2)"
| "next_batch L ((ns, batch) # rest) w =
     (T_Request_Sent L rest (of_nat (length batch)), w, Do_Send BlobRequest (encode_blob_request ns batch))"

definition await_transfer ::
    "sync_config \<Rightarrow> sync_locals \<Rightarrow> (bytes \<times> bytes list) list \<Rightarrow> u32 \<Rightarrow> u32 \<Rightarrow> 't sync_world \<Rightarrow> 't sync_step" where
  "await_transfer cfg L rest expected received w =
     (if received < expected then (T_Transfer L rest expected received, w, Do_Recv (sy_blob_transfer_timeout cfg))
      else next_batch L rest w)"

definition resume_context :: "sync_config \<Rightarrow> sync_locals \<Rightarrow> serve_context \<Rightarrow> 't sync_world \<Rightarrow> 't sync_step" where
  "resume_context cfg L ctx w =
     (case ctx of
        In_Transfer rest expected received \<Rightarrow> await_transfer cfg L rest expected received w
      | In_Remaining \<Rightarrow> (T_Remaining L, w, Do_Recv 2))"

text \<open>The requested blobs one by one; a missing or expired one is passed over.\<close>

fun serve_blobs ::
    "'t externals \<Rightarrow> io \<Rightarrow> sync_config \<Rightarrow> sync_locals \<Rightarrow> serve_context \<Rightarrow> bytes \<Rightarrow> bytes list \<Rightarrow> 't sync_world
      \<Rightarrow> 't sync_step" where
  "serve_blobs X env cfg L ctx ns [] w = resume_context cfg L ctx w"
| "serve_blobs X env cfg L ctx ns (hash # hashes) w =
     (case get_blob X env (sw_storage w) ns hash of
        None \<Rightarrow> serve_blobs X env cfg L ctx ns hashes w
      | Some blob \<Rightarrow>
          if is_blob_expired blob (io_now env) then serve_blobs X env cfg L ctx ns hashes w
          else (T_Serving L ctx ns hashes, w, Do_Send BlobTransfer (encode_single_blob_transfer X ns blob)))"

definition handle_blob_request ::
    "'t externals \<Rightarrow> io \<Rightarrow> sync_config \<Rightarrow> sync_locals \<Rightarrow> serve_context \<Rightarrow> peer_info \<Rightarrow> bytes \<Rightarrow> 't sync_world
      \<Rightarrow> 't sync_step" where
  "handle_blob_request X env cfg L ctx peer payload w =
     (if pi_peer_is_full peer then resume_context cfg L ctx w
      else let (ns, hashes) = decode_blob_request payload in serve_blobs X env cfg L ctx ns hashes w)"

definition add_stats :: "sync_stats \<Rightarrow> sync_locals \<Rightarrow> sync_locals" where
  "add_stats s L = L\<lparr>sl_stats := (sl_stats L)\<lparr>
     ss_blobs_received := ss_blobs_received (sl_stats L) + ss_blobs_received s,
     ss_storage_full_count := ss_storage_full_count (sl_stats L) + ss_storage_full_count s,
     ss_quota_exceeded_count := ss_quota_exceeded_count (sl_stats L) + ss_quota_exceeded_count s\<rparr>\<rparr>"

definition transfer_received ::
    "'t externals \<Rightarrow> io \<Rightarrow> sync_config \<Rightarrow> sync_locals \<Rightarrow> (bytes \<times> bytes list) list \<Rightarrow> u32 \<Rightarrow> u32 \<Rightarrow> peer_info
      \<Rightarrow> message option \<Rightarrow> 't sync_world \<Rightarrow> 't sync_step" where
  "transfer_received X env cfg L rest expected received peer msg w =
     (case msg of
        None \<Rightarrow> next_batch L rest w
      | Some (type, payload) \<Rightarrow>
          if type = BlobTransfer then
            (case decode_blob_transfer X payload of
               Inl _ \<Rightarrow> (Session_Over, w, Do_Raise)
             | Inr ns_blobs \<Rightarrow> (T_Ingest L rest expected received, w, Do_Ingest ns_blobs))
          else if type = BlobRequest then
            handle_blob_request X env cfg L (In_Transfer rest expected received) peer payload w
          else await_transfer cfg L rest expected received w)"

section \<open>The end of a session\<close>

definition start_pex :: "sync_config \<Rightarrow> conn_id \<Rightarrow> 't sync_world \<Rightarrow> 't sync_step" where
  "start_pex cfg conn w =
     (if sy_has_pex cfg then (T_Pex, w, Do_Pex)
      else release conn (w\<lparr>sw_metrics := (sw_metrics w)\<lparr>nm_syncs := nm_syncs (sw_metrics w) + 1\<rparr>\<rparr>))"

definition signal_quota :: "sync_config \<Rightarrow> conn_id \<Rightarrow> sync_locals \<Rightarrow> 't sync_world \<Rightarrow> 't sync_step" where
  "signal_quota cfg conn L w =
     (if ss_quota_exceeded_count (sl_stats L) > 0 then (T_Quota_Sent L, w, Do_Send QuotaExceeded [])
      else start_pex cfg conn w)"

definition finish_session ::
    "'t externals \<Rightarrow> io \<Rightarrow> sync_config \<Rightarrow> conn_id \<Rightarrow> sync_locals \<Rightarrow> 't sync_world \<Rightarrow> 't sync_step" where
  "finish_session X env cfg conn L w =
     (let w' = w\<lparr>sw_storage := update_cursors X env (sl_peer_hash L) (sl_now_ts L) (sl_peer_namespaces L)
                 (sw_storage w)\<rparr> in
      if ss_storage_full_count (sl_stats L) > 0 then (T_Full_Sent L, w', Do_Send StorageFull [])
      else signal_quota cfg conn L w')"

definition remaining_received ::
    "'t externals \<Rightarrow> io \<Rightarrow> sync_config \<Rightarrow> conn_id \<Rightarrow> sync_locals \<Rightarrow> peer_info \<Rightarrow> message option \<Rightarrow> 't sync_world
      \<Rightarrow> 't sync_step" where
  "remaining_received X env cfg conn L peer msg w =
     (case msg of
        Some (type, payload) \<Rightarrow>
          if type = BlobRequest then handle_blob_request X env cfg L In_Remaining peer payload w
          else finish_session X env cfg conn L w
      | None \<Rightarrow> finish_session X env cfg conn L w)"

section \<open>The initiator\<close>

definition list_our_namespaces ::
    "'t externals \<Rightarrow> io \<Rightarrow> sync_config \<Rightarrow> conn_id \<Rightarrow> 't sync_world \<Rightarrow> namespace_info list option" where
  "list_our_namespaces X env cfg conn w =
     map_option (filter_namespaces cfg (find_peer conn (sw_peers w))) (list_namespaces X env (sw_storage w))"

text \<open>\<open>run_sync_with_peer\<close> up to its first suspension.\<close>

definition run_sync_begin :: "conn_id \<Rightarrow> 't sync_world \<Rightarrow> 't sync_step" where
  "run_sync_begin conn w =
     (case find_peer conn (sw_peers w) of
        None \<Rightarrow> (Session_Over, w, Do_Return)
      | Some p \<Rightarrow>
          if pi_syncing p then (Session_Over, w, Do_Return)
          else (I_Requested,
                w\<lparr>sw_peers := update_peer conn (\<lambda>p. p\<lparr>pi_syncing := True, pi_sync_inbox := []\<rparr>) (sw_peers w)\<rparr>,
                Do_Send SyncRequest []))"

text \<open>The cursor decision of both sides, after the peer's namespace list.\<close>

definition cursor_decision ::
    "'t externals \<Rightarrow> io \<Rightarrow> sync_config \<Rightarrow> bytes \<Rightarrow> namespace_info list \<Rightarrow> 't sync_world \<Rightarrow> sync_locals \<times> 't sync_world" where
  "cursor_decision X env cfg peer_pubkey peer_namespaces w =
     (let peer_hash = sha3_256 X peer_pubkey; now_ts = io_now env;
          full = full_resync_needed X env cfg (sw_storage w) peer_hash now_ts peer_namespaces;
          (skip, st) = (if full then ([], sw_storage w)
                        else cursor_skips X env peer_hash peer_namespaces ([], sw_storage w));
          m = sw_metrics w in
      (\<lparr>sl_peer_namespaces = peer_namespaces, sl_peer_hash = peer_hash, sl_now_ts = now_ts, sl_skip = skip,
        sl_missing = [], sl_stats = no_stats\<rparr>,
       w\<lparr>sw_storage := st,
         sw_metrics := (if full then m\<lparr>nm_full_resyncs := nm_full_resyncs m + 1\<rparr> else m)\<rparr>))"

definition count_cursor :: "sync_locals \<Rightarrow> bytes \<Rightarrow> 't sync_world \<Rightarrow> 't sync_world" where
  "count_cursor L ns w =
     (let m = sw_metrics w in
      w\<lparr>sw_metrics := (if ns \<in> set (sl_skip L) then m\<lparr>nm_cursor_hits := nm_cursor_hits m + 1\<rparr>
                       else m\<lparr>nm_cursor_misses := nm_cursor_misses m + 1\<rparr>)\<rparr>)"

text \<open>The head of the loop over the namespaces.  It reads the byte budget through the pointer to
  the peer that the last segment left.\<close>

fun next_sync_namespace ::
    "'t externals \<Rightarrow> io \<Rightarrow> sync_config \<Rightarrow> conn_id \<Rightarrow> sync_locals \<Rightarrow> bytes list \<Rightarrow> 't sync_world \<Rightarrow> 't sync_step" where
  "next_sync_namespace X env cfg conn L [] w = (I_Complete_Sent L, w, Do_Send SyncComplete [])"
| "next_sync_namespace X env cfg conn L (ns # todo) w =
     (let peer = find_peer conn (sw_peers w) in
      if sy_rate_limit_bytes_per_sec cfg > 0 \<and> peer = None then (Session_Over, w, Do_Stuck)
      else if sy_rate_limit_bytes_per_sec cfg > 0 \<and> pi_bucket_tokens (the peer) = 0
      then (I_Complete_Sent L, w, Do_Send SyncComplete [])
      else if sy_sync_namespaces cfg \<noteq> [] \<and> ns \<notin> set (sy_sync_namespaces cfg)
      then next_sync_namespace X env cfg conn L todo w
      else if (case peer of None \<Rightarrow> False
               | Some p \<Rightarrow> pi_announced_namespaces p \<noteq> [] \<and> ns \<notin> set (pi_announced_namespaces p))
      then next_sync_namespace X env cfg conn L todo w
      else
        let our_hashes = snapshot_hashes X env (sw_storage w) peer ns;
            init = \<lparr>ri_version = RECONCILE_VERSION, ri_namespace_id = ns, ri_count = of_nat (length our_hashes),
                    ri_fingerprint = xor_fingerprint our_hashes 0 (length our_hashes)\<rparr> in
        (I_Init_Sent L todo ns our_hashes, count_cursor L ns w, Do_Send ReconcileInit (encode_reconcile_init init)))"

definition initiator_round ::
    "'t externals \<Rightarrow> io \<Rightarrow> sync_config \<Rightarrow> conn_id \<Rightarrow> sync_locals \<Rightarrow> bytes list \<Rightarrow> bytes \<Rightarrow> bytes list \<Rightarrow> bytes list
      \<Rightarrow> nat \<Rightarrow> message option \<Rightarrow> 't sync_world \<Rightarrow> 't sync_step" where
  "initiator_round X env cfg conn L todo ns our_hashes peer_items rounds msg w =
     (case msg of
        None \<Rightarrow> release conn w
      | Some m \<Rightarrow>
          (case reconcile_reply our_hashes ns peer_items m of
             Reply_Ranges payload items \<Rightarrow>
               (I_Ranges_Sent L todo ns our_hashes items rounds, w, Do_Send ReconcileRanges payload)
           | Reply_Items payload items \<Rightarrow>
               (I_Items_Sent L todo ns our_hashes items, w, Do_Send ReconcileItems payload)
           | Round_Over items \<Rightarrow> next_sync_namespace X env cfg conn (namespace_done ns our_hashes items L) todo w
           | Invalid_Ranges \<Rightarrow> release conn w
           | Round_Stuck \<Rightarrow> (Session_Over, w, Do_Stuck)))"

text \<open>The wait for the next round, or the end of the loop when the rounds are used up.\<close>

definition await_initiator_round ::
    "'t externals \<Rightarrow> io \<Rightarrow> sync_config \<Rightarrow> conn_id \<Rightarrow> sync_locals \<Rightarrow> bytes list \<Rightarrow> bytes \<Rightarrow> bytes list \<Rightarrow> bytes list
      \<Rightarrow> nat \<Rightarrow> 't sync_world \<Rightarrow> 't sync_step" where
  "await_initiator_round X env cfg conn L todo ns our_hashes peer_items rounds w =
     (case rounds of
        0 \<Rightarrow> next_sync_namespace X env cfg conn (namespace_done ns our_hashes peer_items L) todo w
      | Suc n \<Rightarrow> (I_Round L todo ns our_hashes peer_items n, w, Do_Recv (sy_sync_timeout cfg)))"

text \<open>From one suspension to the next.  An event that does not answer the last action does not occur;
  the model is stuck there.\<close>

definition tail_resume ::
    "'t externals \<Rightarrow> io \<Rightarrow> sync_config \<Rightarrow> conn_id \<Rightarrow> sync_pc \<Rightarrow> sync_event \<Rightarrow> 't sync_world \<Rightarrow> 't sync_step" where
  "tail_resume X env cfg conn pc ev w =
     (case (pc, ev) of
        (T_Request_Sent L rest expected, Sent ok) \<Rightarrow>
          if \<not> ok then release conn w
          else with_peer conn w (\<lambda>p. await_transfer cfg L rest expected 0 w)
      | (T_Transfer L rest expected received, Received msg) \<Rightarrow>
          with_peer conn w (\<lambda>p. transfer_received X env cfg L rest expected received p msg w)
      | (T_Ingest L rest expected received, Ingested s) \<Rightarrow>
          with_peer conn w (\<lambda>p. await_transfer cfg (add_stats s L) rest expected (received + 1) w)
      | (T_Serving L ctx ns hashes, Sent ok) \<Rightarrow>
          if \<not> ok then release conn w
          else with_peer conn w (\<lambda>p.
            let s = sl_stats L in
            serve_blobs X env cfg (L\<lparr>sl_stats := s\<lparr>ss_blobs_sent := ss_blobs_sent s + 1\<rparr>\<rparr>) ctx ns hashes w)
      | (T_Remaining L, Received msg) \<Rightarrow>
          with_peer conn w (\<lambda>p. remaining_received X env cfg conn L p msg w)
      | (T_Full_Sent L, Sent _) \<Rightarrow> signal_quota cfg conn L w
      | (T_Quota_Sent L, Sent _) \<Rightarrow>
          (let m = sw_metrics w in
           start_pex cfg conn (w\<lparr>sw_metrics := m\<lparr>nm_quota_rejections :=
             nm_quota_rejections m + ucast (ss_quota_exceeded_count (sl_stats L))\<rparr>\<rparr>))
      | (T_Pex, Pex_Done) \<Rightarrow>
          release conn (w\<lparr>sw_metrics := (sw_metrics w)\<lparr>nm_syncs := nm_syncs (sw_metrics w) + 1\<rparr>\<rparr>)
      | _ \<Rightarrow> (Session_Over, w, Do_Stuck))"

definition initiator_resume ::
    "'t externals \<Rightarrow> io \<Rightarrow> sync_config \<Rightarrow> conn_id \<Rightarrow> bytes \<Rightarrow> sync_pc \<Rightarrow> sync_event \<Rightarrow> 't sync_world \<Rightarrow> 't sync_step" where
  "initiator_resume X env cfg conn peer_pubkey pc ev w =
     (case (pc, ev) of
        (I_Requested, Sent ok) \<Rightarrow> if \<not> ok then release conn w else (I_Accept, w, Do_Recv 5)
      | (I_Accept, Received msg) \<Rightarrow>
          with_peer conn w (\<lambda>p.
            case msg of
              None \<Rightarrow> release conn w
            | Some (type, _) \<Rightarrow>
                if type \<noteq> SyncAccept then release conn w
                else (case list_our_namespaces X env cfg conn w of
                   None \<Rightarrow> (Session_Over, w, Do_Stuck)
                 | Some ours \<Rightarrow> (I_Namespaces_Sent ours, w, Do_Send NamespaceList (encode_namespace_list ours))))
      | (I_Namespaces_Sent ours, Sent ok) \<Rightarrow>
          if \<not> ok then release conn w else (I_Namespaces ours, w, Do_Recv (sy_sync_timeout cfg))
      | (I_Namespaces ours, Received msg) \<Rightarrow>
          with_peer conn w (\<lambda>p.
            case msg of
              None \<Rightarrow> release conn w
            | Some (type, payload) \<Rightarrow>
                if type \<noteq> NamespaceList then release conn w
                else (let theirs = decode_namespace_list payload;
                     (L, w') = cursor_decision X env cfg peer_pubkey theirs w;
                     all_namespaces = sort (remdups (map ni_namespace_id (ours @ theirs))) in
                 next_sync_namespace X env cfg conn L all_namespaces w'))
      | (I_Init_Sent L todo ns our_hashes, Sent ok) \<Rightarrow>
          if \<not> ok then release conn w
          else with_peer conn w (\<lambda>p.
            await_initiator_round X env cfg conn L todo ns our_hashes [] MAX_RECONCILE_ROUNDS w)
      | (I_Round L todo ns our_hashes items rounds, Received msg) \<Rightarrow>
          with_peer conn w (\<lambda>p. initiator_round X env cfg conn L todo ns our_hashes items rounds msg w)
      | (I_Ranges_Sent L todo ns our_hashes items rounds, Sent ok) \<Rightarrow>
          if \<not> ok then release conn w
          else await_initiator_round X env cfg conn L todo ns our_hashes items rounds w
      | (I_Items_Sent L todo ns our_hashes items, Sent ok) \<Rightarrow>
          if \<not> ok then release conn w
          else next_sync_namespace X env cfg conn (namespace_done ns our_hashes items L) todo w
      | (I_Complete_Sent L, Sent ok) \<Rightarrow>
          if \<not> ok then release conn w
          else with_peer conn w (\<lambda>p. next_batch L (request_batches (sl_missing L)) w)
      | _ \<Rightarrow> tail_resume X env cfg conn pc ev w)"

section \<open>The responder\<close>

definition handle_sync_begin :: "conn_id \<Rightarrow> 't sync_world \<Rightarrow> 't sync_step" where
  "handle_sync_begin conn w =
     (case find_peer conn (sw_peers w) of
        None \<Rightarrow> (Session_Over, w, Do_Return)
      | Some p \<Rightarrow>
          (R_Accept_Sent, w\<lparr>sw_peers := update_peer conn (\<lambda>p. p\<lparr>pi_syncing := True\<rparr>) (sw_peers w)\<rparr>,
           Do_Send SyncAccept []))"

text \<open>The head of the loop over the initiator's messages.\<close>

definition await_init ::
    "sync_config \<Rightarrow> conn_id \<Rightarrow> sync_locals \<Rightarrow> (bytes \<times> bytes list) list \<Rightarrow> peer_info \<Rightarrow> 't sync_world \<Rightarrow> 't sync_step" where
  "await_init cfg conn L cache peer w =
     (if sy_rate_limit_bytes_per_sec cfg > 0 \<and> pi_bucket_tokens peer = 0 then release conn w
      else (R_Idle L cache, w, Do_Recv (sy_sync_timeout cfg)))"

definition init_received ::
    "'t externals \<Rightarrow> io \<Rightarrow> sync_config \<Rightarrow> conn_id \<Rightarrow> sync_locals \<Rightarrow> (bytes \<times> bytes list) list \<Rightarrow> peer_info
      \<Rightarrow> bytes \<Rightarrow> 't sync_world \<Rightarrow> 't sync_step" where
  "init_received X env cfg conn L cache peer payload w =
     (case decode_reconcile_init payload of
        None \<Rightarrow> await_init cfg conn L cache peer w
      | Some init \<Rightarrow>
          let ns = ri_namespace_id init in
          if pi_announced_namespaces peer \<noteq> [] \<and> ns \<notin> set (pi_announced_namespaces peer)
          then await_init cfg conn L cache peer w
          else
            let cached = (case map_of cache ns of None \<Rightarrow> [] | Some hs \<Rightarrow> hs);
                our_hashes = (if cached = [] then snapshot_hashes X env (sw_storage w) (Some peer) ns else cached);
                cache' = map_assign ns our_hashes cache;
                w' = count_cursor L ns w;
                init_range = fingerprint_entry make_max_hash (ri_count init) (ri_fingerprint init) in
            case process_ranges our_hashes [init_range] of
              None \<Rightarrow> (Session_Over, w', Do_Stuck)
            | Some result \<Rightarrow>
                if rr_complete result
                then (R_Items_Sent L cache' ns our_hashes (rr_have_items result), w',
                      Do_Send ReconcileRanges (encode_reconcile_ranges ns []))
                else (R_Ranges_Sent L cache' ns our_hashes (rr_have_items result) MAX_RECONCILE_ROUNDS, w',
                      Do_Send ReconcileRanges (encode_reconcile_ranges ns (rr_response_ranges result))))"

definition end_responder_round ::
    "sync_config \<Rightarrow> conn_id \<Rightarrow> sync_locals \<Rightarrow> (bytes \<times> bytes list) list \<Rightarrow> bytes \<Rightarrow> bytes list \<Rightarrow> bytes list
      \<Rightarrow> peer_info \<Rightarrow> 't sync_world \<Rightarrow> 't sync_step" where
  "end_responder_round cfg conn L cache ns our_hashes peer_items peer w =
     await_init cfg conn (namespace_done ns our_hashes peer_items L) cache peer w"

definition responder_round ::
    "sync_config \<Rightarrow> conn_id \<Rightarrow> sync_locals \<Rightarrow> (bytes \<times> bytes list) list \<Rightarrow> bytes \<Rightarrow> bytes list \<Rightarrow> bytes list
      \<Rightarrow> nat \<Rightarrow> peer_info \<Rightarrow> message option \<Rightarrow> 't sync_world \<Rightarrow> 't sync_step" where
  "responder_round cfg conn L cache ns our_hashes peer_items rounds peer msg w =
     (case msg of
        None \<Rightarrow> release conn w
      | Some m \<Rightarrow>
          (case reconcile_reply our_hashes ns peer_items m of
             Reply_Ranges payload items \<Rightarrow>
               (R_Ranges_Sent L cache ns our_hashes items rounds, w, Do_Send ReconcileRanges payload)
           | Reply_Items payload items \<Rightarrow>
               (R_Items_Sent L cache ns our_hashes items, w, Do_Send ReconcileItems payload)
           | Round_Over items \<Rightarrow> end_responder_round cfg conn L cache ns our_hashes items peer w
           | Invalid_Ranges \<Rightarrow> end_responder_round cfg conn L cache ns our_hashes peer_items peer w
           | Round_Stuck \<Rightarrow> (Session_Over, w, Do_Stuck)))"

definition await_responder_round ::
    "sync_config \<Rightarrow> conn_id \<Rightarrow> sync_locals \<Rightarrow> (bytes \<times> bytes list) list \<Rightarrow> bytes \<Rightarrow> bytes list \<Rightarrow> bytes list
      \<Rightarrow> nat \<Rightarrow> peer_info \<Rightarrow> 't sync_world \<Rightarrow> 't sync_step" where
  "await_responder_round cfg conn L cache ns our_hashes peer_items rounds peer w =
     (case rounds of
        0 \<Rightarrow> end_responder_round cfg conn L cache ns our_hashes peer_items peer w
      | Suc n \<Rightarrow> (R_Round L cache ns our_hashes peer_items n, w, Do_Recv (sy_sync_timeout cfg)))"

definition responder_resume ::
    "'t externals \<Rightarrow> io \<Rightarrow> sync_config \<Rightarrow> conn_id \<Rightarrow> bytes \<Rightarrow> sync_pc \<Rightarrow> sync_event \<Rightarrow> 't sync_world \<Rightarrow> 't sync_step" where
  "responder_resume X env cfg conn peer_pubkey pc ev w =
     (case (pc, ev) of
        (R_Accept_Sent, Sent ok) \<Rightarrow>
          if \<not> ok then release conn w
          else with_peer conn w (\<lambda>p.
            case list_our_namespaces X env cfg conn w of
              None \<Rightarrow> (Session_Over, w, Do_Stuck)
            | Some ours \<Rightarrow> (R_Namespaces_Sent ours, w, Do_Send NamespaceList (encode_namespace_list ours)))
      | (R_Namespaces_Sent ours, Sent ok) \<Rightarrow>
          if \<not> ok then release conn w else (R_Namespaces ours, w, Do_Recv (sy_sync_timeout cfg))
      | (R_Namespaces ours, Received msg) \<Rightarrow>
          with_peer conn w (\<lambda>p.
            case msg of
              None \<Rightarrow> release conn w
            | Some (type, payload) \<Rightarrow>
                if type \<noteq> NamespaceList then release conn w
                else (let (L, w') = cursor_decision X env cfg peer_pubkey (decode_namespace_list payload) w in
                 await_init cfg conn L [] p w'))
      | (R_Idle L cache, Received msg) \<Rightarrow>
          with_peer conn w (\<lambda>p.
            case msg of
              None \<Rightarrow> release conn w
            | Some (type, payload) \<Rightarrow>
                if type = SyncComplete then next_batch L (request_batches (sl_missing L)) w
                else if type = ReconcileInit then init_received X env cfg conn L cache p payload w
                else await_init cfg conn L cache p w)
      | (R_Ranges_Sent L cache ns our_hashes items rounds, Sent ok) \<Rightarrow>
          if \<not> ok then release conn w
          else with_peer conn w (\<lambda>p. await_responder_round cfg conn L cache ns our_hashes items rounds p w)
      | (R_Round L cache ns our_hashes items rounds, Received msg) \<Rightarrow>
          with_peer conn w (\<lambda>p. responder_round cfg conn L cache ns our_hashes items rounds p msg w)
      | (R_Items_Sent L cache ns our_hashes items, Sent ok) \<Rightarrow>
          if \<not> ok then release conn w
          else with_peer conn w (\<lambda>p. end_responder_round cfg conn L cache ns our_hashes items p w)
      | _ \<Rightarrow> tail_resume X env cfg conn pc ev w)"

section \<open>Timers and maintenance\<close>

text \<open>The next connection of the snapshot that \<open>sync_all_peers\<close> starts a session with.\<close>

fun next_sync :: "(conn_id \<Rightarrow> bool) \<Rightarrow> conn_id list \<Rightarrow> peer_info list \<Rightarrow> (conn_id \<times> conn_id list) option" where
  "next_sync authenticated [] peers = None"
| "next_sync authenticated (conn # conns) peers =
     (case find_peer conn peers of
        None \<Rightarrow> next_sync authenticated conns peers
      | Some p \<Rightarrow>
          if authenticated conn \<and> \<not> pi_syncing p then Some (conn, conns)
          else next_sync authenticated conns peers)"

definition CURSOR_GRACE_PERIOD_MS :: u64 where "CURSOR_GRACE_PERIOD_MS = 5 * 60 * 1000"

text \<open>The clean-up at the end of a round of the sync timer: peers that have been gone for longer than
  the grace period lose their cursors.\<close>

fun sweep_disconnected ::
    "'t externals \<Rightarrow> io \<Rightarrow> u64 \<Rightarrow> (bytes \<times> u64) list \<Rightarrow> 't storage \<Rightarrow> (bytes \<times> u64) list \<times> 't storage" where
  "sweep_disconnected X env now_ms [] st = ([], st)"
| "sweep_disconnected X env now_ms ((hash, time) # ds) st =
     (if now_ms - time > CURSOR_GRACE_PERIOD_MS
      then sweep_disconnected X env now_ms ds (snd (delete_peer_cursors X env hash st))
      else (let (ds', st') = sweep_disconnected X env now_ms ds st in ((hash, time) # ds', st')))"

definition compact_cursors ::
    "'t externals \<Rightarrow> io \<Rightarrow> (conn_id \<Rightarrow> bytes) \<Rightarrow> u64 \<Rightarrow> (bytes \<times> u64) list \<Rightarrow> peer_info list \<Rightarrow> 't storage \<Rightarrow> 't storage" where
  "compact_cursors X env peer_pubkey now_ms disconnected peers st =
     (let connected = map (\<lambda>p. sha3_256 X (peer_pubkey (pi_connection p)))
            (filter (\<lambda>p. peer_pubkey (pi_connection p) \<noteq> []) peers) in
      snd (cleanup_stale_cursors X env
             (connected @ map fst (filter (\<lambda>(hash, time). now_ms - time \<le> CURSOR_GRACE_PERIOD_MS) disconnected)) st))"

record expiry_timer =
  et_next_expiry_target :: u64
  et_loop_running :: bool
  et_timer_set :: bool

datatype expiry_action = Expiry_Spawn | Expiry_Cancel | Expiry_Wait u64 | Expiry_Exit | Expiry_None

definition rearm_expiry_timer :: "u64 \<Rightarrow> expiry_timer \<Rightarrow> expiry_timer \<times> expiry_action" where
  "rearm_expiry_timer expiry_time t =
     (if et_next_expiry_target t = 0 \<or> expiry_time < et_next_expiry_target t
      then (t\<lparr>et_next_expiry_target := expiry_time\<rparr>,
            if et_loop_running t then (if et_timer_set t then Expiry_Cancel else Expiry_None) else Expiry_Spawn)
      else (t, Expiry_None))"

text \<open>The head of the loop of \<open>expiry_scan_loop\<close>, and the rest of its body after the wait.\<close>

definition expiry_scan_head :: "bool \<Rightarrow> u64 \<Rightarrow> expiry_timer \<Rightarrow> expiry_timer \<times> expiry_action" where
  "expiry_scan_head stopping now t =
     (if stopping \<or> et_next_expiry_target t = 0 then (t\<lparr>et_loop_running := False\<rparr>, Expiry_Exit)
      else (t\<lparr>et_loop_running := True, et_timer_set := True\<rparr>,
            Expiry_Wait (if et_next_expiry_target t > now then et_next_expiry_target t - now else 0)))"

definition expiry_scan_fired ::
    "'t externals \<Rightarrow> io \<Rightarrow> bool \<Rightarrow> bool \<Rightarrow> expiry_timer \<Rightarrow> 't storage \<Rightarrow> (expiry_timer \<times> expiry_action) \<times> 't storage" where
  "expiry_scan_fired X env stopping cancelled t st =
     (let t1 = t\<lparr>et_timer_set := False\<rparr> in
      if stopping then ((t1\<lparr>et_loop_running := False\<rparr>, Expiry_Exit), st)
      else if cancelled then (expiry_scan_head stopping (io_now env) t1, st)
      else
        let st' = snd (run_expiry_scan X env st) in
        case get_earliest_expiry X env st' of
          Some next \<Rightarrow> (expiry_scan_head stopping (io_now env) (t1\<lparr>et_next_expiry_target := next\<rparr>), st')
        | None \<Rightarrow> ((t1\<lparr>et_next_expiry_target := 0, et_loop_running := False\<rparr>, Expiry_Exit), st'))"

end
