(* ===== verification/Blob_Push.thy ===== *)
theory Blob_Push
  imports Peer_Messages Sync_Orchestrator Storage_Reach
begin

text \<open>
  \<open>db/peer/blob_push_manager.cpp\<close>: a node that has stored a blob notifies its peers, which fetch the
  blob unless they have it.  A handler returns the messages it sends; the test hook and the counter of
  skipped blobs are left out.  \<open>handle_blob_fetch_response\<close> is cut at the call of \<open>ingest\<close>.
\<close>

type_synonym sends = "(conn_id \<times> message) list"
type_synonym pending_fetches = "(bytes \<times> conn_id) list"

definition make_pending_key :: "bytes \<Rightarrow> bytes \<Rightarrow> bytes" where
  "make_pending_key namespace_id hash = namespace_id @ hash"

section \<open>Fan-out\<close>

text \<open>Who gets a \<open>BlobNotify\<close>, and who a \<open>Notification\<close>.\<close>

definition notify_peer :: "notification \<Rightarrow> peer_info \<Rightarrow> bool" where
  "notify_peer n peer \<longleftrightarrow>
     nt_source n \<noteq> Some (pi_connection peer) \<and> pi_role peer = Role_Peer \<and>
     (pi_announced_namespaces peer = [] \<or> nt_namespace_id n \<in> set (pi_announced_namespaces peer)) \<and>
     \<not> should_skip_for_peer_cap (ucast (nt_blob_size n)) (pi_advertised_blob_cap peer)"

definition notify_subscriber :: "notification \<Rightarrow> peer_info \<Rightarrow> bool" where
  "notify_subscriber n peer \<longleftrightarrow>
     nt_source n \<noteq> Some (pi_connection peer) \<and> nt_namespace_id n \<in> set (pi_subscribed_namespaces peer)"

text \<open>The messages, and the time to rearm the expiry timer with.\<close>

definition on_blob_ingested :: "u64 \<Rightarrow> notification \<Rightarrow> peer_info list \<Rightarrow> sends \<times> u64 option" where
  "on_blob_ingested now n peers =
     (if nt_expiry_time n > 0 \<and> nt_expiry_time n \<le> now then ([], None)
      else
        let payload = encode_notification (nt_namespace_id n) (nt_blob_hash n) (nt_seq_num n) (nt_blob_size n)
              (nt_is_tombstone n) in
        (map (\<lambda>p. (pi_connection p, (BlobNotify, payload))) (filter (notify_peer n) peers) @
         map (\<lambda>p. (pi_connection p, (Notification, payload))) (filter (notify_subscriber n) peers),
         if nt_expiry_time n > 0 then Some (nt_expiry_time n) else None))"

section \<open>Fetching\<close>

definition on_blob_notify ::
    "'t externals \<Rightarrow> io \<Rightarrow> 't storage \<Rightarrow> peer_info list \<Rightarrow> conn_id \<Rightarrow> bytes \<Rightarrow> pending_fetches \<Rightarrow> sends \<times> pending_fetches" where
  "on_blob_notify X env st peers conn payload pending =
     (if length payload \<noteq> 77 then ([], pending)
      else case find_peer conn peers of
        None \<Rightarrow> ([], pending)
      | Some peer \<Rightarrow>
          (case extract_namespace_hash payload of
             Inl _ \<Rightarrow> ([], pending)
           | Inr (ns, hash) \<Rightarrow>
               if pi_syncing peer then ([], pending)
               else if (case get_blob X env st ns hash of None \<Rightarrow> False
                        | Some existing \<Rightarrow> \<not> is_blob_expired existing (io_now env)) then ([], pending)
               else if map_of pending (make_pending_key ns hash) \<noteq> None then ([], pending)
               else ([(conn, (BlobFetch, encode_namespace_hash ns hash))],
                     (make_pending_key ns hash, conn) # pending)))"

definition handle_blob_fetch ::
    "'t externals \<Rightarrow> io \<Rightarrow> 't storage \<Rightarrow> peer_info list \<Rightarrow> conn_id \<Rightarrow> bytes \<Rightarrow> sends" where
  "handle_blob_fetch X env st peers conn payload =
     (if length payload \<noteq> 64 then []
      else case extract_namespace_hash payload of
        Inl _ \<Rightarrow> []
      | Inr (ns, hash) \<Rightarrow>
          (case get_blob X env st ns hash of
             None \<Rightarrow> [(conn, (BlobFetchResponse, [0x01]))]
           | Some blob \<Rightarrow>
               if is_blob_expired blob (io_now env) then [(conn, (BlobFetchResponse, [0x01]))]
               else if (case find_peer conn peers of None \<Rightarrow> False
                        | Some requester \<Rightarrow> should_skip_for_peer_cap (of_nat (length (bd_data blob)))
                            (pi_advertised_blob_cap requester))
               then [(conn, (BlobFetchResponse, [0x01]))]
               else [(conn, (BlobFetchResponse, [0x00] @ ns @ encode_blob X blob))]))"

datatype fetch_response = Response_Ignored | Response_Malformed | Response_Ingest bytes blob_data

definition fetch_response_begin :: "'t externals \<Rightarrow> bytes \<Rightarrow> fetch_response" where
  "fetch_response_begin X payload =
     (if payload = [] then Response_Ignored
      else if payload ! 0 = 0x01 then Response_Ignored
      else if payload ! 0 \<noteq> 0x00 \<or> length payload < 34 then Response_Ignored
      else case decode_blob X (drop 33 payload) of
        Inl _ \<Rightarrow> Response_Malformed
      | Inr blob \<Rightarrow> Response_Ingest (take 32 (drop 1 payload)) blob)"

text \<open>What follows \<open>ingest\<close>: the pending entry goes, whatever the outcome was.\<close>

definition fetch_response_done ::
    "'t externals \<Rightarrow> u64 \<Rightarrow> conn_id \<Rightarrow> bytes \<Rightarrow> blob_data \<Rightarrow> ingest_result \<Rightarrow> peer_info list
      \<Rightarrow> pending_fetches \<times> node_metrics \<Rightarrow> (sends \<times> u64 option) \<times> pending_fetches \<times> node_metrics" where
  "fetch_response_done X now conn ns blob result peers s =
     (let (pending, m) = s;
          pending' = filter (\<lambda>(k, _). k \<noteq> make_pending_key ns (blob_hash X (encode_blob X blob))) pending;
          m' = (if ir_accepted result \<and> ir_ack result \<noteq> None then m\<lparr>nm_ingests := nm_ingests m + 1\<rparr> else m) in
      (case ir_ack result of
         Some ack \<Rightarrow>
           if ir_accepted result \<and> ack_status ack = Ingest_Stored
           then on_blob_ingested now (stored_notification ns blob ack (Some conn)) peers
           else ([], None)
       | None \<Rightarrow> ([], None), pending', m'))"

definition clean_pending_fetches :: "conn_id \<Rightarrow> pending_fetches \<Rightarrow> pending_fetches" where
  "clean_pending_fetches conn pending = filter (\<lambda>(k, c). c \<noteq> conn) pending"

section \<open>Properties\<close>

lemma length_encode_notification:
  "length ns = 32 \<Longrightarrow> length h = 32 \<Longrightarrow> length (encode_notification ns h seq sz tomb) = 77"
  by (simp add: encode_notification_def encode_blob_ref_def wire_simps)

lemma extract_notification:
  "length ns = 32 \<Longrightarrow> length h = 32 \<Longrightarrow>
    extract_namespace_hash (encode_notification ns h seq sz tomb) = Inr (ns, h)"
  by (simp add: extract_namespace_hash_def encode_notification_def encode_blob_ref_def wire_simps)

text \<open>The messages of a fetch.\<close>

lemma fetch_dialogue:
  assumes X: "externals X" and b: "lookup X stA ns h = Some b" "\<not> is_blob_expired b (io_now envA)" "wf_blob b"
    and h: "h = blob_hash X (encode_blob X b)"
    and envs: "\<not> io_read_fault envA" "\<not> io_read_fault envB" and ns: "length ns = 32"
    and cap: "\<And>p. find_peer connB peersA = Some p \<Longrightarrow>
      \<not> should_skip_for_peer_cap (of_nat (length (bd_data b))) (pi_advertised_blob_cap p)"
    and B: "find_peer connA peersB = Some pA" "\<not> pi_syncing pA" "map_of pending (ns @ h) = None" "lookup X stB ns h = None"
  shows "on_blob_notify X envB stB peersB connA (encode_notification ns h seq sz tomb) pending =
      ([(connA, (BlobFetch, ns @ h))], (ns @ h, connA) # pending)"
    and "handle_blob_fetch X envA stA peersA connB (ns @ h) = [(connB, (BlobFetchResponse, [0x00] @ ns @ encode_blob X b))]"
    and "fetch_response_begin X ([0x00] @ ns @ encode_blob X b) = Response_Ingest ns b"
    and "fst (snd (fetch_response_done X now connA ns b result peersB ((ns @ h, connA) # pending, m))) = pending"
proof -
  have l: "length h = 32" using X h by (simp add: externals.length_blob_hash)
  show "on_blob_notify X envB stB peersB connA (encode_notification ns h seq sz tomb) pending =
      ([(connA, (BlobFetch, ns @ h))], (ns @ h, connA) # pending)"
    using B envs(2) by (simp add: on_blob_notify_def length_encode_notification [OF ns l] extract_notification [OF ns l]
        get_blob_lookup make_pending_key_def encode_namespace_hash_def)
  show "handle_blob_fetch X envA stA peersA connB (ns @ h) = [(connB, (BlobFetchResponse, [0x00] @ ns @ encode_blob X b))]"
    using ns l b envs(1) cap
    by (auto simp: handle_blob_fetch_def extract_namespace_hash_def get_blob_lookup split: option.split)
  show "fetch_response_begin X ([0x00] @ ns @ encode_blob X b) = Response_Ingest ns b"
    using ns externals.decode_encode_blob [OF X b(3)] externals.encode_blob_nonempty [OF X, of b]
    by (cases "encode_blob X b") (auto simp: fetch_response_begin_def)
  have "filter (\<lambda>(k, c). k \<noteq> ns @ h) pending = pending"
    using B(3) by (auto simp: filter_id_conv map_of_eq_None_iff image_iff)
  then show "fst (snd (fetch_response_done X now connA ns b result peersB ((ns @ h, connA) # pending, m))) = pending"
    by (simp add: fetch_response_done_def make_pending_key_def h)
qed

text \<open>C22: A notification brings the blob: if node \<open>A\<close> holds a live blob that fits the cap of its peer, and
  node \<open>B\<close> has no copy, no fetch for it under way and no sync with \<open>A\<close>, then on the notification \<open>B\<close>
  asks for the blob, \<open>A\<close> answers, \<open>B\<close> hands exactly this blob, with its namespace, to \<open>ingest\<close>, and
  afterwards no fetch is pending, whatever the result of \<open>ingest\<close> is.\<close>

theorem notification_delivers:
  assumes X: "externals X" and A: "storage_reach X stA"
    and b: "lookup X stA ns (blob_hash X (encode_blob X b)) = Some b" "\<not> is_blob_expired b (io_now envA)"
    and envs: "\<not> io_read_fault envA" "\<not> io_read_fault envB" and ns: "length ns = 32"
    and cap: "\<And>p. find_peer connB peersA = Some p \<Longrightarrow>
      \<not> should_skip_for_peer_cap (of_nat (length (bd_data b))) (pi_advertised_blob_cap p)"
    and B: "find_peer connA peersB = Some pA" "\<not> pi_syncing pA" "map_of pending (ns @ blob_hash X (encode_blob X b)) = None"
      "lookup X stB ns (blob_hash X (encode_blob X b)) = None"
  shows "\<exists>req resp.
    on_blob_notify X envB stB peersB connA (encode_notification ns (blob_hash X (encode_blob X b)) seq sz tomb) pending =
      ([(connA, (BlobFetch, req))], (ns @ blob_hash X (encode_blob X b), connA) # pending) \<and>
    handle_blob_fetch X envA stA peersA connB req = [(connB, (BlobFetchResponse, resp))] \<and>
    fetch_response_begin X resp = Response_Ingest ns b \<and>
    fst (snd (fetch_response_done X now connA ns b result peersB
      ((ns @ blob_hash X (encode_blob X b), connA) # pending, m))) = pending"
proof -
  have wf: "wf_blob b"
    using externals.lookup_wf [OF X _ b(1)] externals.reach_inv [OF X A] by (simp add: storage_inv_def)
  note d = fetch_dialogue [OF X b wf refl envs ns _ B, of connB peersA, OF cap]
  show ?thesis by (intro exI conjI) (rule d, assumption?)+
qed

end
