(* ===== verification/Sync_Session.thy ===== *)
theory Sync_Session
  imports Sync_Orchestrator Sync_Proof
begin

text \<open>
  Properties of one sync session (\<open>db/peer/sync_orchestrator.cpp\<close>), segment by segment: it gives
  the peer free when it returns, and it changes the storage only in the table of cursors, the blobs
  it hands to \<open>ingest\<close> apart.
\<close>

section \<open>What every segment keeps\<close>

text \<open>After a segment that returns, the peer, if it is still connected, is not marked as syncing.\<close>

definition frees :: "conn_id \<Rightarrow> 't sync_step \<Rightarrow> bool" where
  "frees conn s \<longleftrightarrow> (snd (snd s) = Do_Return \<longrightarrow>
     (\<forall>p. find_peer conn (sw_peers (fst (snd s))) = Some p \<longrightarrow> \<not> pi_syncing p))"

text \<open>A segment touches nothing but the cursors.\<close>

definition same_blobs :: "'t storage \<Rightarrow> 't storage \<Rightarrow> bool" where
  "same_blobs st st' \<longleftrightarrow> (\<exists>t. st' = st\<lparr>cursor_map := t\<rparr>)"

definition keeps :: "'t sync_world \<Rightarrow> 't sync_step \<Rightarrow> bool" where
  "keeps w s \<longleftrightarrow> same_blobs (sw_storage w) (sw_storage (fst (snd s)))"

named_theorems session_rules

lemma same_blobs_refl [simp]: "same_blobs st st"
  unfolding same_blobs_def by (rule exI [of _ "cursor_map st"]) simp

lemma same_blobs_cursors [simp]: "same_blobs st (st\<lparr>cursor_map := t\<rparr>)"
  by (auto simp: same_blobs_def)

lemma same_blobs_trans: "same_blobs a b \<Longrightarrow> same_blobs b c \<Longrightarrow> same_blobs a c"
  by (auto simp: same_blobs_def)

lemma frees_release [session_rules, simp]: "frees conn (release conn w)"
  by (auto simp: frees_def release_def find_update_peer)

lemma keeps_release [session_rules, simp]: "sw_storage w' = sw_storage w \<Longrightarrow> keeps w (release conn w')"
  by (simp add: keeps_def release_def)

lemma frees_other [simp]: "a \<noteq> Do_Return \<Longrightarrow> frees conn (pc, w, a)"
  by (simp add: frees_def)

lemma keeps_same [simp]: "keeps w (pc, w', a) \<longleftrightarrow> same_blobs (sw_storage w) (sw_storage w')"
  by (simp add: keeps_def)

lemma frees_with_peer [simp]: "(\<And>p. find_peer conn (sw_peers w) = Some p \<Longrightarrow> frees conn (k p)) \<Longrightarrow> frees conn (with_peer conn w k)"
  by (cases "find_peer conn (sw_peers w)") (simp_all add: with_peer_def frees_def)

lemma keeps_with_peer [simp]: "(\<And>p. keeps w (k p)) \<Longrightarrow> keeps w (with_peer conn w k)"
  by (simp add: with_peer_def split: option.splits)

lemma tail_frees [simp]:
  "frees conn (next_batch L bs w)" "frees conn (await_transfer cfg L bs e r w)"
  "frees conn (resume_context cfg L ctx w)"
proof -
  show n: "frees conn (next_batch L bs w)" for bs by (cases bs) auto
  show "frees conn (await_transfer cfg L bs e r w)" for bs e r by (simp add: await_transfer_def n)
  then show "frees conn (resume_context cfg L ctx w)" by (simp add: resume_context_def split: serve_context.split)
qed

lemma tail_keeps [simp]:
  "keeps w (next_batch L bs w)" "keeps w (await_transfer cfg L bs e r w)"
  "keeps w (resume_context cfg L ctx w)"
proof -
  show n: "keeps w (next_batch L bs w)" for bs by (cases bs) auto
  show "keeps w (await_transfer cfg L bs e r w)" for bs e r by (simp add: await_transfer_def n)
  then show "keeps w (resume_context cfg L ctx w)" by (simp add: resume_context_def split: serve_context.split)
qed

lemma serve_ok [simp]:
  "frees conn (serve_blobs X env cfg L ctx ns hs w)" "keeps w (serve_blobs X env cfg L ctx ns hs w)"
  by (induction hs) (auto split: option.splits)

lemma handle_request_ok [simp]:
  "frees conn (handle_blob_request X env cfg L ctx p payload w)"
  "keeps w (handle_blob_request X env cfg L ctx p payload w)"
  by (auto simp: handle_blob_request_def split: prod.splits)

lemma transfer_received_ok [simp]:
  "frees conn (transfer_received X env cfg L bs e r p msg w)"
  "keeps w (transfer_received X env cfg L bs e r p msg w)"
  by (auto simp: transfer_received_def split: option.splits sum.splits prod.splits)

lemma start_pex_ok [simp]:
  "frees conn (start_pex cfg conn w)" "sw_storage w' = sw_storage w \<Longrightarrow> keeps w (start_pex cfg conn w')"
  by (auto simp: start_pex_def)

lemma signal_quota_ok [simp]:
  "frees conn (signal_quota cfg conn L w)"
  "same_blobs (sw_storage w) (sw_storage w') \<Longrightarrow> keeps w (signal_quota cfg conn L w')"
  by (simp add: signal_quota_def) (auto simp: signal_quota_def start_pex_def keeps_def release_def)

lemma update_cursors_same: "same_blobs st (update_cursors X env h now ns st)"
proof (induction ns arbitrary: st)
  case (Cons n ns)
  have "same_blobs st (set_sync_cursor X env h m c st)" for m c
    by (simp add: set_sync_cursor_def)
  then show ?case using Cons.IH same_blobs_trans by (fastforce simp: Let_def)
qed simp

lemma finish_session_ok [simp]:
  "frees conn (finish_session X env cfg conn L w)" "keeps w (finish_session X env cfg conn L w)"
  by (auto simp: finish_session_def Let_def update_cursors_same)

lemma remaining_ok [simp]:
  "frees conn (remaining_received X env cfg conn L p msg w)"
  "keeps w (remaining_received X env cfg conn L p msg w)"
  by (auto simp: remaining_received_def split: option.splits prod.splits)

lemma tail_resume_ok [simp]:
  "frees conn (tail_resume X env cfg conn pc ev w)" "keeps w (tail_resume X env cfg conn pc ev w)"
  unfolding tail_resume_def by (auto split: sync_pc.split sync_event.split simp: Let_def)

lemma cursor_skips_same: "same_blobs st (snd (cursor_skips X env h ns (skip, st)))"
proof (induction ns arbitrary: skip st)
  case (Cons n ns)
  have "same_blobs st (delete_sync_cursor X env h m st)" for m
    by (simp add: delete_sync_cursor_def)
  then show ?case using Cons.IH same_blobs_trans by (fastforce split: option.splits)
qed simp

lemma cursor_decision_same: "cursor_decision X env cfg pk ns w = (L, w') \<Longrightarrow> same_blobs (sw_storage w) (sw_storage w')"
  "cursor_decision X env cfg pk ns w = (L, w') \<Longrightarrow> sw_peers w' = sw_peers w"
  using cursor_skips_same [of "sw_storage w" X env "sha3_256 X pk" ns "[]"]
  by (auto simp: cursor_decision_def Let_def split: prod.splits if_splits)

lemma count_cursor_same [simp]:
  "sw_storage (count_cursor L ns w) = sw_storage w" "sw_peers (count_cursor L ns w) = sw_peers w"
  by (simp_all add: count_cursor_def Let_def)

lemma keeps_trans: "same_blobs (sw_storage w) (sw_storage w') \<Longrightarrow> keeps w' s \<Longrightarrow> keeps w s"
  unfolding keeps_def by (rule same_blobs_trans)

lemma next_sync_namespace_ok [simp]:
  "frees conn (next_sync_namespace X env cfg conn L todo w)" "keeps w (next_sync_namespace X env cfg conn L todo w)"
  by (induction todo) (auto simp: Let_def split: option.splits)

lemma initiator_round_ok [simp]:
  "frees conn (initiator_round X env cfg conn L todo ns hs items n msg w)"
  "keeps w (initiator_round X env cfg conn L todo ns hs items n msg w)"
  "frees conn (await_initiator_round X env cfg conn L todo ns hs items n w)"
  "keeps w (await_initiator_round X env cfg conn L todo ns hs items n w)"
  by (auto simp: initiator_round_def await_initiator_round_def split: option.split round_outcome.split nat.split)

lemma initiator_resume_ok:
  "frees conn (initiator_resume X env cfg conn pk pc ev w)" "keeps w (initiator_resume X env cfg conn pk pc ev w)"
  unfolding initiator_resume_def
  by (auto split: sync_pc.split sync_event.split option.split prod.split simp: Let_def
      intro!: keeps_with_peer intro: keeps_trans [OF cursor_decision_same(1)])

lemma await_init_ok [simp]:
  "frees conn (await_init cfg conn L cache p w)"
  "same_blobs (sw_storage w) (sw_storage w') \<Longrightarrow> keeps w (await_init cfg conn L cache p w')"
  by (auto simp: await_init_def intro: keeps_trans)

lemma responder_round_ok [simp]:
  "frees conn (responder_round cfg conn L cache ns hs items n p msg w)"
  "keeps w (responder_round cfg conn L cache ns hs items n p msg w)"
  "frees conn (await_responder_round cfg conn L cache ns hs items n p w)"
  "keeps w (await_responder_round cfg conn L cache ns hs items n p w)"
  "frees conn (end_responder_round cfg conn L cache ns hs items p w)"
  "keeps w (end_responder_round cfg conn L cache ns hs items p w)"
  by (auto simp: responder_round_def await_responder_round_def end_responder_round_def
      split: option.split round_outcome.split nat.split)

lemma init_received_ok [simp]:
  "frees conn (init_received X env cfg conn L cache p payload w)"
  "keeps w (init_received X env cfg conn L cache p payload w)"
  by (auto simp: init_received_def Let_def split: option.split)

lemma responder_resume_ok:
  "frees conn (responder_resume X env cfg conn pk pc ev w)" "keeps w (responder_resume X env cfg conn pk pc ev w)"
  unfolding responder_resume_def
  by (auto split: sync_pc.split sync_event.split option.split prod.split simp: Let_def
      intro!: keeps_with_peer intro: await_init_ok(2) [OF cursor_decision_same(1)])


section \<open>Sessions\<close>

text \<open>A session is a sequence of segments of one of the two coroutines, each started in a world that
  other tasks may have changed.\<close>

definition session_resume ::
    "bool \<Rightarrow> 't externals \<Rightarrow> io \<Rightarrow> sync_config \<Rightarrow> conn_id \<Rightarrow> bytes \<Rightarrow> sync_pc \<Rightarrow> sync_event \<Rightarrow> 't sync_world \<Rightarrow> 't sync_step" where
  "session_resume initiator X env cfg conn pk pc ev w =
     (if initiator then initiator_resume X env cfg conn pk pc ev w else responder_resume X env cfg conn pk pc ev w)"

text \<open>C19: When a sync session returns, on any of its error paths and whatever the peer sent, the peer
  is no longer marked as syncing (or is no longer connected), so that the next session can start.\<close>

theorem session_frees_peer:
  assumes "session_resume initiator X env cfg conn pk pc ev w = (pc', w', Do_Return)"
    and "find_peer conn (sw_peers w') = Some p"
  shows "\<not> pi_syncing p"
proof -
  have "frees conn (session_resume initiator X env cfg conn pk pc ev w)"
    by (simp add: session_resume_def initiator_resume_ok responder_resume_ok)
  with assms show ?thesis by (simp add: frees_def)
qed


section \<open>Cursors and full resyncs\<close>


end
