(* ===== verification/Sync_Transfer.thy ===== *)
theory Sync_Transfer
  imports Sync_Session
begin

text \<open>
  The exchange of blobs of a sync session (\<open>db/peer/sync_orchestrator.cpp\<close>): the batches of requests
  cover what is missing, and the answers to a request bring the live blobs it names.
\<close>

section \<open>Announcements\<close>


section \<open>Requests\<close>

lemma batches_cover:
  "concat (batches xs) = xs" "\<forall>b \<in> set (batches xs). b \<noteq> [] \<and> length b \<le> MAX_HASHES_PER_REQUEST"
proof -
  have "concat (batches xs) = xs \<and> (\<forall>b \<in> set (batches xs). b \<noteq> [] \<and> length b \<le> MAX_HASHES_PER_REQUEST)"
  proof (induction xs rule: batches.induct)
    case (1 xs)
    then show ?case
      by (cases "xs = []") (auto simp: batches.simps [of xs] batches.simps [of "[]"] MAX_HASHES_PER_REQUEST_def)
  qed
  then show "concat (batches xs) = xs" "\<forall>b \<in> set (batches xs). b \<noteq> [] \<and> length b \<le> MAX_HASHES_PER_REQUEST"
    by auto
qed

text \<open>The requests of the blob exchange name exactly the missing hashes, in their order, and no
  request is empty or names more than 64.\<close>

theorem request_batches_exact:
  "concat (map (\<lambda>(ns, batch). map (Pair ns) batch) (request_batches missing)) =
     concat (map (\<lambda>(ns, hashes). map (Pair ns) hashes) missing) \<and>
   list_all (\<lambda>(ns, batch). 0 < length batch \<and> length batch \<le> 64) (request_batches missing)"
proof
  show "concat (map (\<lambda>(ns, batch). map (Pair ns) batch) (request_batches missing)) =
      concat (map (\<lambda>(ns, hashes). map (Pair ns) hashes) missing)"
  proof (induction missing)
    case (Cons m missing)
    obtain ns hs where m: "m = (ns, hs)" by (cases m)
    have "concat (map (\<lambda>(ns, batch). map (Pair ns) batch) (map (Pair ns) (batches hs))) = map (Pair ns) (concat (batches hs))"
      by (simp add: comp_def map_concat)
    with Cons batches_cover(1) [of hs] show ?case by (simp add: request_batches_def m)
  qed (simp add: request_batches_def)
  show "list_all (\<lambda>(ns, batch). 0 < length batch \<and> length batch \<le> 64) (request_batches missing)"
    using batches_cover(2) by (auto simp: request_batches_def list_all_iff MAX_HASHES_PER_REQUEST_def)
qed

section \<open>Answers\<close>

text \<open>The payloads of the transfers that a segment and its successors send, each send succeeding.\<close>

fun served_payloads ::
    "'t externals \<Rightarrow> io \<Rightarrow> sync_config \<Rightarrow> conn_id \<Rightarrow> nat \<Rightarrow> 't sync_step \<Rightarrow> bytes list" where
  "served_payloads X env cfg conn 0 s = []"
| "served_payloads X env cfg conn (Suc n) (pc, w, a) =
     (case (pc, a) of
        (T_Serving L ctx ns hashes, Do_Send type payload) \<Rightarrow>
          payload # served_payloads X env cfg conn n (tail_resume X env cfg conn pc (Sent True) w)
      | _ \<Rightarrow> [])"

lemma served_context:
  "served_payloads X env cfg conn n (resume_context cfg L ctx w) = []"
proof -
  have "served_payloads X env cfg conn n (next_batch L bs w) = []" for bs
    by (cases n; cases bs) (auto split: prod.splits)
  then show ?thesis
    by (cases n) (auto simp: resume_context_def await_transfer_def split: serve_context.split)
qed

lemma served_eq:
  assumes "find_peer conn (sw_peers w) = Some p" and "length hs \<le> n"
  shows "served_payloads X env cfg conn n (serve_blobs X env cfg L ctx ns hs w) =
    map (encode_single_blob_transfer X ns) (get_blobs_by_hashes X env (sw_storage w) ns hs)"
  using assms(2)
proof (induction hs arbitrary: n L)
  case Nil
  then show ?case by (simp add: served_context)
next
  case (Cons h hs)
  then obtain m where n: "n = Suc m" "length hs \<le> m" by (cases n) auto
  show ?case
  proof (cases "get_blob X env (sw_storage w) ns h")
    case None
    then show ?thesis using Cons.IH [of n L] n by simp
  next
    case (Some b)
    show ?thesis
    proof (cases "is_blob_expired b (io_now env)")
      case True
      then show ?thesis using Some Cons.IH [of n L] n by simp
    next
      case False
      then show ?thesis
        using Some Cons.IH [OF n(2)] assms(1) by (simp add: n(1) tail_resume_def with_peer_def Let_def)
    qed
  qed
qed

text \<open>C18: A peer that asks for blobs gets exactly the live ones among them: the messages sent in
  answer to an encoded request decode, one blob each, to the blobs of the storage that have the
  requested hashes and are not expired.\<close>

theorem requested_blobs_served:
  assumes "externals X" and "storage_reach X (sw_storage w)"
    and "find_peer conn (sw_peers w) = Some p" and "\<not> pi_peer_is_full p"
    and "length ns = 32" and "list_all (\<lambda>h. length h = 32) hashes" and "length hashes < 2 ^ 32"
    and "list_all (\<lambda>b. length (encode_blob X b) < 2 ^ 32) (get_blobs_by_hashes X env (sw_storage w) ns hashes)"
  shows "map (decode_blob_transfer X) (served_payloads X env cfg conn (length hashes)
      (handle_blob_request X env cfg L ctx p (encode_blob_request ns hashes) w)) =
    map (\<lambda>b. Inr [\<lparr>nb_target_namespace = ns, nb_blob = b\<rparr>]) (get_blobs_by_hashes X env (sw_storage w) ns hashes)"
proof -
  have wf: "wf_storage X (sw_storage w)"
    using externals.reach_inv [OF assms(1,2)] by (simp add: storage_inv_def)
  have "transferable X \<lparr>nb_target_namespace = ns, nb_blob = b\<rparr>"
    if "b \<in> set (get_blobs_by_hashes X env (sw_storage w) ns hashes)" for b
    using that assms(5,8) externals.lookup_wf [OF assms(1) wf]
    by (auto simp: transferable_def list_all_iff get_blobs_by_hashes_eq get_blob_lookup split: option.splits if_splits)
  then show ?thesis
    using blob_request_round_trip [OF assms(5-7), of "[]"] assms(4) externals.single_transfer_decodes [OF assms(1)]
      served_eq [OF assms(3) order_refl]
    by (simp add: handle_blob_request_def)
qed

end
