(* ===== verification/Sync_Exchange.thy ===== *)
theory Sync_Exchange
  imports Sync_Orchestrator Reconcile_Wire
begin

text \<open>
  The reconciliation of one namespace between the initiator and the responder of a sync session,
  message by message over the wire formats: both sides end with exactly the hashes they lack.
\<close>

section \<open>The dialogue\<close>

text \<open>The messages of one namespace, from the one in flight on: the side whose turn it is answers with
  \<open>reconcile_reply\<close>.  The result is what each side collected; \<open>None\<close> stands for an invalid message,
  undefined behaviour, or a dialogue that is not over after \<open>n\<close> messages.\<close>

fun dialogue ::
    "bytes list \<Rightarrow> bytes list \<Rightarrow> bytes \<Rightarrow> nat \<Rightarrow> bool \<Rightarrow> message \<Rightarrow> bytes list \<times> bytes list
      \<Rightarrow> (bytes list \<times> bytes list) option" where
  "dialogue a b ns 0 initiator_turn msg items = None"
| "dialogue a b ns (Suc n) initiator_turn msg (items_i, items_r) =
     (let set_items = (\<lambda>x. if initiator_turn then (x, items_r) else (items_i, x)) in
      case reconcile_reply (if initiator_turn then a else b) ns (if initiator_turn then items_i else items_r) msg of
        Reply_Ranges payload x \<Rightarrow> dialogue a b ns n (\<not> initiator_turn) (ReconcileRanges, payload) (set_items x)
      | Reply_Items payload x \<Rightarrow> dialogue a b ns n (\<not> initiator_turn) (ReconcileItems, payload) (set_items x)
      | Round_Over x \<Rightarrow> Some (set_items x)
      | Invalid_Ranges \<Rightarrow> None
      | Round_Stuck \<Rightarrow> None)"

text \<open>The whole exchange: the initiator's \<open>ReconcileInit\<close>, the responder's first answer, the dialogue,
  and the hashes each side then asks for.\<close>

definition reconcile_namespace :: "bytes list \<Rightarrow> bytes list \<Rightarrow> bytes \<Rightarrow> (bytes list \<times> bytes list) option" where
  "reconcile_namespace a b ns =
     (case decode_reconcile_init (encode_reconcile_init
         \<lparr>ri_version = RECONCILE_VERSION, ri_namespace_id = ns, ri_count = of_nat (length a),
          ri_fingerprint = xor_fingerprint a 0 (length a)\<rparr>) of
        None \<Rightarrow> None
      | Some init \<Rightarrow>
          (case process_ranges b [fingerprint_entry make_max_hash (ri_count init) (ri_fingerprint init)] of
             None \<Rightarrow> None
           | Some result \<Rightarrow>
               map_option (\<lambda>(items_i, items_r). (filter (\<lambda>h. h \<notin> set a) items_i, filter (\<lambda>h. h \<notin> set b) items_r))
                 (dialogue a b ns MAX_RECONCILE_ROUNDS True
                   (ReconcileRanges, encode_reconcile_ranges ns (if rr_complete result then [] else rr_response_ranges result))
                   ([], rr_have_items result))))"

section \<open>Sizes of messages\<close>

lemma chain_less: "chain S P l rs u \<Longrightarrow> sorted_wrt (<) (l # map re_upper_bound rs)"
proof (induction rs arbitrary: l)
  case (Cons r rs)
  have "l < re_upper_bound r" using Cons.prems by (simp add: entry_ok_def)
  with Cons show ?case by fastforce
qed simp

lemma chain_le: "chain S P l rs u \<Longrightarrow> l \<le> u"
  by (induction rs arbitrary: l) (force simp: entry_ok_def)+

lemma chain_length:
  assumes "chain S P l rs u" and "re_upper_bound ` set rs \<subseteq> U" and "finite U"
  shows "length rs \<le> card U"
proof -
  have "distinct (map re_upper_bound rs)"
    using chain_less [OF assms(1)] strict_sorted_iff by auto
  then have "length rs = card (re_upper_bound ` set rs)" by (metis distinct_card length_map list.set_map)
  also have "\<dots> \<le> card U" using assms(2,3) by (rule card_mono [rotated])
  finally show ?thesis .
qed

lemma in_rng_add:
  assumes "l \<le> m" "m \<le> u"
  shows "length (in_rng l u xs) = length (in_rng l m xs) + length (in_rng m u xs)"
  using assms by (induction xs) (auto simp: in_rng_def)

lemma chain_listed_length: "chain S P l rs u \<Longrightarrow> length (listed_items rs) \<le> length (in_rng l u S)"
proof (induction rs arbitrary: l)
  case (Cons r rs)
  let ?m = "re_upper_bound r"
  have c: "chain S P ?m rs u" "l \<le> ?m" using Cons.prems by (auto simp: entry_ok_def)
  have "length (if re_mode r = Item_List then re_items r else []) \<le> length (in_rng l ?m S)"
    using Cons.prems by (auto simp: entry_ok_def Let_def)
  with Cons.IH [OF c(1)] in_rng_add [OF c(2) chain_le [OF c(1)], of S]
  show ?case unfolding listed_items_Cons by simp
qed (simp add: listed_items_def)

lemma encode_ranges_length:
  assumes "list_all canonical_entry rs"
  shows "length (concat (map encode_range rs)) \<le> 69 * length rs + 32 * length (listed_items rs)"
  using assms
proof (induction rs)
  case (Cons r rs)
  have "length (encode_range r) \<le> 69 + 32 * length (if re_mode r = Item_List then re_items r else [])"
    using Cons.prems records_all(2) [of "re_items r"]
    by (cases "re_mode r") (auto simp: canonical_entry_def encode_range_def wire_simps)
  with Cons show ?case unfolding listed_items_Cons by simp
qed (simp add: listed_items_def)

text \<open>A message with ranges as they occur in an exchange decodes to these ranges.\<close>

lemma ranges_decode:
  assumes ch: "chain S P l rs u" and can: "list_all canonical_entry rs" and up: "re_upper_bound ` set rs \<subseteq> U"
    and U: "finite U" "card U < 2 ^ 32" and ns: "length ns = 32" and S: "length S < 2 ^ 32"
  shows "decode_reconcile_ranges (encode_reconcile_ranges ns rs) = Some (ns, rs)"
proof -
  have n: "length rs < 2 ^ 32" using chain_length [OF ch up U(1)] U(2) by linarith
  have "length (listed_items rs) \<le> length S"
    using chain_listed_length [OF ch] length_filter_le [of _ S] unfolding in_rng_def by (rule le_trans)
  then have "length (concat (map encode_range rs)) < 2 ^ 63"
    using encode_ranges_length [OF can] n S by simp
  then show ?thesis using canonical_round_trip [OF can ns n, of "[]"] ns
    by (simp add: encode_reconcile_ranges_def wire_simps)
qed

section \<open>The end of the dialogue\<close>

lemma our_range_items_Cons:
  assumes "sorted_wrt (<) P" "l \<le> re_upper_bound r"
  shows "our_range_items P l (r # rs) =
    (if re_mode r = Item_List then in_rng l (re_upper_bound r) P else []) @ our_range_items P (re_upper_bound r) rs"
  using lower_bound_ix_slice(2) [OF assms] by (simp add: range_indices_def)

lemma skip_same:
  assumes "entry_ok S P l r" "re_mode r = Skip" "l \<le> x" "x < re_upper_bound r"
  shows "x \<in> set S \<longleftrightarrow> x \<in> set P"
  using assms in_rng_iff [of x l "re_upper_bound r" S] in_rng_iff [of x l "re_upper_bound r" P]
  by (simp add: entry_ok_def Let_def)

lemma our_range_items_sub:
  assumes "sorted_wrt (<) P" "chain S P l rs u"
  shows "set (our_range_items P l rs) \<subseteq> set P \<and> length (our_range_items P l rs) \<le> length (in_rng l u P)"
  using assms(2)
proof (induction rs arbitrary: l)
  case (Cons r rs)
  let ?m = "re_upper_bound r"
  have c: "chain S P ?m rs u" "l \<le> ?m" using Cons.prems by (auto simp: entry_ok_def)
  show ?case
    using Cons.IH [OF c(1)] in_rng_add [OF c(2) chain_le [OF c(1)], of P]
    unfolding our_range_items_Cons [OF assms(1) c(2)] by (auto simp: in_rng_def)
qed simp

lemma differences_listed:
  assumes "sorted_wrt (<) P" "chain S P l rs u" "no_fingerprints rs" "l \<le> x" "x < u"
  shows "(x \<in> set P - set S \<longrightarrow> x \<in> set (our_range_items P l rs)) \<and>
    (x \<in> set S - set P \<longrightarrow> x \<in> set (listed_items rs))"
  using assms(2-4)
proof (induction rs arbitrary: l)
  case Nil
  then show ?case using assms(5) by auto
next
  case (Cons r rs)
  let ?m = "re_upper_bound r"
  have c: "chain S P ?m rs u" "l \<le> ?m" "entry_ok S P l r" and nf: "no_fingerprints rs" "re_mode r \<noteq> Fingerprint"
    using Cons.prems by (auto simp: entry_ok_def no_fingerprints_def)
  show ?case
  proof (cases "x < ?m")
    case False
    with Cons.IH [OF c(1) nf(1)] show ?thesis
      unfolding our_range_items_Cons [OF assms(1) c(2)] listed_items_Cons by auto
  next
    case True
    show ?thesis
    proof (cases "re_mode r")
      case Skip
      then show ?thesis using skip_same [OF c(3) _ Cons.prems(3) True] by simp
    next
      case Item_List
      then show ?thesis
        unfolding our_range_items_Cons [OF assms(1) c(2)] listed_items_Cons
        using c(3) True Cons.prems(3) by (auto simp: in_rng_iff entry_ok_def Let_def)
    qed (use nf(2) in simp)
  qed
qed

text \<open>The parties, what they have collected, and what is in flight.\<close>

definition party :: "bytes list \<Rightarrow> bool" where
  "party xs \<longleftrightarrow> hashes_ok xs \<and> list_all (\<lambda>h. length h = 32) xs \<and> length xs < 2 ^ 31"

definition in_flight :: "bytes list \<Rightarrow> bytes list \<Rightarrow> bytes list \<Rightarrow> bytes list \<Rightarrow> range_entry list \<Rightarrow> bool" where
  "in_flight a b S P rs \<longleftrightarrow> chain S P MIN_HASH rs make_max_hash \<and> list_all canonical_entry rs \<and>
     re_upper_bound ` set rs \<subseteq> insert make_max_hash (set a \<union> set b)"

lemma uppers_bound:
  assumes "party a" "party b"
  defines "U \<equiv> insert make_max_hash (set a \<union> set b)"
  shows "finite U" "card U < 2 ^ 32" "\<forall>h \<in> U. length h = 32"
proof -
  show "finite U" by (simp add: U_def)
  have "card U \<le> Suc (card (set a \<union> set b))" unfolding U_def by (rule card_insert_le_m1) simp_all
  also have "\<dots> \<le> Suc (card (set a) + card (set b))" by (simp add: card_Un_le)
  also have "\<dots> \<le> Suc (length a + length b)" using card_length [of a] card_length [of b] by simp
  finally show "card U < 2 ^ 32" using assms(1,2) by (simp add: party_def)
  show "\<forall>h \<in> U. length h = 32" using assms by (auto simp: party_def list_all_iff U_def make_max_hash_def)
qed

lemma in_flight_decode:
  assumes "party a" "party b" "in_flight a b S P rs" "length ns = 32" "S \<in> {a, b}"
  shows "decode_reconcile_ranges (encode_reconcile_ranges ns rs) = Some (ns, rs)"
  using ranges_decode [of S P MIN_HASH rs make_max_hash] uppers_bound [OF assms(1,2)] assms
  by (auto simp: in_flight_def party_def)

section \<open>One answer\<close>

lemma process_range_uppers:
  assumes "process_range P l r = Some (resp, items, settled)"
  shows "re_upper_bound ` set resp \<subseteq> insert (re_upper_bound r) (set P)"
proof -
  let ?b = "lower_bound_ix P l" and ?e = "lower_bound_ix P (re_upper_bound r)"
  have mid: "P ! (?b + (?e - ?b) div 2) \<in> set P"
    if "?b \<le> ?e" "\<not> (of_nat ?e - of_nat ?b :: u32) \<le> SPLIT_THRESHOLD"
  proof -
    have "?b \<noteq> ?e" using that(2) by (metis diff_self word_zero_le)
    then have "?b + (?e - ?b) div 2 < length P" using that(1) lower_bound_ix_le [of P "re_upper_bound r"] by linarith
    then show ?thesis by simp
  qed
  show ?thesis
    using assms mid unfolding process_range_def range_indices_def
    by (auto simp: Let_def skip_entry_def fingerprint_entry_def items_entry_def split: range_mode.splits if_splits)
qed

lemma process_loop_uppers:
  assumes "process_loop P l rs = Some res"
  shows "re_upper_bound ` set (rr_response_ranges res) \<subseteq> re_upper_bound ` set rs \<union> set P"
  using assms
proof (induction rs arbitrary: l res)
  case (Cons r rs)
  then obtain resp items settled res' where
    p: "process_range P l r = Some (resp, items, settled)" "process_loop P (re_upper_bound r) rs = Some res'"
    "rr_response_ranges res = resp @ rr_response_ranges res'"
    by (auto split: option.splits)
  show ?case using Cons.IH [OF p(2)] process_range_uppers [OF p(1)] p(3) by auto
qed auto

text \<open>The roles of a turn: \<open>P\<close> answers what \<open>S\<close> sent.\<close>

definition roles :: "bytes list \<Rightarrow> bytes list \<Rightarrow> bytes list \<Rightarrow> bytes list \<Rightarrow> bool" where
  "roles a b S P \<longleftrightarrow> S = a \<and> P = b \<or> S = b \<and> P = a"

lemma reply_items:
  assumes ab: "party a" "party b" and ro: "roles a b S P" and fl: "in_flight a b S P rs"
    and nf: "no_fingerprints rs" and ns: "length ns = 32"
  shows "reconcile_reply P ns x (ReconcileRanges, encode_reconcile_ranges ns rs) =
      Reply_Items (encode_reconcile_items ns (our_range_items P MIN_HASH rs)) (x @ listed_items rs)"
    and "reconcile_reply S ns y (ReconcileItems, encode_reconcile_items ns (our_range_items P MIN_HASH rs)) =
      Round_Over (y @ our_range_items P MIN_HASH rs)"
proof -
  have S: "S \<in> {a, b}" and pP: "party P" using ro ab by (auto simp: roles_def)
  have ch: "chain S P MIN_HASH rs make_max_hash" using fl by (simp add: in_flight_def)
  have "rs \<noteq> []" using ch hash_space by auto
  then show "reconcile_reply P ns x (ReconcileRanges, encode_reconcile_ranges ns rs) =
      Reply_Items (encode_reconcile_items ns (our_range_items P MIN_HASH rs)) (x @ listed_items rs)"
    using in_flight_decode [OF ab fl ns S] nf
    by (auto simp: reconcile_reply_def no_fingerprints_def list_ex_iff list_all_iff)
  have sorted: "sorted_wrt (<) P" using pP by (simp add: party_def hashes_ok_def small_set_def)
  note o = our_range_items_sub [OF sorted ch]
  have "length (our_range_items P MIN_HASH rs) < 2 ^ 32"
  proof -
    have "length (in_rng MIN_HASH make_max_hash P) \<le> length P" by (simp add: in_rng_def)
    then show ?thesis using o pP by (simp add: party_def)
  qed
  moreover have "list_all (\<lambda>h. length h = 32) (our_range_items P MIN_HASH rs)"
    using o pP by (auto simp: party_def list_all_iff)
  ultimately show "reconcile_reply S ns y (ReconcileItems, encode_reconcile_items ns (our_range_items P MIN_HASH rs)) =
      Round_Over (y @ our_range_items P MIN_HASH rs)"
    using reconcile_items_round_trip [OF ns, of "our_range_items P MIN_HASH rs" "[]"]
    by (simp add: reconcile_reply_def)
qed

lemma answer_in_flight:
  assumes ab: "party a" "party b" and ro: "roles a b S P" and fl: "in_flight a b S P rs"
    and res: "process_loop P MIN_HASH rs = Some res" "chain P S MIN_HASH (rr_response_ranges res) make_max_hash"
  shows "in_flight a b P S (rr_response_ranges res)"
proof -
  have pP: "party P" using ro ab by (auto simp: roles_def)
  have U: "re_upper_bound ` set rs \<subseteq> insert make_max_hash (set a \<union> set b)" using fl by (simp add: in_flight_def)
  have "list_all (\<lambda>r. length (re_upper_bound r) = 32) rs"
    using U uppers_bound(3) [OF ab] by (auto simp: list_all_iff)
  then have "list_all canonical_entry (rr_response_ranges res)"
    using process_loop_canonical [OF _ _ _ res(1)] pP by (auto simp: party_def)
  moreover have "set P \<subseteq> set a \<union> set b" using ro by (auto simp: roles_def)
  ultimately show ?thesis
    using res(2) process_loop_uppers [OF res(1)] U by (auto simp: in_flight_def)
qed

lemma reply_ranges:
  assumes ab: "party a" "party b" and nc: "no_collision a b" and ro: "roles a b S P"
    and fl: "in_flight a b S P rs" and fp: "\<not> no_fingerprints rs" and ns: "length ns = 32"
  obtains rs' where
    "reconcile_reply P ns x (ReconcileRanges, encode_reconcile_ranges ns rs) =
      Reply_Ranges (encode_reconcile_ranges ns rs') (x @ listed_items rs)"
    "in_flight a b P S rs'"
    "\<forall>k. fp_bound P k MIN_HASH rs \<longrightarrow> fp_bound P (k - k div 2) MIN_HASH rs'"
    "\<forall>k. fp_bound S k MIN_HASH rs \<longrightarrow> fp_bound S k MIN_HASH rs'"
    "fp_bound P 16 MIN_HASH rs \<longrightarrow> no_fingerprints rs'"
proof -
  have S: "S \<in> {a, b}" and sm: "small_set P" "small_set S" and nc': "no_collision S P"
    using ro ab nc no_collision_sym by (auto simp: roles_def party_def hashes_ok_def)
  have ch: "chain S P MIN_HASH rs make_max_hash" using fl by (simp add: in_flight_def)
  obtain res where r: "process_loop P MIN_HASH rs = Some res"
    "chain P S MIN_HASH (rr_response_ranges res) make_max_hash"
    "rr_have_items res = listed_items rs" "no_fingerprints rs \<longrightarrow> rr_complete res"
    "rr_complete res \<longrightarrow> settles S P MIN_HASH make_max_hash rs (rr_response_ranges res)"
    "\<forall>k. fp_bound P k MIN_HASH rs \<longrightarrow> fp_bound P (k - k div 2) MIN_HASH (rr_response_ranges res)"
    "\<forall>k. fp_bound S k MIN_HASH rs \<longrightarrow> fp_bound S k MIN_HASH (rr_response_ranges res)"
    "fp_bound P 16 MIN_HASH rs \<longrightarrow> no_fingerprints (rr_response_ranges res)"
    by (rule process_loop_ok [OF sm nc' ch])
  have "rs \<noteq> []" using ch hash_space by auto
  then have "reconcile_reply P ns x (ReconcileRanges, encode_reconcile_ranges ns rs) =
      Reply_Ranges (encode_reconcile_ranges ns (rr_response_ranges res)) (x @ listed_items rs)"
    using in_flight_decode [OF ab fl ns S] fp r(1,3)
    by (auto simp: reconcile_reply_def process_ranges_def no_fingerprints_def list_ex_iff list_all_iff)
  then show thesis using that answer_in_flight [OF ab ro fl r(1,2)] r(6-8) by blast
qed

section \<open>The whole dialogue\<close>

definition ranges_msg :: "bytes \<Rightarrow> range_entry list \<Rightarrow> message" where
  "ranges_msg ns rs = (ReconcileRanges, encode_reconcile_ranges ns rs)"

lemma dialogue_ends:
  assumes ab: "party a" "party b" and P: "P = (if t then a else b)" and S: "S = (if t then b else a)"
    and fl: "in_flight a b S P rs" and nf: "no_fingerprints rs" and ns: "length ns = 32"
    and it: "sound_items b a items"
  shows "\<exists>items'. dialogue a b ns (Suc (Suc n)) t (ranges_msg ns rs) items = Some items' \<and> exact_items b a items'"
proof -
  have ro: "roles a b S P" by (simp add: roles_def P S)
  have pP: "party P" by (simp add: P ab)
  have sorted: "sorted_wrt (<) P" using pP by (simp add: party_def hashes_ok_def small_set_def)
  have ch: "chain S P MIN_HASH rs make_max_hash" using fl by (simp add: in_flight_def)
  note r = reply_items [OF ab ro fl nf ns]
  have inside: "MIN_HASH \<le> x \<and> x < make_max_hash" if "x \<in> set a \<union> set b" for x
    using ab that by (auto simp: party_def hashes_ok_def)
  have d: "set P - set S \<subseteq> set (our_range_items P MIN_HASH rs)" "set S - set P \<subseteq> set (listed_items rs)"
    using differences_listed [OF sorted ch nf] inside by (auto simp: P S split: if_splits)
  have sub: "set (our_range_items P MIN_HASH rs) \<subseteq> set P" "set (listed_items rs) \<subseteq> set S"
    using our_range_items_sub [OF sorted ch] chain_listed [OF ch] by auto
  obtain xi xr where i: "items = (xi, xr)" by (cases items)
  show ?thesis
  proof (cases t)
    case True
    then have "dialogue a b ns (Suc (Suc n)) t (ranges_msg ns rs) items =
        Some (xi @ listed_items rs, xr @ our_range_items P MIN_HASH rs)"
      using r by (simp add: ranges_msg_def i P S)
    with True it d sub show ?thesis by (auto simp: exact_items_def sound_items_def i P S)
  next
    case False
    then have "dialogue a b ns (Suc (Suc n)) t (ranges_msg ns rs) items =
        Some (xi @ our_range_items P MIN_HASH rs, xr @ listed_items rs)"
      using r by (simp add: ranges_msg_def i P S)
    with False it d sub show ?thesis by (auto simp: exact_items_def sound_items_def i P S)
  qed
qed

lemma dialogue_continues:
  assumes ab: "party a" "party b" and nc: "no_collision a b"
    and P: "P = (if t then a else b)" and S: "S = (if t then b else a)"
    and fl: "in_flight a b S P rs" and fp: "\<not> no_fingerprints rs" and ns: "length ns = 32"
    and it: "sound_items b a items"
  obtains rs' items' where
    "\<forall>n. dialogue a b ns (Suc n) t (ranges_msg ns rs) items = dialogue a b ns n (\<not> t) (ranges_msg ns rs') items'"
    "in_flight a b P S rs'" "sound_items b a items'"
    "\<forall>k. fp_bound P k MIN_HASH rs \<longrightarrow> fp_bound P (k - k div 2) MIN_HASH rs'"
    "\<forall>k. fp_bound S k MIN_HASH rs \<longrightarrow> fp_bound S k MIN_HASH rs'"
    "fp_bound P 16 MIN_HASH rs \<longrightarrow> no_fingerprints rs'"
proof -
  have ro: "roles a b S P" by (simp add: roles_def P S)
  obtain xi xr where i: "items = (xi, xr)" by (cases items)
  obtain rs' where r: "reconcile_reply P ns (if t then xi else xr) (ReconcileRanges, encode_reconcile_ranges ns rs) =
      Reply_Ranges (encode_reconcile_ranges ns rs') ((if t then xi else xr) @ listed_items rs)"
    "in_flight a b P S rs'"
    "\<forall>k. fp_bound P k MIN_HASH rs \<longrightarrow> fp_bound P (k - k div 2) MIN_HASH rs'"
    "\<forall>k. fp_bound S k MIN_HASH rs \<longrightarrow> fp_bound S k MIN_HASH rs'"
    "fp_bound P 16 MIN_HASH rs \<longrightarrow> no_fingerprints rs'"
    by (rule reply_ranges [OF ab nc ro fl fp ns])
  let ?items = "if t then (xi @ listed_items rs, xr) else (xi, xr @ listed_items rs)"
  have "set (listed_items rs) \<subseteq> set S" using chain_listed fl unfolding in_flight_def by blast
  then have "sound_items b a ?items" using it by (auto simp: sound_items_def i S split: if_splits)
  moreover have "\<forall>n. dialogue a b ns (Suc n) t (ranges_msg ns rs) items = dialogue a b ns n (\<not> t) (ranges_msg ns rs') ?items"
    using r(1) by (auto simp: ranges_msg_def i P)
  ultimately show thesis using that r(2-5) by blast
qed

text \<open>A turn of the initiator and one of the responder.\<close>

lemma two_turns:
  assumes ab: "party a" "party b" and nc: "no_collision a b" and ns: "length ns = 32"
    and fl: "in_flight a b b a rs" and it: "sound_items b a items"
  obtains (finish) items' where
    "dialogue a b ns (Suc (Suc (Suc n))) True (ranges_msg ns rs) items = Some items'" "exact_items b a items'"
  | (continue) rs' items' where
    "dialogue a b ns (Suc (Suc (Suc n))) True (ranges_msg ns rs) items = dialogue a b ns (Suc n) True (ranges_msg ns rs') items'"
    "in_flight a b b a rs'" "sound_items b a items'"
    "\<forall>k. fp_bound b k MIN_HASH rs \<longrightarrow> fp_bound b (k - k div 2) MIN_HASH rs'"
    "fp_bound b 16 MIN_HASH rs \<longrightarrow> no_fingerprints rs'"
proof (cases "no_fingerprints rs")
  case True
  then show thesis using dialogue_ends [where t = True and n = "Suc n", OF ab refl refl _ _ ns it, of rs] fl finish by auto
next
  case False
  have b: "(if True then b else a) = b" "(if True then a else b) = a" by simp_all
  from dialogue_continues [where t = True, OF ab nc refl refl _ False ns it, unfolded b, OF fl]
  obtain rs1 items1 where c: "\<forall>n. dialogue a b ns (Suc n) True (ranges_msg ns rs) items = dialogue a b ns n (\<not> True) (ranges_msg ns rs1) items1"
    "in_flight a b a b rs1" "sound_items b a items1" "\<forall>k. fp_bound b k MIN_HASH rs \<longrightarrow> fp_bound b k MIN_HASH rs1"
    by metis
  show thesis
  proof (cases "no_fingerprints rs1")
    case True
    then show thesis using dialogue_ends [where t = False and n = n, OF ab refl refl _ _ ns c(3), of rs1] c finish by auto
  next
    case False
    have b': "(if False then b else a) = a" "(if False then a else b) = b" by simp_all
    from dialogue_continues [where t = False, OF ab nc refl refl _ False ns c(3), unfolded b', OF c(2)]
    obtain rs2 items2 where d: "\<forall>n. dialogue a b ns (Suc n) False (ranges_msg ns rs1) items1 = dialogue a b ns n (\<not> False) (ranges_msg ns rs2) items2"
      "in_flight a b b a rs2" "sound_items b a items2"
      "\<forall>k. fp_bound b k MIN_HASH rs1 \<longrightarrow> fp_bound b (k - k div 2) MIN_HASH rs2"
      "fp_bound b 16 MIN_HASH rs1 \<longrightarrow> no_fingerprints rs2"
      by metis
    show thesis by (rule continue [of rs2 items2]) (use c d in auto)
  qed
qed

lemma dialogue_exact:
  assumes ab: "party a" "party b" and nc: "no_collision a b" and ns: "length ns = 32"
    and "in_flight a b b a rs" "sound_items b a items" "fp_bound b (16 * 2 ^ j) MIN_HASH rs"
  shows "\<exists>items'. dialogue a b ns (2 * j + 4 + m) True (ranges_msg ns rs) items = Some items' \<and> exact_items b a items'"
  using assms(5-7)
proof (induction j arbitrary: rs items)
  case (0 rs items)
  show ?case
  proof (cases rule: two_turns [where n = "Suc m", OF ab nc ns 0(1,2)])
    case (2 rs' items')
    then have "no_fingerprints rs'" using 0(3) by simp
    with dialogue_ends [where t = True and n = m, OF ab refl refl _ _ ns 2(3), of rs'] 2(1,2)
    show ?thesis by (simp add: numeral_eq_Suc)
  qed (auto simp: numeral_eq_Suc)
next
  case (Suc j rs items)
  show ?case
  proof (cases rule: two_turns [where n = "2 * j + 3 + m", OF ab nc ns Suc.prems(1,2)])
    case (2 rs' items')
    have "fp_bound b (16 * 2 ^ j) MIN_HASH rs'" using 2(4) [rule_format, OF Suc.prems(3)] by simp
    with Suc.IH [OF 2(2,3)] 2(1) show ?thesis by (simp add: algebra_simps)
  qed (auto simp: algebra_simps)
qed

lemma first_message_decoded:
  assumes "length ns = 32" and "length (xor_fingerprint a 0 (length a)) = 32"
  shows "decode_reconcile_init (encode_reconcile_init
      \<lparr>ri_version = RECONCILE_VERSION, ri_namespace_id = ns, ri_count = of_nat (length a),
       ri_fingerprint = xor_fingerprint a 0 (length a)\<rparr>) =
    Some \<lparr>ri_version = RECONCILE_VERSION, ri_namespace_id = ns, ri_count = of_nat (length a),
       ri_fingerprint = xor_fingerprint a 0 (length a)\<rparr>"
  using reconcile_init_round_trip [of _ "[]"] assms by simp

lemma dialogue_settled:
  assumes "length ns = 32"
  shows "dialogue a b ns 64 True (ranges_msg ns []) ([], []) = Some ([], [])"
proof -
  have "dialogue a b ns (Suc n) True (ranges_msg ns []) ([], []) = Some ([], [])" for n
    using canonical_round_trip [of "[]" ns "[]"] assms
    by (simp add: ranges_msg_def reconcile_reply_def encode_reconcile_ranges_def wire_simps)
  from this [of 63] show ?thesis by simp
qed


end
