(* ===== verification/Sync_Example.thy ===== *)
theory Sync_Example
  imports Sync_Transfer Sync_Exchange Storage_Example
begin

text \<open>
  The properties of the sync theories on concrete nodes: one with a single blob, on the reference
  libraries, and two with small sets of hashes.  Two theorems record what happens to a session on
  a malformed or a missing transfer.
\<close>

definition ex_early :: io where "ex_early = ex_io\<lparr>io_now := 105\<rparr>"

definition ex_peer :: peer_info where
  "ex_peer = \<lparr>pi_connection = 0, pi_address = ''peer'', pi_is_bootstrap = False, pi_role = Role_Peer,
     pi_strike_count = 0, pi_syncing = True, pi_advertised_blob_cap = 0, pi_sync_inbox = [],
     pi_sync_notify = False, pi_subscribed_namespaces = [], pi_peer_is_full = False, pi_bucket_tokens = 0,
     pi_bucket_last_refill = 0, pi_last_sync_initiated = 0, pi_last_message_time = 0,
     pi_announced_namespaces = [], pi_announce_received = True, pi_announce_notify = False\<rparr>"

definition ex_metrics :: node_metrics where
  "ex_metrics = \<lparr>nm_ingests = 0, nm_rejections = 0, nm_syncs = 0, nm_rate_limited = 0,
     nm_peers_connected_total = 0, nm_peers_disconnected_total = 0, nm_cursor_hits = 0, nm_cursor_misses = 0,
     nm_full_resyncs = 0, nm_quota_rejections = 0, nm_sync_rejections = 0, nm_error_responses = 0\<rparr>"

definition ex_world :: "ref_table sync_world" where
  "ex_world = \<lparr>sw_storage = ex_st1, sw_peers = [ex_peer], sw_metrics = ex_metrics\<rparr>"

definition ex_sync_config :: sync_config where
  "ex_sync_config = \<lparr>sy_sync_namespaces = [], sy_rate_limit_bytes_per_sec = 0, sy_full_resync_interval = 10,
     sy_cursor_stale_seconds = 3600, sy_blob_transfer_timeout = 600, sy_sync_timeout = 30,
     sy_sync_cooldown_seconds = 0, sy_max_sync_sessions = 1, sy_safety_net_interval_seconds = 600,
     sy_compaction_interval_hours = 6, sy_has_pex = False\<rparr>"

definition ex_locals :: sync_locals where
  "ex_locals = \<lparr>sl_peer_namespaces = [\<lparr>ni_namespace_id = ex_ns, ni_latest_seq_num = 9\<rparr>],
     sl_peer_hash = replicate 32 3, sl_now_ts = 105, sl_skip = [], sl_missing = [], sl_stats = no_stats\<rparr>"

lemma ex_world_peer [simp]: "find_peer 0 (sw_peers ex_world) = Some ex_peer"
  by (simp add: ex_world_def ex_peer_def)

lemma ex_early_simps [simp]: "\<not> io_read_fault ex_early" "\<not> io_commit_fault ex_early" "io_now ex_early = 105"
  by (simp_all add: ex_early_def ex_io_def)

lemma ex_blob_live: "\<not> is_blob_expired ex_blob 105"
  by (simp add: is_blob_expired_def ex_blob_def saturating_expiry_def)

section \<open>Applications\<close>


lemma ex_failed_send:
  "session_resume True ref_externals ex_early ex_sync_config 0 [] I_Requested (Sent False) ex_world =
     (Session_Over, ex_world\<lparr>sw_peers := [ex_peer\<lparr>pi_syncing := False\<rparr>]\<rparr>, Do_Return)"
  by (simp add: session_resume_def initiator_resume_def release_def ex_world_def ex_peer_def)

theorem session_frees_peer_witness:
  "pi_syncing ex_peer \<and> \<not> pi_syncing (ex_peer\<lparr>pi_syncing := False\<rparr>) \<and>
   find_peer 0 (sw_peers (fst (snd (session_resume True ref_externals ex_early ex_sync_config 0 [] I_Requested
     (Sent False) ex_world)))) = Some (ex_peer\<lparr>pi_syncing := False\<rparr>)"
  using session_frees_peer [OF ex_failed_send, of "ex_peer\<lparr>pi_syncing := False\<rparr>"]
  by (simp add: ex_failed_send) (simp add: ex_peer_def)

text \<open>A transfer that does not arrive: the session ends and writes the cursors.\<close>

definition ex_finished :: "ref_table sync_step" where
  "ex_finished = session_resume True ref_externals ex_early ex_sync_config 0 [] (T_Remaining ex_locals)
     (Received None) ex_world"




theorem requested_blobs_served_witness:
  "map (decode_blob_transfer ref_externals) (served_payloads ref_externals ex_early ex_sync_config 0 1
      (handle_blob_request ref_externals ex_early ex_sync_config ex_locals In_Remaining ex_peer
        (encode_blob_request ex_ns [ex_hash]) ex_world)) =
    [Inr [\<lparr>nb_target_namespace = ex_ns, nb_blob = ex_blob\<rparr>]]"
proof -
  have g: "get_blobs_by_hashes ref_externals ex_early (sw_storage ex_world) ex_ns [ex_hash] = [ex_blob]"
    using ex_run_ok(8) ex_blob_live by (simp add: ex_world_def get_blob_lookup)
  have "length (encode_blob ref_externals ex_blob) < 2 ^ 32"
    by (simp add: encode_blob_def ref_externals_def flat_create_def ex_blob_def)
  then show ?thesis
    using requested_blobs_served [OF ref.externals_axioms, of ex_world 0 ex_peer ex_ns "[ex_hash]" ex_early
        ex_sync_config ex_locals In_Remaining] ex_run_ok(3) g
    by (simp add: ex_peer_def) (simp add: ex_world_def ex_peer_def)
qed

section \<open>Sessions that end badly\<close>

text \<open>A transfer with one blob of no bytes.  Decoding raises, the exception leaves the coroutine, and
  the peer stays marked as syncing.\<close>

definition ex_bad_transfer :: bytes where
  "ex_bad_transfer = write_u32_be [] 1 @ ex_ns @ write_u32_be [] 0"

lemma ex_bad_transfer_fails: "decode_blob_transfer ref_externals ex_bad_transfer = Inl Invalid_Buffer"
proof -
  have e: "decode_blob ref_externals [] = Inl Invalid_Buffer"
    by (simp add: decode_blob_def ref_externals_def)
  have c: "checked_add 4 32 = Some 36" "checked_add 36 4 = Some 40" "checked_add 40 0 = Some 40"
    by (simp_all add: checked_add_exact)
  have r: "read_u32_be_ptr ex_bad_transfer = 1" "read_u32_be_ptr (drop 36 ex_bad_transfer) = 0"
    "length ex_bad_transfer = 40" "take 0 (drop 40 ex_bad_transfer) = []"
    using read_u32_be_ptr_exact [of 0] read_u32_be_ptr_store [of 1 "ex_ns @ replicate 4 0"] by (simp_all add: ex_bad_transfer_def write_u32_be_eq)
  have "decode_transfer_loop ref_externals ex_bad_transfer (Suc 0) 4 = Inl Invalid_Buffer"
    unfolding decode_transfer_loop.simps c option.case Let_def using r e c(3) by simp
  then show ?thesis using r by (simp add: decode_blob_transfer_def)
qed

theorem malformed_transfer_raises:
  "tail_resume ref_externals ex_early ex_sync_config 0 (T_Transfer ex_locals [] 1 0)
     (Received (Some (BlobTransfer, ex_bad_transfer))) ex_world = (Session_Over, ex_world, Do_Raise) \<and>
   pi_syncing ex_peer"
  by (simp add: tail_resume_def with_peer_def transfer_received_def ex_bad_transfer_fails) (simp add: ex_peer_def)

text \<open>A batch of which nothing arrives before the timeout: after the two waits the cursor of the
  namespace stands at the peer's latest sequence number, so the next round skips the namespace.\<close>

theorem timeout_advances_cursor:
  "tail_resume ref_externals ex_early ex_sync_config 0 (T_Transfer ex_locals [] 1 0) (Received None) ex_world =
     (T_Remaining ex_locals, ex_world, Do_Recv 2) \<and>
   map_option sc_seq_num
     (get_sync_cursor ref_externals ex_early (sw_storage (fst (snd ex_finished))) (replicate 32 3) ex_ns) = Some 9"
proof -
  have f: "sw_storage (fst (snd ex_finished)) =
      update_cursors ref_externals ex_early (replicate 32 3) 105 [\<lparr>ni_namespace_id = ex_ns, ni_latest_seq_num = 9\<rparr>] ex_st1"
    by (simp add: ex_finished_def session_resume_def initiator_resume_def tail_resume_def with_peer_def
        remaining_received_def finish_session_def signal_quota_def start_pex_def release_def Let_def ex_locals_def
        no_stats_def ex_sync_config_def ex_world_def ex_peer_def del: update_cursors.simps)
  have "map_option sc_seq_num
     (get_sync_cursor ref_externals ex_early (sw_storage (fst (snd ex_finished))) (replicate 32 3) ex_ns) = Some 9"
    unfolding f by (simp add: Let_def get_sync_cursor_def set_sync_cursor_def ref.tbl.get_upsert CURSOR_VALUE_SIZE_def)
  then show ?thesis by (simp add: tail_resume_def with_peer_def transfer_received_def)
qed

end
