(* ===== verification/Push_Example.thy ===== *)
theory Push_Example
  imports Blob_Push Sync_Example
begin

text \<open>
  The notification property applied to the example database, and what becomes of a fetch the other side
  cannot answer.
\<close>

definition ex_idle_peer :: peer_info where "ex_idle_peer = ex_peer\<lparr>pi_syncing := False\<rparr>"

theorem notification_delivers_witness:
  "\<exists>req resp.
    on_blob_notify ref_externals ex_early ex_st0 [ex_idle_peer] 0 (encode_notification ex_ns ex_hash 1 3 False) [] =
      ([(0, (BlobFetch, req))], [(ex_ns @ ex_hash, 0)]) \<and>
    handle_blob_fetch ref_externals ex_early ex_st1 [] 1 req = [(1, (BlobFetchResponse, resp))] \<and>
    fetch_response_begin ref_externals resp = Response_Ingest ex_ns ex_blob \<and>
    fst (snd (fetch_response_done ref_externals 105 0 ex_ns ex_blob (rejection Storage_Full) [ex_idle_peer]
      ([(ex_ns @ ex_hash, 0)], ex_metrics))) = []"
  unfolding ex_hash_def
  by (rule notification_delivers [OF ref.externals_axioms ex_run_ok(3), where pA = ex_idle_peer])
    (use ex_run_ok(8) ex_blob_live ref.empty_tables(2) in
      \<open>simp_all add: ex_hash_def [symmetric] ex_idle_peer_def ex_peer_def ex_st0_def\<close>)

text \<open>The answer to a fetch of a blob that is gone is the one byte \<open>0x01\<close>; it does not clear the pending
  entry, and while that entry is there no later notification of the same blob leads to a fetch.\<close>

theorem failed_fetch_blocks_refetch:
  assumes "length ns = 32" and "length h = 32"
  shows "fetch_response_begin X [0x01] = Response_Ignored \<and>
    on_blob_notify X env st peers c (encode_notification ns h seq sz tomb) ((ns @ h, c0) # pending) =
      ([], (ns @ h, c0) # pending)"
  by (auto simp: fetch_response_begin_def on_blob_notify_def length_encode_notification [OF assms]
      extract_notification [OF assms] make_pending_key_def split: option.split)

end
