(* ===== verification/Query_Handlers.thy ===== *)
theory Query_Handlers
  imports Peer_Messages
begin

text \<open>
  The handlers of \<open>db/peer/message_dispatcher.cpp\<close> that answer a request from the node's state without
  changing it.  A handler gives the messages it sends, all under the id of the request, and how many
  strikes it records against the sender; a thrown exception is the answer of its \<open>catch\<close> clause.  The
  counter of error responses is the number of \<open>ErrorResponse\<close> messages.  Numbers of entries are below
  \<open>2^32\<close>, so that the casts to 32 bits keep them.
\<close>

type_synonym handled = "message list \<times> nat"

definition STATUS_FOUND :: byte where "STATUS_FOUND = 0x01"
definition STATUS_NOT_FOUND :: byte where "STATUS_NOT_FOUND = 0x00"
definition STATUS_EXISTS :: byte where "STATUS_EXISTS = 0x01"
definition STATUS_MISSING :: byte where "STATUS_MISSING = 0x00"

definition ERROR_MALFORMED_PAYLOAD :: byte where "ERROR_MALFORMED_PAYLOAD = 0x01"
definition ERROR_UNKNOWN_TYPE :: byte where "ERROR_UNKNOWN_TYPE = 0x02"
definition ERROR_DECODE_FAILED :: byte where "ERROR_DECODE_FAILED = 0x03"
definition ERROR_VALIDATION_FAILED :: byte where "ERROR_VALIDATION_FAILED = 0x04"
definition ERROR_INTERNAL :: byte where "ERROR_INTERNAL = 0x05"
definition ERROR_PUBK_FIRST_VIOLATION :: byte where "ERROR_PUBK_FIRST_VIOLATION = 0x07"
definition ERROR_PUBK_MISMATCH :: byte where "ERROR_PUBK_MISMATCH = 0x08"
definition ERROR_BOMB_TTL_NONZERO :: byte where "ERROR_BOMB_TTL_NONZERO = 0x09"
definition ERROR_BOMB_MALFORMED :: byte where "ERROR_BOMB_MALFORMED = 0x0A"
definition ERROR_BOMB_DELEGATE_NOT_ALLOWED :: byte where "ERROR_BOMB_DELEGATE_NOT_ALLOWED = 0x0B"

definition send_error_response :: "byte \<Rightarrow> transport_msg_type \<Rightarrow> message" where
  "send_error_response error_code original_type = (ErrorResponse, [error_code, msg_type_byte original_type])"

definition struck :: "byte \<Rightarrow> transport_msg_type \<Rightarrow> handled" where
  "struck error_code original_type = ([send_error_response error_code original_type], 1)"

definition answer :: "transport_msg_type \<Rightarrow> bytes \<Rightarrow> handled" where
  "answer type response = ([(type, response)], 0)"

text \<open>A response of \<open>count\<close> records of \<open>width\<close> bytes and \<open>extra\<close> bytes more is only built when its size is
  representable.\<close>

definition sized_answer ::
    "transport_msg_type \<Rightarrow> transport_msg_type \<Rightarrow> nat \<Rightarrow> u64 \<Rightarrow> u64 \<Rightarrow> bytes \<Rightarrow> handled" where
  "sized_answer request type count width extra response =
     (case checked_mul (of_nat count) width of
        None \<Rightarrow> struck ERROR_INTERNAL request
      | Some body \<Rightarrow>
          (case checked_add body extra of
             None \<Rightarrow> struck ERROR_INTERNAL request
           | Some _ \<Rightarrow> answer type response))"

text \<open>The namespaces of the database; the fuel of \<open>list_namespaces\<close> is always enough.\<close>

definition all_namespaces :: "'t externals \<Rightarrow> io \<Rightarrow> 't storage \<Rightarrow> namespace_info list" where
  "all_namespaces X env st = (case list_namespaces X env st of None \<Rightarrow> [] | Some infos \<Rightarrow> infos)"

definition live_blob :: "'t externals \<Rightarrow> io \<Rightarrow> 't storage \<Rightarrow> bytes \<Rightarrow> bytes \<Rightarrow> blob_data option" where
  "live_blob X env st ns hash =
     (case get_blob X env st ns hash of
        None \<Rightarrow> None
      | Some blob \<Rightarrow> if is_blob_expired blob (io_now env) then None else Some blob)"

section \<open>Single blobs\<close>

definition handle_read_request :: "'t externals \<Rightarrow> io \<Rightarrow> 't storage \<Rightarrow> bytes \<Rightarrow> handled" where
  "handle_read_request X env st payload =
     (if length payload < 64 then struck ERROR_MALFORMED_PAYLOAD ReadRequest
      else case extract_namespace_hash payload of
        Inl _ \<Rightarrow> struck ERROR_DECODE_FAILED ReadRequest
      | Inr (ns, hash) \<Rightarrow>
          (case get_blob X env st ns hash of
             Some blob \<Rightarrow>
               if is_blob_expired blob (io_now env) then answer ReadResponse [STATUS_NOT_FOUND]
               else answer ReadResponse (STATUS_FOUND # encode_blob X blob)
           | None \<Rightarrow> answer ReadResponse [STATUS_NOT_FOUND]))"

definition handle_exists_request :: "'t externals \<Rightarrow> io \<Rightarrow> 't storage \<Rightarrow> bytes \<Rightarrow> handled" where
  "handle_exists_request X env st payload =
     (if length payload < 64 then struck ERROR_MALFORMED_PAYLOAD ExistsRequest
      else case extract_namespace_hash payload of
        Inl _ \<Rightarrow> struck ERROR_DECODE_FAILED ExistsRequest
      | Inr (ns, hash) \<Rightarrow>
          answer ExistsResponse
            ((if live_blob X env st ns hash \<noteq> None then STATUS_EXISTS else STATUS_MISSING) # hash))"

definition handle_metadata_request :: "'t externals \<Rightarrow> io \<Rightarrow> 't storage \<Rightarrow> bytes \<Rightarrow> handled" where
  "handle_metadata_request X env st payload =
     (if length payload < 64 then struck ERROR_MALFORMED_PAYLOAD MetadataRequest
      else case extract_namespace_hash payload of
        Inl _ \<Rightarrow> struck ERROR_DECODE_FAILED MetadataRequest
      | Inr (ns, hash) \<Rightarrow>
          (case get_blob X env st ns hash of
             None \<Rightarrow> answer MetadataResponse [STATUS_NOT_FOUND]
           | Some blob \<Rightarrow>
               if is_blob_expired blob (io_now env) then answer MetadataResponse [STATUS_NOT_FOUND]
               else
                 let refs = get_blob_refs_since X env st ns 0 (- 1);
                     seq_num = (case find (\<lambda>ref. br_blob_hash ref = hash) refs of None \<Rightarrow> 0 | Some ref \<Rightarrow> br_seq_num ref) in
                 answer MetadataResponse
                   ([STATUS_FOUND] @ hash @ store_u64_be (bd_timestamp blob) @ store_u32_be (bd_ttl blob) @
                    store_u64_be (of_nat (length (bd_data blob))) @ store_u64_be seq_num @ [0, 32] @ bd_signer_hint blob)))"

section \<open>Lists of blobs\<close>

record list_query =
  lq_ns :: bytes
  lq_since :: u64
  lq_limit :: u32
  lq_include_all :: bool
  lq_type_filter :: "bytes option"

definition MAX_LIST_LIMIT :: u32 where "MAX_LIST_LIMIT = 100"

definition parse_list_request :: "bytes \<Rightarrow> list_query" where
  "parse_list_request payload =
     (let limit = read_u32_be_ptr (drop 40 payload);
          flags = (if length payload \<ge> 45 then payload ! 44 else 0) in
      \<lparr>lq_ns = take 32 payload, lq_since = read_u64_be_ptr (drop 32 payload),
       lq_limit = (if limit = 0 \<or> limit > MAX_LIST_LIMIT then MAX_LIST_LIMIT else limit),
       lq_include_all = bit flags 0,
       lq_type_filter = (if length payload \<ge> 49 \<and> bit flags 1 then Some (take 4 (drop 45 payload)) else None)\<rparr>)"

definition list_entry ::
    "'t externals \<Rightarrow> io \<Rightarrow> 't storage \<Rightarrow> list_query \<Rightarrow> blob_ref \<Rightarrow> blob_ref option" where
  "list_entry X env st q ref =
     (if \<not> lq_include_all q \<and> (br_blob_type ref = TOMBSTONE_MAGIC \<or> br_blob_type ref = DELEGATION_MAGIC) then None
      else if (case lq_type_filter q of None \<Rightarrow> False | Some t \<Rightarrow> br_blob_type ref \<noteq> t) then None
      else case get_blob X env st (lq_ns q) (br_blob_hash ref) of
        None \<Rightarrow> None
      | Some blob \<Rightarrow>
          if \<not> lq_include_all q \<and> is_blob_expired blob (io_now env) then None
          else Some (ref\<lparr>br_data_size := of_nat (length (bd_data blob)), br_timestamp := bd_timestamp blob,
                         br_ttl := bd_ttl blob\<rparr>))"

definition encode_list_entry :: "blob_ref \<Rightarrow> bytes" where
  "encode_list_entry ref =
     br_blob_hash ref @ store_u64_be (br_seq_num ref) @ br_blob_type ref @ store_u64_be (br_data_size ref) @
     store_u64_be (br_timestamp ref)"

text \<open>One page: the entries that pass the filters, and whether there are more references.\<close>

definition list_page :: "'t externals \<Rightarrow> io \<Rightarrow> 't storage \<Rightarrow> list_query \<Rightarrow> blob_ref list \<times> bool" where
  "list_page X env st q =
     (let refs = get_blob_refs_since X env st (lq_ns q) (lq_since q) (lq_limit q + 1);
          has_more = length refs > unat (lq_limit q);
          refs' = (if has_more then take (unat (lq_limit q)) refs else refs) in
      (List.map_filter (list_entry X env st q) refs', has_more))"

definition handle_list_request :: "'t externals \<Rightarrow> io \<Rightarrow> 't storage \<Rightarrow> bytes \<Rightarrow> handled" where
  "handle_list_request X env st payload =
     (if length payload < 44 then struck ERROR_MALFORMED_PAYLOAD ListRequest
      else
        let (filtered, has_more) = list_page X env st (parse_list_request payload) in
        sized_answer ListRequest ListResponse (length filtered) 60 5
          (store_u32_be (of_nat (length filtered)) @ concat (map encode_list_entry filtered) @
           [if has_more then 1 else 0]))"

fun time_range_loop ::
    "'t externals \<Rightarrow> io \<Rightarrow> 't storage \<Rightarrow> bytes \<Rightarrow> u64 \<Rightarrow> u64 \<Rightarrow> nat \<Rightarrow> (bytes \<times> u64 \<times> u64) list
      \<Rightarrow> blob_ref list \<Rightarrow> (bytes \<times> u64 \<times> u64) list \<times> bool" where
  "time_range_loop X env st ns start_ts end_ts limit results [] = (results, False)"
| "time_range_loop X env st ns start_ts end_ts limit results (ref # refs) =
     (if br_blob_type ref = TOMBSTONE_MAGIC \<or> br_blob_type ref = DELEGATION_MAGIC
      then time_range_loop X env st ns start_ts end_ts limit results refs
      else case live_blob X env st ns (br_blob_hash ref) of
        None \<Rightarrow> time_range_loop X env st ns start_ts end_ts limit results refs
      | Some blob \<Rightarrow>
          if bd_timestamp blob \<ge> start_ts \<and> bd_timestamp blob \<le> end_ts then
            let results' = results @ [(br_blob_hash ref, br_seq_num ref, bd_timestamp blob)] in
            if length results' \<ge> limit then (results', True)
            else time_range_loop X env st ns start_ts end_ts limit results' refs
          else time_range_loop X env st ns start_ts end_ts limit results refs)"

definition SCAN_LIMIT :: u32 where "SCAN_LIMIT = 10000"

definition handle_time_range_request :: "'t externals \<Rightarrow> io \<Rightarrow> 't storage \<Rightarrow> bytes \<Rightarrow> handled" where
  "handle_time_range_request X env st payload =
     (if length payload < 52 then struck ERROR_MALFORMED_PAYLOAD TimeRangeRequest
      else
        let ns = take 32 payload; start_ts = read_u64_be_ptr (drop 32 payload);
            end_ts = read_u64_be_ptr (drop 40 payload) in
        if start_ts > end_ts then struck ERROR_VALIDATION_FAILED TimeRangeRequest
        else
          let limit0 = read_u32_be_ptr (drop 48 payload);
              limit = (if limit0 = 0 \<or> limit0 > 100 then 100 else limit0);
              refs = get_blob_refs_since X env st ns 0 SCAN_LIMIT;
              (results, truncated) = time_range_loop X env st ns start_ts end_ts (unat limit) [] refs;
              truncated' = (truncated \<or> (length refs \<ge> unat SCAN_LIMIT \<and> length results < unat limit)) in
          sized_answer TimeRangeRequest TimeRangeResponse (length results) 48 5
            ([if truncated' then 1 else 0] @ store_u32_be (of_nat (length results)) @
             concat (map (\<lambda>(h, s, t). h @ store_u64_be s @ store_u64_be t) results)))"

section \<open>Batches\<close>

definition request_hashes :: "nat \<Rightarrow> nat \<Rightarrow> bytes \<Rightarrow> bytes list" where
  "request_hashes offset count payload = map (\<lambda>i. take 32 (drop (offset + i * 32) payload)) [0..<count]"

definition handle_batch_exists_request :: "'t externals \<Rightarrow> io \<Rightarrow> 't storage \<Rightarrow> bytes \<Rightarrow> handled" where
  "handle_batch_exists_request X env st payload =
     (if length payload < 36 then struck ERROR_MALFORMED_PAYLOAD BatchExistsRequest
      else
        let ns = take 32 payload; count = read_u32_be_ptr (drop 32 payload) in
        if count = 0 \<or> count > 1024 then struck ERROR_VALIDATION_FAILED BatchExistsRequest
        else if length payload < 36 + unat count * 32 then struck ERROR_MALFORMED_PAYLOAD BatchExistsRequest
        else answer BatchExistsResponse
          (map (\<lambda>hash. if live_blob X env st ns hash \<noteq> None then 0x01 else 0x00) (request_hashes 36 (unat count) payload)))"

text \<open>The reading loop stops after the blob that fills the cap; the result says whether hashes are left.\<close>

fun batch_read_loop ::
    "'t externals \<Rightarrow> io \<Rightarrow> 't storage \<Rightarrow> bytes \<Rightarrow> u64 \<Rightarrow> u64 \<Rightarrow> bytes list \<Rightarrow> (bytes \<times> bytes option) list \<times> bool" where
  "batch_read_loop X env st ns cap cumulative [] = ([], False)"
| "batch_read_loop X env st ns cap cumulative (hash # hashes) =
     (case live_blob X env st ns hash of
        None \<Rightarrow> map_prod (Cons (hash, None)) id (batch_read_loop X env st ns cap cumulative hashes)
      | Some blob \<Rightarrow>
          let encoded = encode_blob X blob; cumulative' = cumulative + of_nat (length encoded) in
          if cumulative' \<ge> cap then ([(hash, Some encoded)], hashes \<noteq> [])
          else map_prod (Cons (hash, Some encoded)) id (batch_read_loop X env st ns cap cumulative' hashes))"

definition encode_batch_entry :: "bytes \<times> bytes option \<Rightarrow> bytes" where
  "encode_batch_entry e =
     (case e of
        (hash, None) \<Rightarrow> 0x00 # hash
      | (hash, Some encoded) \<Rightarrow> 0x01 # hash @ store_u64_be (of_nat (length encoded)) @ encoded)"

definition MAX_CAP :: u32 where "MAX_CAP = 4194304"

definition handle_batch_read_request :: "'t externals \<Rightarrow> io \<Rightarrow> 't storage \<Rightarrow> bytes \<Rightarrow> handled" where
  "handle_batch_read_request X env st payload =
     (if length payload < 40 then struck ERROR_MALFORMED_PAYLOAD BatchReadRequest
      else
        let ns = take 32 payload; cap0 = read_u32_be_ptr (drop 32 payload);
            cap = (if cap0 = 0 \<or> cap0 > MAX_CAP then MAX_CAP else cap0);
            count = read_u32_be_ptr (drop 36 payload) in
        if count = 0 \<or> count > 256 then struck ERROR_VALIDATION_FAILED BatchReadRequest
        else if length payload < 40 + unat count * 32 then struck ERROR_MALFORMED_PAYLOAD BatchReadRequest
        else
          let (entries, truncated) = batch_read_loop X env st ns (ucast cap) 0 (request_hashes 40 (unat count) payload) in
          answer BatchReadResponse
            ([if truncated then 0x01 else 0x00] @ store_u32_be (of_nat (length entries)) @
             concat (map encode_batch_entry entries)))"

section \<open>Namespaces\<close>

definition handle_stats_request :: "'t externals \<Rightarrow> engine_config \<Rightarrow> io \<Rightarrow> 't storage \<Rightarrow> bytes \<Rightarrow> handled" where
  "handle_stats_request X cfg env st payload =
     (if length payload < 32 then struck ERROR_MALFORMED_PAYLOAD StatsRequest
      else
        let ns = take 32 payload; quota = get_namespace_quota X env st ns; (byte_limit, _) = effective_quota cfg ns in
        answer StatsResponse
          (store_u64_be (nq_blob_count quota) @ store_u64_be (nq_total_bytes quota) @ store_u64_be byte_limit))"

definition namespace_page ::
    "'t externals \<Rightarrow> io \<Rightarrow> 't storage \<Rightarrow> bytes \<Rightarrow> nat \<Rightarrow> (bytes \<times> u64) list \<times> bool" where
  "namespace_page X env st after_ns limit =
     (let all_ns = sort_key ni_namespace_id (all_namespaces X env st);
          rest = (if after_ns = replicate 32 0 then all_ns else dropWhile (\<lambda>i. \<not> after_ns < ni_namespace_id i) all_ns) in
      (map (\<lambda>i. (ni_namespace_id i, nq_blob_count (get_namespace_quota X env st (ni_namespace_id i)))) (take limit rest),
       drop limit rest \<noteq> []))"

definition handle_namespace_list_request :: "'t externals \<Rightarrow> io \<Rightarrow> 't storage \<Rightarrow> bytes \<Rightarrow> handled" where
  "handle_namespace_list_request X env st payload =
     (if length payload < 36 then struck ERROR_MALFORMED_PAYLOAD NamespaceListRequest
      else
        let limit0 = read_u32_be_ptr (drop 32 payload); limit = (if limit0 = 0 \<or> limit0 > 1000 then 100 else limit0);
            (entries, has_more) = namespace_page X env st (take 32 payload) (unat limit) in
        sized_answer NamespaceListRequest NamespaceListResponse (length entries) 40 5
          (store_u32_be (of_nat (length entries)) @ [if has_more then 0x01 else 0x00] @
           concat (map (\<lambda>(ns, n). ns @ store_u64_be n) entries)))"

definition handle_namespace_stats_request ::
    "'t externals \<Rightarrow> engine_config \<Rightarrow> io \<Rightarrow> 't storage \<Rightarrow> bytes \<Rightarrow> handled" where
  "handle_namespace_stats_request X cfg env st payload =
     (if length payload < 32 then struck ERROR_MALFORMED_PAYLOAD NamespaceStatsRequest
      else
        let ns = take 32 payload in
        if ns \<in> set (map ni_namespace_id (all_namespaces X env st)) then
          let quota = get_namespace_quota X env st ns; (bytes_limit, count_limit) = effective_quota cfg ns in
          answer NamespaceStatsResponse
            ([0x01] @ store_u64_be (nq_blob_count quota) @ store_u64_be (nq_total_bytes quota) @
             store_u64_be (of_nat (count_delegations X env st ns)) @ store_u64_be bytes_limit @ store_u64_be count_limit)
        else answer NamespaceStatsResponse (replicate 41 0))"

definition handle_delegation_list_request :: "'t externals \<Rightarrow> io \<Rightarrow> 't storage \<Rightarrow> bytes \<Rightarrow> handled" where
  "handle_delegation_list_request X env st payload =
     (if length payload < 32 then struck ERROR_MALFORMED_PAYLOAD DelegationListRequest
      else
        let entries = list_delegations X env st (take 32 payload) in
        sized_answer DelegationListRequest DelegationListResponse (length entries) 64 4
          (store_u32_be (of_nat (length entries)) @
           concat (map (\<lambda>e. de_delegate_pk_hash e @ de_delegation_blob_hash e) entries)))"

section \<open>The node\<close>

text \<open>What the handlers read besides the database: build version, uptime, the two size readings of the
  database file, the configured limits and the monotonic clock.\<close>

record node_status =
  ns_version :: string
  ns_uptime :: u64
  ns_used_data_bytes :: u64
  ns_mmap_bytes :: u64
  ns_max_storage_bytes :: u64
  ns_blob_max_bytes :: u64
  ns_rate_limit_bytes_per_sec :: u64
  ns_max_subscriptions :: u32
  ns_steady_ms :: u64

definition total_blobs :: "namespace_info list \<Rightarrow> u64" where
  "total_blobs infos = foldl (\<lambda>n i. n + ni_latest_seq_num i) 0 infos"

definition supported_types :: bytes where
  "supported_types = [5, 6, 7, 8, 17, 18, 19, 20, 21, 30, 31, 32, 33, 34, 35, 36, 37, 38, 39, 40, 41, 42, 43, 44,
     45, 46, 47, 48, 49, 50, 51, 52, 53, 54, 55, 56, 57, 58, 63]"

definition node_info_response :: "'t externals \<Rightarrow> io \<Rightarrow> node_status \<Rightarrow> nat \<Rightarrow> 't storage \<Rightarrow> bytes" where
  "node_info_response X env ns peer_count st =
     (let namespaces = all_namespaces X env st in
      [of_nat (length (ns_version ns))] @ string_bytes (ns_version ns) @ store_u64_be (ns_uptime ns) @
      store_u32_be (of_nat peer_count) @ store_u32_be (of_nat (length namespaces)) @
      store_u64_be (total_blobs namespaces) @ store_u64_be (ns_used_data_bytes ns) @
      store_u64_be (ns_max_storage_bytes ns) @ store_u64_be (ns_blob_max_bytes ns) @
      store_u32_be (of_nat MAX_FRAME_SIZE) @ store_u64_be (ns_rate_limit_bytes_per_sec ns) @
      store_u32_be (ns_max_subscriptions ns) @ [of_nat (length supported_types)] @ supported_types)"

definition handle_node_info_request ::
    "'t externals \<Rightarrow> io \<Rightarrow> node_status \<Rightarrow> peer_info list \<Rightarrow> 't storage \<Rightarrow> handled" where
  "handle_node_info_request X env ns peers st =
     answer NodeInfoResponse (node_info_response X env ns (length peers) st)"

text \<open>After the answer a peer whose cap is not known yet is asked for it in turn, in a message that answers
  nothing.\<close>

definition reciprocal_node_info_request :: "peer_info list \<Rightarrow> conn_id \<Rightarrow> message list" where
  "reciprocal_node_info_request peers conn =
     (case find_peer conn peers of
        Some peer \<Rightarrow>
          if pi_role peer = Role_Peer \<and> pi_advertised_blob_cap peer = 0 then [(NodeInfoRequest, [])] else []
      | None \<Rightarrow> [])"

definition handle_storage_status_request :: "'t externals \<Rightarrow> io \<Rightarrow> node_status \<Rightarrow> 't storage \<Rightarrow> handled" where
  "handle_storage_status_request X env ns st =
     (let namespaces = all_namespaces X env st in
      answer StorageStatusResponse
        (store_u64_be (ns_used_data_bytes ns) @ store_u64_be (ns_max_storage_bytes ns) @
         store_u64_be (of_nat (count_tombstones X env st)) @ store_u32_be (of_nat (length namespaces)) @
         store_u64_be (total_blobs namespaces) @ store_u64_be (ns_mmap_bytes ns)))"

text \<open>Parsing an address is a library call.\<close>

definition sender_trusted ::
    "(string \<Rightarrow> 'ip option) \<Rightarrow> ('ip \<Rightarrow> bool) \<Rightarrow> bool \<Rightarrow> string \<Rightarrow> bool" where
  "sender_trusted make_address is_trusted_address is_uds remote_address =
     (if is_uds then True
      else case rfind CHR '':'' remote_address of
        None \<Rightarrow> False
      | Some colon_pos \<Rightarrow>
          (case make_address (take colon_pos remote_address) of
             None \<Rightarrow> False | Some addr \<Rightarrow> is_trusted_address addr))"

definition encode_peer_info :: "u64 \<Rightarrow> peer_info \<Rightarrow> bytes" where
  "encode_peer_info now_ms peer =
     (let addr_len = of_nat (length (pi_address peer)) :: u16;
          duration_ms = (if pi_last_message_time peer > 0 then now_ms - pi_last_message_time peer else 0) in
      write_u16_be [] addr_len @ take (unat addr_len) (string_bytes (pi_address peer)) @
      [if pi_is_bootstrap peer then 0x01 else 0x00, if pi_syncing peer then 0x01 else 0x00,
       if pi_peer_is_full peer then 0x01 else 0x00] @ store_u64_be duration_ms)"

text \<open>The buffer is sized for full addresses; what a cut-off length leaves free stays zero at its end.\<close>

definition handle_peer_info_request :: "node_status \<Rightarrow> bool \<Rightarrow> peer_info list \<Rightarrow> handled" where
  "handle_peer_info_request ns trusted peers =
     (let pc = store_u32_be (of_nat (length peers)); bc = store_u32_be (of_nat (length (filter pi_is_bootstrap peers))) in
      if \<not> trusted then answer PeerInfoResponse (pc @ bc)
      else
        let resp_size = 8 + sum_list (map (\<lambda>p. 2 + length (pi_address p) + 1 + 1 + 1 + 8) peers);
            content = pc @ bc @ concat (map (encode_peer_info (ns_steady_ms ns)) peers) in
        answer PeerInfoResponse (content @ replicate (resp_size - length content) 0))"

section \<open>All queries\<close>

text \<open>The branches of \<open>on_peer_message\<close> above, by the type of the request; \<open>None\<close> is a type that is no query.\<close>

definition handle_query ::
    "'t externals \<Rightarrow> engine_config \<Rightarrow> io \<Rightarrow> node_status \<Rightarrow> bool \<Rightarrow> peer_info list \<Rightarrow> 't storage
      \<Rightarrow> transport_msg_type \<Rightarrow> bytes \<Rightarrow> handled option" where
  "handle_query X cfg env ns trusted peers st type payload =
     (if type = ReadRequest then Some (handle_read_request X env st payload)
      else if type = ListRequest then Some (handle_list_request X env st payload)
      else if type = StatsRequest then Some (handle_stats_request X cfg env st payload)
      else if type = ExistsRequest then Some (handle_exists_request X env st payload)
      else if type = NodeInfoRequest then Some (handle_node_info_request X env ns peers st)
      else if type = NamespaceListRequest then Some (handle_namespace_list_request X env st payload)
      else if type = StorageStatusRequest then Some (handle_storage_status_request X env ns st)
      else if type = NamespaceStatsRequest then Some (handle_namespace_stats_request X cfg env st payload)
      else if type = MetadataRequest then Some (handle_metadata_request X env st payload)
      else if type = BatchExistsRequest then Some (handle_batch_exists_request X env st payload)
      else if type = DelegationListRequest then Some (handle_delegation_list_request X env st payload)
      else if type = BatchReadRequest then Some (handle_batch_read_request X env st payload)
      else if type = PeerInfoRequest then Some (handle_peer_info_request ns trusted peers)
      else if type = TimeRangeRequest then Some (handle_time_range_request X env st payload)
      else None)"

text \<open>The type of the answer to a query.\<close>

definition response_types :: "(transport_msg_type \<times> transport_msg_type) list" where
  "response_types =
     [(ReadRequest, ReadResponse), (ListRequest, ListResponse), (StatsRequest, StatsResponse),
      (ExistsRequest, ExistsResponse), (NodeInfoRequest, NodeInfoResponse),
      (NamespaceListRequest, NamespaceListResponse), (StorageStatusRequest, StorageStatusResponse),
      (NamespaceStatsRequest, NamespaceStatsResponse), (MetadataRequest, MetadataResponse),
      (BatchExistsRequest, BatchExistsResponse), (DelegationListRequest, DelegationListResponse),
      (BatchReadRequest, BatchReadResponse), (PeerInfoRequest, PeerInfoResponse),
      (TimeRangeRequest, TimeRangeResponse)]"

definition is_query :: "transport_msg_type \<Rightarrow> bool" where
  "is_query type \<longleftrightarrow> type \<in> set (map fst response_types)"

end
