(* ===== verification/Access_Control.thy ===== *)
theory Access_Control
  imports Hex
begin

text \<open>
  \<open>db/acl/access_control.cpp\<close>: the lists of clients and peers that may connect.  An empty list is
  open mode.  A key is 64 hexadecimal digits, which the configuration has checked; reading more than
  one character past the end of a shorter key is undefined, \<open>None\<close>.
\<close>

unbundle bit_operations_syntax

record access_control =
  ac_allowed_client_keys :: "bytes set"
  ac_allowed_peer_keys :: "bytes set"
  ac_own_namespace :: bytes
  ac_client_configured_count :: nat
  ac_peer_configured_count :: nat

record reload_result =
  rl_client_added :: nat
  rl_client_removed :: nat
  rl_peer_added :: nat
  rl_peer_removed :: nat

definition acl_hex_val :: "char \<Rightarrow> byte" where
  "acl_hex_val c = (case nibble c of Inl _ \<Rightarrow> 0 | Inr v \<Rightarrow> v)"

definition hex_to_bytes :: "string \<Rightarrow> bytes option" where
  "hex_to_bytes hex =
     (if length hex < 63 then None
      else let s = hex @ [CHR 0x00] in
        Some (map (\<lambda>i. push_bit 4 (acl_hex_val (s ! (i * 2))) OR acl_hex_val (s ! (i * 2 + 1))) [0..<32]))"

fun key_set :: "string list \<Rightarrow> bytes set option" where
  "key_set [] = Some {}"
| "key_set (hex # hexes) =
     (case hex_to_bytes hex of
        None \<Rightarrow> None
      | Some k \<Rightarrow> map_option (insert k) (key_set hexes))"

definition new_access_control :: "string list \<Rightarrow> string list \<Rightarrow> bytes \<Rightarrow> access_control option" where
  "new_access_control client_hex_keys peer_hex_keys own_namespace =
     (case (key_set client_hex_keys, key_set peer_hex_keys) of
        (Some clients, Some peers) \<Rightarrow>
          Some \<lparr>ac_allowed_client_keys = (if length client_hex_keys > 0 then insert own_namespace clients else clients),
                ac_allowed_peer_keys = (if length peer_hex_keys > 0 then insert own_namespace peers else peers),
                ac_own_namespace = own_namespace,
                ac_client_configured_count = length client_hex_keys,
                ac_peer_configured_count = length peer_hex_keys\<rparr>
      | _ \<Rightarrow> None)"

definition is_client_closed_mode :: "access_control \<Rightarrow> bool" where
  "is_client_closed_mode acl \<longleftrightarrow> ac_client_configured_count acl > 0"

definition is_peer_closed_mode :: "access_control \<Rightarrow> bool" where
  "is_peer_closed_mode acl \<longleftrightarrow> ac_peer_configured_count acl > 0"

definition client_allowed_count :: "access_control \<Rightarrow> nat" where
  "client_allowed_count ac = ac_client_configured_count ac"

definition peer_allowed_count :: "access_control \<Rightarrow> nat" where
  "peer_allowed_count ac = ac_peer_configured_count ac"

definition is_client_allowed :: "access_control \<Rightarrow> bytes \<Rightarrow> bool" where
  "is_client_allowed acl namespace_hash \<longleftrightarrow>
     \<not> is_client_closed_mode acl \<or> namespace_hash \<in> ac_allowed_client_keys acl"

definition is_peer_allowed :: "access_control \<Rightarrow> bytes \<Rightarrow> bool" where
  "is_peer_allowed acl namespace_hash \<longleftrightarrow>
     \<not> is_peer_closed_mode acl \<or> namespace_hash \<in> ac_allowed_peer_keys acl"

text \<open>One of the two halves of \<open>reload\<close>: the new keys, and how many were added and removed.\<close>

definition reload_keys :: "bytes \<Rightarrow> string list \<Rightarrow> bytes set \<Rightarrow> (bytes set \<times> nat \<times> nat) option" where
  "reload_keys own hex_keys allowed =
     (case key_set hex_keys of
        None \<Rightarrow> None
      | Some new_keys \<Rightarrow>
          let old_keys = allowed - {own} in
          Some (if length hex_keys > 0 then insert own new_keys else new_keys,
                card (new_keys - old_keys), card (old_keys - new_keys)))"

definition reload ::
    "string list \<Rightarrow> string list \<Rightarrow> access_control \<Rightarrow> (reload_result \<times> access_control) option" where
  "reload client_hex_keys peer_hex_keys acl =
     (case reload_keys (ac_own_namespace acl) client_hex_keys (ac_allowed_client_keys acl) of
        None \<Rightarrow> None
      | Some (clients, client_added, client_removed) \<Rightarrow>
          (case reload_keys (ac_own_namespace acl) peer_hex_keys (ac_allowed_peer_keys acl) of
             None \<Rightarrow> None
           | Some (peers, peer_added, peer_removed) \<Rightarrow>
               Some (\<lparr>rl_client_added = client_added, rl_client_removed = client_removed,
                      rl_peer_added = peer_added, rl_peer_removed = peer_removed\<rparr>,
                     acl\<lparr>ac_allowed_client_keys := clients, ac_client_configured_count := length client_hex_keys,
                         ac_allowed_peer_keys := peers, ac_peer_configured_count := length peer_hex_keys\<rparr>)))"

section \<open>Properties\<close>

lemma hex_to_bytes_total: "length hex = 64 \<Longrightarrow> \<exists>k. hex_to_bytes hex = Some k \<and> length k = 32"
  by (simp add: hex_to_bytes_def Let_def)

lemma key_set_eq:
  assumes "list_all (\<lambda>h. length h = 64) hexes"
  shows "key_set hexes = Some (set (map (\<lambda>h. the (hex_to_bytes h)) hexes))"
  using assms
proof (induction hexes)
  case (Cons h hs)
  then show ?case using hex_to_bytes_total [of h] by auto
qed simp

text \<open>The reader of keys agrees with the general decoder on valid input.\<close>

lemma hex_to_bytes_from_hex:
  assumes "length hex = 64" and "from_hex hex = Inr bs"
  shows "hex_to_bytes hex = Some bs"
proof -
  have nth: "length bs = length s div 2 \<and> (\<forall>i < length s div 2.
      bs ! i = push_bit 4 (acl_hex_val (s ! (2 * i))) OR acl_hex_val (s ! (2 * i + 1)))"
    if "hex_pairs s = Inr bs" "even (length s)" for s bs
    using that
  proof (induction s arbitrary: bs rule: hex_pairs.induct)
    case (1 h l cs)
    then obtain hi lo bs' where b: "nibble h = Inr hi" "nibble l = Inr lo" "hex_pairs cs = Inr bs'"
      "bs = (push_bit 4 hi OR lo) # bs'" by (auto split: sum.splits)
    have "length bs' = length cs div 2 \<and> (\<forall>i < length cs div 2.
      bs' ! i = push_bit 4 (acl_hex_val (cs ! (2 * i))) OR acl_hex_val (cs ! (2 * i + 1)))"
      using "1.IH" b "1.prems"(2) by simp
    then show ?case
      by (auto simp: b acl_hex_val_def nth_Cons split: nat.split)
  qed auto
  have "hex_pairs hex = Inr bs" using assms by (simp add: from_hex_def)
  from nth [OF this] assms(1)
  have "length bs = 32" "\<forall>i < 32. bs ! i = push_bit 4 (acl_hex_val (hex ! (2 * i))) OR acl_hex_val (hex ! (2 * i + 1))"
    by auto
  then show ?thesis
    using assms(1) by (auto simp: hex_to_bytes_def Let_def nth_append mult.commute intro!: nth_equalityI)
qed

text \<open>C24: A node lets exactly the configured parties in: with keys that are the hexadecimal forms of the
  namespaces \<open>clients\<close> and \<open>peers\<close>, a client (peer) is allowed if its list is empty, if it is on the
  list, or if it is the node itself.\<close>

theorem access_exact:
  assumes "list_all (\<lambda>k. length k = 32) (clients @ peers)"
  shows "\<exists>acl. new_access_control (map to_hex clients) (map to_hex peers) own = Some acl \<and>
    (\<forall>h. is_client_allowed acl h \<longleftrightarrow> clients = [] \<or> h \<in> set clients \<or> h = own) \<and>
    (\<forall>h. is_peer_allowed acl h \<longleftrightarrow> peers = [] \<or> h \<in> set peers \<or> h = own)"
proof -
  have hb: "hex_to_bytes (to_hex k) = Some k" if "length k = 32" for k
    using that by (intro hex_to_bytes_from_hex) (simp_all add: from_hex_def hex_pairs_to_hex)
  have ks: "key_set (map to_hex ks) = Some (set ks)" if "list_all (\<lambda>k. length k = 32) ks" for ks
    using that by (induction ks) (simp_all add: hb)
  show ?thesis
    using ks [of clients] ks [of peers] assms
    by (auto simp: new_access_control_def is_client_allowed_def is_peer_allowed_def is_client_closed_mode_def
        is_peer_closed_mode_def)
qed

theorem access_exact_witness:
  "\<exists>acl. new_access_control (map to_hex [replicate 32 1]) (map to_hex []) (replicate 32 9) = Some acl \<and>
    (\<forall>h. is_client_allowed acl h \<longleftrightarrow> h = replicate 32 1 \<or> h = replicate 32 9) \<and> (\<forall>h. is_peer_allowed acl h)"
  using access_exact [of "[replicate 32 1]" "[]" "replicate 32 9"] by simp

text \<open>A reload forgets the old lists: it leaves the node exactly as a start with the new lists
  would.\<close>

lemma reload_as_fresh:
  "map_option snd (reload client_keys peer_keys acl) = new_access_control client_keys peer_keys (ac_own_namespace acl)"
  by (cases acl) (auto simp: reload_def reload_keys_def new_access_control_def Let_def split: option.splits)

text \<open>The report of a reload, which is for the log, counts the node's own key as added each time when it
  is listed, even if nothing changes.\<close>

theorem reload_counts_own_key:
  assumes "length own = 32"
  shows "\<exists>acl r. new_access_control [to_hex own] [] own = Some acl \<and> reload [to_hex own] [] acl = Some (r, acl) \<and>
    rl_client_added r = 1"
proof -
  have "hex_to_bytes (to_hex own) = Some own"
    using assms by (intro hex_to_bytes_from_hex) (simp_all add: from_hex_def hex_pairs_to_hex)
  then show ?thesis by (simp add: new_access_control_def reload_def reload_keys_def)
qed

end
