(* ===== verification/Conn_Manager.thy ===== *)
theory Conn_Manager
  imports Peer_Messages Access_Control "HOL-Library.AList"
begin

text \<open>
  \<open>db/peer/connection_manager.cpp\<close>: who may connect, the list of connected peers, duplicate
  connections, strikes, the announcement of namespaces and the keepalive.  What a connection object
  tells about its remote end is a function \<open>views\<close> of the connection.  Operations return what they ask
  other components for as a list of effects, in the order of the calls.
\<close>

record conn_view =
  cv_peer_pubkey :: bytes
  cv_is_uds :: bool
  cv_peer_role :: role
  cv_remote_address :: string
  cv_connect_address :: string
  cv_is_initiator :: bool
  cv_is_authenticated :: bool

record conn_config =
  cc_rate_limit_burst :: u64
  cc_max_peers :: u32
  cc_max_clients :: u32
  cc_strike_threshold :: u32
  cc_bootstrap_addresses :: "string set"
  cc_trusted_peers :: "string set"

record conn_state =
  cs_peers :: "peer_info list"
  cs_metrics :: node_metrics
  cs_disconnected_peers :: "(bytes \<times> u64) list"

datatype conn_effect =
  Close conn_id
| Close_Gracefully conn_id
| Notify_Acl_Rejected string
| Delay_Reconnect string
| On_Connect conn_id string
| On_Disconnect conn_id
| Announce_And_Sync conn_id

definition set_max_peers :: "u32 \<Rightarrow> conn_config \<Rightarrow> conn_config" where
  "set_max_peers n cfg = cfg\<lparr>cc_max_peers := n\<rparr>"

definition set_max_clients :: "u32 \<Rightarrow> conn_config \<Rightarrow> conn_config" where
  "set_max_clients n cfg = cfg\<lparr>cc_max_clients := n\<rparr>"

definition set_trusted_peers :: "string set \<Rightarrow> conn_config \<Rightarrow> conn_config" where
  "set_trusted_peers addrs cfg = cfg\<lparr>cc_trusted_peers := addrs\<rparr>"

section \<open>Connecting\<close>

definition should_accept_connection :: "conn_config \<Rightarrow> peer_info list \<Rightarrow> bool" where
  "should_accept_connection cfg peers \<longleftrightarrow>
     length (filter (\<lambda>p. pi_role p \<noteq> Role_Client) peers) < unat (cc_max_peers cfg) \<and>
     length (filter (\<lambda>p. pi_role p = Role_Client) peers) < unat (cc_max_clients cfg)"

definition connection_role :: "conn_view \<Rightarrow> role" where
  "connection_role v = (if cv_is_uds v then Role_Client else cv_peer_role v)"

definition role_allowed :: "access_control \<Rightarrow> role \<Rightarrow> bytes \<Rightarrow> bool" where
  "role_allowed acl rl peer_ns =
     (if rl = Role_Client then is_client_allowed acl peer_ns else is_peer_allowed acl peer_ns)"

definition new_peer_info :: "conn_config \<Rightarrow> u64 \<Rightarrow> conn_id \<Rightarrow> conn_view \<Rightarrow> peer_info" where
  "new_peer_info cfg now_ms conn v =
     \<lparr>pi_connection = conn, pi_address = cv_remote_address v,
      pi_is_bootstrap = (cv_remote_address v \<in> cc_bootstrap_addresses cfg), pi_role = connection_role v,
      pi_strike_count = 0, pi_syncing = False, pi_advertised_blob_cap = 0, pi_sync_inbox = [],
      pi_sync_notify = False, pi_subscribed_namespaces = [], pi_peer_is_full = False,
      pi_bucket_tokens = cc_rate_limit_burst cfg, pi_bucket_last_refill = now_ms, pi_last_sync_initiated = 0,
      pi_last_message_time = now_ms, pi_announced_namespaces = [], pi_announce_received = False,
      pi_announce_notify = False\<rparr>"

text \<open>Which of two connections to one peer stays: the one the end with the lower namespace initiated.\<close>

definition keep_new :: "bytes \<Rightarrow> bytes \<Rightarrow> bool \<Rightarrow> bool" where
  "keep_new own_ns peer_ns is_initiator = (if own_ns < peer_ns then is_initiator else \<not> is_initiator)"

definition delay_closed :: "conn_view \<Rightarrow> conn_effect list" where
  "delay_closed v = (if cv_connect_address v \<noteq> [] then [Delay_Reconnect (cv_connect_address v)] else [])"

fun split_first :: "('a \<Rightarrow> bool) \<Rightarrow> 'a list \<Rightarrow> ('a \<times> 'a list) option" where
  "split_first P [] = None"
| "split_first P (x # xs) = (if P x then Some (x, xs) else map_option (map_prod id (Cons x)) (split_first P xs))"

text \<open>The peers without a duplicate that gives way, and whether the new connection stays.\<close>

definition dedup ::
    "'t externals \<Rightarrow> (conn_id \<Rightarrow> conn_view) \<Rightarrow> bytes \<Rightarrow> conn_id \<Rightarrow> peer_info list
      \<Rightarrow> peer_info list \<times> bool \<times> conn_effect list" where
  "dedup X views own_ns conn peers =
     (let peer_ns = sha3_256 X (cv_peer_pubkey (views conn)) in
      if connection_role (views conn) \<noteq> Role_Peer then (peers, True, [])
      else case split_first (\<lambda>p. sha3_256 X (cv_peer_pubkey (views (pi_connection p))) = peer_ns) peers of
        None \<Rightarrow> (peers, True, [])
      | Some (existing, others) \<Rightarrow>
          if keep_new own_ns peer_ns (cv_is_initiator (views conn))
          then (others, True, delay_closed (views (pi_connection existing)) @ [Close (pi_connection existing)])
          else (peers, False, delay_closed (views conn) @ [Close conn]))"

definition on_peer_connected ::
    "'t externals \<Rightarrow> conn_config \<Rightarrow> access_control \<Rightarrow> (conn_id \<Rightarrow> conn_view) \<Rightarrow> u64 \<Rightarrow> bytes \<Rightarrow> conn_id
      \<Rightarrow> conn_state \<Rightarrow> conn_state \<times> conn_effect list" where
  "on_peer_connected X cfg acl views now_ms own_ns conn s =
     (let v = views conn; peer_ns = sha3_256 X (cv_peer_pubkey v); rl = connection_role v; m = cs_metrics s in
      if \<not> role_allowed acl rl peer_ns then
        (s\<lparr>cs_metrics := m\<lparr>nm_peers_disconnected_total := nm_peers_disconnected_total m + 1\<rparr>\<rparr>,
         (if cv_connect_address v \<noteq> [] then [Notify_Acl_Rejected (cv_connect_address v)] else []) @ [Close conn])
      else
        let (peers, keep, effects) = dedup X views own_ns conn (cs_peers s) in
        if \<not> keep then (s, effects)
        else
          (s\<lparr>cs_peers := peers @ [new_peer_info cfg now_ms conn v],
             cs_metrics := m\<lparr>nm_peers_connected_total := nm_peers_connected_total m + 1\<rparr>,
             cs_disconnected_peers := AList.delete peer_ns (cs_disconnected_peers s)\<rparr>,
           effects @ (if rl = Role_Peer then [On_Connect conn (cv_remote_address v), Announce_And_Sync conn] else [])))"

definition on_peer_disconnected ::
    "'t externals \<Rightarrow> (conn_id \<Rightarrow> conn_view) \<Rightarrow> u64 \<Rightarrow> conn_id \<Rightarrow> conn_state \<Rightarrow> conn_state \<times> conn_effect list" where
  "on_peer_disconnected X views now_ms conn s =
     (let was_client = (case find_peer conn (cs_peers s) of None \<Rightarrow> False | Some p \<Rightarrow> pi_role p = Role_Client);
          m = cs_metrics s in
      (s\<lparr>cs_peers := filter (\<lambda>p. pi_connection p \<noteq> conn) (cs_peers s),
         cs_metrics := m\<lparr>nm_peers_disconnected_total := nm_peers_disconnected_total m + 1\<rparr>,
         cs_disconnected_peers :=
           (if was_client then cs_disconnected_peers s
            else AList.update (sha3_256 X (cv_peer_pubkey (views conn))) now_ms (cs_disconnected_peers s))\<rparr>,
       [On_Disconnect conn]))"

section \<open>The announcement of namespaces\<close>

text \<open>\<open>announce_and_sync\<close>, cut at its suspensions: the send, the wait for the announcement of the peer, and
  the sync the initiator triggers.\<close>

datatype announce_pc = Announce_Sent | Announce_Wait | Announce_Triggered | Announce_Over

datatype announce_action = Announce_Send bytes | Announce_Sleep u32 | Announce_Trigger | Announce_Return

type_synonym announce_step = "announce_pc \<times> peer_info list \<times> announce_action"

definition announce_begin :: "bytes list \<Rightarrow> conn_id \<Rightarrow> peer_info list \<Rightarrow> announce_step" where
  "announce_begin sync_namespaces conn peers =
     (case find_peer conn peers of
        None \<Rightarrow> (Announce_Over, peers, Announce_Return)
      | Some _ \<Rightarrow> (Announce_Sent, peers, Announce_Send (encode_namespaces sync_namespaces)))"

definition announce_exchanged :: "conn_view \<Rightarrow> peer_info list \<Rightarrow> announce_step" where
  "announce_exchanged v peers =
     (if cv_is_initiator v then (Announce_Triggered, peers, Announce_Trigger)
      else (Announce_Over, peers, Announce_Return))"

definition announce_sent :: "conn_view \<Rightarrow> bool \<Rightarrow> conn_id \<Rightarrow> peer_info list \<Rightarrow> announce_step" where
  "announce_sent v ok conn peers =
     (if \<not> ok then (Announce_Over, peers, Announce_Return)
      else case find_peer conn peers of
        None \<Rightarrow> (Announce_Over, peers, Announce_Return)
      | Some peer \<Rightarrow>
          if \<not> pi_announce_received peer
          then (Announce_Wait, update_peer conn (\<lambda>p. p\<lparr>pi_announce_notify := True\<rparr>) peers, Announce_Sleep 5)
          else announce_exchanged v peers)"

definition announce_woken :: "conn_view \<Rightarrow> conn_id \<Rightarrow> peer_info list \<Rightarrow> announce_step" where
  "announce_woken v conn peers =
     (case find_peer conn peers of
        None \<Rightarrow> (Announce_Over, peers, Announce_Return)
      | Some _ \<Rightarrow> announce_exchanged v (update_peer conn (\<lambda>p. p\<lparr>pi_announce_notify := False\<rparr>) peers))"

section \<open>Strikes, trust and revocation\<close>

definition record_strike :: "conn_config \<Rightarrow> conn_id \<Rightarrow> peer_info list \<Rightarrow> peer_info list \<times> conn_effect list" where
  "record_strike cfg conn peers =
     (case find_peer conn peers of
        None \<Rightarrow> (peers, [])
      | Some peer \<Rightarrow>
          (update_peer conn (\<lambda>p. p\<lparr>pi_strike_count := pi_strike_count p + 1\<rparr>) peers,
           if pi_strike_count peer + 1 \<ge> cc_strike_threshold cfg then [Close_Gracefully conn] else []))"

text \<open>An IP address is a value of the network library, known by what the code asks of it.\<close>

definition is_trusted_address :: "('ip \<Rightarrow> bool) \<Rightarrow> ('ip \<Rightarrow> string) \<Rightarrow> conn_config \<Rightarrow> 'ip \<Rightarrow> bool" where
  "is_trusted_address is_loopback to_text cfg addr =
     (if is_loopback addr then True else to_text addr \<in> cc_trusted_peers cfg)"

definition disconnect_unauthorized_peers ::
    "'t externals \<Rightarrow> access_control \<Rightarrow> (conn_id \<Rightarrow> conn_view) \<Rightarrow> peer_info list \<Rightarrow> conn_effect list" where
  "disconnect_unauthorized_peers X acl views peers =
     map (\<lambda>p. Close (pi_connection p))
       (filter (\<lambda>p. \<not> role_allowed acl (pi_role p) (sha3_256 X (cv_peer_pubkey (views (pi_connection p))))) peers)"

section \<open>Keepalive\<close>

definition KEEPALIVE_TIMEOUT :: u64 where "KEEPALIVE_TIMEOUT = 60000"

text \<open>One round: the silent peers are closed, then the others get a \<open>Ping\<close>.  Times are milliseconds of the
  monotonic clock.\<close>

definition keepalive_round :: "u64 \<Rightarrow> (conn_id \<Rightarrow> u64) \<Rightarrow> peer_info list \<Rightarrow> conn_id list \<times> conn_id list" where
  "keepalive_round now last_recv_time peers =
     (let tcp_peers = map pi_connection (filter (\<lambda>p. pi_role p = Role_Peer) peers);
          to_close = filter (\<lambda>c. now - last_recv_time c > KEEPALIVE_TIMEOUT) tcp_peers in
      (to_close, filter (\<lambda>c. c \<notin> set to_close) tcp_peers))"

end
