(* ===== verification/Dispatcher.thy ===== *)
theory Dispatcher
  imports Query_Handlers Blob_Push Conn_Manager
begin

text \<open>
  \<open>db/peer/message_dispatcher.cpp\<close>: what a node does with a message.  \<open>on_peer_message\<close> runs to its end
  without a suspension; a handler it spawns is a task, whose segments are separate definitions that run
  later, on the state of that time.  The clock it reads is the monotonic one, in milliseconds.
\<close>

record dispatch_config =
  dc_rate_limit_bytes_per_sec :: u64
  dc_rate_limit_burst :: u64
  dc_max_subscriptions :: u32
  dc_blob_max_bytes :: u64

definition set_rate_limits :: "u64 \<Rightarrow> u64 \<Rightarrow> dispatch_config \<Rightarrow> dispatch_config" where
  "set_rate_limits bytes_per_sec burst cfg =
     cfg\<lparr>dc_rate_limit_bytes_per_sec := bytes_per_sec, dc_rate_limit_burst := burst\<rparr>"

definition set_max_subscriptions :: "u32 \<Rightarrow> dispatch_config \<Rightarrow> dispatch_config" where
  "set_max_subscriptions n cfg = cfg\<lparr>dc_max_subscriptions := n\<rparr>"

definition set_dispatch_blob_max_bytes :: "u64 \<Rightarrow> dispatch_config \<Rightarrow> dispatch_config" where
  "set_dispatch_blob_max_bytes n cfg = cfg\<lparr>dc_blob_max_bytes := n\<rparr>"

text \<open>What \<open>on_peer_message\<close> leaves for later.  A reply carries the id of the request.\<close>

datatype dispatch_task =
  Reply u32 message
| Run_Query u32 transport_msg_type bytes
| Run_Write u32 bytes
| Run_Delete u32 bytes
| Run_Fetch bytes
| Run_Fetch_Response bytes
| Sync_As_Responder
| Pex_As_Responder
| Disconnect

record dispatch_state =
  ds_peers :: "peer_info list"
  ds_metrics :: node_metrics
  ds_pending :: pending_fetches

section \<open>Rate limiting\<close>

definition try_consume_tokens :: "u64 \<Rightarrow> u64 \<Rightarrow> u64 \<Rightarrow> u64 \<Rightarrow> peer_info \<Rightarrow> bool \<times> peer_info" where
  "try_consume_tokens now_ms bytes_wanted rate_bytes_per_sec burst_bytes peer =
     (let max_elapsed = (burst_bytes * 1000) div rate_bytes_per_sec + 1;
          elapsed_ms = min (now_ms - pi_bucket_last_refill peer) max_elapsed;
          refill = (rate_bytes_per_sec * elapsed_ms) div 1000;
          tokens = min (pi_bucket_tokens peer + refill) burst_bytes;
          peer' = peer\<lparr>pi_bucket_tokens := tokens, pi_bucket_last_refill := now_ms\<rparr> in
      if bytes_wanted > tokens then (False, peer')
      else (True, peer'\<lparr>pi_bucket_tokens := tokens - bytes_wanted\<rparr>))"

text \<open>The accounting of every message: \<open>Inl\<close> ends the handling, \<open>Inr\<close> goes on to the routing.\<close>

definition account_message ::
    "dispatch_config \<Rightarrow> u64 \<Rightarrow> conn_id \<Rightarrow> transport_msg_type \<Rightarrow> bytes \<Rightarrow> dispatch_state
      \<Rightarrow> (dispatch_state \<times> dispatch_task list) + dispatch_state" where
  "account_message cfg now_ms conn type payload s =
     (if dc_rate_limit_bytes_per_sec cfg = 0 then Inr s
      else case find_peer conn (ds_peers s) of
        None \<Rightarrow> Inr s
      | Some peer \<Rightarrow>
          let (ok, peer') = try_consume_tokens now_ms (of_nat (length payload)) (dc_rate_limit_bytes_per_sec cfg)
                (dc_rate_limit_burst cfg) peer;
              s1 = s\<lparr>ds_peers := update_peer conn (\<lambda>_. peer') (ds_peers s)\<rparr>; m = ds_metrics s in
          if ok then Inr s1
          else if type = BlobWrite \<or> type = MsgDelete then
            Inl (s1\<lparr>ds_metrics := m\<lparr>nm_rate_limited := nm_rate_limited m + 1\<rparr>\<rparr>, [Disconnect])
          else if type = SyncRequest then
            Inl (s1\<lparr>ds_metrics := m\<lparr>nm_sync_rejections := nm_sync_rejections m + 1\<rparr>\<rparr>,
                 if pi_syncing peer' then [] else [Reply 0 (SyncRejected, [SYNC_REJECT_BYTE_RATE])])
          else Inr s1)"

section \<open>Messages handled in place\<close>

definition on_sync_request ::
    "sync_config \<Rightarrow> u64 \<Rightarrow> conn_id \<Rightarrow> dispatch_state \<Rightarrow> dispatch_state \<times> dispatch_task list" where
  "on_sync_request sy now_ms conn s =
     (case find_peer conn (ds_peers s) of
        None \<Rightarrow> (s, [])
      | Some peer \<Rightarrow>
          let m = ds_metrics s;
              s_rejected = s\<lparr>ds_metrics := m\<lparr>nm_sync_rejections := nm_sync_rejections m + 1\<rparr>\<rparr>;
              cooldown_ms = ucast (sy_sync_cooldown_seconds sy) * 1000 in
          if pi_syncing peer then (s_rejected, [])
          else if sy_sync_cooldown_seconds sy > 0 \<and> pi_last_sync_initiated peer > 0 \<and>
                  now_ms - pi_last_sync_initiated peer < cooldown_ms
          then (s_rejected, [Reply 0 (SyncRejected, [SYNC_REJECT_COOLDOWN])])
          else (s\<lparr>ds_peers := update_peer conn
                     (\<lambda>p. p\<lparr>pi_last_sync_initiated := now_ms, pi_sync_inbox := []\<rparr>) (ds_peers s)\<rparr>,
                [Sync_As_Responder]))"

definition on_peer_list_request ::
    "conn_id \<Rightarrow> bytes \<Rightarrow> dispatch_state \<Rightarrow> dispatch_state \<times> dispatch_task list" where
  "on_peer_list_request conn payload s =
     (case find_peer conn (ds_peers s) of
        None \<Rightarrow> (s, [])
      | Some peer \<Rightarrow>
          (s\<lparr>ds_peers := route_sync_message conn PeerListRequest payload (ds_peers s)\<rparr>,
           if pi_syncing peer then [] else [Pex_As_Responder]))"

text \<open>The cap in a \<open>NodeInfoResponse\<close>; \<open>None\<close> is a truncated message.\<close>

definition advertised_cap :: "bytes \<Rightarrow> u64 option" where
  "advertised_cap payload =
     (if length payload < 1 then None
      else
        let off = 1 + unat (payload ! 0) + (8 + 4 + 4 + 8 + 8 + 8) in
        if off + 8 > length payload then None else Some (read_u64_be_ptr (drop off payload)))"

definition on_node_info_response :: "conn_id \<Rightarrow> bytes \<Rightarrow> peer_info list \<Rightarrow> peer_info list" where
  "on_node_info_response conn payload peers =
     (case find_peer conn peers of
        None \<Rightarrow> peers
      | Some peer \<Rightarrow>
          if pi_role peer \<noteq> Role_Peer then peers
          else case advertised_cap payload of
            None \<Rightarrow> peers
          | Some cap \<Rightarrow> update_peer conn (\<lambda>p. p\<lparr>pi_advertised_blob_cap := cap\<rparr>) peers)"

definition on_subscribe ::
    "dispatch_config \<Rightarrow> conn_id \<Rightarrow> bytes \<Rightarrow> u32 \<Rightarrow> dispatch_state \<Rightarrow> dispatch_state \<times> dispatch_task list" where
  "on_subscribe cfg conn payload request_id s =
     (case find_peer conn (ds_peers s) of
        None \<Rightarrow> (s, [])
      | Some peer \<Rightarrow>
          let namespaces = decode_namespaces payload in
          if dc_max_subscriptions cfg > 0 \<and>
             length (pi_subscribed_namespaces peer) + length namespaces > unat (dc_max_subscriptions cfg)
          then (s, [Reply request_id (QuotaExceeded, [])])
          else (s\<lparr>ds_peers := update_peer conn
                     (\<lambda>p. p\<lparr>pi_subscribed_namespaces := fold List.insert namespaces (pi_subscribed_namespaces p)\<rparr>)
                     (ds_peers s)\<rparr>, []))"

definition on_unsubscribe :: "conn_id \<Rightarrow> bytes \<Rightarrow> peer_info list \<Rightarrow> peer_info list" where
  "on_unsubscribe conn payload peers =
     update_peer conn (\<lambda>p. p\<lparr>pi_subscribed_namespaces :=
         fold (\<lambda>ns. filter (\<lambda>s. s \<noteq> ns)) (decode_namespaces payload) (pi_subscribed_namespaces p)\<rparr>) peers"

definition on_namespace_announce :: "conn_id \<Rightarrow> bytes \<Rightarrow> peer_info list \<Rightarrow> peer_info list" where
  "on_namespace_announce conn payload peers =
     update_peer conn (\<lambda>p. p\<lparr>pi_announced_namespaces := fold List.insert (decode_namespaces payload) [],
         pi_announce_received := True\<rparr>) peers"

definition on_storage_full :: "conn_id \<Rightarrow> peer_info list \<Rightarrow> peer_info list" where
  "on_storage_full conn peers = update_peer conn (\<lambda>p. p\<lparr>pi_peer_is_full := True\<rparr>) peers"

text \<open>Messages of a running sync session go to its queue.\<close>

definition is_sync_message :: "transport_msg_type \<Rightarrow> bool" where
  "is_sync_message type \<longleftrightarrow>
     type = SyncAccept \<or> type = SyncRejected \<or> type = NamespaceList \<or> type = ReconcileInit \<or>
     type = ReconcileRanges \<or> type = ReconcileItems \<or> type = BlobRequest \<or> type = BlobTransfer \<or>
     type = SyncComplete \<or> type = PeerListResponse"

section \<open>Routing\<close>

definition strike_peer ::
    "conn_config \<Rightarrow> conn_id \<Rightarrow> dispatch_state \<Rightarrow> dispatch_state \<times> dispatch_task list" where
  "strike_peer cc conn s =
     (let (peers, effects) = record_strike cc conn (ds_peers s) in
      (s\<lparr>ds_peers := peers\<rparr>, if effects = [] then [] else [Disconnect]))"

definition route_message ::
    "'t externals \<Rightarrow> dispatch_config \<Rightarrow> sync_config \<Rightarrow> conn_config \<Rightarrow> io \<Rightarrow> u64 \<Rightarrow> 't storage \<Rightarrow> conn_id
      \<Rightarrow> transport_msg_type \<Rightarrow> bytes \<Rightarrow> u32 \<Rightarrow> dispatch_state \<Rightarrow> dispatch_state \<times> dispatch_task list" where
  "route_message X cfg sy cc env now_ms st conn type payload request_id s =
     (if type = SyncRequest then on_sync_request sy now_ms conn s
      else if type = PeerListRequest then on_peer_list_request conn payload s
      else if is_sync_message type then
        (s\<lparr>ds_peers := route_sync_message conn type payload (ds_peers s)\<rparr>, [])
      else if type = NodeInfoResponse then
        (s\<lparr>ds_peers := on_node_info_response conn payload (ds_peers s)\<rparr>, [])
      else if type = Subscribe then on_subscribe cfg conn payload request_id s
      else if type = Unsubscribe then (s\<lparr>ds_peers := on_unsubscribe conn payload (ds_peers s)\<rparr>, [])
      else if type = SyncNamespaceAnnounce then
        (s\<lparr>ds_peers := on_namespace_announce conn payload (ds_peers s)\<rparr>, [])
      else if type = BlobNotify then
        (let (sends, pending) = on_blob_notify X env st (ds_peers s) conn payload (ds_pending s) in
         (s\<lparr>ds_pending := pending\<rparr>, map (\<lambda>(_, m). Reply 0 m) sends))
      else if type = BlobFetch then (s, [Run_Fetch payload])
      else if type = BlobFetchResponse then (s, [Run_Fetch_Response payload])
      else if type = MsgDelete then (s, [Run_Delete request_id payload])
      else if type = StorageFull then (s\<lparr>ds_peers := on_storage_full conn (ds_peers s)\<rparr>, [])
      else if type = QuotaExceeded then (s, [])
      else if is_query type then (s, [Run_Query request_id type payload])
      else if type = BlobWrite then (s, [Run_Write request_id payload])
      else
        let (s1, tasks) = strike_peer cc conn s; m = ds_metrics s1 in
        (s1\<lparr>ds_metrics := m\<lparr>nm_error_responses := nm_error_responses m + 1\<rparr>\<rparr>,
         tasks @ [Reply request_id (send_error_response ERROR_UNKNOWN_TYPE type)]))"

definition on_peer_message ::
    "'t externals \<Rightarrow> dispatch_config \<Rightarrow> sync_config \<Rightarrow> conn_config \<Rightarrow> io \<Rightarrow> u64 \<Rightarrow> 't storage \<Rightarrow> conn_id
      \<Rightarrow> transport_msg_type \<Rightarrow> bytes \<Rightarrow> u32 \<Rightarrow> dispatch_state \<Rightarrow> dispatch_state \<times> dispatch_task list" where
  "on_peer_message X cfg sy cc env now_ms st conn type payload request_id s =
     (let s0 = s\<lparr>ds_peers := update_peer conn (\<lambda>p. p\<lparr>pi_last_message_time := now_ms\<rparr>) (ds_peers s)\<rparr> in
      case account_message cfg now_ms conn type payload s0 of
        Inl r \<Rightarrow> r
      | Inr s1 \<Rightarrow> route_message X cfg sy cc env now_ms st conn type payload request_id s1)"

section \<open>Writes\<close>

text \<open>The segment before \<open>ingest\<close> or \<open>delete_blob\<close>, the same code in both handlers: what the envelope holds, or
  why the engine is not called.\<close>

datatype write_request = Write_Malformed | Write_Filtered | Write_Accept bytes blob_data

definition read_envelope :: "'t externals \<Rightarrow> bytes list \<Rightarrow> bytes \<Rightarrow> write_request" where
  "read_envelope X sync_namespaces payload =
     (if \<not> fb_verify_blob_write_body X payload then Write_Malformed
      else
        let body = fb_get_blob_write_body X payload in
        case fw_target_namespace body of
          None \<Rightarrow> Write_Malformed
        | Some target_namespace \<Rightarrow>
            if length target_namespace \<noteq> 32 \<or> fw_blob body = None then Write_Malformed
            else case decode_blob_from_fb (fw_blob body) of
              Inl _ \<Rightarrow> Write_Malformed
            | Inr blob \<Rightarrow>
                if sync_namespaces \<noteq> [] \<and> target_namespace \<notin> set sync_namespaces then Write_Filtered
                else Write_Accept target_namespace blob)"

definition encode_ack :: "write_ack \<Rightarrow> bytes" where
  "encode_ack ack =
     ack_blob_hash ack @ store_u64_be (ack_seq_num ack) @ [if ack_status ack = Ingest_Stored then 0 else 1]"

definition error_code :: "ingest_error \<Rightarrow> byte" where
  "error_code e =
     (if e = Pubk_First_Violation then ERROR_PUBK_FIRST_VIOLATION
      else if e = Pubk_Mismatch_Error then ERROR_PUBK_MISMATCH
      else if e = Bomb_Ttl_Nonzero then ERROR_BOMB_TTL_NONZERO
      else if e = Bomb_Malformed then ERROR_BOMB_MALFORMED
      else if e = Bomb_Delegate_Not_Allowed then ERROR_BOMB_DELEGATE_NOT_ALLOWED
      else ERROR_VALIDATION_FAILED)"

text \<open>What follows \<open>ingest\<close>: messages and strikes, the blob to announce, and the metrics.  The counter of
  error responses is kept by the task.\<close>

definition write_done ::
    "bytes \<Rightarrow> blob_data \<Rightarrow> ingest_result \<Rightarrow> node_metrics \<Rightarrow> handled \<times> notification option \<times> node_metrics" where
  "write_done ns blob result m =
     (case (ir_accepted result, ir_ack result) of
        (True, Some ack) \<Rightarrow>
          (([(WriteAck, encode_ack ack)], 0),
           if ack_status ack = Ingest_Stored then Some (stored_notification ns blob ack None) else None,
           m\<lparr>nm_ingests := nm_ingests m + 1\<rparr>)
      | (True, None) \<Rightarrow> (([], 0), None, m\<lparr>nm_ingests := nm_ingests m + 1\<rparr>)
      | (False, _) \<Rightarrow>
          (case ir_error result of
             None \<Rightarrow> (([], 0), None, m)
           | Some e \<Rightarrow>
               let m1 = m\<lparr>nm_rejections := nm_rejections m + 1\<rparr> in
               if e = Storage_Full then (([(StorageFull, [])], 0), None, m1)
               else if e = Engine_Quota_Exceeded then
                 (([(QuotaExceeded, [])], 0), None, m1\<lparr>nm_quota_rejections := nm_quota_rejections m1 + 1\<rparr>)
               else if e = Timestamp_Rejected then (([], 0), None, m1)
               else (struck (error_code e) BlobWrite, None, m1)))"

definition delete_done ::
    "bytes \<Rightarrow> blob_data \<Rightarrow> ingest_result \<Rightarrow> handled \<times> notification option" where
  "delete_done ns blob result =
     (case (ir_accepted result, ir_ack result) of
        (True, Some ack) \<Rightarrow>
          (([(DeleteAck, encode_ack ack)], 0),
           if ack_status ack = Ingest_Stored
           then Some ((stored_notification ns blob ack None)\<lparr>nt_is_tombstone := True\<rparr>) else None)
      | _ \<Rightarrow>
          (case ir_error result of
             None \<Rightarrow> (([], 0), None)
           | Some e \<Rightarrow> (struck (error_code e) MsgDelete, None)))"

text \<open>The answer to a write as a whole, given what the engine makes of the blob.\<close>

definition answer_write ::
    "'t externals \<Rightarrow> bytes list \<Rightarrow> (bytes \<Rightarrow> blob_data \<Rightarrow> ingest_result) \<Rightarrow> bytes \<Rightarrow> node_metrics
      \<Rightarrow> handled \<times> notification option \<times> node_metrics" where
  "answer_write X sync_namespaces engine payload m =
     (case read_envelope X sync_namespaces payload of
        Write_Malformed \<Rightarrow> (struck ERROR_DECODE_FAILED BlobWrite, None, m)
      | Write_Filtered \<Rightarrow> (([], 0), None, m)
      | Write_Accept ns blob \<Rightarrow> write_done ns blob (engine ns blob) m)"

definition answer_delete ::
    "'t externals \<Rightarrow> bytes list \<Rightarrow> (bytes \<Rightarrow> blob_data \<Rightarrow> ingest_result) \<Rightarrow> bytes \<Rightarrow> handled \<times> notification option" where
  "answer_delete X sync_namespaces engine payload =
     (case read_envelope X sync_namespaces payload of
        Write_Malformed \<Rightarrow> (struck ERROR_DECODE_FAILED MsgDelete, None)
      | Write_Filtered \<Rightarrow> (([], 0), None)
      | Write_Accept ns blob \<Rightarrow> delete_done ns blob (engine ns blob))"

section \<open>The end of a handler\<close>

text \<open>The strikes of a handler, then its messages; every error response is counted.\<close>

definition finish_handler ::
    "conn_config \<Rightarrow> conn_id \<Rightarrow> u32 \<Rightarrow> handled \<Rightarrow> dispatch_state \<Rightarrow> dispatch_state \<times> dispatch_task list" where
  "finish_handler cc conn request_id h s =
     (let (replies, strikes) = h;
          (s1, tasks) = (if strikes = 0 then (s, []) else strike_peer cc conn s); m = ds_metrics s1;
          errors = length (filter (\<lambda>(type, _). type = ErrorResponse) replies) in
      (s1\<lparr>ds_metrics := m\<lparr>nm_error_responses := nm_error_responses m + of_nat errors\<rparr>\<rparr>,
       tasks @ map (Reply request_id) replies))"

definition run_query ::
    "'t externals \<Rightarrow> engine_config \<Rightarrow> conn_config \<Rightarrow> io \<Rightarrow> node_status \<Rightarrow> bool \<Rightarrow> 't storage \<Rightarrow> conn_id \<Rightarrow> u32
      \<Rightarrow> transport_msg_type \<Rightarrow> bytes \<Rightarrow> dispatch_state \<Rightarrow> dispatch_state \<times> dispatch_task list" where
  "run_query X ec cc env ns trusted st conn request_id type payload s =
     (case handle_query X ec env ns trusted (ds_peers s) st type payload of
        None \<Rightarrow> (s, [])
      | Some h \<Rightarrow>
          let (s1, tasks) = finish_handler cc conn request_id h s in
          (s1, tasks @ (if type = NodeInfoRequest
                        then map (Reply 0) (reciprocal_node_info_request (ds_peers s1) conn) else [])))"

end
