(* ===== verification/Query_Proof.thy ===== *)
theory Query_Proof
  imports Query_Handlers Engine_Props Storage_Namespaces
begin

text \<open>
  What a client can rely on when it queries a node: every query is answered once, what it reads is
  authentic, a batch is a prefix of what was asked, and the pages of the namespace list cover it.
\<close>

section \<open>One answer\<close>

definition answers :: "transport_msg_type \<Rightarrow> handled \<Rightarrow> bool" where
  "answers request h \<longleftrightarrow>
     (\<exists>body. h = ([(the (map_of response_types request), body)], 0)) \<or>
     (\<exists>code. h = ([(ErrorResponse, [code, msg_type_byte request])], 1))"

lemma answers_struck [simp]: "answers request (struck code request)"
  by (simp add: answers_def struck_def send_error_response_def)

lemma answers_answer [simp]: "map_of response_types request = Some type \<Longrightarrow> answers request (answer type body)"
  by (simp add: answers_def answer_def)

lemma answers_sized [simp]:
  "map_of response_types request = Some type \<Longrightarrow> answers request (sized_answer request type count width extra body)"
  by (simp add: sized_answer_def split: option.split)

lemma response_type [simp]:
  "map_of response_types ReadRequest = Some ReadResponse" "map_of response_types ListRequest = Some ListResponse"
  "map_of response_types StatsRequest = Some StatsResponse" "map_of response_types ExistsRequest = Some ExistsResponse"
  "map_of response_types NodeInfoRequest = Some NodeInfoResponse"
  "map_of response_types NamespaceListRequest = Some NamespaceListResponse"
  "map_of response_types StorageStatusRequest = Some StorageStatusResponse"
  "map_of response_types NamespaceStatsRequest = Some NamespaceStatsResponse"
  "map_of response_types MetadataRequest = Some MetadataResponse"
  "map_of response_types BatchExistsRequest = Some BatchExistsResponse"
  "map_of response_types DelegationListRequest = Some DelegationListResponse"
  "map_of response_types BatchReadRequest = Some BatchReadResponse"
  "map_of response_types PeerInfoRequest = Some PeerInfoResponse"
  "map_of response_types TimeRangeRequest = Some TimeRangeResponse"
  by (simp_all add: response_types_def)

lemma handlers_answer [simp]:
  "answers ReadRequest (handle_read_request X env st payload)"
  "answers ExistsRequest (handle_exists_request X env st payload)"
  "answers MetadataRequest (handle_metadata_request X env st payload)"
  "answers ListRequest (handle_list_request X env st payload)"
  "answers TimeRangeRequest (handle_time_range_request X env st payload)"
  "answers BatchExistsRequest (handle_batch_exists_request X env st payload)"
  "answers BatchReadRequest (handle_batch_read_request X env st payload)"
  "answers StatsRequest (handle_stats_request X cfg env st payload)"
  "answers NamespaceListRequest (handle_namespace_list_request X env st payload)"
  "answers NamespaceStatsRequest (handle_namespace_stats_request X cfg env st payload)"
  "answers DelegationListRequest (handle_delegation_list_request X env st payload)"
  "answers NodeInfoRequest (handle_node_info_request X env ns peers st)"
  "answers StorageStatusRequest (handle_storage_status_request X env ns st)"
  "answers PeerInfoRequest (handle_peer_info_request ns trusted peers)"
  by (simp_all add: handle_read_request_def handle_exists_request_def handle_metadata_request_def
      handle_list_request_def handle_time_range_request_def handle_batch_exists_request_def
      handle_batch_read_request_def handle_stats_request_def handle_namespace_list_request_def
      handle_namespace_stats_request_def handle_delegation_list_request_def handle_node_info_request_def
      handle_storage_status_request_def handle_peer_info_request_def Let_def split_beta split: sum.split option.split)

text \<open>C29: Every query is answered by exactly one message: one of the type that belongs to the request, or an
  error response that names the request, and only the error costs the sender a strike.  A type that is
  no query reaches none of these handlers.\<close>

theorem queries_answered:
  "case handle_query X cfg env ns trusted peers st type payload of
     None \<Rightarrow> \<not> is_query type
   | Some h \<Rightarrow> is_query type \<and>
       ((\<exists>body. h = ([(the (map_of response_types type), body)], 0)) \<or>
        (\<exists>code. h = ([(ErrorResponse, [code, msg_type_byte type])], 1)))"
  unfolding answers_def [symmetric]
  by (simp add: handle_query_def is_query_def response_types_def)

section \<open>Reading\<close>

text \<open>C30: Reading is exact and authentic: in every reachable state of a node the answer to a read request is the
  live blob of the namespace that has the requested hash, encoded so that it decodes to that blob, with
  the requested hash as its content hash and with a signature of the owner of the namespace or of a
  delegate; and it is the status "not found" if there is no such blob or it is expired.\<close>

theorem read_request_exact:
  assumes "externals X" and "node_reach X wf_io n" and "length ns = 32" and "length h = 32" and "\<not> io_read_fault env"
  shows "\<exists>body. handle_read_request X env (nd_storage n) (ns @ h) = ([(ReadResponse, body)], 0) \<and>
    (case lookup X (nd_storage n) ns h of
       None \<Rightarrow> body = [STATUS_NOT_FOUND]
     | Some b \<Rightarrow>
         if is_blob_expired b (io_now env) then body = [STATUS_NOT_FOUND]
         else \<exists>e. body = STATUS_FOUND # e \<and> decode_blob X e = Inr b \<and> blob_hash X e = h \<and> authorized X ns b)"
proof -
  have inv: "wf_storage X (nd_storage n)" "stored_ok X (nd_storage n)"
    using externals.node_reach_inv [OF assms(1,2)] by (simp_all add: node_inv_def)
  have "decode_blob X (encode_blob X b) = Inr b \<and> blob_hash X (encode_blob X b) = h \<and> authorized X ns b"
    if "lookup X (nd_storage n) ns h = Some b" for b
    using that inv assms(3) externals.lookup_wf [OF assms(1) inv(1) that] externals.decode_encode_blob [OF assms(1)]
    by (auto simp: stored_ok_def)
  then show ?thesis using assms(3-5)
    by (auto simp: handle_read_request_def extract_namespace_hash_def get_blob_lookup answer_def split: option.split)
qed

section \<open>Batches\<close>

definition batch_entry :: "'t externals \<Rightarrow> io \<Rightarrow> 't storage \<Rightarrow> bytes \<Rightarrow> bytes \<Rightarrow> bytes \<times> bytes option" where
  "batch_entry X env st ns h = (h, map_option (encode_blob X) (live_blob X env st ns h))"

definition batch_size :: "'t externals \<Rightarrow> io \<Rightarrow> 't storage \<Rightarrow> bytes \<Rightarrow> bytes list \<Rightarrow> nat" where
  "batch_size X env st ns hashes =
     sum_list (map (\<lambda>h. case live_blob X env st ns h of None \<Rightarrow> 0 | Some b \<Rightarrow> length (encode_blob X b)) hashes)"

lemma batch_size_Cons:
  "batch_size X env st ns (h # hs) =
    (case live_blob X env st ns h of None \<Rightarrow> 0 | Some b \<Rightarrow> length (encode_blob X b)) + batch_size X env st ns hs"
  by (simp add: batch_size_def)

lemma batch_read_prefix:
  assumes "unat cum + batch_size X env st ns hashes < 2 ^ 64" and "unat cum < unat cap"
  shows "\<exists>n \<le> length hashes. (hashes \<noteq> [] \<longrightarrow> 0 < n) \<and>
    batch_read_loop X env st ns cap cum hashes = (map (batch_entry X env st ns) (take n hashes), n < length hashes) \<and>
    (n < length hashes \<longrightarrow> unat cap \<le> unat cum + batch_size X env st ns (take n hashes)) \<and>
    (\<forall>k < n. unat cum + batch_size X env st ns (take k hashes) < unat cap)"
  using assms
proof (induction hashes arbitrary: cum)
  case (Cons h hs)
  show ?case
  proof (cases "live_blob X env st ns h")
    case None
    from Cons.IH [of cum] Cons.prems None obtain n where n: "n \<le> length hs"
      "batch_read_loop X env st ns cap cum hs = (map (batch_entry X env st ns) (take n hs), n < length hs)"
      "n < length hs \<longrightarrow> unat cap \<le> unat cum + batch_size X env st ns (take n hs)"
      "\<forall>k < n. unat cum + batch_size X env st ns (take k hs) < unat cap"
      by (auto simp: batch_size_Cons)
    show ?thesis
      by (rule exI [of _ "Suc n"]) (use n None Cons.prems in
        \<open>auto simp: batch_size_Cons batch_entry_def less_Suc_eq_0_disj batch_size_def\<close>)
  next
    case (Some b)
    let ?c = "cum + of_nat (length (encode_blob X b))"
    have c: "unat ?c = unat cum + length (encode_blob X b)"
      using Cons.prems(1) Some by (simp add: batch_size_Cons unat_word_ariths unat_of_nat)
    show ?thesis
    proof (cases "?c \<ge> cap")
      case True
      then have "unat cap \<le> unat cum + length (encode_blob X b)" using c by (simp add: word_le_nat_alt)
      with True Some Cons.prems show ?thesis
        by (intro exI [of _ 1]) (auto simp: batch_size_Cons batch_entry_def batch_size_def Let_def)
    next
      case False
      then have lt: "unat ?c < unat cap" by (simp add: word_le_nat_alt)
      from Cons.IH [OF _ lt] Cons.prems Some c obtain n where n: "n \<le> length hs"
        "batch_read_loop X env st ns cap ?c hs = (map (batch_entry X env st ns) (take n hs), n < length hs)"
        "n < length hs \<longrightarrow> unat cap \<le> unat ?c + batch_size X env st ns (take n hs)"
        "\<forall>k < n. unat ?c + batch_size X env st ns (take k hs) < unat cap"
        by (auto simp: batch_size_Cons)
      show ?thesis
        by (rule exI [of _ "Suc n"]) (use n Some False Cons.prems c in
          \<open>auto simp: batch_size_Cons batch_entry_def less_Suc_eq_0_disj batch_size_def Let_def\<close>)
    qed
  qed
qed simp

lemma request_hashes_concat:
  assumes "list_all (\<lambda>h. length h = 32) hashes" and "length pre = k"
  shows "request_hashes k (length hashes) (pre @ concat hashes) = hashes"
  using records_concat [of hashes 32 "[]"] assms
  by (simp add: request_hashes_def records_def list_all_iff)

text \<open>C31: A batch read answers a prefix of the hashes asked for, at least one of them, each with the live blob or
  as missing.  The prefix is all of them unless the blobs before its end fill the cap, and the cap is
  exceeded by the last blob only.\<close>

theorem batch_read_exact:
  assumes "length ns = 32" and "list_all (\<lambda>h. length h = 32) hashes" and "0 < length hashes" and "length hashes \<le> 256"
    and "0 < cap" and "cap \<le> MAX_CAP" and "batch_size X env st ns hashes < 2 ^ 64"
  shows "\<exists>n. 0 < n \<and> n \<le> length hashes \<and>
    handle_batch_read_request X env st (ns @ store_u32_be cap @ store_u32_be (of_nat (length hashes)) @ concat hashes) =
      ([(BatchReadResponse, (if n < length hashes then 1 else 0) # store_u32_be (of_nat n) @
          concat (map (\<lambda>h. encode_batch_entry (h, map_option (encode_blob X) (live_blob X env st ns h)))
            (take n hashes)))], 0) \<and>
    (n < length hashes \<longrightarrow> unat cap \<le> batch_size X env st ns (take n hashes)) \<and>
    batch_size X env st ns (take (n - 1) hashes) < unat cap"
proof -
  define c where "c = (of_nat (length hashes) :: u32)"
  have c: "unat c = length hashes" using assms(4) by (simp add: c_def unat_of_nat)
  then have c0: "c \<noteq> 0" "\<not> c > 256" using assms(3,4) by (auto simp: word_less_nat_alt)
  have "unat cap < 2 ^ 32" by (rule order_less_le_trans [OF unsigned_less]) simp
  then have cap: "unat (ucast cap :: u64) = unat cap" "cap \<noteq> 0" "\<not> cap > MAX_CAP"
    using assms(5,6) by (auto simp: unsigned_ucast_eq take_bit_nat_eq_self)
  let ?p = "ns @ store_u32_be cap @ store_u32_be c @ concat hashes"
  have len: "length (concat hashes) = length hashes * 32"
    using assms(2) by (induction hashes) simp_all
  have flds: "take 32 ?p = ns" "read_u32_be_ptr (drop 32 ?p) = cap" "read_u32_be_ptr (drop 36 ?p) = c"
    "length ?p = 40 + length hashes * 32"
    using assms(1) len by (simp_all add: wire_simps del: read_u32_be_ptr_eq)
  have hs: "request_hashes 40 (unat c) ?p = hashes"
    using request_hashes_concat [OF assms(2), of "ns @ store_u32_be cap @ store_u32_be c" 40] assms(1)
    by (simp add: c wire_simps del: read_u32_be_ptr_eq)
  obtain n where n: "n \<le> length hashes" "0 < n"
    "batch_read_loop X env st ns (ucast cap) 0 hashes = (map (batch_entry X env st ns) (take n hashes), n < length hashes)"
    "n < length hashes \<longrightarrow> unat cap \<le> batch_size X env st ns (take n hashes)"
    "\<forall>k < n. batch_size X env st ns (take k hashes) < unat cap"
    using batch_read_prefix [of 0 X env st ns hashes "ucast cap"] assms(3,5,7) cap by (auto simp: word_less_nat_alt)
  have "handle_batch_read_request X env st ?p =
      ([(BatchReadResponse, (if n < length hashes then 1 else 0) # store_u32_be (of_nat n) @
          concat (map (\<lambda>h. encode_batch_entry (batch_entry X env st ns h)) (take n hashes)))], 0)"
    unfolding handle_batch_read_request_def Let_def flds hs
    using c c0 cap n(1,3) by (simp add: answer_def comp_def min_absorb2)
  with n show ?thesis unfolding batch_entry_def c_def by auto
qed

section \<open>Pages of namespaces\<close>

text \<open>A client that asks for the next page after the last namespace it has seen.\<close>

fun all_pages :: "'t externals \<Rightarrow> io \<Rightarrow> 't storage \<Rightarrow> nat \<Rightarrow> nat \<Rightarrow> bytes \<Rightarrow> (bytes \<times> u64) list" where
  "all_pages X env st limit 0 after_ns = []"
| "all_pages X env st limit (Suc k) after_ns =
     (let (entries, more) = namespace_page X env st after_ns limit in
      entries @ (if more then all_pages X env st limit k (fst (last entries)) else []))"

lemma dropWhile_after:
  fixes ids :: "'a \<Rightarrow> bytes"
  assumes "sorted_wrt (<) (map ids xs)" and "j < length xs"
  shows "dropWhile (\<lambda>x. \<not> ids (xs ! j) < ids x) xs = drop (Suc j) xs"
proof -
  have "\<not> ids (xs ! j) < ids (xs ! i)" if "i \<le> j" for i
    using sorted_wrt_nth_less [OF assms(1), of i j] that assms(2) by (cases "i = j") auto
  then have "\<forall>x \<in> set (take (Suc j) xs). \<not> ids (xs ! j) < ids x"
    using assms(2) by (auto simp: in_set_conv_nth)
  moreover have "dropWhile (\<lambda>x. \<not> ids (xs ! j) < ids x) (drop (Suc j) xs) = drop (Suc j) xs"
    using sorted_wrt_nth_less [OF assms(1), of j "Suc j"] by (cases "Suc j < length xs") (auto simp: Cons_nth_drop_Suc [symmetric])
  ultimately show ?thesis
    using dropWhile_append2 [of "take (Suc j) xs" "\<lambda>x. \<not> ids (xs ! j) < ids x" "drop (Suc j) xs"]
    by (metis append_take_drop_id)
qed

lemma all_pages_from:
  assumes infos: "all_namespaces X env st = infos" "sorted_wrt (<) (map ni_namespace_id infos)"
    and zero: "replicate 32 0 \<notin> set (map ni_namespace_id infos)" and limit: "0 < limit"
    and k: "if k = 0 then after_ns = replicate 32 0 else k \<le> length infos \<and> after_ns = ni_namespace_id (infos ! (k - 1))"
    and fuel: "length infos - k \<le> fuel"
  shows "all_pages X env st limit fuel after_ns =
    map (\<lambda>i. (ni_namespace_id i, nq_blob_count (get_namespace_quota X env st (ni_namespace_id i)))) (drop k infos)"
    (is "_ = map ?f _")
  using k fuel
proof (induction fuel arbitrary: k after_ns)
  case 0
  then show ?case by simp
next
  case (Suc fuel)
  have srt: "sort_key ni_namespace_id infos = infos"
    using strict_sorted_imp_sorted [OF infos(2)] by (rule sort_key_id_if_sorted)
  have rest: "(if after_ns = replicate 32 0 then infos else dropWhile (\<lambda>i. \<not> after_ns < ni_namespace_id i) infos) = drop k infos"
  proof (cases "k = 0")
    case False
    then have "after_ns \<in> set (map ni_namespace_id infos)" using Suc.prems(1) by auto
    then have "after_ns \<noteq> replicate 32 0" using zero by blast
    moreover have "k - 1 < length infos" "Suc (k - 1) = k" "after_ns = ni_namespace_id (infos ! (k - 1))"
      using Suc.prems(1) False by auto
    ultimately show ?thesis using dropWhile_after [OF infos(2), of "k - 1"] by simp
  qed (use Suc.prems(1) in simp)
  let ?rest = "drop (k + limit) infos"
  have page: "namespace_page X env st after_ns limit = (map ?f (take limit (drop k infos)), ?rest \<noteq> [])"
    unfolding namespace_page_def Let_def infos(1) srt rest by (simp add: add.commute)
  show ?case
  proof (cases "?rest = []")
    case True
    then show ?thesis using page by simp
  next
    case False
    then have "k + limit < length infos" by simp
    then have "last (map ?f (take limit (drop k infos))) = ?f (infos ! (k + limit - 1))"
      using limit by (subst last_conv_nth) (auto simp: nth_append min_def)
    moreover have "all_pages X env st limit fuel (ni_namespace_id (infos ! (k + limit - 1))) = map ?f ?rest"
      using Suc.prems limit \<open>k + limit < length infos\<close> by (intro Suc.IH) auto
    moreover have "drop k infos = take limit (drop k infos) @ ?rest"
      using append_take_drop_id [of limit "drop k infos"] by (simp add: add.commute)
    then have "map ?f (drop k infos) = map ?f (take limit (drop k infos)) @ map ?f ?rest" by (metis map_append)
    ultimately show ?thesis using page False by simp
  qed
qed


end
