(* ===== verification/Dispatcher_Proof.thy ===== *)
theory Dispatcher_Proof
  imports Dispatcher Query_Proof
begin

text \<open>
  Properties of the dispatcher over sequences of messages from any number of connections: the rate
  limit holds, subscriptions stay within their limit, and a write that is acknowledged can be read.
\<close>

section \<open>Peers under updates\<close>

lemma map_find_update_peer:
  assumes "\<And>p. pi_connection (f p) = pi_connection p" and "\<And>p. g (f p) = g p"
  shows "map_option g (find_peer c (update_peer conn f ps)) = map_option g (find_peer c ps)"
  using assms by (induction ps) auto

lemma list_all_update_peer: "list_all P ps \<Longrightarrow> (\<And>p. P p \<Longrightarrow> P (f p)) \<Longrightarrow> list_all P (update_peer conn f ps)"
  by (induction ps) auto

lemma find_peer_all: "list_all P ps \<Longrightarrow> find_peer conn ps = Some p \<Longrightarrow> P p"
  by (induction ps) (auto split: if_splits)

section \<open>The token bucket\<close>

lemma unat_add_le: "unat (a + b :: 'a::len word) \<le> unat a + unat b"
  by (simp add: unat_word_ariths)

lemma unat_mult_le: "unat (a * b :: 'a::len word) \<le> unat a * unat b"
  by (simp add: unat_word_ariths)

lemma unat_min: "unat (min a b :: 'a::len word) = min (unat a) (unat b)"
  by (simp add: min_def word_le_nat_alt)

text \<open>However large the rate and the burst are, the arithmetic of the bucket never grants more than the rate
  allows: where it wraps around, it grants less.\<close>

lemma try_consume_tokens_bound:
  assumes "try_consume_tokens now wanted rate burst p = (ok, p')" and "pi_bucket_last_refill p \<le> now"
  shows "1000 * ((if ok then unat wanted else 0) + unat (pi_bucket_tokens p')) \<le>
      1000 * unat (pi_bucket_tokens p) + unat rate * (unat now - unat (pi_bucket_last_refill p))"
    and "pi_bucket_last_refill p' = now" and "pi_bucket_tokens p' \<le> burst"
proof -
  define elapsed where "elapsed = min (now - pi_bucket_last_refill p) ((burst * 1000) div rate + 1)"
  define refill where "refill = (rate * elapsed) div 1000"
  define tokens where "tokens = min (pi_bucket_tokens p + refill) burst"
  have r: "(ok, p') = (if wanted > tokens then (False, p\<lparr>pi_bucket_tokens := tokens, pi_bucket_last_refill := now\<rparr>)
      else (True, p\<lparr>pi_bucket_tokens := tokens - wanted, pi_bucket_last_refill := now\<rparr>))"
    using assms(1) unfolding try_consume_tokens_def Let_def elapsed_def [symmetric] refill_def [symmetric] tokens_def [symmetric]
    by (auto split: if_splits)
  have "unat elapsed \<le> unat now - unat (pi_bucket_last_refill p)"
    using assms(2) by (simp add: elapsed_def unat_min unat_sub word_le_nat_alt)
  then have e: "unat rate * unat elapsed \<le> unat rate * (unat now - unat (pi_bucket_last_refill p))" by simp
  have f: "1000 * unat refill \<le> unat rate * unat elapsed"
    using unat_mult_le [of rate elapsed] by (simp add: refill_def unat_div)
  have t: "unat tokens \<le> unat (pi_bucket_tokens p) + unat refill"
    using unat_add_le [of "pi_bucket_tokens p" refill] by (simp add: tokens_def unat_min)
  have w: "(if ok then unat wanted else 0) + unat (pi_bucket_tokens p') = unat tokens"
    using r by (auto simp: unat_sub word_le_nat_alt not_less split: if_splits)
  show "1000 * ((if ok then unat wanted else 0) + unat (pi_bucket_tokens p')) \<le>
      1000 * unat (pi_bucket_tokens p) + unat rate * (unat now - unat (pi_bucket_last_refill p))"
    unfolding w using t order_trans [OF f e] by (simp only: distrib_left [symmetric] mult_le_mono2 add_mono)
  show "pi_bucket_last_refill p' = now" using r by (auto split: if_splits)
  have "tokens \<le> burst" by (simp add: tokens_def)
  moreover have "tokens - wanted \<le> tokens" if "\<not> wanted > tokens"
    using that by (simp add: word_le_nat_alt unat_sub not_less)
  ultimately show "pi_bucket_tokens p' \<le> burst" using r by (auto split: if_splits intro: order_trans)
qed

section \<open>Sequences of messages\<close>

record 't incoming =
  in_conn :: conn_id
  in_env :: io
  in_now :: u64
  in_storage :: "'t storage"
  in_type :: transport_msg_type
  in_payload :: bytes
  in_request_id :: u32

definition receive ::
    "'t externals \<Rightarrow> dispatch_config \<Rightarrow> sync_config \<Rightarrow> conn_config \<Rightarrow> 't incoming \<Rightarrow> dispatch_state
      \<Rightarrow> dispatch_state \<times> dispatch_task list" where
  "receive X cfg sy cc i s =
     on_peer_message X cfg sy cc (in_env i) (in_now i) (in_storage i) (in_conn i) (in_type i) (in_payload i)
       (in_request_id i) s"

text \<open>The state after a sequence of messages, and the tasks each of them started.\<close>

fun receive_all ::
    "'t externals \<Rightarrow> dispatch_config \<Rightarrow> sync_config \<Rightarrow> conn_config \<Rightarrow> 't incoming list \<Rightarrow> dispatch_state
      \<Rightarrow> dispatch_state \<times> (conn_id \<times> dispatch_task list) list" where
  "receive_all X cfg sy cc [] s = (s, [])"
| "receive_all X cfg sy cc (i # is) s =
     (let (s1, tasks) = receive X cfg sy cc i s; (s2, rest) = receive_all X cfg sy cc is s1 in
      (s2, (in_conn i, tasks) # rest))"

fun written :: "dispatch_task \<Rightarrow> nat" where
  "written (Run_Write _ payload) = length payload"
| "written (Run_Delete _ payload) = length payload"
| "written _ = 0"

definition written_by :: "conn_id \<Rightarrow> (conn_id \<times> dispatch_task list) list \<Rightarrow> nat" where
  "written_by conn log = sum_list (map (\<lambda>(c, tasks). if c = conn then sum_list (map written tasks) else 0) log)"

definition bucket :: "peer_info \<Rightarrow> u64 \<times> u64" where
  "bucket p = (pi_bucket_tokens p, pi_bucket_last_refill p)"

lemmas route_defs = route_message_def on_sync_request_def on_peer_list_request_def on_node_info_response_def
  on_subscribe_def on_unsubscribe_def on_namespace_announce_def on_storage_full_def strike_peer_def
  record_strike_def route_sync_message_def

lemma route_keeps_bucket:
  "map_option bucket (find_peer c (ds_peers (fst (route_message X cfg sy cc env now st conn type payload rid s)))) =
   map_option bucket (find_peer c (ds_peers s))"
  by (auto simp: route_defs Let_def split_beta map_find_update_peer bucket_def split: option.splits)

lemma route_written:
  "sum_list (map written (snd (route_message X cfg sy cc env now st conn type payload rid s))) =
    (if type = BlobWrite \<or> type = MsgDelete then length payload else 0)"
proof -
  have "sum_list (map written (map (\<lambda>(_, m). Reply 0 m) (sends :: sends))) = 0" for sends
    by (induction sends) auto
  moreover have "\<not> is_sync_message BlobWrite" "\<not> is_query BlobWrite" "\<not> is_sync_message MsgDelete"
    by (simp_all add: is_sync_message_def is_query_def response_types_def)
  ultimately show ?thesis
    by (auto simp: route_message_def on_sync_request_def on_peer_list_request_def on_subscribe_def strike_peer_def
        Let_def split_beta split: option.split)
qed

lemma receive_cases:
  obtains (stopped) r where "account_message cfg (in_now i) (in_conn i) (in_type i) (in_payload i)
      (s\<lparr>ds_peers := update_peer (in_conn i) (\<lambda>p. p\<lparr>pi_last_message_time := in_now i\<rparr>) (ds_peers s)\<rparr>) = Inl r"
    "receive X cfg sy cc i s = r"
  | (routed) s1 where "account_message cfg (in_now i) (in_conn i) (in_type i) (in_payload i)
      (s\<lparr>ds_peers := update_peer (in_conn i) (\<lambda>p. p\<lparr>pi_last_message_time := in_now i\<rparr>) (ds_peers s)\<rparr>) = Inr s1"
    "receive X cfg sy cc i s = route_message X cfg sy cc (in_env i) (in_now i) (in_storage i) (in_conn i) (in_type i)
       (in_payload i) (in_request_id i) s1"
  by (cases "account_message cfg (in_now i) (in_conn i) (in_type i) (in_payload i)
      (s\<lparr>ds_peers := update_peer (in_conn i) (\<lambda>p. p\<lparr>pi_last_message_time := in_now i\<rparr>) (ds_peers s)\<rparr>)")
    (simp_all add: receive_def on_peer_message_def)

lemma try_consume_connection:
  "pi_connection (snd (try_consume_tokens now wanted rate burst p)) = pi_connection p"
  by (simp add: try_consume_tokens_def Let_def)

lemma find_update_const:
  assumes "find_peer conn ps = Some p" and "pi_connection p' = conn"
  shows "find_peer c (update_peer conn (\<lambda>_. p') ps) = (if c = conn then Some p' else find_peer c ps)"
  using assms by (induction ps) (auto split: if_splits)

text \<open>What accounting does to the bucket of the sender, and to the others.\<close>

lemma account_bucket:
  assumes "0 < dc_rate_limit_bytes_per_sec cfg" and "find_peer conn (ds_peers s) = Some p"
    and r: "try_consume_tokens now (of_nat (length payload)) (dc_rate_limit_bytes_per_sec cfg) (dc_rate_limit_burst cfg) p = (ok, p')"
  shows "account_message cfg now conn type payload s = Inl (s1, tasks) \<Longrightarrow>
      find_peer c (ds_peers s1) = (if c = conn then Some p' else find_peer c (ds_peers s)) \<and> sum_list (map written tasks) = 0"
    and "account_message cfg now conn type payload s = Inr s1 \<Longrightarrow>
      find_peer c (ds_peers s1) = (if c = conn then Some p' else find_peer c (ds_peers s)) \<and>
      (ok \<or> type \<noteq> BlobWrite \<and> type \<noteq> MsgDelete)"
proof -
  have "pi_connection p' = conn"
    using try_consume_connection [of now _ "dc_rate_limit_bytes_per_sec cfg" "dc_rate_limit_burst cfg" p] r find_peer_connection [OF assms(2)]
    by (metis snd_conv)
  note f = find_update_const [OF assms(2) this]
  show "account_message cfg now conn type payload s = Inl (s1, tasks) \<Longrightarrow>
      find_peer c (ds_peers s1) = (if c = conn then Some p' else find_peer c (ds_peers s)) \<and> sum_list (map written tasks) = 0"
    using assms f by (auto simp: account_message_def Let_def split: if_splits)
  show "account_message cfg now conn type payload s = Inr s1 \<Longrightarrow>
      find_peer c (ds_peers s1) = (if c = conn then Some p' else find_peer c (ds_peers s)) \<and>
      (ok \<or> type \<noteq> BlobWrite \<and> type \<noteq> MsgDelete)"
    using assms f by (auto simp: account_message_def Let_def split: if_splits)
qed

lemma account_others:
  assumes "c \<noteq> conn"
  shows "account_message cfg now conn type payload s = Inl (s1, tasks) \<Longrightarrow>
      map_option bucket (find_peer c (ds_peers s1)) = map_option bucket (find_peer c (ds_peers s))"
    and "account_message cfg now conn type payload s = Inr s1 \<Longrightarrow>
      map_option bucket (find_peer c (ds_peers s1)) = map_option bucket (find_peer c (ds_peers s))"
proof -
  have "find_peer c (update_peer conn (\<lambda>_. p') (ds_peers s)) = find_peer c (ds_peers s)"
    if "find_peer conn (ds_peers s) = Some p" "pi_connection p' = pi_connection p" for p p'
    using find_update_const [OF that(1)] that find_peer_connection [OF that(1)] assms by simp
  note k = this [OF _ trans [OF try_consume_connection refl]]
  show "account_message cfg now conn type payload s = Inl (s1, tasks) \<Longrightarrow>
      map_option bucket (find_peer c (ds_peers s1)) = map_option bucket (find_peer c (ds_peers s))"
    using k by (auto simp: account_message_def Let_def split_beta split: if_splits option.splits)
  show "account_message cfg now conn type payload s = Inr s1 \<Longrightarrow>
      map_option bucket (find_peer c (ds_peers s1)) = map_option bucket (find_peer c (ds_peers s))"
    using k by (auto simp: account_message_def Let_def split_beta split: if_splits option.splits)
qed

lemma touched_bucket:
  "map_option bucket (find_peer c (update_peer conn (\<lambda>p. p\<lparr>pi_last_message_time := now\<rparr>) ps)) =
    map_option bucket (find_peer c ps)"
  by (rule map_find_update_peer) (simp_all add: bucket_def)

lemma receive_other:
  assumes "c \<noteq> in_conn i"
  shows "map_option bucket (find_peer c (ds_peers (fst (receive X cfg sy cc i s)))) = map_option bucket (find_peer c (ds_peers s))"
proof (cases rule: receive_cases [of cfg i s X sy cc])
  case (stopped r)
  obtain s1 tasks where r: "r = (s1, tasks)" by (meson surj_pair)
  from account_others(1) [OF assms stopped(1) [unfolded r]] show ?thesis
    by (simp add: stopped(2) r touched_bucket)
next
  case (routed s1)
  then show ?thesis using account_others(2) [OF assms routed(1)] touched_bucket by (simp add: route_keeps_bucket)
qed

lemma receive_own:
  assumes rate: "0 < dc_rate_limit_bytes_per_sec cfg" and len: "length (in_payload i) < 2 ^ 64"
    and p: "map_option bucket (find_peer (in_conn i) (ds_peers s)) = Some (tokens, refilled)" and t: "refilled \<le> in_now i"
    and r: "receive X cfg sy cc i s = (s', tasks)"
  shows "\<exists>tokens'. map_option bucket (find_peer (in_conn i) (ds_peers s')) = Some (tokens', in_now i) \<and>
    1000 * (sum_list (map written tasks) + unat tokens') \<le>
      1000 * unat tokens + unat (dc_rate_limit_bytes_per_sec cfg) * (unat (in_now i) - unat refilled)"
proof -
  let ?s0 = "s\<lparr>ds_peers := update_peer (in_conn i) (\<lambda>p. p\<lparr>pi_last_message_time := in_now i\<rparr>) (ds_peers s)\<rparr>"
  obtain p where q: "find_peer (in_conn i) (ds_peers ?s0) = Some p" "bucket p = (tokens, refilled)"
    using touched_bucket [of "in_conn i" "in_conn i" "in_now i" "ds_peers s"] p by auto
  obtain ok p' where c: "try_consume_tokens (in_now i) (of_nat (length (in_payload i))) (dc_rate_limit_bytes_per_sec cfg)
      (dc_rate_limit_burst cfg) p = (ok, p')" by (meson surj_pair)
  have "refilled = pi_bucket_last_refill p" "tokens = pi_bucket_tokens p" using q(2) by (simp_all add: bucket_def)
  moreover have "unat (of_nat (length (in_payload i)) :: u64) = length (in_payload i)"
    using len by (simp add: unat_of_nat)
  ultimately have b: "bucket p' = (pi_bucket_tokens p', in_now i)"
    "1000 * ((if ok then length (in_payload i) else 0) + unat (pi_bucket_tokens p')) \<le>
      1000 * unat tokens + unat (dc_rate_limit_bytes_per_sec cfg) * (unat (in_now i) - unat refilled)"
    using try_consume_tokens_bound(1,2) [OF c] t by (simp_all add: bucket_def split: if_splits)
  have k: "map_option bucket (find_peer (in_conn i) (ds_peers s')) = Some (bucket p') \<and>
      sum_list (map written tasks) \<le> (if ok then length (in_payload i) else 0)"
  proof (cases rule: receive_cases [of cfg i s X sy cc])
    case (stopped x)
    then have "account_message cfg (in_now i) (in_conn i) (in_type i) (in_payload i) ?s0 = Inl (s', tasks)" using r by simp
    from account_bucket(1) [OF rate q(1) c this, of "in_conn i"]
    have "find_peer (in_conn i) (ds_peers s') = Some p'" "sum_list (map written tasks) = 0" by simp_all
    then show ?thesis by (metis le0 option.map(2))
  next
    case (routed s1)
    from account_bucket(2) [OF rate q(1) c routed(1), of "in_conn i"] have
      a: "find_peer (in_conn i) (ds_peers s1) = Some p'" "ok \<or> in_type i \<noteq> BlobWrite \<and> in_type i \<noteq> MsgDelete" by simp_all
    let ?r = "route_message X cfg sy cc (in_env i) (in_now i) (in_storage i) (in_conn i) (in_type i) (in_payload i) (in_request_id i) s1"
    have "?r = (s', tasks)" using routed(2) r by simp
    with route_keeps_bucket [of "in_conn i" X cfg sy cc "in_env i" "in_now i" "in_storage i" "in_conn i" "in_type i" "in_payload i" "in_request_id i" s1]
      route_written [of X cfg sy cc "in_env i" "in_now i" "in_storage i" "in_conn i" "in_type i" "in_payload i" "in_request_id i" s1]
    show ?thesis using a by auto
  qed
  then have "1000 * (sum_list (map written tasks) + unat (pi_bucket_tokens p')) \<le>
      1000 * ((if ok then length (in_payload i) else 0) + unat (pi_bucket_tokens p'))" by simp
  from order_trans [OF this b(2)] k show ?thesis unfolding b(1) by blast
qed

lemma written_by_Cons: "written_by c ((c', ts) # log) = (if c' = c then sum_list (map written ts) else 0) + written_by c log"
  by (simp add: written_by_def)

lemma receive_all_bound:
  assumes rate: "0 < dc_rate_limit_bytes_per_sec cfg" and len: "list_all (\<lambda>i. length (in_payload i) < 2 ^ 64) is"
    and p: "map_option bucket (find_peer conn (ds_peers s)) = Some (tokens, refilled)"
    and t: "sorted (refilled # map in_now (filter (\<lambda>i. in_conn i = conn) is) @ [finish])"
  shows "1000 * written_by conn (snd (receive_all X cfg sy cc is s)) \<le>
    1000 * unat tokens + unat (dc_rate_limit_bytes_per_sec cfg) * (unat finish - unat refilled)"
  using len p t
proof (induction "is" arbitrary: s tokens refilled)
  case (Cons i "is")
  obtain s1 tasks where r: "receive X cfg sy cc i s = (s1, tasks)" by (meson surj_pair)
  show ?case
  proof (cases "in_conn i = conn")
    case False
    then have "map_option bucket (find_peer conn (ds_peers s1)) = Some (tokens, refilled)"
      using receive_other [of conn i X cfg sy cc s] r Cons.prems(2) by simp
    then show ?thesis using Cons.IH [of s1 tokens refilled] Cons.prems False
      by (simp add: r split_beta written_by_Cons)
  next
    case True
    then obtain tokens' where k: "map_option bucket (find_peer conn (ds_peers s1)) = Some (tokens', in_now i)"
      "1000 * (sum_list (map written tasks) + unat tokens') \<le>
        1000 * unat tokens + unat (dc_rate_limit_bytes_per_sec cfg) * (unat (in_now i) - unat refilled)"
      using receive_own [OF rate _ _ _ r, of tokens refilled] Cons.prems by auto
    have i: "1000 * written_by conn (snd (receive_all X cfg sy cc is s1)) \<le>
        1000 * unat tokens' + unat (dc_rate_limit_bytes_per_sec cfg) * (unat finish - unat (in_now i))"
      using Cons.IH [OF _ k(1)] Cons.prems True by simp
    have "refilled \<le> in_now i" "in_now i \<le> finish" using Cons.prems(3) True by auto
    then have "unat refilled \<le> unat (in_now i)" "unat (in_now i) \<le> unat finish" by (simp_all add: word_le_nat_alt)
    then have "unat finish - unat refilled = (unat (in_now i) - unat refilled) + (unat finish - unat (in_now i))" by simp
    with k(2) i show ?thesis using True by (simp add: r split_beta written_by_Cons add_mult_distrib2)
  qed
qed (simp add: written_by_def)

text \<open>C33: The rate limit holds for every connection: whatever messages arrive, from whatever connections, the
  writes and deletions that a connection gets through to their handlers until a time \<open>finish\<close> amount to at
  most the tokens it has now and those its rate accrues until then, for any rate and burst.\<close>

theorem write_rate_bounded:
  assumes "0 < dc_rate_limit_bytes_per_sec cfg" and "list_all (\<lambda>i. length (in_payload i) < 2 ^ 64) is"
    and "find_peer conn (ds_peers s) = Some p"
    and "sorted (pi_bucket_last_refill p # map in_now (filter (\<lambda>i. in_conn i = conn) is) @ [finish])"
  shows "1000 * written_by conn (snd (receive_all X cfg sy cc is s)) \<le>
    1000 * unat (pi_bucket_tokens p) +
    unat (dc_rate_limit_bytes_per_sec cfg) * (unat finish - unat (pi_bucket_last_refill p))"
  using receive_all_bound [OF assms(1,2) _ assms(4)] assms(3) by (simp add: bucket_def)

section \<open>Subscriptions\<close>

definition subs_ok :: "dispatch_config \<Rightarrow> peer_info \<Rightarrow> bool" where
  "subs_ok cfg p \<longleftrightarrow>
     distinct (pi_subscribed_namespaces p) \<and> length (pi_subscribed_namespaces p) \<le> unat (dc_max_subscriptions cfg)"

lemma subs_ok_update [simp]:
  "subs_ok cfg (p\<lparr>pi_sync_inbox := a\<rparr>) = subs_ok cfg p"
  "subs_ok cfg (p\<lparr>pi_last_sync_initiated := t\<rparr>) = subs_ok cfg p"
  "subs_ok cfg (p\<lparr>pi_advertised_blob_cap := t\<rparr>) = subs_ok cfg p"
  "subs_ok cfg (p\<lparr>pi_announced_namespaces := n\<rparr>) = subs_ok cfg p"
  "subs_ok cfg (p\<lparr>pi_announce_received := b\<rparr>) = subs_ok cfg p"
  "subs_ok cfg (p\<lparr>pi_peer_is_full := b\<rparr>) = subs_ok cfg p"
  "subs_ok cfg (p\<lparr>pi_strike_count := k\<rparr>) = subs_ok cfg p"
  "subs_ok cfg (p\<lparr>pi_last_message_time := t\<rparr>) = subs_ok cfg p"
  "subs_ok cfg (p\<lparr>pi_bucket_tokens := t\<rparr>) = subs_ok cfg p"
  "subs_ok cfg (p\<lparr>pi_bucket_last_refill := t\<rparr>) = subs_ok cfg p"
  by (simp_all add: subs_ok_def)

lemma fold_insert_distinct: "distinct xs \<Longrightarrow> distinct (fold List.insert ys xs)"
  by (induction ys arbitrary: xs) simp_all

lemma fold_insert_length: "length (fold List.insert ys xs) \<le> length xs + length ys"
proof (induction ys arbitrary: xs)
  case (Cons y ys)
  from this [of "List.insert y xs"] show ?case by (simp add: List.insert_def split: if_splits)
qed simp

lemma fold_remove_ok:
  "distinct xs \<Longrightarrow> distinct (fold (\<lambda>n. filter (\<lambda>s. s \<noteq> n)) ys xs)"
  "length (fold (\<lambda>n. filter (\<lambda>s. s \<noteq> n)) ys xs) \<le> length xs"
proof -
  show "distinct xs \<Longrightarrow> distinct (fold (\<lambda>n. filter (\<lambda>s. s \<noteq> n)) ys xs)"
    by (induction ys arbitrary: xs) simp_all
  show "length (fold (\<lambda>n. filter (\<lambda>s. s \<noteq> n)) ys xs) \<le> length xs"
  proof (induction ys arbitrary: xs)
    case (Cons y ys)
    from order_trans [OF this [of "filter (\<lambda>s. s \<noteq> y) xs"] length_filter_le] show ?case by simp
  qed simp
qed

lemma list_all_update_found:
  "list_all P ps \<Longrightarrow> find_peer conn ps = Some p \<Longrightarrow> P (f p) \<Longrightarrow> list_all P (update_peer conn f ps)"
  by (induction ps) (auto split: if_splits)

lemma subscribe_ok:
  assumes "0 < dc_max_subscriptions cfg" and "list_all (subs_ok cfg) (ds_peers s)"
  shows "list_all (subs_ok cfg) (ds_peers (fst (on_subscribe cfg conn payload rid s)))"
proof (cases "find_peer conn (ds_peers s)")
  case (Some p)
  then have "subs_ok cfg p" using find_peer_all [OF assms(2)] by simp
  then show ?thesis using Some assms
    by (auto simp: on_subscribe_def Let_def subs_ok_def fold_insert_distinct
        intro!: list_all_update_found [where p = p] order_trans [OF fold_insert_length])
qed (use assms in \<open>simp add: on_subscribe_def\<close>)

lemma route_subs_ok:
  assumes "0 < dc_max_subscriptions cfg" and "list_all (subs_ok cfg) (ds_peers s)"
  shows "list_all (subs_ok cfg) (ds_peers (fst (route_message X cfg sy cc env now st conn type payload rid s)))"
proof -
  have "subs_ok cfg p \<Longrightarrow> subs_ok cfg (p\<lparr>pi_subscribed_namespaces :=
      fold (\<lambda>n. filter (\<lambda>s. s \<noteq> n)) ns (pi_subscribed_namespaces p)\<rparr>)" for p ns
    using fold_remove_ok(2) [of ns "pi_subscribed_namespaces p"] by (simp add: subs_ok_def fold_remove_ok(1))
  then show ?thesis using assms(2) subscribe_ok [OF assms, of conn payload rid]
    by (simp add: route_message_def on_sync_request_def on_peer_list_request_def on_node_info_response_def
        on_unsubscribe_def on_namespace_announce_def on_storage_full_def strike_peer_def record_strike_def
        route_sync_message_def Let_def split_beta list_all_update_peer split: option.split)
qed

lemma account_subs_ok:
  assumes "list_all (subs_ok cfg) (ds_peers s)"
  shows "account_message cfg now conn type payload s = Inl (s1, tasks) \<Longrightarrow> list_all (subs_ok cfg) (ds_peers s1)"
    and "account_message cfg now conn type payload s = Inr s1 \<Longrightarrow> list_all (subs_ok cfg) (ds_peers s1)"
proof -
  have u: "list_all (subs_ok cfg) (update_peer conn (\<lambda>_. snd (try_consume_tokens a b c d p)) (ds_peers s))"
    if "find_peer conn (ds_peers s) = Some p" for a b c d p
    using find_peer_all [OF assms that] assms that
    by (simp add: try_consume_tokens_def Let_def list_all_update_found [where p = p])
  show "account_message cfg now conn type payload s = Inl (s1, tasks) \<Longrightarrow> list_all (subs_ok cfg) (ds_peers s1)"
    using assms u by (auto simp: account_message_def Let_def split_beta split: if_splits option.splits)
  show "account_message cfg now conn type payload s = Inr s1 \<Longrightarrow> list_all (subs_ok cfg) (ds_peers s1)"
    using assms u by (auto simp: account_message_def Let_def split_beta split: if_splits option.splits)
qed

lemma receive_subs_ok:
  assumes "0 < dc_max_subscriptions cfg" and "list_all (subs_ok cfg) (ds_peers s)"
  shows "list_all (subs_ok cfg) (ds_peers (fst (receive X cfg sy cc i s)))"
proof -
  let ?s0 = "s\<lparr>ds_peers := update_peer (in_conn i) (\<lambda>p. p\<lparr>pi_last_message_time := in_now i\<rparr>) (ds_peers s)\<rparr>"
  have s0: "list_all (subs_ok cfg) (ds_peers ?s0)"
    using assms(2) by (simp add: list_all_update_peer)
  show ?thesis
  proof (cases rule: receive_cases [of cfg i s X sy cc])
    case (stopped r)
    obtain s1 tasks where r: "r = (s1, tasks)" by (meson surj_pair)
    show ?thesis using account_subs_ok(1) [OF s0 stopped(1) [unfolded r]] stopped(2) r by simp
  next
    case (routed s1)
    show ?thesis using route_subs_ok [OF assms(1) account_subs_ok(2) [OF s0 routed(1)]] routed(2) by simp
  qed
qed

text \<open>C34: The limit on subscriptions is an invariant: after any messages, from any connections, no connection
  is subscribed to more namespaces than the limit, or to one of them twice.\<close>

theorem subscriptions_bounded:
  assumes "0 < dc_max_subscriptions cfg"
    and "\<forall>p \<in> set (ds_peers s). distinct (pi_subscribed_namespaces p) \<and>
      length (pi_subscribed_namespaces p) \<le> unat (dc_max_subscriptions cfg)"
  shows "\<forall>p \<in> set (ds_peers (fst (receive_all X cfg sy cc is s))). distinct (pi_subscribed_namespaces p) \<and>
      length (pi_subscribed_namespaces p) \<le> unat (dc_max_subscriptions cfg)"
proof -
  have "list_all (subs_ok cfg) (ds_peers s)" using assms(2) by (simp add: list_all_iff subs_ok_def)
  then have "list_all (subs_ok cfg) (ds_peers (fst (receive_all X cfg sy cc is s)))"
  proof (induction "is" arbitrary: s)
    case (Cons i "is")
    show ?case using Cons.IH [OF receive_subs_ok [OF assms(1) Cons.prems]] by (simp add: split_beta)
  qed simp
  then show ?thesis by (simp add: list_all_iff subs_ok_def)
qed

section \<open>The advertised blob size\<close>

text \<open>C35: A peer learns the limit a node has: the cap read from a \<open>NodeInfoResponse\<close> is the size limit of the node
  that sent it, and it is what the peer list then holds for that connection.\<close>

theorem blob_cap_round_trip:
  assumes "length (ns_version ns) < 256" and "find_peer conn peers = Some p" and "pi_role p = Role_Peer"
  shows "advertised_cap (node_info_response X env ns count st) = Some (ns_blob_max_bytes ns) \<and>
    find_peer conn (on_node_info_response conn (node_info_response X env ns count st) peers) =
      Some (p\<lparr>pi_advertised_blob_cap := ns_blob_max_bytes ns\<rparr>)"
proof -
  let ?v = "string_bytes (ns_version ns)"
  have v: "length ?v = length (ns_version ns)" by (simp add: string_bytes_def)
  obtain mid tail where r: "node_info_response X env ns count st =
      of_nat (length (ns_version ns)) # ?v @ mid @ be_bytes 8 (unat (ns_blob_max_bytes ns)) @ tail" "length mid = 40"
    by (rule that [of "store_u64_be (ns_uptime ns) @ store_u32_be (of_nat count) @
          store_u32_be (of_nat (length (all_namespaces X env st))) @ store_u64_be (total_blobs (all_namespaces X env st)) @
          store_u64_be (ns_used_data_bytes ns) @ store_u64_be (ns_max_storage_bytes ns)"
        "store_u32_be (of_nat MAX_FRAME_SIZE) @ store_u64_be (ns_rate_limit_bytes_per_sec ns) @
          store_u32_be (ns_max_subscriptions ns) @ [of_nat (length supported_types)] @ supported_types"])
      (simp_all add: node_info_response_def Let_def store_u64_be_eq store_u32_be_eq)
  have "unat (of_nat (length (ns_version ns)) :: byte) = length ?v" using assms(1) v by (simp add: unat_of_nat)
  then have "advertised_cap (node_info_response X env ns count st) = Some (ns_blob_max_bytes ns)"
    using r(2) by (simp add: r(1) advertised_cap_def Let_def drop_Cons')
  with assms(2,3) show ?thesis by (simp add: on_node_info_response_def find_update_peer)
qed

section \<open>Writing and reading back\<close>

context externals
begin

lemma read_envelope_encode:
  assumes "length ns = 32" and "wf_blob b" and "nss = [] \<or> ns \<in> set nss"
  shows "read_envelope X nss (encode_blob_write_envelope X ns b) = Write_Accept ns b"
  using assms by (auto simp: read_envelope_def encode_blob_write_envelope_def fw.write_verify fw.write_get Let_def
      decode_blob_from_fb_def wf_blob_def)

end

text \<open>C25: What is acknowledged can be read: if a node, in any state it can reach, answers the envelope of a blob
  with a \<open>WriteAck\<close> that says "stored", then a read request for the namespace and the hash in the
  acknowledgement is answered with exactly this blob, as long as it has not expired.\<close>

theorem acknowledged_write_reads_back:
  assumes "externals X" and "node_reach X wf_io n" and "\<forall>i k. wf_io (envs i k)"
    and "length ns = 32" and "wf_blob b" and "nss = [] \<or> ns \<in> set nss"
    and "ingest X (nd_config n) envs ns b src (nd_storage n) = (Ingest_Done r, st')"
    and "answer_write X nss (\<lambda>_ _. r) (encode_blob_write_envelope X ns b) m = (([(WriteAck, ack)], k), note, m')"
    and "last ack = 0" and "\<not> io_read_fault env" and "\<not> is_blob_expired b (io_now env)"
  shows "handle_read_request X env st' (ns @ take 32 ack) = ([(ReadResponse, STATUS_FOUND # encode_blob X b)], 0) \<and>
    decode_blob X (encode_blob X b) = Inr b \<and> take 32 ack = blob_hash X (encode_blob X b)"
proof -
  have "node_inv X n" by (rule externals.node_reach_inv [OF assms(1,2)])
  then have out: "outcome X ns b (nd_storage n) r st'"
    using externals.ingest_outcome [OF assms(1) _ _ _ assms(4,5,7)] assms(3) by (simp add: node_inv_def)
  have "write_done ns b r m = (([(WriteAck, ack)], k), note, m')"
    using assms(8) externals.read_envelope_encode [OF assms(1,4-6)] by (simp add: answer_write_def)
  then obtain a where a: "ir_ack r = Some a" "ack = encode_ack a"
    by (auto simp: write_done_def struck_def send_error_response_def Let_def split: bool.splits option.splits if_splits)
  have s: "ack_status a = Ingest_Stored" using assms(9) a(2) by (auto simp: encode_ack_def split: if_splits)
  have h: "ack_blob_hash a = blob_hash X (encode_blob X b)" "lookup X st' ns (ack_blob_hash a) = Some b"
    using out a(1) s by (auto simp: outcome_def)
  have l: "length (ack_blob_hash a) = 32" using h(1) externals.length_blob_hash [OF assms(1)] by simp
  then have "take 32 ack = ack_blob_hash a" using a(2) by (simp add: encode_ack_def)
  then show ?thesis
    using assms(4,10,11) l h externals.decode_encode_blob [OF assms(1,5)]
    by (simp add: handle_read_request_def extract_namespace_hash_def get_blob_lookup answer_def)
qed

end
