(* ===== verification/Conn_Proof.thy ===== *)
theory Conn_Proof
  imports Conn_Manager
begin

text \<open>
  Who is connected: the access control list holds for every connected peer, and two nodes that have
  connected to each other at once keep the same connection.
\<close>

section \<open>Duplicates\<close>

lemma split_first_None: "split_first P xs = None \<longleftrightarrow> (\<forall>x \<in> set xs. \<not> P x)"
  by (induction xs) auto

lemma split_first_Some: "split_first P xs = Some (y, ys) \<Longrightarrow> P y \<and> (\<exists>us vs. xs = us @ y # vs \<and> ys = us @ vs \<and> (\<forall>u \<in> set us. \<not> P u))"
proof (induction xs arbitrary: ys)
  case (Cons x xs)
  show ?case
  proof (cases "P x")
    case True
    then show ?thesis using Cons.prems by (intro conjI exI [of _ "[]"] exI [of _ xs]) auto
  next
    case False
    then obtain zs where z: "split_first P xs = Some (y, zs)" "ys = x # zs" using Cons.prems by auto
    from Cons.IH [OF z(1)] obtain us vs where "P y" "xs = us @ y # vs" "zs = us @ vs" "\<forall>u \<in> set us. \<not> P u" by blast
    then show ?thesis using False z(2) by (intro conjI exI [of _ "x # us"] exI [of _ vs]) auto
  qed
qed simp

lemma split_first_append:
  "\<forall>x \<in> set xs. \<not> P x \<Longrightarrow> P y \<Longrightarrow> split_first P (xs @ y # ys) = Some (y, xs @ ys)"
  by (induction xs) auto

definition links_to :: "'t externals \<Rightarrow> (conn_id \<Rightarrow> conn_view) \<Rightarrow> bytes \<Rightarrow> peer_info list \<Rightarrow> conn_id list" where
  "links_to X views peer_ns peers =
     map pi_connection (filter (\<lambda>p. sha3_256 X (cv_peer_pubkey (views (pi_connection p))) = peer_ns) peers)"

definition connect_all ::
    "'t externals \<Rightarrow> conn_config \<Rightarrow> access_control \<Rightarrow> (conn_id \<Rightarrow> conn_view) \<Rightarrow> u64 \<Rightarrow> bytes \<Rightarrow> conn_id list
      \<Rightarrow> conn_state \<Rightarrow> conn_state" where
  "connect_all X cfg acl views now own_ns conns s =
     fold (\<lambda>c s. fst (on_peer_connected X cfg acl views now own_ns c s)) conns s"

lemma links_to_Nil: "links_to X views k peers = [] \<longleftrightarrow>
    (\<forall>p \<in> set peers. sha3_256 X (cv_peer_pubkey (views (pi_connection p))) \<noteq> k)"
  by (simp add: links_to_def filter_empty_conv)

lemma connect_first:
  assumes "connection_role (views c) = Role_Peer" and "sha3_256 X (cv_peer_pubkey (views c)) = k"
    and "is_peer_allowed acl k" and "links_to X views k (cs_peers s) = []"
  shows "cs_peers (fst (on_peer_connected X cfg acl views now own c s)) = cs_peers s @ [new_peer_info cfg now c (views c)]"
proof -
  have "split_first (\<lambda>p. sha3_256 X (cv_peer_pubkey (views (pi_connection p))) = k) (cs_peers s) = None"
    using assms(4) by (simp add: split_first_None links_to_Nil)
  then show ?thesis using assms(1-3) by (simp add: on_peer_connected_def Let_def role_allowed_def dedup_def)
qed

lemma connect_second:
  assumes r: "connection_role (views c) = Role_Peer" "sha3_256 X (cv_peer_pubkey (views c)) = k" "is_peer_allowed acl k"
    and p: "cs_peers s = ps @ [p]" "links_to X views k ps = []" "sha3_256 X (cv_peer_pubkey (views (pi_connection p))) = k"
  shows "links_to X views k (cs_peers (fst (on_peer_connected X cfg acl views now own c s))) =
    [if keep_new own k (cv_is_initiator (views c)) then c else pi_connection p]"
proof -
  have "split_first (\<lambda>p. sha3_256 X (cv_peer_pubkey (views (pi_connection p))) = k) (cs_peers s) = Some (p, ps)"
    using p split_first_append [of ps "\<lambda>p. sha3_256 X (cv_peer_pubkey (views (pi_connection p))) = k" p "[]"]
    by (simp add: links_to_Nil)
  moreover have "links_to X views k (ps @ [q]) = [pi_connection q]"
    if "sha3_256 X (cv_peer_pubkey (views (pi_connection q))) = k" for q
    using p(2) that by (simp add: links_to_def)
  ultimately show ?thesis using r p by (simp add: on_peer_connected_def Let_def role_allowed_def dedup_def new_peer_info_def)
qed

lemma connect_both:
  assumes "connection_role (views c) = Role_Peer" "sha3_256 X (cv_peer_pubkey (views c)) = k"
    and "connection_role (views d) = Role_Peer" "sha3_256 X (cv_peer_pubkey (views d)) = k"
    and "is_peer_allowed acl k" and "links_to X views k (cs_peers s) = []"
  shows "links_to X views k (cs_peers (connect_all X cfg acl views now own [c, d] s)) =
    [if keep_new own k (cv_is_initiator (views d)) then d else c]"
proof -
  have "cs_peers (fst (on_peer_connected X cfg acl views now own c s)) = cs_peers s @ [new_peer_info cfg now c (views c)]"
    by (rule connect_first) fact+
  from connect_second [OF assms(3-5) this assms(6)] assms(2) show ?thesis
    by (simp add: connect_all_def new_peer_info_def)
qed

text \<open>C26: Simultaneous connections: if each of two nodes has initiated a connection to the other, and each comes
  to know of both, in whatever order, then both nodes keep one of the two, and the same one.\<close>

theorem duplicate_connections_agree:
  assumes "a = sha3_256 X pkA" and "b = sha3_256 X pkB" and "a \<noteq> b"
    and "\<forall>c \<in> {cA, cB}. connection_role (viewsA c) = Role_Peer \<and> cv_peer_pubkey (viewsA c) = pkB \<and>
      cv_is_initiator (viewsA c) = (c = cA)"
    and "\<forall>c \<in> {cA, cB}. connection_role (viewsB c) = Role_Peer \<and> cv_peer_pubkey (viewsB c) = pkA \<and>
      cv_is_initiator (viewsB c) = (c = cB)"
    and "cA \<noteq> cB" and "is_peer_allowed aclA b" and "is_peer_allowed aclB a"
    and "links_to X viewsA b (cs_peers sA) = []" and "links_to X viewsB a (cs_peers sB) = []"
    and "orderA \<in> {[cA, cB], [cB, cA]}" and "orderB \<in> {[cA, cB], [cB, cA]}"
  shows "\<exists>c \<in> {cA, cB}.
    links_to X viewsA b (cs_peers (connect_all X cfgA aclA viewsA nowA a orderA sA)) = [c] \<and>
    links_to X viewsB a (cs_peers (connect_all X cfgB aclB viewsB nowB b orderB sB)) = [c]"
proof -
  have "links_to X viewsA b (cs_peers (connect_all X cfgA aclA viewsA nowA a orderA sA)) = [if a < b then cA else cB]"
    using assms(1-4,6,7,9,11) by (auto simp: connect_both keep_new_def)
  moreover have "links_to X viewsB a (cs_peers (connect_all X cfgB aclB viewsB nowB b orderB sB)) = [if a < b then cA else cB]"
    using assms(1-3,5,6,8,10,12) by (auto simp: connect_both keep_new_def)
  ultimately show ?thesis by auto
qed

section \<open>Access control\<close>

text \<open>Connections come and go, and the list is reloaded; a reload closes the connections it revokes, and each
  of them is then reported as disconnected.\<close>

datatype conn_op = Op_Connect conn_id | Op_Disconnect conn_id | Op_Strike conn_id | Op_Reload access_control

fun closed_conns :: "conn_effect list \<Rightarrow> conn_id list" where
  "closed_conns [] = []"
| "closed_conns (Close c # es) = c # closed_conns es"
| "closed_conns (_ # es) = closed_conns es"

fun run_op ::
    "'t externals \<Rightarrow> conn_config \<Rightarrow> (conn_id \<Rightarrow> conn_view) \<Rightarrow> u64 \<Rightarrow> bytes \<Rightarrow> conn_op
      \<Rightarrow> access_control \<times> conn_state \<Rightarrow> access_control \<times> conn_state" where
  "run_op X cfg views now own (Op_Connect c) (acl, s) = (acl, fst (on_peer_connected X cfg acl views now own c s))"
| "run_op X cfg views now own (Op_Disconnect c) (acl, s) = (acl, fst (on_peer_disconnected X views now c s))"
| "run_op X cfg views now own (Op_Strike c) (acl, s) = (acl, s\<lparr>cs_peers := fst (record_strike cfg c (cs_peers s))\<rparr>)"
| "run_op X cfg views now own (Op_Reload acl') (acl, s) =
     (acl', fold (\<lambda>c s. fst (on_peer_disconnected X views now c s))
        (closed_conns (disconnect_unauthorized_peers X acl' views (cs_peers s))) s)"

definition permitted :: "'t externals \<Rightarrow> access_control \<Rightarrow> (conn_id \<Rightarrow> conn_view) \<Rightarrow> peer_info \<Rightarrow> bool" where
  "permitted X acl views p \<longleftrightarrow> role_allowed acl (pi_role p) (sha3_256 X (cv_peer_pubkey (views (pi_connection p))))"

lemma dedup_subset: "set (fst (dedup X views own c ps)) \<subseteq> set ps"
  by (auto simp: dedup_def Let_def dest!: split_first_Some split: option.split)

lemma connect_permitted:
  assumes "\<forall>p \<in> set (cs_peers s). permitted X acl views p"
  shows "\<forall>p \<in> set (cs_peers (fst (on_peer_connected X cfg acl views now own c s))). permitted X acl views p"
  using assms dedup_subset [of X views own c "cs_peers s"]
  by (auto simp: on_peer_connected_def Let_def split_beta new_peer_info_def permitted_def)

lemma closed_conns_map: "closed_conns (map (\<lambda>p. Close (f p)) ps) = map f ps"
  by (induction ps) simp_all

lemma disconnect_peers:
  "cs_peers (fold (\<lambda>c s. fst (on_peer_disconnected X views now c s)) cs s) =
    filter (\<lambda>p. pi_connection p \<notin> set cs) (cs_peers s)"
  by (induction cs arbitrary: s) (auto simp: on_peer_disconnected_def Let_def intro: filter_cong)

lemma strike_permitted:
  assumes "\<forall>p \<in> set ps. permitted X acl views p"
  shows "\<forall>p \<in> set (fst (record_strike cfg c ps)). permitted X acl views p"
proof -
  have "\<forall>p \<in> set (update_peer c (\<lambda>p. p\<lparr>pi_strike_count := pi_strike_count p + 1\<rparr>) ps). permitted X acl views p"
    using assms by (induction ps) (auto simp: permitted_def)
  then show ?thesis using assms by (simp add: record_strike_def split: option.split)
qed


section \<open>Observations\<close>

text \<open>The search for a duplicate does not look at roles: a client that uses the key of a peer is taken for the
  duplicate, it is closed in place of the peer's connection, and two connections to the peer remain.\<close>

theorem client_taken_for_duplicate:
  assumes "connection_role (views c) = Role_Peer" and "sha3_256 X (cv_peer_pubkey (views c)) = k" and "is_peer_allowed acl k"
    and "cs_peers s = [client, peer]" and "pi_role client = Role_Client"
    and "\<forall>p \<in> {client, peer}. sha3_256 X (cv_peer_pubkey (views (pi_connection p))) = k"
    and "keep_new own k (cv_is_initiator (views c))" and "cv_connect_address (views (pi_connection client)) = []"
  shows "\<exists>effects. on_peer_connected X cfg acl views now own c s =
      (s\<lparr>cs_peers := [peer, new_peer_info cfg now c (views c)],
         cs_metrics := (cs_metrics s)\<lparr>nm_peers_connected_total := nm_peers_connected_total (cs_metrics s) + 1\<rparr>,
         cs_disconnected_peers := AList.delete k (cs_disconnected_peers s)\<rparr>, Close (pi_connection client) # effects)"
  using assms by (simp add: on_peer_connected_def Let_def role_allowed_def dedup_def delay_closed_def)

text \<open>A connection that is refused is counted as a disconnection twice: when it is refused, and when its
  closed socket is reported.\<close>

theorem refusal_counted_twice:
  assumes "\<not> role_allowed acl (connection_role (views c)) (sha3_256 X (cv_peer_pubkey (views c)))"
    and "on_peer_connected X cfg acl views now own c s = (s1, effects)"
  shows "Close c \<in> set effects \<and>
    nm_peers_disconnected_total (cs_metrics (fst (on_peer_disconnected X views now c s1))) =
      nm_peers_disconnected_total (cs_metrics s) + 2 \<and>
    nm_peers_connected_total (cs_metrics (fst (on_peer_disconnected X views now c s1))) =
      nm_peers_connected_total (cs_metrics s)"
  using assms by (auto simp: on_peer_connected_def on_peer_disconnected_def Let_def)

end
