(* ===== verification/Reconnect.thy ===== *)
theory Reconnect
  imports Conn_Manager
begin

text \<open>
  \<open>db/net/server.cpp\<close>: accepting and making connections, and reconnecting with backoff.  Name
  resolution, the connection attempt and the run of a connection are events with their outcome; the
  coroutines \<open>connect_to_peer\<close> and \<open>reconnect_loop\<close> are cut there.  Sockets, options and log lines are left
  out.  The jitter is drawn by the caller.
\<close>

record reconnect_state =
  rs_delay_sec :: int
  rs_acl_rejection_count :: int

definition ACL_REJECTION_THRESHOLD :: int where "ACL_REJECTION_THRESHOLD = 3"
definition EXTENDED_BACKOFF_SEC :: int where "EXTENDED_BACKOFF_SEC = 600"
definition MAX_BACKOFF_SEC :: int where "MAX_BACKOFF_SEC = 60"

record server =
  sv_connections :: "conn_id list"
  sv_draining :: bool
  sv_started :: bool
  sv_exit_code :: int
  sv_reconnect_state :: "(string \<times> reconnect_state) list"

definition new_server :: server where
  "new_server = \<lparr>sv_connections = [], sv_draining = False, sv_started = False, sv_exit_code = 0, sv_reconnect_state = []\<rparr>"

definition parse_address :: "string \<Rightarrow> string \<times> string" where
  "parse_address addr =
     (case rfind CHR '':'' addr of
        None \<Rightarrow> (addr, ''4200'')
      | Some colon \<Rightarrow> (take colon addr, drop (colon + 1) addr))"

section \<open>The state of an address\<close>

text \<open>\<open>reconnect_state_[address]\<close> makes an entry with the default values if there is none.\<close>

definition default_reconnect :: reconnect_state where
  "default_reconnect = \<lparr>rs_delay_sec = 1, rs_acl_rejection_count = 0\<rparr>"

definition reconnect_at :: "string \<Rightarrow> server \<Rightarrow> reconnect_state" where
  "reconnect_at address sv =
     (case map_of (sv_reconnect_state sv) address of None \<Rightarrow> default_reconnect | Some s \<Rightarrow> s)"

definition put_reconnect :: "string \<Rightarrow> reconnect_state \<Rightarrow> server \<Rightarrow> server" where
  "put_reconnect address s sv = sv\<lparr>sv_reconnect_state := AList.update address s (sv_reconnect_state sv)\<rparr>"

definition ensure_reconnect :: "string \<Rightarrow> server \<Rightarrow> server" where
  "ensure_reconnect address sv = put_reconnect address (reconnect_at address sv) sv"

definition double_delay :: "string \<Rightarrow> server \<Rightarrow> server" where
  "double_delay address sv =
     (let s = reconnect_at address sv in
      put_reconnect address (s\<lparr>rs_delay_sec := min (rs_delay_sec s * 2) MAX_BACKOFF_SEC\<rparr>) sv)"

definition notify_acl_rejected :: "string \<Rightarrow> server \<Rightarrow> server" where
  "notify_acl_rejected address sv =
     (let s = reconnect_at address sv; n = rs_acl_rejection_count s + 1 in
      put_reconnect address
        \<lparr>rs_delay_sec = (if n \<ge> ACL_REJECTION_THRESHOLD then EXTENDED_BACKOFF_SEC else rs_delay_sec s),
         rs_acl_rejection_count = n\<rparr> sv)"

text \<open>Both cancel timers of sleeping loops: all of them, and the one of the address.\<close>

definition clear_reconnect_state :: "server \<Rightarrow> server" where
  "clear_reconnect_state sv = sv\<lparr>sv_reconnect_state := []\<rparr>"

definition stop_reconnect :: "string \<Rightarrow> server \<Rightarrow> server" where
  "stop_reconnect address sv = sv\<lparr>sv_reconnect_state := AList.delete address (sv_reconnect_state sv)\<rparr>"

definition delay_reconnect :: "string \<Rightarrow> server \<Rightarrow> server" where
  "delay_reconnect address sv =
     (case map_of (sv_reconnect_state sv) address of
        None \<Rightarrow> sv
      | Some s \<Rightarrow> put_reconnect address (s\<lparr>rs_delay_sec := MAX_BACKOFF_SEC\<rparr>) sv)"

section \<open>The loop\<close>

datatype loop_pc = Loop_Sleeping | Loop_Resolving | Loop_Connecting | Loop_Running int | Loop_Exit

datatype loop_action = Loop_Sleep int | Loop_Resolve string string | Loop_Dial | Loop_Run | Loop_Return

datatype loop_event =
  Woken bool
| Resolved bool
| Dialled "conn_id option"
| Ran conn_id bool bool

type_synonym loop_step = "loop_pc \<times> server \<times> loop_action"

definition effective_delay :: "reconnect_state \<Rightarrow> int \<Rightarrow> int" where
  "effective_delay cur jitter =
     (if rs_acl_rejection_count cur \<ge> ACL_REJECTION_THRESHOLD then EXTENDED_BACKOFF_SEC
      else if rs_delay_sec cur > 1 then min (rs_delay_sec cur + jitter) MAX_BACKOFF_SEC
      else rs_delay_sec cur)"

definition loop_resolve :: "string \<Rightarrow> server \<Rightarrow> loop_step" where
  "loop_resolve address sv = (let (host, port) = parse_address address in (Loop_Resolving, sv, Loop_Resolve host port))"

text \<open>The head of the loop, up to the sleep or the resolution.\<close>

definition loop_head :: "string \<Rightarrow> bool \<Rightarrow> int \<Rightarrow> server \<Rightarrow> loop_step" where
  "loop_head address first_attempt jitter sv =
     (if sv_draining sv then (Loop_Exit, sv, Loop_Return)
      else case map_of (sv_reconnect_state sv) address of
        None \<Rightarrow> (Loop_Exit, sv, Loop_Return)
      | Some cur \<Rightarrow>
          if \<not> first_attempt \<or> rs_delay_sec cur > 1 \<or> rs_acl_rejection_count cur \<ge> ACL_REJECTION_THRESHOLD
          then (Loop_Sleeping, sv, Loop_Sleep (effective_delay cur jitter))
          else loop_resolve address sv)"

definition loop_begin :: "string \<Rightarrow> int \<Rightarrow> server \<Rightarrow> loop_step" where
  "loop_begin address jitter sv = loop_head address True jitter (ensure_reconnect address sv)"

definition remove_connection :: "conn_id \<Rightarrow> server \<Rightarrow> server" where
  "remove_connection conn sv = sv\<lparr>sv_connections := filter (\<lambda>c. c \<noteq> conn) (sv_connections sv)\<rparr>"

text \<open>After \<open>run\<close>: the backoff is reset after a connection that worked and doubled after one that did not.\<close>

definition loop_ran :: "string \<Rightarrow> int \<Rightarrow> conn_id \<Rightarrow> bool \<Rightarrow> bool \<Rightarrow> server \<Rightarrow> server" where
  "loop_ran address prev_acl_count conn ok handshake_ok sv =
     (let sv1 = ensure_reconnect address sv; s = reconnect_at address sv1;
          was_acl_rejected = (rs_acl_rejection_count s > prev_acl_count) in
      if (ok \<or> handshake_ok) \<and> \<not> was_acl_rejected
      then put_reconnect address \<lparr>rs_delay_sec = 1, rs_acl_rejection_count = 0\<rparr> sv1
      else
        let sv2 = (if \<not> ok \<and> \<not> handshake_ok then remove_connection conn sv1 else sv1) in
        if rs_acl_rejection_count (reconnect_at address sv2) < ACL_REJECTION_THRESHOLD then double_delay address sv2 else sv2)"

definition loop_resume :: "string \<Rightarrow> int \<Rightarrow> loop_pc \<Rightarrow> loop_event \<Rightarrow> server \<Rightarrow> loop_step" where
  "loop_resume address jitter pc event sv =
     (case (pc, event) of
        (Loop_Sleeping, Woken cancelled) \<Rightarrow>
          if cancelled \<or> sv_draining sv then (Loop_Exit, sv, Loop_Return) else loop_resolve address sv
      | (Loop_Resolving, Resolved ok) \<Rightarrow>
          if sv_draining sv then (Loop_Exit, sv, Loop_Return)
          else if \<not> ok then loop_head address False jitter (double_delay address sv)
          else (Loop_Connecting, sv, Loop_Dial)
      | (Loop_Connecting, Dialled c) \<Rightarrow>
          if sv_draining sv then (Loop_Exit, sv, Loop_Return)
          else (case c of
             None \<Rightarrow> loop_head address False jitter (double_delay address sv)
           | Some conn \<Rightarrow>
               let sv1 = ensure_reconnect address (sv\<lparr>sv_connections := sv_connections sv @ [conn]\<rparr>) in
               (Loop_Running (rs_acl_rejection_count (reconnect_at address sv1)), sv1, Loop_Run))
      | (Loop_Running prev_acl_count, Ran conn ok handshake_ok) \<Rightarrow>
          if sv_draining sv then (Loop_Exit, sv, Loop_Return)
          else loop_head address False jitter (loop_ran address prev_acl_count conn ok handshake_ok sv)
      | _ \<Rightarrow> (Loop_Exit, sv, Loop_Return))"

definition connect_once :: "string \<Rightarrow> int \<Rightarrow> server \<Rightarrow> loop_step option \<times> server" where
  "connect_once address jitter sv =
     (if sv_draining sv then (None, sv)
      else if map_of (sv_reconnect_state sv) address \<noteq> None then (None, sv)
      else let sv1 = ensure_reconnect address sv in (Some (loop_begin address jitter sv1), sv1))"

text \<open>\<open>connect_to_peer\<close>, for the configured peers: one attempt without a wait, then the loop.\<close>

definition connect_to_peer_ran :: "string \<Rightarrow> int \<Rightarrow> int \<Rightarrow> conn_id \<Rightarrow> bool \<Rightarrow> bool \<Rightarrow> server \<Rightarrow> loop_step" where
  "connect_to_peer_ran address jitter prev_acl_count conn ok handshake_ok sv =
     (let sv1 = ensure_reconnect address sv;
          was_acl_rejected = (rs_acl_rejection_count (reconnect_at address sv1) > prev_acl_count) in
      if sv_draining sv1 then (Loop_Exit, sv1, Loop_Return)
      else if (ok \<and> \<not> was_acl_rejected) \<or> handshake_ok then loop_begin address jitter sv1
      else loop_begin address jitter (remove_connection conn sv1))"

definition connect_to_peer_resume :: "string \<Rightarrow> int \<Rightarrow> loop_pc \<Rightarrow> loop_event \<Rightarrow> server \<Rightarrow> loop_step" where
  "connect_to_peer_resume address jitter pc event sv =
     (case (pc, event) of
        (Loop_Resolving, Resolved ok) \<Rightarrow>
          if \<not> ok then loop_begin address jitter sv else (Loop_Connecting, sv, Loop_Dial)
      | (Loop_Connecting, Dialled None) \<Rightarrow> loop_begin address jitter sv
      | (Loop_Connecting, Dialled (Some conn)) \<Rightarrow>
          let sv1 = ensure_reconnect address (sv\<lparr>sv_connections := sv_connections sv @ [conn]\<rparr>) in
          (Loop_Running (rs_acl_rejection_count (reconnect_at address sv1)), sv1, Loop_Run)
      | (Loop_Running prev_acl_count, Ran conn ok handshake_ok) \<Rightarrow>
          connect_to_peer_ran address jitter prev_acl_count conn ok handshake_ok sv
      | _ \<Rightarrow> (Loop_Exit, sv, Loop_Return))"

section \<open>Accepting and stopping\<close>

text \<open>A connection that arrives: whether it is taken.\<close>

definition accept_connection :: "conn_config \<Rightarrow> peer_info list \<Rightarrow> conn_id \<Rightarrow> server \<Rightarrow> bool \<times> server" where
  "accept_connection cfg peers conn sv =
     (if \<not> should_accept_connection cfg peers then (False, sv)
      else (True, sv\<lparr>sv_connections := sv_connections sv @ [conn]\<rparr>))"

text \<open>\<open>start\<close> with the peers it then connects to, \<open>stop\<close> with whether it drains, the second signal with the
  connections it closes, and the end of the drain.\<close>

definition start :: "string list \<Rightarrow> server \<Rightarrow> string list \<times> server" where
  "start bootstrap_peers sv =
     (if sv_started sv then ([], sv) else (bootstrap_peers, sv\<lparr>sv_started := True\<rparr>))"

definition stop :: "server \<Rightarrow> bool \<times> server" where
  "stop sv = (if sv_draining sv then (False, sv) else (True, sv\<lparr>sv_draining := True\<rparr>))"

definition on_signal :: "server \<Rightarrow> conn_id list \<times> server" where
  "on_signal sv =
     (if sv_draining sv then (sv_connections sv, sv\<lparr>sv_connections := [], sv_exit_code := 1\<rparr>)
      else ([], snd (stop sv)))"

definition drain_finished :: "server \<Rightarrow> conn_id list \<times> server" where
  "drain_finished sv =
     (if sv_connections sv = [] then ([], sv)
      else (sv_connections sv, sv\<lparr>sv_connections := [], sv_exit_code := 1\<rparr>))"

end
