(* ===== verification/Reconnect_Proof.thy ===== *)
theory Reconnect_Proof
  imports Reconnect
begin

text \<open>
  The backoff of reconnection: it stays within its bounds in every reachable state of the server, and it
  doubles with every failure.
\<close>

lemma map_of_put [simp]:
  "map_of (sv_reconnect_state (put_reconnect a s sv)) b = (if b = a then Some s else map_of (sv_reconnect_state sv) b)"
  by (simp add: put_reconnect_def update_conv)

lemma reconnect_at_put [simp]: "reconnect_at b (put_reconnect a s sv) = (if b = a then s else reconnect_at b sv)"
  by (simp add: reconnect_at_def)

lemma reconnect_at_ensure [simp]: "reconnect_at b (ensure_reconnect a sv) = reconnect_at b sv"
  by (simp add: ensure_reconnect_def)

lemma reconnect_at_connections [simp]: "reconnect_at b (sv\<lparr>sv_connections := cs\<rparr>) = reconnect_at b sv"
  by (simp add: reconnect_at_def)

lemma reconnect_at_remove [simp]: "reconnect_at b (remove_connection c sv) = reconnect_at b sv"
  by (simp add: remove_connection_def)

lemma draining_put [simp]: "sv_draining (put_reconnect a s sv) = sv_draining sv"
  by (simp add: put_reconnect_def)

section \<open>Bounds\<close>

text \<open>Without three refusals the delay is at most a minute, with them it is ten at most.\<close>

definition backoff_ok :: "reconnect_state \<Rightarrow> bool" where
  "backoff_ok s \<longleftrightarrow> 1 \<le> rs_delay_sec s \<and> rs_delay_sec s \<le> EXTENDED_BACKOFF_SEC \<and>
     (rs_delay_sec s \<le> MAX_BACKOFF_SEC \<or> rs_acl_rejection_count s \<ge> ACL_REJECTION_THRESHOLD)"

definition server_ok :: "server \<Rightarrow> bool" where
  "server_ok sv \<longleftrightarrow> (\<forall>a. backoff_ok (reconnect_at a sv))"

lemmas backoff_consts = EXTENDED_BACKOFF_SEC_def MAX_BACKOFF_SEC_def ACL_REJECTION_THRESHOLD_def

lemma server_ok_put: "server_ok sv \<Longrightarrow> backoff_ok s \<Longrightarrow> server_ok (put_reconnect a s sv)"
  by (simp add: server_ok_def)

lemma server_ok_ops [simp]:
  assumes "server_ok sv"
  shows "server_ok (ensure_reconnect a sv)" "server_ok (double_delay a sv)" "server_ok (notify_acl_rejected a sv)"
    "server_ok (delay_reconnect a sv)" "server_ok (stop_reconnect a sv)" "server_ok (clear_reconnect_state sv)"
    "server_ok (sv\<lparr>sv_connections := cs\<rparr>)" "server_ok (remove_connection c sv)" "server_ok (sv\<lparr>sv_draining := True\<rparr>)"
proof -
  have a: "backoff_ok (reconnect_at a sv)" for a using assms by (simp add: server_ok_def)
  have d: "backoff_ok default_reconnect" by (simp add: backoff_ok_def default_reconnect_def backoff_consts)
  show "server_ok (ensure_reconnect a sv)" "server_ok (sv\<lparr>sv_connections := cs\<rparr>)" "server_ok (remove_connection c sv)"
    using assms by (simp_all add: server_ok_def)
  show "server_ok (sv\<lparr>sv_draining := True\<rparr>)" using assms by (simp add: server_ok_def reconnect_at_def)
  show "server_ok (double_delay a sv)" "server_ok (notify_acl_rejected a sv)"
    using assms a [of a]
    by (auto simp: double_delay_def notify_acl_rejected_def Let_def backoff_ok_def backoff_consts intro!: server_ok_put)
  show "server_ok (delay_reconnect a sv)" using assms a [of a]
    by (auto simp: delay_reconnect_def reconnect_at_def backoff_ok_def backoff_consts split: option.split intro!: server_ok_put)
  show "server_ok (stop_reconnect a sv)" "server_ok (clear_reconnect_state sv)"
    using a d by (auto simp: server_ok_def stop_reconnect_def clear_reconnect_state_def reconnect_at_def delete_conv)
qed

lemma server_ok_ran [simp]: "server_ok sv \<Longrightarrow> server_ok (loop_ran a prev c ok hs sv)"
  by (auto simp: loop_ran_def Let_def backoff_ok_def backoff_consts intro!: server_ok_put)

lemma server_ok_step [simp]:
  assumes "server_ok sv"
  shows "server_ok (fst (snd (loop_head a f j sv)))" "server_ok (fst (snd (loop_begin a j sv)))"
    "server_ok (fst (snd (loop_resume a j pc e sv)))" "server_ok (fst (snd (connect_to_peer_resume a j pc e sv)))"
proof -
  have h: "server_ok (fst (snd (loop_head a f j sv)))" if "server_ok sv" for a f j sv
    using that by (simp add: loop_head_def loop_resolve_def split_beta Let_def split: option.split)
  then show "server_ok (fst (snd (loop_head a f j sv)))" "server_ok (fst (snd (loop_begin a j sv)))"
    using assms by (simp_all add: loop_begin_def)
  show "server_ok (fst (snd (loop_resume a j pc e sv)))"
    using assms h by (simp add: loop_resume_def loop_resolve_def split_beta Let_def split: loop_pc.split loop_event.split option.split)
  show "server_ok (fst (snd (connect_to_peer_resume a j pc e sv)))"
    using assms h by (simp add: connect_to_peer_resume_def connect_to_peer_ran_def loop_begin_def Let_def
        split: loop_pc.split loop_event.split option.split)
qed

text \<open>A server in operation: the segments of its coroutines in any order, and what other components call.\<close>

inductive server_reach :: "server \<Rightarrow> bool" where
  init: "server_reach new_server"
| started: "server_reach sv \<Longrightarrow> server_reach (fst (snd (loop_begin a j sv)))"
| resume: "server_reach sv \<Longrightarrow> server_reach (fst (snd (loop_resume a j pc e sv)))"
| peer: "server_reach sv \<Longrightarrow> server_reach (fst (snd (connect_to_peer_resume a j pc e sv)))"
| once: "server_reach sv \<Longrightarrow> server_reach (snd (connect_once a j sv))"
| rejected: "server_reach sv \<Longrightarrow> server_reach (notify_acl_rejected a sv)"
| delayed: "server_reach sv \<Longrightarrow> server_reach (delay_reconnect a sv)"
| stopped: "server_reach sv \<Longrightarrow> server_reach (stop_reconnect a sv)"
| cleared: "server_reach sv \<Longrightarrow> server_reach (clear_reconnect_state sv)"
| removed: "server_reach sv \<Longrightarrow> server_reach (remove_connection c sv)"
| accepted: "server_reach sv \<Longrightarrow> server_reach (snd (accept_connection cfg ps c sv))"
| ended: "server_reach sv \<Longrightarrow> server_reach (snd (stop sv))"

lemma reach_server_ok: "server_reach sv \<Longrightarrow> server_ok sv"
proof (induction rule: server_reach.induct)
  case init
  then show ?case by (simp add: server_ok_def reconnect_at_def new_server_def default_reconnect_def backoff_ok_def backoff_consts)
qed (auto simp: connect_once_def accept_connection_def stop_def Let_def)

lemma head_sleep:
  assumes "server_ok sv" and "loop_head a f j sv = (pc, sv', Loop_Sleep d)" and "0 \<le> j"
  shows "1 \<le> d \<and> (d \<le> MAX_BACKOFF_SEC \<or> d = EXTENDED_BACKOFF_SEC \<and> rs_acl_rejection_count (reconnect_at a sv') \<ge> ACL_REJECTION_THRESHOLD)"
proof -
  have "\<exists>cur. map_of (sv_reconnect_state sv) a = Some cur \<and> d = effective_delay cur j \<and> sv' = sv"
    using assms(2) by (auto simp: loop_head_def loop_resolve_def split_beta split: option.splits if_splits)
  then obtain cur where c: "reconnect_at a sv = cur" "d = effective_delay cur j" "sv' = sv"
    by (auto simp: reconnect_at_def)
  have "backoff_ok cur" using assms(1) c(1) by (auto simp: server_ok_def)
  then show ?thesis using c assms(3) by (auto simp: effective_delay_def backoff_ok_def backoff_consts)
qed


section \<open>Exponential backoff\<close>

text \<open>An address that cannot be resolved or reached: \<open>n\<close> attempts of its loop, each followed by the sleep and
  the wake-up; the seconds it slept are collected.\<close>

fun fail_attempts :: "string \<Rightarrow> (nat \<Rightarrow> int) \<Rightarrow> nat \<Rightarrow> loop_step \<Rightarrow> loop_step \<times> int list" where
  "fail_attempts a jitter 0 s = (s, [])"
| "fail_attempts a jitter (Suc n) (pc, sv, act) =
     (case loop_resume a (jitter n) pc (Resolved False) sv of
        (pc1, sv1, Loop_Sleep d) \<Rightarrow>
          map_prod id (Cons d) (fail_attempts a jitter n (loop_resume a 0 pc1 (Woken False) sv1))
      | s1 \<Rightarrow> (s1, []))"

lemma fail_one:
  assumes "\<not> sv_draining sv" and "0 \<le> j"
  shows "loop_resume a j Loop_Resolving (Resolved False) sv =
    (Loop_Sleeping, double_delay a sv, Loop_Sleep (effective_delay (reconnect_at a (double_delay a sv)) j))"
  using assms by (simp add: loop_resume_def loop_head_def double_delay_def Let_def)

lemma double_delay_at:
  "rs_delay_sec (reconnect_at a (double_delay a sv)) = min (rs_delay_sec (reconnect_at a sv) * 2) 60"
  "rs_acl_rejection_count (reconnect_at a (double_delay a sv)) = rs_acl_rejection_count (reconnect_at a sv)"
  "sv_draining (double_delay a sv) = sv_draining sv"
  by (simp_all add: double_delay_def Let_def backoff_consts)

text \<open>The delay doubles with every failure until it reaches a minute, and from the first to the last no sleep is
  shorter than the delay of its attempt or longer than a minute.\<close>

theorem backoff_doubles:
  assumes "\<not> sv_draining sv" and "\<forall>k. 0 \<le> jitter k"
    and "reconnect_at a sv = \<lparr>rs_delay_sec = 1, rs_acl_rejection_count = 0\<rparr>"
    and "fail_attempts a jitter n (Loop_Resolving, sv, act) = ((pc, sv', act'), sleeps)"
  shows "length sleeps = n \<and> rs_delay_sec (reconnect_at a sv') = min (2 ^ n) 60 \<and> pc = Loop_Resolving \<and>
    (\<forall>k < n. min (2 ^ Suc k) 60 \<le> sleeps ! k \<and> sleeps ! k \<le> 60)"
proof -
  have "fail_attempts a jitter n (Loop_Resolving, sv, act) = ((pc, sv', act'), sleeps) \<Longrightarrow>
    length sleeps = n \<and> rs_delay_sec (reconnect_at a sv') = min (2 ^ (m + n)) 60 \<and> pc = Loop_Resolving \<and>
    (\<forall>k < n. min (2 ^ Suc (m + k)) 60 \<le> sleeps ! k \<and> sleeps ! k \<le> 60)"
    if "\<not> sv_draining sv" "rs_delay_sec (reconnect_at a sv) = min (2 ^ m) 60" "rs_acl_rejection_count (reconnect_at a sv) = 0"
    for m sv act sleeps using that
  proof (induction n arbitrary: m sv act sleeps)
    case (Suc n)
    let ?sv = "double_delay a sv"
    have d: "rs_delay_sec (reconnect_at a ?sv) = min (2 ^ Suc m) 60"
      using Suc.prems(3) by (simp add: double_delay_at min_def)
    define d0 where "d0 = effective_delay (reconnect_at a ?sv) (jitter n)"
    have "2 \<le> min (2 ^ Suc m) (60 :: int)" by (simp add: self_le_power)
    then have s: "min (2 ^ Suc m) 60 \<le> d0" "d0 \<le> 60"
      using d assms(2) Suc.prems(4) by (auto simp: d0_def effective_delay_def double_delay_at backoff_consts)
    obtain sl where f: "sleeps = d0 # sl" "fail_attempts a jitter n (loop_resolve a ?sv) = ((pc, sv', act'), sl)"
    proof -
      have "loop_resume a 0 Loop_Sleeping (Woken False) ?sv = loop_resolve a ?sv"
        using Suc.prems(2) by (simp add: loop_resume_def double_delay_at)
      then have "map_prod id (Cons d0) (fail_attempts a jitter n (loop_resolve a ?sv)) = ((pc, sv', act'), sleeps)"
        using Suc.prems(1) fail_one [OF Suc.prems(2), of "jitter n" a] assms(2) by (simp add: d0_def)
      then show ?thesis using that by (cases "fail_attempts a jitter n (loop_resolve a ?sv)") auto
    qed
    have "length sl = n \<and> rs_delay_sec (reconnect_at a sv') = min (2 ^ (Suc m + n)) 60 \<and> pc = Loop_Resolving \<and>
        (\<forall>k < n. min (2 ^ Suc (Suc m + k)) 60 \<le> sl ! k \<and> sl ! k \<le> 60)"
    proof (rule Suc.IH)
      show "fail_attempts a jitter n (Loop_Resolving, ?sv, snd (snd (loop_resolve a ?sv))) = ((pc, sv', act'), sl)"
        using f(2) by (simp add: loop_resolve_def split_beta)
    qed (use d Suc.prems(2,4) in \<open>simp_all add: double_delay_at\<close>)
    then show ?case using s f(1) by (auto simp: nth_Cons split: nat.split)
  qed simp
  from this [of sv 0 act sleeps] assms show ?thesis by simp
qed

section \<open>Observations\<close>

text \<open>Clearing the reconnect state, which a reload of the configuration does "to force immediate retry",
  cancels the timers of the sleeping loops; a loop whose timer is cancelled ends, and nothing is left that
  would try its address again.\<close>

theorem reload_ends_sleeping_loops:
  "loop_resume a jitter Loop_Sleeping (Woken True) (clear_reconnect_state sv) =
     (Loop_Exit, clear_reconnect_state sv, Loop_Return) \<and>
   map_of (sv_reconnect_state (clear_reconnect_state sv)) a = None"
  by (simp add: loop_resume_def clear_reconnect_state_def)

text \<open>The delay a duplicate connection is to get does not last: when the closed connection's \<open>run\<close> returns, its
  handshake having succeeded, the loop sets the delay back to a second.\<close>

theorem duplicate_delay_lost:
  assumes "\<not> sv_draining sv" and "map_of (sv_reconnect_state sv) a = Some s"
  shows "loop_resume a jitter (Loop_Running (rs_acl_rejection_count s)) (Ran c True True) (delay_reconnect a sv) =
    (Loop_Sleeping, loop_ran a (rs_acl_rejection_count s) c True True (delay_reconnect a sv), Loop_Sleep 1)"
  using assms by (simp add: loop_resume_def delay_reconnect_def loop_ran_def Let_def loop_head_def effective_delay_def
      reconnect_at_def ensure_reconnect_def backoff_consts)

end
