(* ===== verification/Pex.thy ===== *)
theory Pex
  imports Conn_Manager Sync_Orchestrator
begin

text \<open>
  \<open>db/peer/pex_manager.cpp\<close>: the exchange of peer addresses, and the list of peers kept in a file.  The
  random order of \<open>std::shuffle\<close> and the order \<open>std::sort\<close> gives equal elements are functions passed in; so is
  what the JSON library reads from the file.  Writing the file is left out.
\<close>

definition MAX_PEERS_PER_EXCHANGE :: nat where "MAX_PEERS_PER_EXCHANGE = 8"
definition MAX_DISCOVERED_PER_ROUND :: nat where "MAX_DISCOVERED_PER_ROUND = 3"
definition MAX_PERSISTED_PEERS :: nat where "MAX_PERSISTED_PEERS = 100"
definition MAX_PERSIST_FAILURES :: u32 where "MAX_PERSIST_FAILURES = 3"

record persisted_peer =
  pp_address :: string
  pp_last_seen :: u64
  pp_fail_count :: u32
  pp_pubkey_hash :: string

section \<open>The exchange\<close>

definition build_peer_list_response ::
    "(string list \<Rightarrow> string list) \<Rightarrow> (conn_id \<Rightarrow> conn_view) \<Rightarrow> string \<Rightarrow> string \<Rightarrow> peer_info list \<Rightarrow> string list" where
  "build_peer_list_response shuffle views bind_address exclude_address peers =
     (let candidates = map (\<lambda>p. cv_connect_address (views (pi_connection p)))
            (filter (\<lambda>p. cv_is_authenticated (views (pi_connection p)) \<and>
                         cv_connect_address (views (pi_connection p)) \<noteq> [] \<and>
                         cv_connect_address (views (pi_connection p)) \<noteq> exclude_address \<and>
                         cv_connect_address (views (pi_connection p)) \<noteq> bind_address) peers) in
      take MAX_PEERS_PER_EXCHANGE (shuffle candidates))"

text \<open>The addresses to connect to, and the addresses known afterwards.\<close>

fun peer_list_loop ::
    "string \<Rightarrow> nat \<Rightarrow> u32 \<Rightarrow> nat \<Rightarrow> string list \<Rightarrow> string list \<Rightarrow> string list \<times> string list" where
  "peer_list_loop bind_address peer_count max_peers connected known [] = ([], known)"
| "peer_list_loop bind_address peer_count max_peers connected known (addr # addrs) =
     (if addr \<in> set known then peer_list_loop bind_address peer_count max_peers connected known addrs
      else if addr = bind_address then peer_list_loop bind_address peer_count max_peers connected known addrs
      else if peer_count \<ge> unat max_peers then ([], known)
      else if connected \<ge> MAX_DISCOVERED_PER_ROUND then ([], known)
      else map_prod (Cons addr) id
        (peer_list_loop bind_address peer_count max_peers (connected + 1) (addr # known) addrs))"

definition handle_peer_list_response ::
    "string \<Rightarrow> u32 \<Rightarrow> peer_info list \<Rightarrow> bytes \<Rightarrow> string list \<Rightarrow> string list \<times> string list" where
  "handle_peer_list_response bind_address max_peers peers payload known =
     peer_list_loop bind_address (length peers) max_peers 0 known (decode_peer_list payload)"

text \<open>The two coroutines, cut at their suspensions.\<close>

datatype pex_pc = Pex_Request_Sent | Pex_Await_Response | Pex_Await_Request | Pex_Response_Sent | Pex_Over

datatype pex_action = Pex_Send transport_msg_type bytes | Pex_Recv u32 | Pex_Return

record pex_state =
  px_peers :: "peer_info list"
  px_known :: "string list"

type_synonym pex_step = "pex_pc \<times> pex_state \<times> pex_action \<times> string list"

definition set_syncing :: "conn_id \<Rightarrow> bool \<Rightarrow> pex_state \<Rightarrow> pex_state" where
  "set_syncing conn b s = s\<lparr>px_peers := update_peer conn (\<lambda>p. p\<lparr>pi_syncing := b\<rparr>) (px_peers s)\<rparr>"

definition run_pex_with_peer_begin :: "conn_id \<Rightarrow> pex_state \<Rightarrow> pex_step" where
  "run_pex_with_peer_begin conn s =
     (case find_peer conn (px_peers s) of
        None \<Rightarrow> (Pex_Over, s, Pex_Return, [])
      | Some peer \<Rightarrow>
          if pi_syncing peer then (Pex_Over, s, Pex_Return, [])
          else (Pex_Request_Sent,
                s\<lparr>px_peers := update_peer conn (\<lambda>p. p\<lparr>pi_syncing := True, pi_sync_inbox := []\<rparr>) (px_peers s)\<rparr>,
                Pex_Send PeerListRequest [], []))"

definition pex_request_sent :: "conn_id \<Rightarrow> bool \<Rightarrow> pex_state \<Rightarrow> pex_step" where
  "pex_request_sent conn ok s =
     (if \<not> ok then (Pex_Over, set_syncing conn False s, Pex_Return, [])
      else (Pex_Await_Response, s, Pex_Recv 5, []))"

definition pex_response_received ::
    "string \<Rightarrow> u32 \<Rightarrow> conn_id \<Rightarrow> message option \<Rightarrow> pex_state \<Rightarrow> pex_step" where
  "pex_response_received bind_address max_peers conn msg s =
     (let (connects, known) =
        (case msg of
           Some (type, payload) \<Rightarrow>
             if type = PeerListResponse
             then handle_peer_list_response bind_address max_peers (px_peers s) payload (px_known s)
             else ([], px_known s)
         | None \<Rightarrow> ([], px_known s)) in
      (Pex_Over, set_syncing conn False (s\<lparr>px_known := known\<rparr>), Pex_Return, connects))"

definition handle_pex_as_responder_begin :: "access_control \<Rightarrow> conn_id \<Rightarrow> pex_state \<Rightarrow> pex_step" where
  "handle_pex_as_responder_begin acl conn s =
     (case find_peer conn (px_peers s) of
        None \<Rightarrow> (Pex_Over, s, Pex_Return, [])
      | Some peer \<Rightarrow>
          if pi_syncing peer \<or> is_peer_closed_mode acl then (Pex_Over, s, Pex_Return, [])
          else (Pex_Await_Request, set_syncing conn True s, Pex_Recv 5, []))"

definition pex_request_received ::
    "(string list \<Rightarrow> string list) \<Rightarrow> (conn_id \<Rightarrow> conn_view) \<Rightarrow> string \<Rightarrow> conn_id \<Rightarrow> message option \<Rightarrow> pex_state \<Rightarrow> pex_step" where
  "pex_request_received shuffle views bind_address conn msg s =
     (case find_peer conn (px_peers s) of
        None \<Rightarrow> (Pex_Over, s, Pex_Return, [])
      | Some _ \<Rightarrow>
          if (case msg of None \<Rightarrow> False | Some (type, _) \<Rightarrow> type = PeerListRequest)
          then (Pex_Response_Sent, s, Pex_Send PeerListResponse (encode_peer_list
                  (build_peer_list_response shuffle views bind_address (cv_remote_address (views conn)) (px_peers s))), [])
          else (Pex_Over, set_syncing conn False s, Pex_Return, []))"

definition pex_response_sent :: "conn_id \<Rightarrow> pex_state \<Rightarrow> pex_step" where
  "pex_response_sent conn s = (Pex_Over, set_syncing conn False s, Pex_Return, [])"

text \<open>The connections \<open>request_peers_from_all\<close> runs the exchange with; each is looked up again when its turn
  comes.\<close>

definition wants_pex :: "(conn_id \<Rightarrow> conn_view) \<Rightarrow> conn_id \<Rightarrow> peer_info list \<Rightarrow> bool" where
  "wants_pex views conn peers =
     (case find_peer conn peers of
        None \<Rightarrow> False | Some p \<Rightarrow> cv_is_authenticated (views (pi_connection p)) \<and> \<not> pi_syncing p)"

section \<open>Persisted peers\<close>

text \<open>What \<open>save_persisted_peers\<close> keeps and writes.\<close>

definition save_persisted_peers ::
    "(persisted_peer list \<Rightarrow> persisted_peer list) \<Rightarrow> persisted_peer list \<Rightarrow> persisted_peer list" where
  "save_persisted_peers by_last_seen peers =
     (let kept = filter (\<lambda>p. \<not> pp_fail_count p \<ge> MAX_PERSIST_FAILURES) peers in
      if length kept > MAX_PERSISTED_PEERS then take MAX_PERSISTED_PEERS (by_last_seen kept) else kept)"

text \<open>\<open>None\<close> is a file the JSON library rejects.\<close>

definition load_persisted_peers ::
    "(persisted_peer list \<Rightarrow> persisted_peer list) \<Rightarrow> persisted_peer list option \<Rightarrow> persisted_peer list" where
  "load_persisted_peers by_last_seen parsed =
     (case parsed of
        None \<Rightarrow> []
      | Some entries \<Rightarrow>
          save_persisted_peers by_last_seen
            (map (\<lambda>p. p\<lparr>pp_fail_count := pp_fail_count p + 1\<rparr>)
              (filter (\<lambda>p. pp_address p \<noteq> [] \<and> pp_fail_count p < MAX_PERSIST_FAILURES) entries)))"

fun update_first :: "('a \<Rightarrow> bool) \<Rightarrow> ('a \<Rightarrow> 'a) \<Rightarrow> 'a list \<Rightarrow> 'a list" where
  "update_first P f [] = []"
| "update_first P f (x # xs) = (if P x then f x # xs else x # update_first P f xs)"

definition update_persisted_peer ::
    "(persisted_peer list \<Rightarrow> persisted_peer list) \<Rightarrow> string set \<Rightarrow> u64 \<Rightarrow> string \<Rightarrow> bool \<Rightarrow> persisted_peer list
      \<Rightarrow> persisted_peer list" where
  "update_persisted_peer by_last_seen bootstrap_addresses now address ok peers =
     (if address \<in> bootstrap_addresses then peers
      else
        save_persisted_peers by_last_seen
          (if \<exists>p \<in> set peers. pp_address p = address
           then update_first (\<lambda>p. pp_address p = address)
             (\<lambda>p. if ok then p\<lparr>pp_last_seen := now, pp_fail_count := 0\<rparr>
                  else p\<lparr>pp_fail_count := pp_fail_count p + 1\<rparr>) peers
           else if ok then peers @ [\<lparr>pp_address = address, pp_last_seen = now, pp_fail_count = 0, pp_pubkey_hash = []\<rparr>]
           else peers))"

text \<open>What the node does when a peer connects: its address is known from then on, and a peer the node dialled is
  kept with the hash of its key.\<close>

definition pex_on_connect ::
    "'t externals \<Rightarrow> (persisted_peer list \<Rightarrow> persisted_peer list) \<Rightarrow> string set \<Rightarrow> (conn_id \<Rightarrow> conn_view) \<Rightarrow> u64 \<Rightarrow> conn_id
      \<Rightarrow> string \<Rightarrow> string set \<times> persisted_peer list \<Rightarrow> string set \<times> persisted_peer list" where
  "pex_on_connect X by_last_seen bootstrap_addresses views now conn addr s =
     (let known = insert addr (fst s); listen_addr = cv_connect_address (views conn) in
      if listen_addr = [] then (known, snd s)
      else
        let peers = update_persisted_peer by_last_seen bootstrap_addresses now listen_addr True (snd s);
            pk_hex = to_hex_truncated (sha3_256 X (cv_peer_pubkey (views conn))) 32 in
        (known, update_first (\<lambda>p. pp_address p = listen_addr) (\<lambda>p. p\<lparr>pp_pubkey_hash := pk_hex\<rparr>) peers))"

end
