(* ===== verification/Pex_Proof.thy ===== *)
theory Pex_Proof
  imports Pex "HOL-Library.Multiset"
begin

text \<open>
  What a node learns by an exchange of addresses, and which peers it remembers.
\<close>

section \<open>Discovery\<close>

lemma peer_list_loop_props:
  assumes "peer_list_loop bind n max_peers k known addrs = (connects, known')"
  shows "set connects \<subseteq> set addrs - set known - {bind}" and "distinct connects" and "length connects \<le> MAX_DISCOVERED_PER_ROUND - k"
    and "set known' = set known \<union> set connects" and "n \<ge> unat max_peers \<Longrightarrow> connects = []"
    and "length connects < MAX_DISCOVERED_PER_ROUND - k \<Longrightarrow> n < unat max_peers \<Longrightarrow> set addrs \<subseteq> set known' \<union> {bind}"
proof -
  have "set connects \<subseteq> set addrs - set known - {bind} \<and> distinct connects \<and> length connects \<le> MAX_DISCOVERED_PER_ROUND - k \<and>
      set known' = set known \<union> set connects \<and> (n \<ge> unat max_peers \<longrightarrow> connects = []) \<and>
      (length connects < MAX_DISCOVERED_PER_ROUND - k \<longrightarrow> n < unat max_peers \<longrightarrow> set addrs \<subseteq> set known' \<union> {bind})"
    using assms
  proof (induction addrs arbitrary: k known connects)
    case (Cons a as)
    show ?case
    proof (cases "a \<in> set known \<or> a = bind \<or> n \<ge> unat max_peers \<or> k \<ge> MAX_DISCOVERED_PER_ROUND")
      case True
      then show ?thesis using Cons.IH [of k known connects] Cons.prems by (fastforce split: if_splits)
    next
      case False
      then obtain cs where c: "connects = a # cs" "peer_list_loop bind n max_peers (k + 1) (a # known) as = (cs, known')"
        using Cons.prems by (cases "peer_list_loop bind n max_peers (k + 1) (a # known) as") auto
      show ?thesis using Cons.IH [OF c(2)] False c(1) by auto
    qed
  qed simp
  then show "set connects \<subseteq> set addrs - set known - {bind}" "distinct connects" "length connects \<le> MAX_DISCOVERED_PER_ROUND - k"
    "set known' = set known \<union> set connects" "n \<ge> unat max_peers \<Longrightarrow> connects = []"
    "length connects < MAX_DISCOVERED_PER_ROUND - k \<Longrightarrow> n < unat max_peers \<Longrightarrow> set addrs \<subseteq> set known' \<union> {bind}"
    by blast+
qed

lemma build_response_subset:
  assumes "\<forall>xs. set (shuffle xs) = set xs"
  shows "set (build_peer_list_response shuffle views bind ex peers) \<subseteq>
    {a. \<exists>p \<in> set peers. a = cv_connect_address (views (pi_connection p)) \<and> cv_is_authenticated (views (pi_connection p)) \<and>
       a \<noteq> [] \<and> a \<noteq> ex \<and> a \<noteq> bind}"
  using assms set_take_subset by (fastforce simp: build_peer_list_response_def Let_def)

text \<open>C37: An exchange of addresses, from the list node \<open>A\<close> builds to what node \<open>B\<close> does with its encoding: \<open>B\<close>
  connects to at most three addresses, each of them one that \<open>A\<close> itself has dialled successfully, none
  that \<open>B\<close> knew, its own, or its own as \<open>A\<close> sees it, none if it has no room for peers; it remembers them, and if it
  connects to fewer than three with room left, it then knows all it was sent.\<close>

theorem pex_discovery_exact:
  assumes "\<forall>xs. set (shuffle xs) = set xs \<and> length (shuffle xs) = length xs"
    and "\<forall>p \<in> set peersA. length (cv_connect_address (views (pi_connection p))) < 2 ^ 16"
    and "handle_peer_list_response bindB max_peers peersB
      (encode_peer_list (build_peer_list_response shuffle views bindA remoteB peersA)) known = (connects, known')"
  shows "length connects \<le> 3 \<and> distinct connects \<and> set known' = set known \<union> set connects \<and>
    (\<forall>a \<in> set connects. a \<notin> set known \<and> a \<noteq> bindB \<and> a \<noteq> remoteB \<and>
       (\<exists>p \<in> set peersA. a = cv_connect_address (views (pi_connection p)) \<and> cv_is_authenticated (views (pi_connection p)))) \<and>
    (length peersB \<ge> unat max_peers \<longrightarrow> connects = []) \<and>
    (length connects < 3 \<and> length peersB < unat max_peers \<longrightarrow>
       set (build_peer_list_response shuffle views bindA remoteB peersA) \<subseteq> set known' \<union> {bindB})"
proof -
  let ?r = "build_peer_list_response shuffle views bindA remoteB peersA"
  have s: "set ?r \<subseteq> {a. \<exists>p \<in> set peersA. a = cv_connect_address (views (pi_connection p)) \<and>
      cv_is_authenticated (views (pi_connection p)) \<and> a \<noteq> [] \<and> a \<noteq> remoteB \<and> a \<noteq> bindA}"
    by (rule build_response_subset) (use assms(1) in blast)
  have "length ?r \<le> 8" by (simp add: build_peer_list_response_def Let_def MAX_PEERS_PER_EXCHANGE_def)
  moreover have "list_all (\<lambda>a. length a < 2 ^ 16) ?r" using s assms(2) unfolding list_all_iff by blast
  ultimately have "decode_peer_list (encode_peer_list ?r) = ?r" using peer_list_round_trip [of ?r "[]"] by simp
  then have "peer_list_loop bindB (length peersB) max_peers 0 known ?r = (connects, known')"
    using assms(3) by (simp add: handle_peer_list_response_def)
  note l = peer_list_loop_props [OF this]
  have c: "a \<notin> set known \<and> a \<noteq> bindB \<and> a \<in> set ?r" if "a \<in> set connects" for a using l(1) that by blast
  show ?thesis
  proof (intro conjI ballI)
    fix a assume "a \<in> set connects"
    from c [OF this] s show "a \<notin> set known" "a \<noteq> bindB" "a \<noteq> remoteB"
      "\<exists>p \<in> set peersA. a = cv_connect_address (views (pi_connection p)) \<and> cv_is_authenticated (views (pi_connection p))"
      by blast+
  qed (use l in \<open>simp_all add: MAX_DISCOVERED_PER_ROUND_def\<close>)
qed

section \<open>Memory\<close>

lemma sorted_wrt_take_drop:
  assumes "sorted_wrt R xs" and "q \<in> set (take n xs)" and "p \<in> set (drop n xs)"
  shows "R q p"
proof -
  have "sorted_wrt R (take n xs @ drop n xs)" using assms(1) by (simp only: append_take_drop_id)
  then show ?thesis using assms(2,3) unfolding sorted_wrt_append by blast
qed

text \<open>The peers kept in the file: at most a hundred, none with three failures; of those that could be kept the
  most recently seen ones are, and none is dropped while there is room.\<close>

theorem persisted_most_recent:
  assumes "\<forall>xs. mset (by_last_seen xs) = mset xs \<and> sorted_wrt (\<lambda>p q. pp_last_seen p \<ge> pp_last_seen q) (by_last_seen xs)"
    and "kept = save_persisted_peers by_last_seen peers"
  shows "length kept \<le> 100 \<and> (\<forall>p \<in> set kept. p \<in> set peers \<and> pp_fail_count p < 3) \<and>
    (\<forall>p \<in> set peers. pp_fail_count p < 3 \<and> p \<notin> set kept \<longrightarrow>
       length kept = 100 \<and> (\<forall>q \<in> set kept. pp_last_seen p \<le> pp_last_seen q))"
proof -
  let ?ok = "filter (\<lambda>p. pp_fail_count p < 3) peers"
  let ?s = "by_last_seen ?ok"
  have k: "kept = (if length ?ok > 100 then take 100 ?s else ?ok)"
    using assms(2) by (simp add: save_persisted_peers_def Let_def MAX_PERSIST_FAILURES_def MAX_PERSISTED_PEERS_def not_le)
  have s: "set ?s = set ?ok" "length ?s = length ?ok" "sorted_wrt (\<lambda>p q. pp_last_seen p \<ge> pp_last_seen q) ?s"
    using assms(1) mset_eq_setD [of ?s ?ok] mset_eq_length [of ?s ?ok] by blast+
  show ?thesis
  proof (cases "length ?ok > 100")
    case True
    have "pp_last_seen p \<le> pp_last_seen q" if "p \<in> set ?ok" "p \<notin> set (take 100 ?s)" "q \<in> set (take 100 ?s)" for p q
    proof -
      have "set ?s = set (take 100 ?s) \<union> set (drop 100 ?s)" by (metis append_take_drop_id set_append)
      then have "p \<in> set (drop 100 ?s)" using that(1,2) s(1) by blast
      then show ?thesis by (rule sorted_wrt_take_drop [OF s(3) that(3)])
    qed
    then show ?thesis using True k s(1,2) by (auto dest: in_set_takeD)
  next
    case False
    then show ?thesis using k by auto
  qed
qed

section \<open>Observations\<close>

text \<open>A peer that failed at two starts in a row is dropped at the third before it is tried: loading counts the
  failure of the coming attempt in advance, and saves.\<close>

theorem pruned_before_third_try:
  "pp_fail_count p = 2 \<Longrightarrow> load_persisted_peers by_last_seen (Some [p]) = []"
  by (simp add: load_persisted_peers_def save_persisted_peers_def MAX_PERSIST_FAILURES_def MAX_PERSISTED_PEERS_def)

end
