(* ===== verification/Handshake.thy ===== *)
theory Handshake
  imports Codec Framing Transport_Codec
begin

text \<open>
  \<open>db/crypto/kem.cpp\<close>, \<open>db/crypto/kdf.cpp\<close>, the signing half of \<open>db/crypto/signing.cpp\<close> and
  \<open>db/net/handshake.cpp\<close>: the derivation of session keys and the two sides of the post-quantum key
  exchange.  An exception is a value of \<open>net_error\<close>; randomness is an argument.
\<close>

datatype net_error =
  Kem_Keypair_Failed | Kem_Encaps_Failed | Kem_Decaps_Failed | Kdf_Failed | Kdf_Bad_Length
| No_Signing_Key | Sign_Failed | Frame_Exception frame_error

section \<open>Primitives\<close>

definition KEM_PUBLIC_KEY_SIZE :: nat where "KEM_PUBLIC_KEY_SIZE = 1568"
definition KEM_CIPHERTEXT_SIZE :: nat where "KEM_CIPHERTEXT_SIZE = 1568"

definition kem_generate_keypair :: "'t externals \<Rightarrow> bytes \<Rightarrow> net_error + bytes \<times> bytes" where
  "kem_generate_keypair X rnd =
     (case oqs_kem_keypair X rnd of None \<Rightarrow> Inl Kem_Keypair_Failed | Some keys \<Rightarrow> Inr keys)"

definition kem_encaps :: "'t externals \<Rightarrow> bytes \<Rightarrow> bytes \<Rightarrow> net_error + bytes \<times> bytes" where
  "kem_encaps X rnd public_key =
     (case oqs_kem_encaps X public_key rnd of None \<Rightarrow> Inl Kem_Encaps_Failed | Some r \<Rightarrow> Inr r)"

definition kem_decaps :: "'t externals \<Rightarrow> bytes \<Rightarrow> bytes \<Rightarrow> net_error + bytes" where
  "kem_decaps X ciphertext secret_key =
     (case oqs_kem_decaps X ciphertext secret_key of None \<Rightarrow> Inl Kem_Decaps_Failed | Some ss \<Rightarrow> Inr ss)"

definition KDF_extract :: "'t externals \<Rightarrow> bytes \<Rightarrow> bytes \<Rightarrow> net_error + bytes" where
  "KDF_extract X salt ikm =
     (case sodium_hkdf_extract X salt ikm of None \<Rightarrow> Inl Kdf_Failed | Some prk \<Rightarrow> Inr prk)"

definition KDF_expand :: "'t externals \<Rightarrow> bytes \<Rightarrow> string \<Rightarrow> nat \<Rightarrow> net_error + bytes" where
  "KDF_expand X prk ctx output_len =
     (if output_len = 0 \<or> output_len > 255 * 32 then Inl Kdf_Bad_Length
      else (case sodium_hkdf_expand X prk ctx output_len of None \<Rightarrow> Inl Kdf_Failed | Some k \<Rightarrow> Inr k))"

record node_identity =
  id_public_key :: bytes
  id_secret_key :: bytes

definition identity_sign :: "'t externals \<Rightarrow> bytes \<Rightarrow> node_identity \<Rightarrow> bytes \<Rightarrow> net_error + bytes" where
  "identity_sign X rnd identity message =
     (if id_secret_key identity = [] then Inl No_Signing_Key
      else (case oqs_sig_sign X (id_secret_key identity) message rnd of
              None \<Rightarrow> Inl Sign_Failed | Some s \<Rightarrow> Inr s))"

section \<open>Session keys\<close>

record session_keys =
  sk_send_key :: bytes
  sk_recv_key :: bytes
  sk_session_fingerprint :: bytes

definition derive_session_keys ::
    "'t externals \<Rightarrow> bytes \<Rightarrow> bytes \<Rightarrow> bytes \<Rightarrow> bool \<Rightarrow> net_error + session_keys" where
  "derive_session_keys X shared_secret initiator_pk responder_pk is_initiator =
     (case KDF_extract X [] shared_secret of
        Inl e \<Rightarrow> Inl e
      | Inr prk \<Rightarrow>
          (case KDF_expand X prk ''chromatin-init-to-resp-v1'' KEY_SIZE of
             Inl e \<Rightarrow> Inl e
           | Inr init_to_resp \<Rightarrow>
               (case KDF_expand X prk ''chromatin-resp-to-init-v1'' KEY_SIZE of
                  Inl e \<Rightarrow> Inl e
                | Inr resp_to_init \<Rightarrow>
                    let fingerprint = sha3_256 X (shared_secret @ initiator_pk @ responder_pk) in
                    if is_initiator
                    then Inr \<lparr>sk_send_key = init_to_resp, sk_recv_key = resp_to_init,
                              sk_session_fingerprint = fingerprint\<rparr>
                    else Inr \<lparr>sk_send_key = resp_to_init, sk_recv_key = init_to_resp,
                              sk_session_fingerprint = fingerprint\<rparr>)))"

definition derive_lightweight_session_keys ::
    "'t externals \<Rightarrow> bytes \<Rightarrow> bytes \<Rightarrow> bytes \<Rightarrow> bytes \<Rightarrow> bool \<Rightarrow> net_error + session_keys" where
  "derive_lightweight_session_keys X initiator_nonce responder_nonce initiator_pk responder_pk is_initiator =
     (let ikm = initiator_nonce @ responder_nonce; salt = initiator_pk @ responder_pk in
      case KDF_extract X salt ikm of
        Inl e \<Rightarrow> Inl e
      | Inr prk \<Rightarrow>
          (case KDF_expand X prk ''chromatin-init-to-resp-v1'' KEY_SIZE of
             Inl e \<Rightarrow> Inl e
           | Inr init_to_resp \<Rightarrow>
               (case KDF_expand X prk ''chromatin-resp-to-init-v1'' KEY_SIZE of
                  Inl e \<Rightarrow> Inl e
                | Inr resp_to_init \<Rightarrow>
                    let fingerprint = sha3_256 X (ikm @ salt) in
                    if is_initiator
                    then Inr \<lparr>sk_send_key = init_to_resp, sk_recv_key = resp_to_init,
                              sk_session_fingerprint = fingerprint\<rparr>
                    else Inr \<lparr>sk_send_key = resp_to_init, sk_recv_key = init_to_resp,
                              sk_session_fingerprint = fingerprint\<rparr>)))"

section \<open>The initiator\<close>

datatype handshake_error = HS_Success | HS_Kem_Failed | HS_Auth_Failed | HS_Decrypt_Failed | HS_Invalid_Message

record handshake_initiator =
  hi_identity :: node_identity
  hi_kem_public :: bytes
  hi_kem_secret :: bytes
  hi_keys :: session_keys
  hi_send_counter :: u64
  hi_recv_counter :: u64

definition no_keys :: session_keys where
  "no_keys = \<lparr>sk_send_key = [], sk_recv_key = [], sk_session_fingerprint = []\<rparr>"

definition HandshakeInitiator :: "node_identity \<Rightarrow> handshake_initiator" where
  "HandshakeInitiator identity =
     \<lparr>hi_identity = identity, hi_kem_public = [], hi_kem_secret = [], hi_keys = no_keys,
      hi_send_counter = 0, hi_recv_counter = 0\<rparr>"

definition initiator_start ::
    "'t externals \<Rightarrow> bytes \<Rightarrow> handshake_initiator \<Rightarrow> net_error + bytes \<times> handshake_initiator" where
  "initiator_start X rnd hs =
     (case kem_generate_keypair X rnd of
        Inl e \<Rightarrow> Inl e
      | Inr (kem_pk, kem_sk) \<Rightarrow>
          Inr (TransportCodec_encode X KemPubkey (kem_pk @ id_public_key (hi_identity hs)) 0,
               hs\<lparr>hi_kem_public := kem_pk, hi_kem_secret := kem_sk\<rparr>))"

definition receive_kem_ciphertext ::
    "'t externals \<Rightarrow> bytes \<Rightarrow> handshake_initiator \<Rightarrow> net_error + handshake_error \<times> handshake_initiator" where
  "receive_kem_ciphertext X kem_ct_msg hs =
     (case TransportCodec_decode X kem_ct_msg of
        None \<Rightarrow> Inr (HS_Invalid_Message, hs)
      | Some decoded \<Rightarrow>
          if dm_type decoded \<noteq> KemCiphertext then Inr (HS_Invalid_Message, hs)
          else if length (dm_payload decoded) \<noteq> KEM_CIPHERTEXT_SIZE + SIGNER_PUBLIC_KEY_SIZE
          then Inr (HS_Invalid_Message, hs)
          else
            let ct = take KEM_CIPHERTEXT_SIZE (dm_payload decoded);
                resp_signing_pk = take SIGNER_PUBLIC_KEY_SIZE (drop KEM_CIPHERTEXT_SIZE (dm_payload decoded)) in
            (case kem_decaps X ct (hi_kem_secret hs) of
               Inl e \<Rightarrow> Inl e
             | Inr shared_secret \<Rightarrow>
                 (case derive_session_keys X shared_secret (id_public_key (hi_identity hs)) resp_signing_pk True of
                    Inl e \<Rightarrow> Inl e
                  | Inr keys \<Rightarrow> Inr (HS_Success, hs\<lparr>hi_keys := keys\<rparr>))))"

definition initiator_create_auth_message ::
    "'t externals \<Rightarrow> bytes \<Rightarrow> role \<Rightarrow> handshake_initiator \<Rightarrow> net_error + bytes \<times> handshake_initiator" where
  "initiator_create_auth_message X rnd rl hs =
     (case identity_sign X rnd (hi_identity hs) (sk_session_fingerprint (hi_keys hs)) of
        Inl e \<Rightarrow> Inl e
      | Inr signature \<Rightarrow>
          let auth_payload = encode_auth_payload rl (id_public_key (hi_identity hs)) signature;
              msg = TransportCodec_encode X AuthSignature auth_payload 0 in
          (case write_frame X msg (sk_send_key (hi_keys hs)) (hi_send_counter hs) of
             Inl e \<Rightarrow> Inl (Frame_Exception e)
           | Inr frame \<Rightarrow> Inr (frame, hs\<lparr>hi_send_counter := hi_send_counter hs + 1\<rparr>)))"

text \<open>The counter moves even when the frame cannot be read: it is incremented in the argument of
  \<open>read_frame\<close>.\<close>

definition initiator_verify_peer_auth ::
    "'t externals \<Rightarrow> bytes \<Rightarrow> handshake_initiator
      \<Rightarrow> net_error + (handshake_error \<times> bytes) \<times> handshake_initiator" where
  "initiator_verify_peer_auth X encrypted_auth_msg hs =
     (let hs' = hs\<lparr>hi_recv_counter := hi_recv_counter hs + 1\<rparr> in
      case read_frame X encrypted_auth_msg (sk_recv_key (hi_keys hs)) (hi_recv_counter hs) of
        Inl e \<Rightarrow> Inl (Frame_Exception e)
      | Inr None \<Rightarrow> Inr ((HS_Decrypt_Failed, []), hs')
      | Inr (Some (plaintext, _)) \<Rightarrow>
          (case TransportCodec_decode X plaintext of
             None \<Rightarrow> Inr ((HS_Invalid_Message, []), hs')
           | Some decoded \<Rightarrow>
               if dm_type decoded \<noteq> AuthSignature then Inr ((HS_Invalid_Message, []), hs')
               else (case decode_auth_payload (dm_payload decoded) of
                       None \<Rightarrow> Inr ((HS_Invalid_Message, []), hs')
                     | Some auth \<Rightarrow>
                         if \<not> oqs_sig_verify X (sk_session_fingerprint (hi_keys hs)) (ap_signature auth) (ap_pubkey auth)
                         then Inr ((HS_Auth_Failed, []), hs')
                         else Inr ((HS_Success, ap_pubkey auth), hs'))))"

section \<open>The responder\<close>

record handshake_responder =
  hr_identity :: node_identity
  hr_keys :: session_keys
  hr_send_counter :: u64
  hr_recv_counter :: u64
  hr_initiator_signing_pubkey :: bytes

definition HandshakeResponder :: "node_identity \<Rightarrow> handshake_responder" where
  "HandshakeResponder identity =
     \<lparr>hr_identity = identity, hr_keys = no_keys, hr_send_counter = 0, hr_recv_counter = 0,
      hr_initiator_signing_pubkey = []\<rparr>"

definition receive_kem_pubkey ::
    "'t externals \<Rightarrow> bytes \<Rightarrow> bytes \<Rightarrow> handshake_responder
      \<Rightarrow> net_error + (handshake_error \<times> bytes) \<times> handshake_responder" where
  "receive_kem_pubkey X rnd kem_pk_msg hs =
     (case TransportCodec_decode X kem_pk_msg of
        None \<Rightarrow> Inr ((HS_Invalid_Message, []), hs)
      | Some decoded \<Rightarrow>
          if dm_type decoded \<noteq> KemPubkey then Inr ((HS_Invalid_Message, []), hs)
          else if length (dm_payload decoded) \<noteq> KEM_PUBLIC_KEY_SIZE + SIGNER_PUBLIC_KEY_SIZE
          then Inr ((HS_Invalid_Message, []), hs)
          else
            let kem_pk = take KEM_PUBLIC_KEY_SIZE (dm_payload decoded);
                init_signing_pk = take SIGNER_PUBLIC_KEY_SIZE (drop KEM_PUBLIC_KEY_SIZE (dm_payload decoded)) in
            (case kem_encaps X rnd kem_pk of
               Inl e \<Rightarrow> Inl e
             | Inr (ct, ss) \<Rightarrow>
                 (case derive_session_keys X ss init_signing_pk (id_public_key (hr_identity hs)) False of
                    Inl e \<Rightarrow> Inl e
                  | Inr keys \<Rightarrow>
                      Inr ((HS_Success, TransportCodec_encode X KemCiphertext (ct @ id_public_key (hr_identity hs)) 0),
                           hs\<lparr>hr_keys := keys, hr_initiator_signing_pubkey := init_signing_pk\<rparr>))))"

definition responder_verify_peer_auth ::
    "'t externals \<Rightarrow> bytes \<Rightarrow> handshake_responder
      \<Rightarrow> net_error + (handshake_error \<times> bytes) \<times> handshake_responder" where
  "responder_verify_peer_auth X encrypted_auth_msg hs =
     (let hs' = hs\<lparr>hr_recv_counter := hr_recv_counter hs + 1\<rparr> in
      case read_frame X encrypted_auth_msg (sk_recv_key (hr_keys hs)) (hr_recv_counter hs) of
        Inl e \<Rightarrow> Inl (Frame_Exception e)
      | Inr None \<Rightarrow> Inr ((HS_Decrypt_Failed, []), hs')
      | Inr (Some (plaintext, _)) \<Rightarrow>
          (case TransportCodec_decode X plaintext of
             None \<Rightarrow> Inr ((HS_Invalid_Message, []), hs')
           | Some decoded \<Rightarrow>
               if dm_type decoded \<noteq> AuthSignature then Inr ((HS_Invalid_Message, []), hs')
               else (case decode_auth_payload (dm_payload decoded) of
                       None \<Rightarrow> Inr ((HS_Invalid_Message, []), hs')
                     | Some auth \<Rightarrow>
                         if ap_pubkey auth \<noteq> hr_initiator_signing_pubkey hs then Inr ((HS_Auth_Failed, []), hs')
                         else if \<not> oqs_sig_verify X (sk_session_fingerprint (hr_keys hs)) (ap_signature auth) (ap_pubkey auth)
                         then Inr ((HS_Auth_Failed, []), hs')
                         else Inr ((HS_Success, ap_pubkey auth), hs'))))"

definition responder_create_auth_message ::
    "'t externals \<Rightarrow> bytes \<Rightarrow> role \<Rightarrow> handshake_responder \<Rightarrow> net_error + bytes \<times> handshake_responder" where
  "responder_create_auth_message X rnd rl hs =
     (case identity_sign X rnd (hr_identity hs) (sk_session_fingerprint (hr_keys hs)) of
        Inl e \<Rightarrow> Inl e
      | Inr signature \<Rightarrow>
          let auth_payload = encode_auth_payload rl (id_public_key (hr_identity hs)) signature;
              msg = TransportCodec_encode X AuthSignature auth_payload 0 in
          (case write_frame X msg (sk_send_key (hr_keys hs)) (hr_send_counter hs) of
             Inl e \<Rightarrow> Inl (Frame_Exception e)
           | Inr frame \<Rightarrow> Inr (frame, hs\<lparr>hr_send_counter := hr_send_counter hs + 1\<rparr>)))"

section \<open>What the two sides share\<close>

text \<open>The keys of the two ends of one session: what one sends with, the other receives with, and both sign
  the same fingerprint.\<close>

definition mirrored :: "session_keys \<Rightarrow> session_keys \<Rightarrow> bool" where
  "mirrored a b \<longleftrightarrow>
     sk_send_key a = sk_recv_key b \<and> sk_recv_key a = sk_send_key b \<and>
     sk_session_fingerprint a = sk_session_fingerprint b \<and>
     length (sk_send_key a) = 32 \<and> length (sk_recv_key a) = 32 \<and> length (sk_session_fingerprint a) = 32"

context externals
begin

lemma KDF_extract_ok: "\<exists>prk. KDF_extract X salt ikm = Inr prk"
  using hkdf.extract_total [of salt ikm] by (auto simp: KDF_extract_def)

lemma KDF_expand_ok: "\<exists>k. KDF_expand X prk ctx KEY_SIZE = Inr k \<and> length k = 32"
  using hkdf.expand_total [of 32 prk ctx] hkdf.expand_length [of prk ctx 32]
  by (auto simp: KDF_expand_def KEY_SIZE_def)

lemma length_sha3_256: "length (sha3_256 X m) = 32"
  by (simp add: sha3_256_def sha3.length_sha3)

lemma session_keys_mirrored:
  "\<exists>a b. derive_session_keys X ss ipk rpk True = Inr a \<and> derive_session_keys X ss ipk rpk False = Inr b \<and> mirrored a b"
proof -
  obtain prk where "KDF_extract X [] ss = Inr prk" using KDF_extract_ok by blast
  moreover obtain k1 where "KDF_expand X prk ''chromatin-init-to-resp-v1'' KEY_SIZE = Inr k1" "length k1 = 32"
    using KDF_expand_ok by blast
  moreover obtain k2 where "KDF_expand X prk ''chromatin-resp-to-init-v1'' KEY_SIZE = Inr k2" "length k2 = 32"
    using KDF_expand_ok by blast
  ultimately show ?thesis by (simp add: derive_session_keys_def mirrored_def length_sha3_256)
qed

lemma lightweight_keys_mirrored:
  "\<exists>a b. derive_lightweight_session_keys X ni nr ipk rpk True = Inr a \<and>
    derive_lightweight_session_keys X ni nr ipk rpk False = Inr b \<and> mirrored a b"
proof -
  obtain prk where "KDF_extract X (ipk @ rpk) (ni @ nr) = Inr prk" using KDF_extract_ok by blast
  moreover obtain k1 where "KDF_expand X prk ''chromatin-init-to-resp-v1'' KEY_SIZE = Inr k1" "length k1 = 32"
    using KDF_expand_ok by blast
  moreover obtain k2 where "KDF_expand X prk ''chromatin-resp-to-init-v1'' KEY_SIZE = Inr k2" "length k2 = 32"
    using KDF_expand_ok by blast
  ultimately show ?thesis
    by (simp add: derive_lightweight_session_keys_def mirrored_def length_sha3_256 Let_def)
qed

end

end
