(* ===== verification/Connection.thy ===== *)
theory Connection
  imports Handshake
begin

text \<open>
  \<open>db/net/connection.cpp\<close>: one connection, from the handshake over the message loop to the send queue.
  Each coroutine is cut where it awaits the socket: a segment takes the state and what the await
  returned, and gives the new state, the program counter and the next thing awaited.  The two writes of
  \<open>send_raw\<close> are one write of header and data, and the bytes that arrive are a stream from which
  \<open>recv_raw\<close> takes a frame.  Verification on the thread pool is a call.
\<close>

definition STREAMING_THRESHOLD :: nat where "STREAMING_THRESHOLD = 1048576"
definition TRANSPORT_ENVELOPE_MARGIN :: nat where "TRANSPORT_ENVELOPE_MARGIN = 64"
definition MAX_BLOB_DATA_HARD_CEILING :: nat where "MAX_BLOB_DATA_HARD_CEILING = 64 * 1024 * 1024"
definition MAX_BLOB_ENVELOPE_OVERHEAD :: nat where "MAX_BLOB_ENVELOPE_OVERHEAD = 1024 * 1024"
definition MAX_CHUNKED_WIRE_PAYLOAD :: nat where
  "MAX_CHUNKED_WIRE_PAYLOAD = MAX_BLOB_DATA_HARD_CEILING + MAX_BLOB_ENVELOPE_OVERHEAD"
definition MAX_SEND_QUEUE :: nat where "MAX_SEND_QUEUE = 1024"
definition CHUNKED_HEADER_SIZE :: nat where "CHUNKED_HEADER_SIZE = 14"
definition NONCE_LIMIT :: u64 where "NONCE_LIMIT = push_bit 63 1"

lemmas connection_sizes = STREAMING_THRESHOLD_def MAX_BLOB_DATA_HARD_CEILING_def
  MAX_BLOB_ENVELOPE_OVERHEAD_def MAX_CHUNKED_WIRE_PAYLOAD_def MAX_SEND_QUEUE_def CHUNKED_HEADER_SIZE_def

section \<open>State\<close>

text \<open>The waiter of a queued message is a number; being told the result is a pair of it and the result.\<close>

record pending_message =
  pm_encoded :: bytes
  pm_waiter :: nat
  pm_is_chunked :: bool
  pm_chunked_payload :: bytes

record connection =
  cn_identity :: node_identity
  cn_is_initiator :: bool
  cn_is_uds :: bool
  cn_authenticated :: bool
  cn_closed :: bool
  cn_received_goodbye :: bool
  cn_closing :: bool
  cn_last_recv_time :: u64
  cn_send_queue :: "pending_message list"
  cn_session_keys :: session_keys
  cn_send_counter :: u64
  cn_recv_counter :: u64
  cn_peer_pubkey :: bytes
  cn_local_role :: role
  cn_peer_role :: role

definition new_connection :: "node_identity \<Rightarrow> bool \<Rightarrow> bool \<Rightarrow> u64 \<Rightarrow> connection" where
  "new_connection identity is_initiator is_uds now =
     \<lparr>cn_identity = identity, cn_is_initiator = is_initiator, cn_is_uds = is_uds, cn_authenticated = False,
      cn_closed = False, cn_received_goodbye = False, cn_closing = False, cn_last_recv_time = now,
      cn_send_queue = [], cn_session_keys = no_keys, cn_send_counter = 0, cn_recv_counter = 0,
      cn_peer_pubkey = [], cn_local_role = Role_Peer, cn_peer_role = Role_Peer\<rparr>"

definition close :: "connection \<Rightarrow> connection" where
  "close c = (if cn_closed c then c else c\<lparr>cn_closed := True\<rparr>)"

section \<open>Frames on the socket\<close>

definition send_raw :: "bytes \<Rightarrow> bytes" where
  "send_raw dat = store_u32_be (of_nat (length dat)) @ dat"

text \<open>\<open>None\<close> is \<open>nullopt\<close>: the stream ends early, or the length is over the limit.\<close>

definition recv_raw :: "bytes \<Rightarrow> (bytes \<times> bytes) option" where
  "recv_raw input =
     (if length input < 4 then None
      else let len = read_u32_be_ptr input in
        if unat len > MAX_FRAME_SIZE then None
        else if length input < 4 + unat len then None
        else Some (take (unat len) (drop 4 input), drop (4 + unat len) input))"

text \<open>\<open>None\<close> in the result is \<open>false\<close> or \<open>nullopt\<close>, otherwise the bytes to write or the plaintext.\<close>

definition send_encrypted :: "'t externals \<Rightarrow> bytes \<Rightarrow> connection \<Rightarrow> net_error + connection \<times> bytes option" where
  "send_encrypted X plaintext c =
     (if cn_send_counter c \<ge> NONCE_LIMIT then Inr (close c, None)
      else
        let nonce = make_nonce (cn_send_counter c); c' = c\<lparr>cn_send_counter := cn_send_counter c + 1\<rparr> in
        (case AEAD_encrypt X plaintext [] nonce (sk_send_key (cn_session_keys c)) of
           Inl e \<Rightarrow> Inl (Frame_Exception (Aead_Error e))
         | Inr ciphertext \<Rightarrow> Inr (c', Some (send_raw ciphertext))))"

definition recv_encrypted :: "'t externals \<Rightarrow> bytes option \<Rightarrow> connection \<Rightarrow> net_error + connection \<times> bytes option" where
  "recv_encrypted X raw c =
     (case raw of
        None \<Rightarrow> Inr (c, None)
      | Some ciphertext \<Rightarrow>
          if cn_recv_counter c \<ge> NONCE_LIMIT then Inr (close c, None)
          else
            let nonce = make_nonce (cn_recv_counter c); c' = c\<lparr>cn_recv_counter := cn_recv_counter c + 1\<rparr> in
            (case AEAD_decrypt X ciphertext [] nonce (sk_recv_key (cn_session_keys c)) of
               Inl e \<Rightarrow> Inl (Frame_Exception (Aead_Error e))
             | Inr plaintext \<Rightarrow> Inr (c', plaintext)))"

section \<open>The handshake\<close>

datatype hs_event = Hs_Written bool | Hs_Frame "bytes option"
datatype hs_action = Hs_Write bytes | Hs_Read | Hs_Return bool | Hs_Raise net_error

text \<open>An \<open>option\<close> in an authentication state is the key announced in \<open>TrustedHello\<close>; only the lightweight
  paths compare with it.\<close>

datatype hs_pc =
  I_Hello_Sent bytes | I_Hello_Wait bytes | I_Kem_Sent handshake_initiator | I_Kem_Wait handshake_initiator
| I_Auth_Sent "bytes option" | I_Auth_Wait "bytes option"
| R_First_Wait bool | R_Hello_Sent bytes bytes bytes | R_Required_Sent | R_Kem_Wait
| R_Kem_Sent handshake_responder | R_Auth_Wait "bytes option" | R_Auth_Sent "auth_payload option"
| Hs_Stopped

type_synonym hs_step = "connection \<times> hs_pc \<times> hs_action"

record hs_random =
  rn_nonce :: bytes
  rn_kem_keypair :: bytes
  rn_kem_encaps :: bytes
  rn_sign :: bytes

definition hs_return :: "bool \<Rightarrow> connection \<Rightarrow> hs_step" where
  "hs_return ok c = (c, Hs_Stopped, Hs_Return ok)"

definition hs_raise :: "net_error \<Rightarrow> connection \<Rightarrow> hs_step" where
  "hs_raise e c = (c, Hs_Stopped, Hs_Raise e)"

datatype ip_address = Ip_V4 bytes | Ip_V6 bytes

text \<open>\<open>None\<close> for the endpoint: it could not be read, or is of another family.\<close>

definition peer_is_trusted :: "connection \<Rightarrow> ip_address option \<Rightarrow> (ip_address \<Rightarrow> bool) option \<Rightarrow> bool" where
  "peer_is_trusted c endpoint trust_check =
     (if cn_is_uds c then True
      else (case (endpoint, trust_check) of (Some ip, Some check) \<Rightarrow> check ip | _ \<Rightarrow> False))"

definition auth_message ::
    "'t externals \<Rightarrow> bytes \<Rightarrow> connection \<Rightarrow> net_error + bytes" where
  "auth_message X rnd c =
     (case identity_sign X rnd (cn_identity c) (sk_session_fingerprint (cn_session_keys c)) of
        Inl e \<Rightarrow> Inl e
      | Inr sig \<Rightarrow> Inr (TransportCodec_encode X AuthSignature
            (encode_auth_payload (cn_local_role c) (id_public_key (cn_identity c)) sig) 0))"

definition send_auth :: "'t externals \<Rightarrow> bytes \<Rightarrow> hs_pc \<Rightarrow> connection \<Rightarrow> hs_step" where
  "send_auth X rnd next_pc c =
     (case auth_message X rnd c of
        Inl e \<Rightarrow> hs_raise e c
      | Inr msg \<Rightarrow>
          (case send_encrypted X msg c of
             Inl e \<Rightarrow> hs_raise e c
           | Inr (c', None) \<Rightarrow> hs_return False c'
           | Inr (c', Some dat) \<Rightarrow> (c', next_pc, Hs_Write dat)))"

text \<open>The checks both sides make on the other's authentication message.\<close>

definition check_auth ::
    "'t externals \<Rightarrow> bytes option \<Rightarrow> bytes option \<Rightarrow> connection \<Rightarrow> net_error + connection \<times> auth_payload option" where
  "check_auth X expected raw c =
     (case recv_encrypted X raw c of
        Inl e \<Rightarrow> Inl e
      | Inr (c', None) \<Rightarrow> Inr (c', None)
      | Inr (c', Some plaintext) \<Rightarrow>
          (case TransportCodec_decode X plaintext of
             None \<Rightarrow> Inr (c', None)
           | Some decoded \<Rightarrow>
               if dm_type decoded \<noteq> AuthSignature then Inr (c', None)
               else (case decode_auth_payload (dm_payload decoded) of
                       None \<Rightarrow> Inr (c', None)
                     | Some auth \<Rightarrow>
                         if (case expected of None \<Rightarrow> False | Some pk \<Rightarrow> ap_pubkey auth \<noteq> pk) then Inr (c', None)
                         else if \<not> oqs_sig_verify X (sk_session_fingerprint (cn_session_keys c)) (ap_signature auth) (ap_pubkey auth)
                         then Inr (c', None)
                         else Inr (c', Some auth))))"

definition record_peer :: "auth_payload \<Rightarrow> connection \<Rightarrow> connection" where
  "record_peer auth c = c\<lparr>cn_peer_role := ap_role auth, cn_peer_pubkey := ap_pubkey auth\<rparr>"

subsection \<open>Initiator\<close>

definition do_handshake_initiator_trusted :: "'t externals \<Rightarrow> hs_random \<Rightarrow> connection \<Rightarrow> hs_step" where
  "do_handshake_initiator_trusted X rnd c =
     (let msg = TransportCodec_encode X TrustedHello (rn_nonce rnd @ id_public_key (cn_identity c)) 0 in
      (c, I_Hello_Sent (rn_nonce rnd), Hs_Write (send_raw msg)))"

definition do_handshake_initiator_pq :: "'t externals \<Rightarrow> hs_random \<Rightarrow> connection \<Rightarrow> hs_step" where
  "do_handshake_initiator_pq X rnd c =
     (case initiator_start X (rn_kem_keypair rnd) (HandshakeInitiator (cn_identity c)) of
        Inl e \<Rightarrow> hs_raise e c
      | Inr (kem_pk_msg, hs) \<Rightarrow> (c, I_Kem_Sent hs, Hs_Write (send_raw kem_pk_msg)))"

definition initiator_hello_reply ::
    "'t externals \<Rightarrow> hs_random \<Rightarrow> bytes \<Rightarrow> bytes option \<Rightarrow> connection \<Rightarrow> hs_step" where
  "initiator_hello_reply X rnd nonce_i response c =
     (case response of
        None \<Rightarrow> hs_return False c
      | Some raw \<Rightarrow>
          (case TransportCodec_decode X raw of
             None \<Rightarrow> hs_return False c
           | Some decoded \<Rightarrow>
               if dm_type decoded = TrustedHello then
                 if length (dm_payload decoded) \<noteq> 32 + SIGNER_PUBLIC_KEY_SIZE then hs_return False c
                 else
                   let nonce_r = take 32 (dm_payload decoded);
                       resp_signing_pk = take SIGNER_PUBLIC_KEY_SIZE (drop 32 (dm_payload decoded)) in
                   (case derive_lightweight_session_keys X nonce_i nonce_r (id_public_key (cn_identity c)) resp_signing_pk True of
                      Inl e \<Rightarrow> hs_raise e c
                    | Inr keys \<Rightarrow> send_auth X (rn_sign rnd) (I_Auth_Sent (Some resp_signing_pk)) (c\<lparr>cn_session_keys := keys\<rparr>))
               else if dm_type decoded = PQRequired then do_handshake_initiator_pq X rnd c
               else hs_return False c))"

definition initiator_kem_reply ::
    "'t externals \<Rightarrow> hs_random \<Rightarrow> handshake_initiator \<Rightarrow> bytes option \<Rightarrow> connection \<Rightarrow> hs_step" where
  "initiator_kem_reply X rnd hs kem_ct c =
     (case kem_ct of
        None \<Rightarrow> hs_return False c
      | Some raw \<Rightarrow>
          (case receive_kem_ciphertext X raw hs of
             Inl e \<Rightarrow> hs_raise e c
           | Inr (err, hs') \<Rightarrow>
               if err \<noteq> HS_Success then hs_return False c
               else send_auth X (rn_sign rnd) (I_Auth_Sent None) (c\<lparr>cn_session_keys := hi_keys hs'\<rparr>)))"

definition initiator_auth_reply ::
    "'t externals \<Rightarrow> bytes option \<Rightarrow> bytes option \<Rightarrow> connection \<Rightarrow> hs_step" where
  "initiator_auth_reply X expected raw c =
     (case check_auth X expected raw c of
        Inl e \<Rightarrow> hs_raise e c
      | Inr (c', None) \<Rightarrow> hs_return False c'
      | Inr (c', Some auth) \<Rightarrow> hs_return True ((record_peer auth c')\<lparr>cn_authenticated := True\<rparr>))"

subsection \<open>Responder\<close>

definition do_handshake_responder_trusted ::
    "'t externals \<Rightarrow> hs_random \<Rightarrow> bytes \<Rightarrow> connection \<Rightarrow> hs_step" where
  "do_handshake_responder_trusted X rnd payload c =
     (if length payload \<noteq> 32 + SIGNER_PUBLIC_KEY_SIZE then hs_return False c
      else
        let nonce_i = take 32 payload; init_signing_pk = take SIGNER_PUBLIC_KEY_SIZE (drop 32 payload);
            msg = TransportCodec_encode X TrustedHello (rn_nonce rnd @ id_public_key (cn_identity c)) 0 in
        (c, R_Hello_Sent nonce_i init_signing_pk (rn_nonce rnd), Hs_Write (send_raw msg)))"

definition do_handshake_responder_pq_fallback :: "'t externals \<Rightarrow> connection \<Rightarrow> hs_step" where
  "do_handshake_responder_pq_fallback X c =
     (c, R_Required_Sent, Hs_Write (send_raw (TransportCodec_encode X PQRequired [] 0)))"

definition do_handshake_responder_pq :: "'t externals \<Rightarrow> hs_random \<Rightarrow> bytes \<Rightarrow> connection \<Rightarrow> hs_step" where
  "do_handshake_responder_pq X rnd first_msg c =
     (case receive_kem_pubkey X (rn_kem_encaps rnd) first_msg (HandshakeResponder (cn_identity c)) of
        Inl e \<Rightarrow> hs_raise e c
      | Inr ((err, kem_ct_msg), hs) \<Rightarrow>
          if err \<noteq> HS_Success then hs_return False c
          else (c, R_Kem_Sent hs, Hs_Write (send_raw kem_ct_msg)))"

definition responder_first ::
    "'t externals \<Rightarrow> hs_random \<Rightarrow> bool \<Rightarrow> bytes option \<Rightarrow> connection \<Rightarrow> hs_step" where
  "responder_first X rnd trusted first_msg c =
     (case first_msg of
        None \<Rightarrow> hs_return False c
      | Some raw \<Rightarrow>
          (case TransportCodec_decode X raw of
             None \<Rightarrow> hs_return False c
           | Some decoded \<Rightarrow>
               if dm_type decoded = TrustedHello then
                 if trusted then do_handshake_responder_trusted X rnd (dm_payload decoded) c
                 else do_handshake_responder_pq_fallback X c
               else if dm_type decoded = KemPubkey then do_handshake_responder_pq X rnd raw c
               else hs_return False c))"

definition responder_hello_sent ::
    "'t externals \<Rightarrow> bytes \<Rightarrow> bytes \<Rightarrow> bytes \<Rightarrow> connection \<Rightarrow> hs_step" where
  "responder_hello_sent X nonce_i init_signing_pk nonce_r c =
     (case derive_lightweight_session_keys X nonce_i nonce_r init_signing_pk (id_public_key (cn_identity c)) False of
        Inl e \<Rightarrow> hs_raise e c
      | Inr keys \<Rightarrow> (c\<lparr>cn_session_keys := keys\<rparr>, R_Auth_Wait (Some init_signing_pk), Hs_Read))"

text \<open>The post-quantum paths record the peer before they answer, the lightweight path after.\<close>

definition responder_auth ::
    "'t externals \<Rightarrow> hs_random \<Rightarrow> bytes option \<Rightarrow> bytes option \<Rightarrow> connection \<Rightarrow> hs_step" where
  "responder_auth X rnd expected raw c =
     (case check_auth X expected raw c of
        Inl e \<Rightarrow> hs_raise e c
      | Inr (c', None) \<Rightarrow> hs_return False c'
      | Inr (c', Some auth) \<Rightarrow>
          (case expected of
             None \<Rightarrow> send_auth X (rn_sign rnd) (R_Auth_Sent None) (record_peer auth c')
           | Some _ \<Rightarrow> send_auth X (rn_sign rnd) (R_Auth_Sent (Some auth)) c'))"

definition responder_auth_sent :: "auth_payload option \<Rightarrow> connection \<Rightarrow> hs_step" where
  "responder_auth_sent auth c =
     hs_return True
       ((case auth of None \<Rightarrow> c | Some a \<Rightarrow> record_peer a c)\<lparr>cn_authenticated := True\<rparr>)"

subsection \<open>The coroutine\<close>

definition do_handshake :: "'t externals \<Rightarrow> hs_random \<Rightarrow> bool \<Rightarrow> connection \<Rightarrow> hs_step" where
  "do_handshake X rnd trusted c =
     (if cn_is_initiator c then
        if trusted then do_handshake_initiator_trusted X rnd c else do_handshake_initiator_pq X rnd c
      else (c, R_First_Wait trusted, Hs_Read))"

fun hs_written :: "'t externals \<Rightarrow> hs_pc \<Rightarrow> connection \<Rightarrow> hs_step" where
  "hs_written X (I_Hello_Sent n) c = (c, I_Hello_Wait n, Hs_Read)"
| "hs_written X (I_Kem_Sent hs) c = (c, I_Kem_Wait hs, Hs_Read)"
| "hs_written X (I_Auth_Sent pk) c = (c, I_Auth_Wait pk, Hs_Read)"
| "hs_written X (R_Hello_Sent ni pk nr) c = responder_hello_sent X ni pk nr c"
| "hs_written X R_Required_Sent c = (c, R_Kem_Wait, Hs_Read)"
| "hs_written X (R_Kem_Sent hs) c = (c\<lparr>cn_session_keys := hr_keys hs\<rparr>, R_Auth_Wait None, Hs_Read)"
| "hs_written X (R_Auth_Sent auth) c = responder_auth_sent auth c"
| "hs_written X pc c = hs_return False c"

fun hs_frame :: "'t externals \<Rightarrow> hs_random \<Rightarrow> hs_pc \<Rightarrow> bytes option \<Rightarrow> connection \<Rightarrow> hs_step" where
  "hs_frame X rnd (I_Hello_Wait n) raw c = initiator_hello_reply X rnd n raw c"
| "hs_frame X rnd (I_Kem_Wait hs) raw c = initiator_kem_reply X rnd hs raw c"
| "hs_frame X rnd (I_Auth_Wait pk) raw c = initiator_auth_reply X pk raw c"
| "hs_frame X rnd (R_First_Wait trusted) raw c = responder_first X rnd trusted raw c"
| "hs_frame X rnd R_Kem_Wait raw c =
     (case raw of None \<Rightarrow> hs_return False c | Some msg \<Rightarrow> do_handshake_responder_pq X rnd msg c)"
| "hs_frame X rnd (R_Auth_Wait pk) raw c = responder_auth X rnd pk raw c"
| "hs_frame X rnd pc raw c = hs_return False c"

fun hs_resume :: "'t externals \<Rightarrow> hs_random \<Rightarrow> hs_pc \<Rightarrow> hs_event \<Rightarrow> connection \<Rightarrow> hs_step" where
  "hs_resume X rnd pc (Hs_Written ok) c = (if ok then hs_written X pc c else hs_return False c)"
| "hs_resume X rnd pc (Hs_Frame raw) c = hs_frame X rnd pc raw c"

section \<open>Sending\<close>

datatype send_outcome = Send_Refused | Send_Queued

definition enqueue :: "pending_message \<Rightarrow> connection \<Rightarrow> connection \<times> send_outcome" where
  "enqueue pm c =
     (if cn_closed c \<or> cn_closing c then (c, Send_Refused)
      else if length (cn_send_queue c) \<ge> MAX_SEND_QUEUE then (close c, Send_Refused)
      else (c\<lparr>cn_send_queue := cn_send_queue c @ [pm]\<rparr>, Send_Queued))"

definition enqueue_send :: "nat \<Rightarrow> bytes \<Rightarrow> connection \<Rightarrow> connection \<times> send_outcome" where
  "enqueue_send waiter encoded c =
     enqueue \<lparr>pm_encoded = encoded, pm_waiter = waiter, pm_is_chunked = False, pm_chunked_payload = []\<rparr> c"

definition send_message_chunked ::
    "nat \<Rightarrow> transport_msg_type \<Rightarrow> bytes \<Rightarrow> u32 \<Rightarrow> bytes \<Rightarrow> connection \<Rightarrow> connection \<times> send_outcome" where
  "send_message_chunked waiter type payload request_id extra_metadata c =
     (let header = [0x01, msg_type_byte type] @ store_u32_be request_id @
            store_u64_be (of_nat (length payload)) @ extra_metadata in
      enqueue \<lparr>pm_encoded = header, pm_waiter = waiter, pm_is_chunked = True, pm_chunked_payload = payload\<rparr> c)"

definition send_message ::
    "'t externals \<Rightarrow> nat \<Rightarrow> transport_msg_type \<Rightarrow> bytes \<Rightarrow> u32 \<Rightarrow> connection \<Rightarrow> connection \<times> send_outcome" where
  "send_message X waiter type payload request_id c =
     (if length payload \<ge> STREAMING_THRESHOLD then send_message_chunked waiter type payload request_id [] c
      else enqueue_send waiter (TransportCodec_encode X type payload request_id) c)"

datatype drain_pc =
  Drain_Single pending_message | Drain_Header pending_message | Drain_Chunk pending_message nat
| Drain_Sentinel pending_message | Drain_Wait | Drain_Stopped

datatype drain_action = Drain_Write bytes | Drain_Sleep | Drain_Exit | Drain_Raise net_error

type_synonym signals = "(nat \<times> bool) list"
type_synonym drain_step = "connection \<times> drain_pc \<times> drain_action \<times> signals"

definition fail_queue :: "connection \<Rightarrow> connection \<times> signals" where
  "fail_queue c = (c\<lparr>cn_send_queue := []\<rparr>, map (\<lambda>m. (pm_waiter m, False)) (cn_send_queue c))"

definition drain_exit :: "signals \<Rightarrow> connection \<Rightarrow> drain_step" where
  "drain_exit sigs c = (let (c', s) = fail_queue c in (c', Drain_Stopped, Drain_Exit, sigs @ s))"

text \<open>After a failed write the rest of the queue fails with it.\<close>

definition drain_failed :: "pending_message \<Rightarrow> signals \<Rightarrow> connection \<Rightarrow> drain_step" where
  "drain_failed m sigs c =
     (let (c', s) = fail_queue c; sigs' = sigs @ (pm_waiter m, False) # s in
      if cn_closed c' then drain_exit sigs' c' else (c', Drain_Wait, Drain_Sleep, sigs'))"

definition drain_send ::
    "'t externals \<Rightarrow> pending_message \<Rightarrow> bytes \<Rightarrow> drain_pc \<Rightarrow> signals \<Rightarrow> connection \<Rightarrow> drain_step" where
  "drain_send X m plaintext next_pc sigs c =
     (case send_encrypted X plaintext c of
        Inl e \<Rightarrow> (c, Drain_Stopped, Drain_Raise e, sigs)
      | Inr (c', None) \<Rightarrow> drain_failed m sigs c'
      | Inr (c', Some dat) \<Rightarrow> (c', next_pc, Drain_Write dat, sigs))"

definition drain_next :: "'t externals \<Rightarrow> signals \<Rightarrow> connection \<Rightarrow> drain_step" where
  "drain_next X sigs c =
     (if cn_closed c then drain_exit sigs c
      else case cn_send_queue c of
        [] \<Rightarrow> (c, Drain_Wait, Drain_Sleep, sigs)
      | m # q \<Rightarrow>
          drain_send X m (pm_encoded m) (if pm_is_chunked m then Drain_Header m else Drain_Single m) sigs
            (c\<lparr>cn_send_queue := q\<rparr>))"

definition drain_chunk :: "'t externals \<Rightarrow> pending_message \<Rightarrow> nat \<Rightarrow> connection \<Rightarrow> drain_step" where
  "drain_chunk X m offset c =
     (if offset < length (pm_chunked_payload m) then
        let len = min STREAMING_THRESHOLD (length (pm_chunked_payload m) - offset) in
        drain_send X m (take len (drop offset (pm_chunked_payload m))) (Drain_Chunk m (offset + len)) [] c
      else drain_send X m [] (Drain_Sentinel m) [] c)"

fun drain_send_queue :: "'t externals \<Rightarrow> drain_pc \<Rightarrow> bool \<Rightarrow> connection \<Rightarrow> drain_step" where
  "drain_send_queue X Drain_Wait _ c = drain_next X [] c"
| "drain_send_queue X (Drain_Single m) ok c =
     (if ok then drain_next X [(pm_waiter m, True)] c else drain_failed m [] c)"
| "drain_send_queue X (Drain_Sentinel m) ok c =
     (if ok then drain_next X [(pm_waiter m, True)] c else drain_failed m [] c)"
| "drain_send_queue X (Drain_Header m) ok c = (if ok then drain_chunk X m 0 c else drain_failed m [] c)"
| "drain_send_queue X (Drain_Chunk m offset) ok c =
     (if ok then drain_chunk X m offset c else drain_failed m [] c)"
| "drain_send_queue X Drain_Stopped _ c = (c, Drain_Stopped, Drain_Exit, [])"

definition close_gracefully :: "'t externals \<Rightarrow> nat \<Rightarrow> connection \<Rightarrow> connection \<times> bool" where
  "close_gracefully X waiter c =
     (if cn_closed c \<or> \<not> cn_authenticated c then (close c, False)
      else if length (cn_send_queue c) \<ge> MAX_SEND_QUEUE then (close c, False)
      else (c\<lparr>cn_send_queue := cn_send_queue c @ [\<lparr>pm_encoded = TransportCodec_encode X Goodbye [] 0,
               pm_waiter = waiter, pm_is_chunked = False, pm_chunked_payload = []\<rparr>], cn_closing := True\<rparr>, True))"

section \<open>Receiving\<close>

datatype loop_pc = Loop_Recv | Loop_Chunk byte u32 u64 bytes | Loop_Stopped

datatype loop_effect = Deliver transport_msg_type bytes u32 | Reply_Pong

type_synonym loop_step = "connection \<times> loop_pc \<times> loop_effect list"

text \<open>The first frame of a chunked message: type, request id, declared size and what follows the header.\<close>

definition recv_chunked_header :: "bytes \<Rightarrow> (byte \<times> u32 \<times> u64 \<times> bytes) option" where
  "recv_chunked_header first_frame =
     (if length first_frame < CHUNKED_HEADER_SIZE then None
      else if first_frame ! 0 \<noteq> 0x01 then None
      else
        let type = first_frame ! 1; request_id = read_u32_be_ptr (drop 2 first_frame);
            total_payload_size = read_u64_be_ptr (drop 6 first_frame) in
        if unat total_payload_size > MAX_CHUNKED_WIRE_PAYLOAD then None
        else Some (type, request_id, total_payload_size, drop CHUNKED_HEADER_SIZE first_frame))"

definition loop_top :: "connection \<Rightarrow> loop_effect list \<Rightarrow> loop_step" where
  "loop_top c es = (c, if cn_closed c then Loop_Stopped else Loop_Recv, es)"

definition loop_message :: "'t externals \<Rightarrow> bytes \<Rightarrow> connection \<Rightarrow> loop_step" where
  "loop_message X msg c =
     (case TransportCodec_decode X msg of
        None \<Rightarrow> loop_top c []
      | Some decoded \<Rightarrow>
          if \<not> cn_authenticated c then (c, Loop_Stopped, [])
          else if dm_type decoded = Ping then loop_top c [Reply_Pong]
          else if dm_type decoded = Pong then loop_top c []
          else if dm_type decoded = Goodbye then loop_top (close (c\<lparr>cn_received_goodbye := True\<rparr>)) []
          else loop_top c [Deliver (dm_type decoded) (dm_payload decoded) (dm_request_id decoded)])"

definition recv_chunked ::
    "byte \<Rightarrow> u32 \<Rightarrow> u64 \<Rightarrow> bytes \<Rightarrow> bytes \<Rightarrow> connection \<Rightarrow> loop_step" where
  "recv_chunked type request_id declared payload chunk c =
     (if chunk = [] then
        if \<not> cn_authenticated c then (c, Loop_Stopped, [])
        else loop_top c [Deliver (msg_type_of_byte type) payload request_id]
      else
        let payload' = payload @ chunk in
        if length payload' > unat declared + 64 then (c, Loop_Stopped, [])
        else (c, Loop_Chunk type request_id declared payload', []))"

definition loop_frame :: "'t externals \<Rightarrow> loop_pc \<Rightarrow> bytes \<Rightarrow> connection \<Rightarrow> loop_step" where
  "loop_frame X pc msg c =
     (case pc of
        Loop_Stopped \<Rightarrow> (c, Loop_Stopped, [])
      | Loop_Chunk type request_id declared payload \<Rightarrow> recv_chunked type request_id declared payload msg c
      | Loop_Recv \<Rightarrow>
          if msg \<noteq> [] \<and> msg ! 0 = 0x01 then
            (case recv_chunked_header msg of
               None \<Rightarrow> (c, Loop_Stopped, [])
             | Some (type, request_id, declared, payload) \<Rightarrow> (c, Loop_Chunk type request_id declared payload, []))
          else loop_message X msg c)"

definition message_loop ::
    "'t externals \<Rightarrow> u64 \<Rightarrow> loop_pc \<Rightarrow> bytes option \<Rightarrow> connection \<Rightarrow> net_error + loop_step" where
  "message_loop X now pc raw c =
     (case recv_encrypted X raw c of
        Inl e \<Rightarrow> Inl e
      | Inr (c', None) \<Rightarrow> Inr (c', Loop_Stopped, [])
      | Inr (c', Some msg) \<Rightarrow> Inr (loop_frame X pc msg (c'\<lparr>cn_last_recv_time := now\<rparr>)))"

section \<open>Lifecycle\<close>

text \<open>What \<open>run\<close> does with the result of the handshake, and when both loops have ended: the calls of the
  close callback with its argument, and of the ready callback.\<close>

datatype lifecycle_call = Call_Ready | Call_Close bool

definition run_handshake_done :: "bool \<Rightarrow> connection \<Rightarrow> connection \<times> lifecycle_call list" where
  "run_handshake_done ok c = (if \<not> ok then (close c, [Call_Close False]) else (c, [Call_Ready]))"

definition run_loops_done :: "connection \<Rightarrow> lifecycle_call list" where
  "run_loops_done c = [Call_Close (cn_received_goodbye c)]"

end
