(* ===== verification/Node_Config.thy ===== *)
theory Node_Config
  imports Engine Connection "HOL-Library.Char_ord" "HOL-Library.Monad_Syntax"
begin

text \<open>
  \<open>db/config/config.cpp\<close>: the configuration of a node, read from a JSON file and the command line, and
  its validation.  Reading JSON is a library: \<open>json_access\<close> has what the code asks of a parsed document,
  with \<open>None\<close> for a thrown type error; so is the check of an IP address.  The warning about unknown keys is left
  out.
\<close>

section \<open>The record\<close>

record config =
  cf_bind_address :: string
  cf_storage_path :: string
  cf_data_dir :: string
  cf_bootstrap_peers :: "string list"
  cf_log_level :: string
  cf_max_peers :: u32
  cf_max_clients :: u32
  cf_max_ttl_seconds :: u64
  cf_max_subscriptions_per_connection :: u32
  cf_safety_net_interval_seconds :: u32
  cf_max_storage_bytes :: u64
  cf_blob_max_bytes :: u64
  cf_rate_limit_bytes_per_sec :: u64
  cf_rate_limit_burst :: u64
  cf_sync_namespaces :: "string list"
  cf_allowed_client_keys :: "string list"
  cf_allowed_peer_keys :: "string list"
  cf_trusted_peers :: "string list"
  cf_full_resync_interval :: u32
  cf_cursor_stale_seconds :: u64
  cf_namespace_quota_bytes :: u64
  cf_namespace_quota_count :: u64
  cf_worker_threads :: u32
  cf_sync_cooldown_seconds :: u32
  cf_max_sync_sessions :: u32
  cf_namespace_quotas :: "(string \<times> quota_override) list"
  cf_log_file :: string
  cf_log_max_size_mb :: u32
  cf_log_max_files :: u32
  cf_log_format :: string
  cf_compaction_interval_hours :: u32
  cf_uds_path :: string
  cf_metrics_bind :: string
  cf_blob_transfer_timeout :: u32
  cf_sync_timeout :: u32
  cf_pex_interval :: u32
  cf_strike_threshold :: u32
  cf_strike_cooldown :: u32
  cf_config_path :: string

definition default_config :: config where
  "default_config =
     \<lparr>cf_bind_address = ''0.0.0.0:4200'', cf_storage_path = ''./data/blobs'', cf_data_dir = ''./data'',
      cf_bootstrap_peers = [], cf_log_level = ''info'', cf_max_peers = 32, cf_max_clients = 128, cf_max_ttl_seconds = 0,
      cf_max_subscriptions_per_connection = 256, cf_safety_net_interval_seconds = 600, cf_max_storage_bytes = 0,
      cf_blob_max_bytes = 4 * 1024 * 1024, cf_rate_limit_bytes_per_sec = 0, cf_rate_limit_burst = 0,
      cf_sync_namespaces = [], cf_allowed_client_keys = [], cf_allowed_peer_keys = [], cf_trusted_peers = [],
      cf_full_resync_interval = 10, cf_cursor_stale_seconds = 3600, cf_namespace_quota_bytes = 0,
      cf_namespace_quota_count = 0, cf_worker_threads = 0, cf_sync_cooldown_seconds = 30, cf_max_sync_sessions = 1,
      cf_namespace_quotas = [], cf_log_file = [], cf_log_max_size_mb = 10, cf_log_max_files = 3,
      cf_log_format = ''text'', cf_compaction_interval_hours = 6, cf_uds_path = [], cf_metrics_bind = [],
      cf_blob_transfer_timeout = 600, cf_sync_timeout = 30, cf_pex_interval = 300, cf_strike_threshold = 10,
      cf_strike_cooldown = 300, cf_config_path = []\<rparr>"

section \<open>Keys and addresses\<close>

definition validate_allowed_keys :: "string list \<Rightarrow> bool" where
  "validate_allowed_keys keys \<longleftrightarrow> list_all (\<lambda>key. length key = 64 \<and> list_all hex_digit key) keys"

definition validate_trusted_peers :: "(string \<Rightarrow> 'ip option) \<Rightarrow> string list \<Rightarrow> bool" where
  "validate_trusted_peers make_address peers \<longleftrightarrow> list_all (\<lambda>peer. make_address peer \<noteq> None) peers"

section \<open>Reading the file\<close>

text \<open>\<open>value\<close> of a field with a default, the array of strings under a key (entries that are no strings are
  skipped; \<open>None\<close> when the key is missing or holds no array), and the objects under \<open>namespace_quotas\<close>.\<close>

record 'j json_access =
  js_string :: "'j \<Rightarrow> string \<Rightarrow> string \<Rightarrow> string option"
  js_u32 :: "'j \<Rightarrow> string \<Rightarrow> u32 \<Rightarrow> u32 option"
  js_u64 :: "'j \<Rightarrow> string \<Rightarrow> u64 \<Rightarrow> u64 option"
  js_strings :: "'j \<Rightarrow> string \<Rightarrow> string list option"
  js_quotas :: "'j \<Rightarrow> (string \<times> (quota_override option)) list"

definition read_fields :: "'j json_access \<Rightarrow> 'j \<Rightarrow> config \<Rightarrow> config option" where
  "read_fields J j c = do {
     bind_address \<leftarrow> js_string J j ''bind_address'' (cf_bind_address c);
     storage_path \<leftarrow> js_string J j ''storage_path'' (cf_storage_path c);
     data_dir \<leftarrow> js_string J j ''data_dir'' (cf_data_dir c);
     log_level \<leftarrow> js_string J j ''log_level'' (cf_log_level c);
     max_peers \<leftarrow> js_u32 J j ''max_peers'' (cf_max_peers c);
     max_clients \<leftarrow> js_u32 J j ''max_clients'' (cf_max_clients c);
     max_ttl \<leftarrow> js_u64 J j ''max_ttl_seconds'' (cf_max_ttl_seconds c);
     max_subs \<leftarrow> js_u32 J j ''max_subscriptions_per_connection'' (cf_max_subscriptions_per_connection c);
     safety_net \<leftarrow> js_u32 J j ''safety_net_interval_seconds'' (cf_safety_net_interval_seconds c);
     max_storage \<leftarrow> js_u64 J j ''max_storage_bytes'' (cf_max_storage_bytes c);
     blob_max \<leftarrow> js_u64 J j ''blob_max_bytes'' (cf_blob_max_bytes c);
     rate \<leftarrow> js_u64 J j ''rate_limit_bytes_per_sec'' (cf_rate_limit_bytes_per_sec c);
     burst \<leftarrow> js_u64 J j ''rate_limit_burst'' (cf_rate_limit_burst c);
     full_resync \<leftarrow> js_u32 J j ''full_resync_interval'' (cf_full_resync_interval c);
     cursor_stale \<leftarrow> js_u64 J j ''cursor_stale_seconds'' (cf_cursor_stale_seconds c);
     quota_bytes \<leftarrow> js_u64 J j ''namespace_quota_bytes'' (cf_namespace_quota_bytes c);
     quota_count \<leftarrow> js_u64 J j ''namespace_quota_count'' (cf_namespace_quota_count c);
     workers \<leftarrow> js_u32 J j ''worker_threads'' (cf_worker_threads c);
     cooldown \<leftarrow> js_u32 J j ''sync_cooldown_seconds'' (cf_sync_cooldown_seconds c);
     sessions \<leftarrow> js_u32 J j ''max_sync_sessions'' (cf_max_sync_sessions c);
     log_file \<leftarrow> js_string J j ''log_file'' (cf_log_file c);
     log_size \<leftarrow> js_u32 J j ''log_max_size_mb'' (cf_log_max_size_mb c);
     log_files \<leftarrow> js_u32 J j ''log_max_files'' (cf_log_max_files c);
     log_format \<leftarrow> js_string J j ''log_format'' (cf_log_format c);
     compaction \<leftarrow> js_u32 J j ''compaction_interval_hours'' (cf_compaction_interval_hours c);
     uds_path \<leftarrow> js_string J j ''uds_path'' (cf_uds_path c);
     metrics_bind \<leftarrow> js_string J j ''metrics_bind'' (cf_metrics_bind c);
     transfer_timeout \<leftarrow> js_u32 J j ''blob_transfer_timeout'' (cf_blob_transfer_timeout c);
     sync_timeout \<leftarrow> js_u32 J j ''sync_timeout'' (cf_sync_timeout c);
     pex_interval \<leftarrow> js_u32 J j ''pex_interval'' (cf_pex_interval c);
     strikes \<leftarrow> js_u32 J j ''strike_threshold'' (cf_strike_threshold c);
     strike_cooldown \<leftarrow> js_u32 J j ''strike_cooldown'' (cf_strike_cooldown c);
     Some (c\<lparr>cf_bind_address := bind_address, cf_storage_path := storage_path, cf_data_dir := data_dir,
             cf_log_level := log_level, cf_max_peers := max_peers, cf_max_clients := max_clients,
             cf_max_ttl_seconds := max_ttl, cf_max_subscriptions_per_connection := max_subs,
             cf_safety_net_interval_seconds := safety_net, cf_max_storage_bytes := max_storage,
             cf_blob_max_bytes := blob_max, cf_rate_limit_bytes_per_sec := rate, cf_rate_limit_burst := burst,
             cf_full_resync_interval := full_resync, cf_cursor_stale_seconds := cursor_stale,
             cf_namespace_quota_bytes := quota_bytes, cf_namespace_quota_count := quota_count,
             cf_worker_threads := workers, cf_sync_cooldown_seconds := cooldown, cf_max_sync_sessions := sessions,
             cf_log_file := log_file, cf_log_max_size_mb := log_size, cf_log_max_files := log_files,
             cf_log_format := log_format, cf_compaction_interval_hours := compaction, cf_uds_path := uds_path,
             cf_metrics_bind := metrics_bind, cf_blob_transfer_timeout := transfer_timeout,
             cf_sync_timeout := sync_timeout, cf_pex_interval := pex_interval, cf_strike_threshold := strikes,
             cf_strike_cooldown := strike_cooldown\<rparr>)
   }"

text \<open>\<open>cfg.namespace_quotas[key]\<close> in a map ordered by the key.\<close>

fun sorted_assign :: "'k::linorder \<Rightarrow> 'v \<Rightarrow> ('k \<times> 'v) list \<Rightarrow> ('k \<times> 'v) list" where
  "sorted_assign k v [] = [(k, v)]"
| "sorted_assign k v ((k', v') # m) =
     (if k < k' then (k, v) # (k', v') # m
      else if k = k' then (k, v) # m
      else (k', v') # sorted_assign k v m)"

fun read_quotas ::
    "(string \<times> (quota_override option)) list \<Rightarrow> (string \<times> quota_override) list \<Rightarrow> (string \<times> quota_override) list option" where
  "read_quotas [] acc = Some acc"
| "read_quotas ((key, val) # rest) acc =
     (if length key \<noteq> 64 \<or> \<not> validate_allowed_keys [key] then None
      else case val of None \<Rightarrow> None | Some q \<Rightarrow> read_quotas rest (sorted_assign key q acc))"

definition strings_or_nil :: "string list option \<Rightarrow> string list" where
  "strings_or_nil s = (case s of None \<Rightarrow> [] | Some xs \<Rightarrow> xs)"

definition read_config :: "'j json_access \<Rightarrow> (string \<Rightarrow> 'ip option) \<Rightarrow> 'j \<Rightarrow> config option" where
  "read_config J make_address j = do {
     c \<leftarrow> read_fields J j default_config;
     quotas \<leftarrow> read_quotas (js_quotas J j) [];
     let nss = strings_or_nil (js_strings J j ''sync_namespaces'');
         clients = strings_or_nil (js_strings J j ''allowed_client_keys'');
         peers = strings_or_nil (js_strings J j ''allowed_peer_keys'');
         trusted = strings_or_nil (js_strings J j ''trusted_peers'');
         c' = c\<lparr>cf_namespace_quotas := quotas,
                cf_bootstrap_peers := strings_or_nil (js_strings J j ''bootstrap_peers''),
                cf_sync_namespaces := nss, cf_allowed_client_keys := clients, cf_allowed_peer_keys := peers,
                cf_trusted_peers := trusted\<rparr> in
     (if validate_allowed_keys nss \<and> validate_allowed_keys clients \<and> validate_allowed_keys peers \<and>
         validate_trusted_peers make_address trusted
      then Some c' else None)
   }"

text \<open>The file: absent or unreadable, not JSON, or a document.\<close>

datatype 'j config_file = No_File | Bad_Json | Document 'j

definition load_config :: "'j json_access \<Rightarrow> (string \<Rightarrow> 'ip option) \<Rightarrow> 'j config_file \<Rightarrow> config option" where
  "load_config J make_address file =
     (case file of No_File \<Rightarrow> Some default_config | Bad_Json \<Rightarrow> None | Document j \<Rightarrow> read_config J make_address j)"

section \<open>The command line\<close>

fun scan_args :: "string list \<Rightarrow> string option \<times> config \<Rightarrow> (string option \<times> config) option" where
  "scan_args [] acc = Some acc"
| "scan_args [arg] acc = None"
| "scan_args (arg # val # rest) (path, c) =
     (if arg = ''--config'' then scan_args rest (Some val, c)
      else if arg = ''--data-dir'' then scan_args rest (path, c\<lparr>cf_data_dir := val\<rparr>)
      else if arg = ''--log-level'' then scan_args rest (path, c\<lparr>cf_log_level := val\<rparr>)
      else None)"

fun apply_overrides :: "string list \<Rightarrow> config \<Rightarrow> config" where
  "apply_overrides (arg # val # rest) c =
     (if arg = ''--config'' then apply_overrides rest c
      else if arg = ''--data-dir'' then apply_overrides rest (c\<lparr>cf_data_dir := val\<rparr>)
      else if arg = ''--log-level'' then apply_overrides rest (c\<lparr>cf_log_level := val\<rparr>)
      else apply_overrides (val # rest) c)"
| "apply_overrides _ c = c"

text \<open>The arguments after the name of the program.\<close>

definition parse_args ::
    "'j json_access \<Rightarrow> (string \<Rightarrow> 'ip option) \<Rightarrow> (string \<Rightarrow> 'j config_file) \<Rightarrow> string list \<Rightarrow> config \<Rightarrow> config option" where
  "parse_args J make_address files args base =
     (case scan_args args (None, base) of
        None \<Rightarrow> None
      | Some (path, c) \<Rightarrow>
          if path = None \<or> path = Some [] then Some c
          else case load_config J make_address (files (the path)) of
            None \<Rightarrow> None
          | Some loaded \<Rightarrow> Some (apply_overrides args (loaded\<lparr>cf_config_path := the path\<rparr>)))"

section \<open>Validation\<close>

text \<open>\<open>std::stoul(s)\<close>: white space, an optional sign, the longest run of digits; \<open>None\<close> if it is empty or the
  value does not fit.\<close>

definition stoul10 :: "string \<Rightarrow> u64 option" where
  "stoul10 s =
     (let s1 = dropWhile isspace s;
          neg = (s1 \<noteq> [] \<and> hd s1 = CHR ''-'');
          s2 = (if s1 \<noteq> [] \<and> (hd s1 = CHR ''-'' \<or> hd s1 = CHR ''+'') then tl s1 else s1);
          ds = takeWhile (\<lambda>c. CHR ''0'' \<le> c \<and> c \<le> CHR ''9'') s2;
          v = foldl (\<lambda>acc c. acc * 10 + (of_char c - 48)) (0 :: nat) ds in
      if ds = [] \<or> v \<ge> 2 ^ 64 then None else Some (if neg then - of_nat v else of_nat v))"

datatype config_error =
  E_max_peers | E_safety_net | E_max_storage | E_blob_max_low | E_blob_max_high | E_rate_limit | E_burst_zero
| E_burst_low | E_full_resync | E_cursor_stale | E_worker_threads | E_sync_sessions | E_transfer_timeout
| E_sync_timeout | E_pex_interval | E_strike_threshold | E_strike_cooldown | E_log_format | E_log_size | E_log_files
| E_uds_relative | E_uds_long | E_metrics_format | E_metrics_port | E_metrics_number | E_log_level
| E_bind_format | E_bind_port | E_bind_number

definition fails :: "bool \<Rightarrow> config_error \<Rightarrow> config_error list" where
  "fails b e = (if b then [e] else [])"

definition port_errors :: "string \<Rightarrow> config_error \<Rightarrow> config_error \<Rightarrow> config_error \<Rightarrow> config_error list" where
  "port_errors addr e_format e_port e_number =
     (case rfind CHR '':'' addr of
        None \<Rightarrow> [e_format]
      | Some colon \<Rightarrow>
          (case stoul10 (drop (colon + 1) addr) of
             None \<Rightarrow> [e_number]
           | Some port \<Rightarrow> fails (port < 1 \<or> port > 65535) e_port))"

definition valid_levels :: "string list" where
  "valid_levels = [''trace'', ''debug'', ''info'', ''warn'', ''warning'', ''error'', ''err'', ''critical'']"

definition validate_config :: "config \<Rightarrow> bool \<Rightarrow> config_error list" where
  "validate_config c check_bind_address =
     fails (cf_max_peers c < 1) E_max_peers @
     fails (cf_safety_net_interval_seconds c < 3) E_safety_net @
     fails (cf_max_storage_bytes c \<noteq> 0 \<and> cf_max_storage_bytes c < 1048576) E_max_storage @
     fails (cf_blob_max_bytes c < 1048576) E_blob_max_low @
     fails (cf_blob_max_bytes c > of_nat MAX_BLOB_DATA_HARD_CEILING) E_blob_max_high @
     fails (cf_rate_limit_bytes_per_sec c \<noteq> 0 \<and> cf_rate_limit_bytes_per_sec c < 1024) E_rate_limit @
     (if cf_rate_limit_bytes_per_sec c > 0 \<and> cf_rate_limit_burst c = 0 then [E_burst_zero]
      else fails (cf_rate_limit_bytes_per_sec c > 0 \<and> cf_rate_limit_burst c < cf_rate_limit_bytes_per_sec c) E_burst_low) @
     fails (cf_full_resync_interval c < 1) E_full_resync @
     fails (cf_cursor_stale_seconds c < 60) E_cursor_stale @
     fails (cf_worker_threads c > 256) E_worker_threads @
     fails (cf_max_sync_sessions c < 1) E_sync_sessions @
     fails (cf_blob_transfer_timeout c < 10 \<or> cf_blob_transfer_timeout c > 86400) E_transfer_timeout @
     fails (cf_sync_timeout c < 5 \<or> cf_sync_timeout c > 3600) E_sync_timeout @
     fails (cf_pex_interval c < 10 \<or> cf_pex_interval c > 86400) E_pex_interval @
     fails (cf_strike_threshold c < 1 \<or> cf_strike_threshold c > 1000) E_strike_threshold @
     fails (cf_strike_cooldown c > 86400) E_strike_cooldown @
     fails (cf_log_format c \<noteq> ''text'' \<and> cf_log_format c \<noteq> ''json'') E_log_format @
     fails (cf_log_max_size_mb c < 1) E_log_size @
     fails (cf_log_max_files c < 1) E_log_files @
     (if cf_uds_path c = [] then []
      else fails (hd (cf_uds_path c) \<noteq> CHR ''/'') E_uds_relative @ fails (length (cf_uds_path c) > 107) E_uds_long) @
     (if cf_metrics_bind c = [] then []
      else port_errors (cf_metrics_bind c) E_metrics_format E_metrics_port E_metrics_number) @
     fails (cf_log_level c \<notin> set valid_levels) E_log_level @
     (if check_bind_address then port_errors (cf_bind_address c) E_bind_format E_bind_port E_bind_number else [])"

end
