(* ===== verification/Node_Reload.thy ===== *)
theory Node_Reload
  imports Node_Config Dispatcher Reconnect Pex
begin

text \<open>
  \<open>db/peer/peer_manager.cpp\<close> and the start of the daemon in \<open>db/main.cpp\<close>: how a configuration becomes the
  settings of all components, and how \<open>SIGHUP\<close> replaces them while the node runs.  Callbacks the
  constructor wires are the effects of the other theories.  What the loops of the node do with a cancelled
  timer is modelled for the one a reload cancels: whether \<open>compaction_loop\<close> still runs.
\<close>

record 't peer_manager =
  pm_config :: config
  pm_engine :: engine_config
  pm_storage :: "'t storage"
  pm_acl :: access_control
  pm_conn :: conn_config
  pm_dispatch :: dispatch_config
  pm_sync :: sync_config
  pm_pex_max_peers :: u32
  pm_pex_interval :: u32
  pm_known_addresses :: "string set"
  pm_peers :: "peer_info list"
  pm_log_level :: string
  pm_metrics_bind :: string
  pm_compaction_running :: bool

datatype reload_effect =
  Close_Connection conn_id
| Set_Blob_Cap conn_id u64
| Send_Announce conn_id bytes
| Connect_Once string

datatype reload_outcome = Config_Kept | Config_Threw | Config_Reloaded

section \<open>From configuration to components\<close>

definition hex_to_namespace :: "string \<Rightarrow> bytes option" where
  "hex_to_namespace hex = hex_bytes 32 hex"

text \<open>Inserting into an ordered set until a conversion throws.\<close>

fun insert_namespaces :: "string list \<Rightarrow> bytes list \<Rightarrow> bool \<times> bytes list" where
  "insert_namespaces [] acc = (True, acc)"
| "insert_namespaces (hex # hexes) acc =
     (case hex_to_namespace hex of
        None \<Rightarrow> (False, acc)
      | Some ns \<Rightarrow> insert_namespaces hexes (if ns \<in> set acc then acc else insort ns acc))"

definition trusted_set :: "(string \<Rightarrow> 'ip option) \<Rightarrow> ('ip \<Rightarrow> string) \<Rightarrow> string list \<Rightarrow> string set" where
  "trusted_set make_address to_text ips = set (List.map_filter (\<lambda>ip. map_option to_text (make_address ip)) ips)"

text \<open>\<open>cmd_run\<close>: the engine and the access control list.\<close>

definition run_engine :: "config \<Rightarrow> bool \<times> engine_config" where
  "run_engine c =
     (let e = new_engine (cf_max_storage_bytes c) (cf_namespace_quota_bytes c) (cf_namespace_quota_count c)
                (cf_max_ttl_seconds c) in
      if cf_namespace_quotas c \<noteq> []
      then set_quota_config (cf_namespace_quota_bytes c) (cf_namespace_quota_count c) (cf_namespace_quotas c) e
      else (True, e))"

definition new_conn_config :: "(string \<Rightarrow> 'ip option) \<Rightarrow> ('ip \<Rightarrow> string) \<Rightarrow> config \<Rightarrow> conn_config" where
  "new_conn_config make_address to_text c =
     \<lparr>cc_rate_limit_burst = cf_rate_limit_burst c, cc_max_peers = cf_max_peers c, cc_max_clients = cf_max_clients c,
      cc_strike_threshold = cf_strike_threshold c, cc_bootstrap_addresses = set (cf_bootstrap_peers c),
      cc_trusted_peers = trusted_set make_address to_text (cf_trusted_peers c)\<rparr>"

definition new_dispatch_config :: "config \<Rightarrow> dispatch_config" where
  "new_dispatch_config c =
     \<lparr>dc_rate_limit_bytes_per_sec = cf_rate_limit_bytes_per_sec c, dc_rate_limit_burst = cf_rate_limit_burst c,
      dc_max_subscriptions = cf_max_subscriptions_per_connection c, dc_blob_max_bytes = cf_blob_max_bytes c\<rparr>"

definition new_sync_config :: "bytes list \<Rightarrow> config \<Rightarrow> sync_config" where
  "new_sync_config sync_namespaces c =
     \<lparr>sy_sync_namespaces = sync_namespaces, sy_rate_limit_bytes_per_sec = cf_rate_limit_bytes_per_sec c,
      sy_full_resync_interval = cf_full_resync_interval c, sy_cursor_stale_seconds = cf_cursor_stale_seconds c,
      sy_blob_transfer_timeout = cf_blob_transfer_timeout c, sy_sync_timeout = cf_sync_timeout c,
      sy_sync_cooldown_seconds = cf_sync_cooldown_seconds c, sy_max_sync_sessions = cf_max_sync_sessions c,
      sy_safety_net_interval_seconds = cf_safety_net_interval_seconds c,
      sy_compaction_interval_hours = cf_compaction_interval_hours c, sy_has_pex = True\<rparr>"

text \<open>The constructor, and whether \<open>start\<close> spawns \<open>compaction_loop\<close>; \<open>None\<close> is a namespace that is not
  hexadecimal.\<close>

definition new_peer_manager ::
    "(string \<Rightarrow> 'ip option) \<Rightarrow> ('ip \<Rightarrow> string) \<Rightarrow> config \<Rightarrow> engine_config \<Rightarrow> 't storage \<Rightarrow> access_control
      \<Rightarrow> 't peer_manager option" where
  "new_peer_manager make_address to_text c engine st acl =
     (let (ok, nss) = insert_namespaces (cf_sync_namespaces c) [] in
      if \<not> ok then None
      else Some \<lparr>pm_config = c, pm_engine = set_blob_max_bytes (cf_blob_max_bytes c) engine, pm_storage = st, pm_acl = acl,
        pm_conn = new_conn_config make_address to_text c, pm_dispatch = new_dispatch_config c,
        pm_sync = new_sync_config nss c, pm_pex_max_peers = cf_max_peers c, pm_pex_interval = cf_pex_interval c,
        pm_known_addresses = set (cf_bootstrap_peers c), pm_peers = [], pm_log_level = cf_log_level c,
        pm_metrics_bind = cf_metrics_bind c, pm_compaction_running = (cf_compaction_interval_hours c > 0)\<rparr>)"

text \<open>The rest of \<open>start\<close>: the peers of the last run are known from the beginning, their sync cursors are kept,
  and each is dialled.\<close>

definition start_node ::
    "'t externals \<Rightarrow> io \<Rightarrow> (persisted_peer list \<Rightarrow> persisted_peer list) \<Rightarrow> persisted_peer list option \<Rightarrow> 't peer_manager
      \<Rightarrow> ('t peer_manager \<times> reload_effect list) option" where
  "start_node X env by_last_seen peers_file pm =
     (let persisted = load_persisted_peers by_last_seen peers_file;
          hashes = filter (\<lambda>h. h \<noteq> [] \<and> length h = 64) (map pp_pubkey_hash persisted);
          dialled = filter (\<lambda>a. a \<notin> cc_bootstrap_addresses (pm_conn pm)) (map pp_address persisted) in
      case those (map hex_to_namespace hashes) of
        None \<Rightarrow> None
      | Some known \<Rightarrow>
          Some (pm\<lparr>pm_storage := (if known \<noteq> [] then snd (cleanup_stale_cursors X env known (pm_storage pm)) else pm_storage pm),
                  pm_known_addresses := pm_known_addresses pm \<union> set dialled\<rparr>,
                map Connect_Once dialled))"

text \<open>Starting the daemon: the configuration is validated first, and a bad one starts nothing.\<close>

definition cmd_run ::
    "'j json_access \<Rightarrow> (string \<Rightarrow> 'ip option) \<Rightarrow> ('ip \<Rightarrow> string) \<Rightarrow> (string \<Rightarrow> 'j config_file) \<Rightarrow> string list \<Rightarrow> bytes
      \<Rightarrow> 't storage \<Rightarrow> 't peer_manager option" where
  "cmd_run J make_address to_text files args own_ns st =
     (case parse_args J make_address files args default_config of
        None \<Rightarrow> None
      | Some c \<Rightarrow>
          if validate_config c True \<noteq> [] then None
          else
            let (ok, engine) = run_engine c in
            if \<not> ok then None
            else case new_access_control (cf_allowed_client_keys c) (cf_allowed_peer_keys c) own_ns of
              None \<Rightarrow> None
            | Some acl \<Rightarrow> new_peer_manager make_address to_text c engine st acl)"

section \<open>Reloading\<close>

text \<open>The checks before anything changes.\<close>

definition reload_valid :: "(string \<Rightarrow> 'ip option) \<Rightarrow> config \<Rightarrow> bool" where
  "reload_valid make_address c \<longleftrightarrow>
     validate_config c False = [] \<and> validate_allowed_keys (cf_allowed_client_keys c) \<and>
     validate_allowed_keys (cf_allowed_peer_keys c) \<and> validate_allowed_keys (cf_sync_namespaces c) \<and>
     validate_trusted_peers make_address (cf_trusted_peers c)"

text \<open>The access control list, and the connections it no longer admits.\<close>

definition reload_access ::
    "'t externals \<Rightarrow> (conn_id \<Rightarrow> conn_view) \<Rightarrow> config \<Rightarrow> 't peer_manager \<Rightarrow> ('t peer_manager \<times> reload_effect list) option" where
  "reload_access X views c pm =
     (case reload (cf_allowed_client_keys c) (cf_allowed_peer_keys c) (pm_acl pm) of
        None \<Rightarrow> None
      | Some (r, acl) \<Rightarrow>
          Some (pm\<lparr>pm_acl := acl\<rparr>,
            if rl_client_removed r > 0 \<or> rl_peer_removed r > 0 \<or> is_client_closed_mode acl \<or> is_peer_closed_mode acl
            then map Close_Connection (map pi_connection (filter (\<lambda>p. \<not> role_allowed acl (pi_role p)
                   (sha3_256 X (cv_peer_pubkey (views (pi_connection p))))) (pm_peers pm)))
            else []))"

text \<open>The settings up to the namespaces.\<close>

definition reload_limits :: "config \<Rightarrow> 't peer_manager \<Rightarrow> 't peer_manager \<times> reload_effect list" where
  "reload_limits c pm =
     (pm\<lparr>pm_dispatch := set_dispatch_blob_max_bytes (cf_blob_max_bytes c)
            (set_max_subscriptions (cf_max_subscriptions_per_connection c)
              (set_rate_limits (cf_rate_limit_bytes_per_sec c) (cf_rate_limit_burst c) (pm_dispatch pm))),
         pm_engine := set_blob_max_bytes (cf_blob_max_bytes c) (pm_engine pm),
         pm_sync := set_sync_config (cf_sync_cooldown_seconds c) (cf_max_sync_sessions c)
            (cf_safety_net_interval_seconds c) (set_rate_limit (cf_rate_limit_bytes_per_sec c) (pm_sync pm)),
         pm_conn := set_max_clients (cf_max_clients c) (set_max_peers (cf_max_peers c) (pm_conn pm)),
         pm_pex_max_peers := cf_max_peers c\<rparr>,
      map (\<lambda>p. Set_Blob_Cap (pi_connection p) (cf_blob_max_bytes c)) (pm_peers pm))"

definition reload_namespaces :: "config \<Rightarrow> 't peer_manager \<Rightarrow> bool \<times> 't peer_manager \<times> reload_effect list" where
  "reload_namespaces c pm =
     (let (ok, nss) = insert_namespaces (cf_sync_namespaces c) [];
          pm' = pm\<lparr>pm_sync := (pm_sync pm)\<lparr>sy_sync_namespaces := nss\<rparr>\<rparr> in
      (ok, pm', if ok then map (\<lambda>p. Send_Announce (pi_connection p) (encode_namespaces nss))
                  (filter (\<lambda>p. pi_role p = Role_Peer) (pm_peers pm)) else []))"

text \<open>The storage and the engine; the overrides of quotas may throw.\<close>

definition reload_quotas :: "'t externals \<Rightarrow> io \<Rightarrow> config \<Rightarrow> 't peer_manager \<Rightarrow> bool \<times> 't peer_manager" where
  "reload_quotas X env c pm =
     (let st = snd (reset_all_round_counters X env (pm_storage pm));
          e = set_max_ttl_seconds (cf_max_ttl_seconds c) (set_max_storage_bytes (cf_max_storage_bytes c) (pm_engine pm));
          (ok, e') = set_quota_config (cf_namespace_quota_bytes c) (cf_namespace_quota_count c) (cf_namespace_quotas c) e in
      (ok, pm\<lparr>pm_sync := set_cursor_config (cf_full_resync_interval c) (cf_cursor_stale_seconds c) (pm_sync pm),
              pm_storage := st, pm_engine := e'\<rparr>))"

text \<open>The remaining settings.  Cancelling the timer of \<open>compaction_loop\<close> ends a loop that runs; a loop is started
  only if compaction was disabled before.\<close>

definition reload_rest ::
    "(string \<Rightarrow> 'ip option) \<Rightarrow> ('ip \<Rightarrow> string) \<Rightarrow> config \<Rightarrow> 't peer_manager \<Rightarrow> 't peer_manager \<times> reload_effect list" where
  "reload_rest make_address to_text c pm =
     (let old_compaction = sy_compaction_interval_hours (pm_sync pm);
          known = cc_bootstrap_addresses (pm_conn pm);
          added = remdups (filter (\<lambda>a. a \<notin> known) (cf_bootstrap_peers c)) in
      (pm\<lparr>pm_log_level := cf_log_level c,
          pm_conn := (set_trusted_peers (trusted_set make_address to_text (cf_trusted_peers c)) (pm_conn pm))
            \<lparr>cc_bootstrap_addresses := known \<union> set added\<rparr>,
          pm_sync := set_sync_timeout (cf_sync_timeout c) (set_blob_transfer_timeout (cf_blob_transfer_timeout c)
            (set_compaction_interval (cf_compaction_interval_hours c) (pm_sync pm))),
          pm_compaction_running := (old_compaction = 0 \<and> cf_compaction_interval_hours c > 0),
          pm_pex_interval := cf_pex_interval c,
          pm_known_addresses := pm_known_addresses pm \<union> set added,
          pm_metrics_bind := cf_metrics_bind c,
          pm_config := c\<rparr>,
       map Connect_Once added))"

definition reload_config ::
    "'t externals \<Rightarrow> 'j json_access \<Rightarrow> (string \<Rightarrow> 'ip option) \<Rightarrow> ('ip \<Rightarrow> string) \<Rightarrow> (conn_id \<Rightarrow> conn_view) \<Rightarrow> io
      \<Rightarrow> 'j config_file \<Rightarrow> 't peer_manager \<Rightarrow> reload_outcome \<times> 't peer_manager \<times> reload_effect list" where
  "reload_config X J make_address to_text views env file pm =
     (case load_config J make_address file of
        None \<Rightarrow> (Config_Kept, pm, [])
      | Some c \<Rightarrow>
          if \<not> reload_valid make_address c then (Config_Kept, pm, [])
          else case reload_access X views c pm of
            None \<Rightarrow> (Config_Threw, pm, [])
          | Some (pm1, e1) \<Rightarrow>
              let (pm2, e2) = reload_limits c pm1; (ok3, pm3, e3) = reload_namespaces c pm2 in
              if \<not> ok3 then (Config_Threw, pm3, e1 @ e2)
              else
                let (ok4, pm4) = reload_quotas X env c pm3 in
                if \<not> ok4 then (Config_Threw, pm4, e1 @ e2 @ e3)
                else
                  let (pm5, e5) = reload_rest make_address to_text c pm4 in
                  (Config_Reloaded, pm5, e1 @ e2 @ e3 @ e5))"

definition handle_sighup ::
    "'t externals \<Rightarrow> 'j json_access \<Rightarrow> (string \<Rightarrow> 'ip option) \<Rightarrow> ('ip \<Rightarrow> string) \<Rightarrow> (conn_id \<Rightarrow> conn_view) \<Rightarrow> io
      \<Rightarrow> 'j config_file \<Rightarrow> 't peer_manager \<times> server \<Rightarrow> (reload_outcome \<times> 't peer_manager \<times> reload_effect list) \<times> server" where
  "handle_sighup X J make_address to_text views env file s =
     (let r = reload_config X J make_address to_text views env file (fst s) in
      (r, if fst r = Config_Threw then snd s else clear_reconnect_state (snd s)))"

end
