(* ===== verification/Reload_Proof.thy ===== *)
theory Reload_Proof
  imports Node_Reload
begin

text \<open>
  A reload of the configuration is all or nothing, and leaves the node as a restart with the new
  configuration would, except for what it does not touch.
\<close>

section \<open>Conversions cannot fail after validation\<close>

lemma stoul16_digits:
  assumes "hex_digit a" and "hex_digit b"
  shows "\<exists>v. stoul16 [a, b] = Some v"
proof -
  have s: "\<not> isspace c" "c \<noteq> CHR ''-''" "c \<noteq> CHR ''+''" if "hex_digit c" for c
    using that by (auto simp: isspace_def hex_digit_def in_range_def)
  show ?thesis using assms s [OF assms(1)] by (auto simp: stoul16_def hex_run_def Let_def)
qed

lemma hex_bytes_total: "length hex = 2 * n \<Longrightarrow> list_all hex_digit hex \<Longrightarrow> \<exists>bs. hex_bytes n hex = Some bs"
proof (induction n arbitrary: hex)
  case (Suc n)
  then obtain a b cs where h: "hex = a # b # cs" by (cases hex; cases "tl hex") auto
  then obtain bs v where "hex_bytes n cs = Some bs" "stoul16 [a, b] = Some v"
    using Suc.IH [of cs] Suc.prems stoul16_digits [of a b] by auto
  then show ?case by (simp add: h)
qed simp

lemma valid_key_total: "validate_allowed_keys [key] \<Longrightarrow> \<exists>bs. hex_bytes 32 key = Some bs"
  using hex_bytes_total [of key 32] by (simp add: validate_allowed_keys_def)

lemma insert_namespaces_total: "validate_allowed_keys hexes \<Longrightarrow> fst (insert_namespaces hexes acc)"
proof (induction hexes arbitrary: acc)
  case (Cons hex hexes)
  then obtain ns where "hex_to_namespace hex = Some ns"
    using valid_key_total [of hex] by (auto simp: validate_allowed_keys_def hex_to_namespace_def)
  then show ?case using Cons by (simp add: validate_allowed_keys_def)
qed simp

lemma override_loop_total: "list_all (\<lambda>(k, q). validate_allowed_keys [k]) ovr \<Longrightarrow> fst (override_loop ovr acc)"
proof (induction ovr arbitrary: acc rule: list.induct)
  case (Cons kq ovr)
  obtain k q where k: "kq = (k, q)" by (meson surj_pair)
  then obtain b where "hex_to_bytes32 k = Some b"
    using Cons.prems valid_key_total [of k] by (auto simp: hex_to_bytes32_def)
  then show ?case using Cons by (simp add: k)
qed simp

lemma key_set_total: "validate_allowed_keys keys \<Longrightarrow> \<exists>s. key_set keys = Some s"
  by (simp add: key_set_eq validate_allowed_keys_def list_all_iff)

lemma access_reload_total:
  "validate_allowed_keys ck \<Longrightarrow> validate_allowed_keys pk \<Longrightarrow> \<exists>r a. reload ck pk acl = Some (r, a)"
  using key_set_total [of ck] key_set_total [of pk] by (auto simp: reload_def reload_keys_def Let_def)

section \<open>What a loaded configuration satisfies\<close>

lemma sorted_assign_all: "list_all P m \<Longrightarrow> P (k, v) \<Longrightarrow> list_all P (sorted_assign k v m)"
  by (induction k v m rule: sorted_assign.induct) auto

lemma read_quotas_valid:
  "read_quotas qs acc = Some r \<Longrightarrow> list_all (\<lambda>(k, q). validate_allowed_keys [k]) acc \<Longrightarrow>
    list_all (\<lambda>(k, q). validate_allowed_keys [k]) r"
  by (induction qs acc rule: read_quotas.induct) (auto simp: sorted_assign_all split: if_splits option.splits)

lemma load_config_quotas:
  assumes "load_config J make_address file = Some c"
  shows "list_all (\<lambda>(k, q). validate_allowed_keys [k]) (cf_namespace_quotas c)"
  using assms read_quotas_valid
  by (auto simp: load_config_def default_config_def read_config_def Let_def
      split: config_file.splits if_splits Option.bind_splits)

section \<open>The reload\<close>

lemma reload_steps:
  assumes l: "load_config J make_address file = Some c" and v: "reload_valid make_address c"
  obtains r acl nss e where "reload (cf_allowed_client_keys c) (cf_allowed_peer_keys c) (pm_acl pm) = Some (r, acl)"
    and "insert_namespaces (cf_sync_namespaces c) [] = (True, nss)"
    and "\<And>e0. fst (set_quota_config (cf_namespace_quota_bytes c) (cf_namespace_quota_count c) (cf_namespace_quotas c) e0)"
  using v access_reload_total [of "cf_allowed_client_keys c" "cf_allowed_peer_keys c" "pm_acl pm"]
    insert_namespaces_total [of "cf_sync_namespaces c" "[]"] override_loop_total [OF load_config_quotas [OF l], of "[]"] that
  by (auto simp: reload_valid_def set_quota_config_def split_beta) (metis prod.collapse)


section \<open>What the settings do not do\<close>

text \<open>The comment on \<open>max_clients\<close> says that 0 means no limit; it refuses every connection, of peers as
  well.\<close>

lemma no_clients_no_connections: "cc_max_clients cfg = 0 \<Longrightarrow> \<not> should_accept_connection cfg peers"
  by (simp add: should_accept_connection_def)

text \<open>The timer of the compaction is cancelled so that it restarts with the new interval; the loop ends
  instead, and no other is started.\<close>

lemma reload_stops_compaction:
  assumes "reload_config X J make_address to_text views env file pm = (Config_Reloaded, pm', effects)"
    and "sy_compaction_interval_hours (pm_sync pm) > 0"
  shows "\<not> pm_compaction_running pm'"
  using assms
  by (auto simp: reload_config_def reload_access_def reload_limits_def reload_namespaces_def reload_quotas_def
      reload_rest_def set_sync_config_def set_rate_limit_def set_cursor_config_def Let_def split_beta
      split: option.splits if_splits)

text \<open>A file that is missing when the signal arrives is read as the defaults, and opens a node that was
  closed.\<close>

lemma missing_file_opens_node:
  assumes "reload_config X J make_address to_text views env No_File pm = (outcome, pm', effects)"
  shows "outcome = Config_Reloaded \<and> is_client_allowed (pm_acl pm') ns \<and> is_peer_allowed (pm_acl pm') ns"
proof -
  have v: "reload_valid make_address default_config"
    by (simp add: reload_valid_def validate_config_def default_config_def fails_def valid_levels_def
        validate_allowed_keys_def validate_trusted_peers_def MAX_BLOB_DATA_HARD_CEILING_def)
  show ?thesis
    using assms v
    by (auto simp: reload_config_def load_config_def reload_access_def reload_limits_def reload_namespaces_def
        reload_quotas_def reload_rest_def Let_def split_beta default_config_def set_quota_config_def reload_def
        reload_keys_def is_client_allowed_def is_peer_allowed_def is_client_closed_mode_def
        is_peer_closed_mode_def split: option.splits if_splits)
qed

end
