(* ===== verification/Node_Example.thy ===== *)
theory Node_Example
  imports Engine_Example Push_Example Dispatcher_Proof Conn_Proof Reconnect_Proof Pex_Proof Reload_Proof
begin

text \<open>
  The properties of the handlers, the connection manager, the reconnect loop, peer exchange and the
  reload applied to concrete nodes.
\<close>

section \<open>Requests\<close>

lemma ex_pubk_live: "\<not> is_blob_expired ex_pubk t"
  by (simp add: is_blob_expired_def ex_pubk_def saturating_expiry_def)

theorem read_request_exact_witness:
  "lookup ref_externals ex_s1 ex_own (ex_hash_of ex_pubk) = Some ex_pubk \<and>
   (\<exists>e. handle_read_request ref_externals ex_env ex_s1 (ex_own @ ex_hash_of ex_pubk) =
      ([(ReadResponse, STATUS_FOUND # e)], 0) \<and> decode_blob ref_externals e = Inr ex_pubk)"
proof -
  obtain n where n: "node_reach ref_externals wf_io n" "nd_storage n = ex_s1" using ex_reach1 [of wf_io] by auto
  show ?thesis
    using read_request_exact [OF ref.externals_axioms n(1) ex_blobs(3) ref.length_blob_hash ex_env_ok(3),
        of "encode_blob ref_externals ex_pubk"] n(2) by (auto simp: ex_s1_ok ex_pubk_live)
qed

theorem batch_read_exact_witness:
  "batch_size ref_externals ex_early ex_st1 ex_ns [ex_hash] < 2 ^ 64 \<and>
   handle_batch_read_request ref_externals ex_early ex_st1
     (ex_ns @ store_u32_be 100 @ store_u32_be (of_nat (length [ex_hash])) @ concat [ex_hash]) =
     ([(BatchReadResponse, 0 # store_u32_be 1 @ encode_batch_entry (ex_hash,
         map_option (encode_blob ref_externals) (live_blob ref_externals ex_early ex_st1 ex_ns ex_hash)))], 0)"
proof -
  have l: "length (encode_blob ref_externals ex_blob) < 2 ^ 64"
    by (simp add: encode_blob_def ref_externals_def flat_create_def ex_blob_def)
  have "live_blob ref_externals ex_early ex_st1 ex_ns ex_hash \<in> {None, Some ex_blob}"
    using ex_run_ok(8) by (auto simp: live_blob_def get_blob_lookup split: option.splits)
  then have s: "batch_size ref_externals ex_early ex_st1 ex_ns [ex_hash] < 2 ^ 64"
    using l by (auto simp: batch_size_def)
  obtain n where n: "0 < n" "n \<le> length [ex_hash]" and
    h: "handle_batch_read_request ref_externals ex_early ex_st1
      (ex_ns @ store_u32_be 100 @ store_u32_be (of_nat (length [ex_hash])) @ concat [ex_hash]) =
      ([(BatchReadResponse, (if n < length [ex_hash] then 1 else 0) # store_u32_be (of_nat n) @
          concat (map (\<lambda>h. encode_batch_entry (h, map_option (encode_blob ref_externals)
            (live_blob ref_externals ex_early ex_st1 ex_ns h))) (take n [ex_hash])))], 0)"
    using batch_read_exact [OF ex_wf(1), of "[ex_hash]" 100, OF _ _ _ _ _ s] by (auto simp: MAX_CAP_def)
  from n have "n = 1" by simp
  with s h show ?thesis by simp
qed

lemma ex_seq_keys: "e \<in> set (mdbx_entries ref_externals (seq_map ex_st1)) \<Longrightarrow> fst e = make_seq_key ex_ns 1"
proof -
  have "mdbx_get ref_externals (seq_map ex_st0) k = None" for k
    by (simp add: ex_st0_def empty_storage_def ref.tbl.get_empty Let_def)
  then show "e \<in> set (mdbx_entries ref_externals (seq_map ex_st1)) \<Longrightarrow> fst e = make_seq_key ex_ns 1"
    using ref.stored_seq(4) [OF ex_run_ok(4) ex_wf(4,1,2,3) ex_run_eq ex_run_ok(6)]
    by (cases e) (simp add: ref.tbl.in_entries_iff ref.tbl.get_upsert ex_run_ok(9) split: if_splits)
qed


section \<open>Messages\<close>

definition ex_dispatch :: dispatch_config where
  "ex_dispatch = \<lparr>dc_rate_limit_bytes_per_sec = 1024, dc_rate_limit_burst = 2048, dc_max_subscriptions = 256,
     dc_blob_max_bytes = 4194304\<rparr>"

definition ex_conn_config :: conn_config where
  "ex_conn_config = \<lparr>cc_rate_limit_burst = 2048, cc_max_peers = 32, cc_max_clients = 128, cc_strike_threshold = 10,
     cc_bootstrap_addresses = {}, cc_trusted_peers = {}\<rparr>"

definition ex_client :: peer_info where
  "ex_client = ex_peer\<lparr>pi_role := Role_Client, pi_bucket_tokens := 2048, pi_bucket_last_refill := 5\<rparr>"

definition ex_dispatch_state :: dispatch_state where
  "ex_dispatch_state = \<lparr>ds_peers = [ex_client], ds_metrics = ex_metrics, ds_pending = []\<rparr>"

definition ex_write :: "ref_table incoming" where
  "ex_write = \<lparr>in_conn = 0, in_env = ex_io, in_now = 10, in_storage = ex_st0, in_type = BlobWrite,
     in_payload = replicate 1500 0, in_request_id = 1\<rparr>"

text \<open>Of two writes of 1500 bytes each, 5 ms apart, the second exceeds the budget.\<close>

theorem write_rate_bounded_witness:
  "1000 * written_by 0 (snd (receive_all ref_externals ex_dispatch ex_sync_config ex_conn_config
     [ex_write, ex_write\<lparr>in_now := 15\<rparr>] ex_dispatch_state)) \<le> 1000 * 2048 + 1024 * (20 - 5)"
proof -
  have "find_peer 0 (ds_peers ex_dispatch_state) = Some ex_client"
    by (simp add: ex_dispatch_state_def ex_client_def ex_peer_def)
  moreover have "sorted (pi_bucket_last_refill ex_client #
      map in_now (filter (\<lambda>i. in_conn i = 0) [ex_write, ex_write\<lparr>in_now := 15\<rparr>]) @ [20])"
    by (simp add: ex_client_def ex_write_def)
  moreover have "0 < dc_rate_limit_bytes_per_sec ex_dispatch" by (simp add: ex_dispatch_def)
  moreover have "list_all (\<lambda>i. length (in_payload i) < 2 ^ 64) [ex_write, ex_write\<lparr>in_now := 15\<rparr>]"
    by (simp add: ex_write_def)
  ultimately show ?thesis
    using write_rate_bounded [of ex_dispatch "[ex_write, ex_write\<lparr>in_now := 15\<rparr>]" 0 ex_dispatch_state ex_client 20
        ref_externals ex_sync_config ex_conn_config]
    by (simp add: ex_client_def ex_dispatch_def)
qed

theorem subscriptions_bounded_witness:
  "list_all (\<lambda>p. distinct (pi_subscribed_namespaces p) \<and>
       length (pi_subscribed_namespaces p) \<le> unat (dc_max_subscriptions ex_dispatch))
     (ds_peers (fst (receive_all ref_externals ex_dispatch ex_sync_config ex_conn_config
       [ex_write\<lparr>in_type := Subscribe, in_payload := encode_namespaces [ex_ns]\<rparr>] ex_dispatch_state)))"
  unfolding list_all_iff
  by (rule subscriptions_bounded)
    (simp_all add: ex_dispatch_def ex_dispatch_state_def ex_client_def ex_peer_def)

definition ex_status :: node_status where
  "ex_status = \<lparr>ns_version = ''1.0'', ns_uptime = 7, ns_used_data_bytes = 0, ns_mmap_bytes = 0, ns_max_storage_bytes = 0,
     ns_blob_max_bytes = 1048576, ns_rate_limit_bytes_per_sec = 0, ns_max_subscriptions = 256, ns_steady_ms = 0\<rparr>"

theorem blob_cap_round_trip_witness:
  "advertised_cap (node_info_response ref_externals ex_io ex_status 1 ex_st1) = Some 1048576 \<and>
   find_peer 0 (on_node_info_response 0 (node_info_response ref_externals ex_io ex_status 1 ex_st1) [ex_peer]) =
     Some (ex_peer\<lparr>pi_advertised_blob_cap := 1048576\<rparr>)"
  using blob_cap_round_trip [of ex_status 0 "[ex_peer]" ex_peer ref_externals ex_io 1 ex_st1]
  by (simp add: ex_status_def ex_peer_def)

theorem acknowledged_write_reads_back_witness:
  "handle_read_request ref_externals ex_env ex_s1 (ex_own @ ex_hash_of ex_pubk) =
     ([(ReadResponse, STATUS_FOUND # encode_blob ref_externals ex_pubk)], 0) \<and>
   decode_blob ref_externals (encode_blob ref_externals ex_pubk) = Inr ex_pubk"
proof -
  obtain q where q: "ingest ref_externals (new_engine 0 0 0 0) (\<lambda>_ _. ex_env) ex_own ex_pubk None ex_st0 =
      (Ingest_Done (accept (ex_hash_of ex_pubk) q Ingest_Stored None), ex_s1)" using ex_s1_ok(4) by blast
  let ?r = "accept (ex_hash_of ex_pubk) q Ingest_Stored None"
  let ?ack = "encode_ack (the (ir_ack ?r))"
  have n: "node_reach ref_externals wf_io ex_n0"
    unfolding ex_n0_def ex_st0_def by (rule node_reach.init) simp
  have a: "answer_write ref_externals [] (\<lambda>_ _. ?r) (encode_blob_write_envelope ref_externals ex_own ex_pubk) ex_metrics =
      (([(WriteAck, ?ack)], 0), Some (stored_notification ex_own ex_pubk (the (ir_ack ?r)) None),
       ex_metrics\<lparr>nm_ingests := nm_ingests ex_metrics + 1\<rparr>)"
    by (simp add: answer_write_def ref.read_envelope_encode write_done_def accept_def success_def)
  have i: "ingest ref_externals (nd_config ex_n0) (\<lambda>_ _. ex_env) ex_own ex_pubk None (nd_storage ex_n0) =
      (Ingest_Done ?r, ex_s1)" using q by (simp add: ex_n0_def)
  have e: "\<forall>(i::nat) (k::nat). wf_io ex_env" by simp
  have ack: "last ?ack = 0" "take 32 ?ack = ex_hash_of ex_pubk"
    by (simp_all add: encode_ack_def accept_def success_def ref.length_blob_hash)
  show ?thesis
    using acknowledged_write_reads_back [OF ref.externals_axioms n e ex_blobs(3,1) _ i a ack(1) ex_env_ok(3) ex_pubk_live]
    by (simp add: ack(2))
qed

section \<open>Connections\<close>

text \<open>Two nodes with the keys \<open>[1]\<close> and \<open>[2]\<close> dial each other: connection 0 is the first's, connection 1 the
  second's.  They hear of the two connections in different orders and keep the same one.\<close>

definition ex_view :: "bytes \<Rightarrow> bool \<Rightarrow> conn_view" where
  "ex_view pk initiator = \<lparr>cv_peer_pubkey = pk, cv_is_uds = False, cv_peer_role = Role_Peer, cv_remote_address = ''10.0.0.1:4200'',
     cv_connect_address = (if initiator then ''10.0.0.1:4200'' else []), cv_is_initiator = initiator, cv_is_authenticated = True\<rparr>"

definition ex_open :: access_control where
  "ex_open = the (new_access_control [] [] (replicate 32 0))"

definition ex_conns :: conn_state where
  "ex_conns = \<lparr>cs_peers = [], cs_metrics = ex_metrics, cs_disconnected_peers = []\<rparr>"

lemma ex_open_allowed [simp]: "is_peer_allowed ex_open k" "is_client_allowed ex_open k"
  by (simp_all add: ex_open_def new_access_control_def is_peer_allowed_def is_peer_closed_mode_def
      is_client_allowed_def is_client_closed_mode_def)

theorem duplicate_connections_agree_witness:
  "\<exists>c \<in> {0, 1}.
    links_to ref_externals (\<lambda>c. ex_view [2] (c = 0)) (sha3_256 ref_externals [2])
      (cs_peers (connect_all ref_externals ex_conn_config ex_open (\<lambda>c. ex_view [2] (c = 0)) 7
        (sha3_256 ref_externals [1]) [0, 1] ex_conns)) = [c] \<and>
    links_to ref_externals (\<lambda>c. ex_view [1] (c = 1)) (sha3_256 ref_externals [1])
      (cs_peers (connect_all ref_externals ex_conn_config ex_open (\<lambda>c. ex_view [1] (c = 1)) 9
        (sha3_256 ref_externals [2]) [1, 0] ex_conns)) = [c]"
proof -
  have "sha3_256 ref_externals [1] \<noteq> sha3_256 ref_externals [2]"
    by (simp add: sha3_256_def ref_externals_def pad_hash_def)
  then show ?thesis
    by (rule duplicate_connections_agree [OF refl refl])
      (simp_all add: ex_view_def connection_role_def links_to_def ex_conns_def)
qed

text \<open>A peer that connected before a reload closed the node is gone after it; the owner of the listed key stays.\<close>

definition ex_closed :: access_control where
  "ex_closed = ex_open\<lparr>ac_peer_configured_count := 1, ac_allowed_peer_keys := {sha3_256 ref_externals [2]}\<rparr>"

lemma ex_closed_allowed [simp]: "is_peer_allowed ex_closed k \<longleftrightarrow> k = sha3_256 ref_externals [2]"
  by (simp add: ex_closed_def is_peer_allowed_def is_peer_closed_mode_def)

definition ex_ops :: "conn_op list" where
  "ex_ops = [Op_Connect 0, Op_Connect 1, Op_Reload ex_closed]"


section \<open>Reconnecting\<close>


theorem backoff_doubles_witness:
  "\<exists>pc sv act sleeps. fail_attempts ''a:1'' (\<lambda>_. 0) 7 (Loop_Resolving, new_server, Loop_Return) = ((pc, sv, act), sleeps) \<and>
    length sleeps = 7 \<and> rs_delay_sec (reconnect_at ''a:1'' sv) = 60 \<and> 2 \<le> sleeps ! 0 \<and> 32 \<le> sleeps ! 4"
proof -
  obtain pc sv act sleeps where
    r: "fail_attempts ''a:1'' (\<lambda>_. 0) 7 (Loop_Resolving, new_server, Loop_Return) = ((pc, sv, act), sleeps)"
    by (metis surj_pair)
  have n: "reconnect_at ''a:1'' new_server = \<lparr>rs_delay_sec = 1, rs_acl_rejection_count = 0\<rparr>" "\<not> sv_draining new_server"
    by (simp_all add: reconnect_at_def new_server_def default_reconnect_def)
  have j: "\<forall>k::nat. (0::int) \<le> 0" by simp
  have *: "length sleeps = 7 \<and> rs_delay_sec (reconnect_at ''a:1'' sv) = min (2 ^ 7) 60 \<and> pc = Loop_Resolving \<and>
    (\<forall>k < 7. min (2 ^ Suc k) 60 \<le> sleeps ! k \<and> sleeps ! k \<le> 60)"
    by (rule backoff_doubles [OF n(2) j n(1) r])
  then have k: "k < 7 \<Longrightarrow> min (2 ^ Suc k) 60 \<le> sleeps ! k" for k by blast
  have "2 \<le> sleeps ! 0" "32 \<le> sleeps ! 4" using k [of 0] k [of 4] by simp_all
  with * r show ?thesis by auto
qed

section \<open>Peer exchange\<close>

theorem pex_discovery_exact_witness:
  "\<exists>connects known. handle_peer_list_response ''me:1'' 32 [ex_peer]
      (encode_peer_list (build_peer_list_response rev (\<lambda>_. ex_view [2] True) ''you:1'' ''me:1'' [ex_peer])) [''old:1''] =
        (connects, known) \<and> length connects \<le> 3 \<and> set known = {''old:1''} \<union> set connects"
proof -
  obtain connects known where r: "handle_peer_list_response ''me:1'' 32 [ex_peer]
      (encode_peer_list (build_peer_list_response rev (\<lambda>_. ex_view [2] True) ''you:1'' ''me:1'' [ex_peer])) [''old:1''] =
        (connects, known)" by (meson surj_pair)
  show ?thesis
    using pex_discovery_exact [of rev "[ex_peer]" "\<lambda>_. ex_view [2] True", OF _ _ r] r by (simp add: ex_view_def)
qed

definition ex_persisted :: "u64 \<Rightarrow> persisted_peer" where
  "ex_persisted t = \<lparr>pp_address = ''a:1'', pp_last_seen = t, pp_fail_count = 0, pp_pubkey_hash = []\<rparr>"

theorem persisted_most_recent_witness:
  "length (save_persisted_peers (\<lambda>xs. rev (sort_key pp_last_seen xs)) (map (\<lambda>n. ex_persisted (of_nat n)) [0..<101])) \<le> 100"
proof -
  have "\<forall>xs. mset (rev (sort_key pp_last_seen xs)) = mset xs \<and>
      sorted_wrt (\<lambda>p q. pp_last_seen p \<ge> pp_last_seen q) (rev (sort_key pp_last_seen xs))"
    using sorted_sort_key by (auto simp: sorted_wrt_rev sorted_map)
  from persisted_most_recent [OF this refl] show ?thesis by blast
qed

section \<open>Reloading\<close>

definition ex_json :: "unit json_access" where
  "ex_json = \<lparr>js_string = (\<lambda>_ _ d. Some d), js_u32 = (\<lambda>_ k d. Some (if k = ''max_peers'' then 8 else d)),
     js_u64 = (\<lambda>_ _ d. Some d),
     js_strings = (\<lambda>_ k. if k = ''allowed_peer_keys'' then Some [replicate 64 CHR ''a''] else None), js_quotas = (\<lambda>_. [])\<rparr>"

definition ex_running :: "ref_table peer_manager" where
  "ex_running = the (new_peer_manager Some id default_config (new_engine 0 0 0 0) ex_st1 ex_open)"


end
