(* ===== verification/Connection_Proof.thy ===== *)
theory Connection_Proof
  imports Connection
begin

text \<open>
  Two connections at the ends of a reliable network.  Whatever the two sides think of each other's
  address, the handshake ends with both authenticated, each knowing the other's key and role, and with
  keys and counters that match.
\<close>

section \<open>Two sides\<close>

text \<open>A side is where its coroutine stands and the bytes that have arrived and are not read yet.\<close>

type_synonym hs_side = "hs_step \<times> bytes"

fun hs_move :: "'t externals \<Rightarrow> hs_random \<Rightarrow> hs_side \<Rightarrow> hs_side \<Rightarrow> (hs_side \<times> hs_side) option" where
  "hs_move X rnd ((c, pc, Hs_Write dat), input) (step, other_input) =
     Some ((hs_resume X rnd pc (Hs_Written True) c, input), (step, other_input @ dat))"
| "hs_move X rnd ((c, pc, Hs_Read), input) other =
     (case recv_raw input of
        None \<Rightarrow> None
      | Some (frame, rest) \<Rightarrow> Some ((hs_resume X rnd pc (Hs_Frame (Some frame)) c, rest), other))"
| "hs_move X rnd a b = None"

fun hs_exchange ::
    "'t externals \<Rightarrow> hs_random \<Rightarrow> hs_random \<Rightarrow> nat \<Rightarrow> hs_side \<times> hs_side \<Rightarrow> hs_side \<times> hs_side" where
  "hs_exchange X ri rr 0 (i, r) = (i, r)"
| "hs_exchange X ri rr (Suc n) (i, r) =
     (case hs_move X ri i r of
        Some (i', r') \<Rightarrow> hs_exchange X ri rr n (i', r')
      | None \<Rightarrow>
          (case hs_move X rr r i of
             Some (r', i') \<Rightarrow> hs_exchange X ri rr n (i', r')
           | None \<Rightarrow> (i, r)))"

text \<open>Eight suspensions of each side are more than the longest path has.\<close>

definition hs_dialogue ::
    "'t externals \<Rightarrow> hs_random \<Rightarrow> hs_random \<Rightarrow> bool \<Rightarrow> bool \<Rightarrow> connection \<Rightarrow> connection \<Rightarrow> hs_side \<times> hs_side" where
  "hs_dialogue X ri rr trust_i trust_r ci cr =
     hs_exchange X ri rr 16 ((do_handshake X ri trust_i ci, []), (do_handshake X rr trust_r cr, []))"

text \<open>An identity that can sign with the randomness it gets.\<close>

definition can_sign :: "'t externals \<Rightarrow> hs_random \<Rightarrow> node_identity \<Rightarrow> bool" where
  "can_sign X rnd identity \<longleftrightarrow>
     (\<exists>seed. oqs_sig_keypair X seed = Some (id_public_key identity, id_secret_key identity)) \<and>
     (\<forall>m. length m = 32 \<longrightarrow> oqs_sig_sign X (id_secret_key identity) m (rn_sign rnd) \<noteq> None)"

definition can_agree :: "'t externals \<Rightarrow> hs_random \<Rightarrow> hs_random \<Rightarrow> bool" where
  "can_agree X ri rr \<longleftrightarrow>
     (\<exists>pk sk. oqs_kem_keypair X (rn_kem_keypair ri) = Some (pk, sk) \<and>
              oqs_kem_encaps X pk (rn_kem_encaps rr) \<noteq> None)"

section \<open>Frames\<close>

lemma recv_send_raw: "length d \<le> 2097152 \<Longrightarrow> recv_raw (send_raw d @ rest) = Some (d, rest)"
proof -
  assume d: "length d \<le> 2097152"
  define n where "n = (of_nat (length d) :: u32)"
  have n: "unat n = length d" unfolding n_def unat_of_nat_u32 using d by simp
  have enc: "send_raw d = be_bytes 4 (unat n) @ d" by (simp add: send_raw_def wire_simps n_def)
  have "read_u32_be_ptr (send_raw d @ rest) = n" by (simp add: enc)
  with d n show ?thesis by (simp add: recv_raw_def Let_def enc MAX_FRAME_SIZE_def)
qed

lemma recv_raw_nil [simp]: "recv_raw [] = None"
  by (simp add: recv_raw_def)

lemma recv_send_raw_exact: "length d \<le> 2097152 \<Longrightarrow> recv_raw (send_raw d) = Some (d, [])"
  using recv_send_raw [of d "[]"] by simp

lemma mirrored_sizes:
  assumes "mirrored a b"
  shows "length (sk_send_key a) = 32" and "length (sk_session_fingerprint a) = 32"
    and "sk_session_fingerprint b = sk_session_fingerprint a"
  using assms unfolding mirrored_def by metis+

definition counter_ok :: "u64 \<Rightarrow> bool" where
  "counter_ok n \<longleftrightarrow> \<not> NONCE_LIMIT \<le> n"

context externals
begin

text \<open>A frame sent by one end is opened by the other, and both counters move by one.\<close>

lemma send_recv_encrypted:
  assumes "mirrored (cn_session_keys a) (cn_session_keys b)" and "cn_send_counter a = cn_recv_counter b"
    and "counter_ok (cn_send_counter a)" and "length p \<le> 2097136"
  shows "\<exists>ct. send_encrypted X p a =
      Inr (a\<lparr>cn_send_counter := cn_send_counter a + 1\<rparr>, Some (send_raw ct)) \<and> length ct = length p + 16 \<and>
    recv_encrypted X (Some ct) b = Inr (b\<lparr>cn_recv_counter := cn_recv_counter b + 1\<rparr>, Some p)"
proof -
  have k: "length (sk_send_key (cn_session_keys a)) = 32" by (rule mirrored_sizes [OF assms(1)])
  obtain ct where "AEAD_encrypt X p [] (make_nonce (cn_send_counter a)) (sk_send_key (cn_session_keys a)) = Inr ct"
    "length ct = length p + 16"
    "AEAD_decrypt X ct [] (make_nonce (cn_send_counter a)) (sk_send_key (cn_session_keys a)) = Inr (Some p)"
    by (rule AEAD_encrypt_ok [of "make_nonce (cn_send_counter a)" "sk_send_key (cn_session_keys a)" "[]" p])
      (use assms(4) k in simp_all)
  then show ?thesis
    using assms by (auto simp: send_encrypted_def recv_encrypted_def mirrored_def counter_ok_def Let_def)
qed

lemma sign_ok:
  assumes "can_sign X rnd identity" and "length m = 32"
  shows "\<exists>s. identity_sign X (rn_sign rnd) identity m = Inr s \<and> length s \<le> 4627 \<and>
    oqs_sig_verify X m s (id_public_key identity)"
proof -
  obtain seed s where k: "oqs_sig_keypair X seed = Some (id_public_key identity, id_secret_key identity)"
    and s: "oqs_sig_sign X (id_secret_key identity) m (rn_sign rnd) = Some s"
    using assms by (auto simp: can_sign_def)
  have "id_secret_key identity \<noteq> []" using sig.sig_lengths [OF k] by auto
  then show ?thesis
    using sig.sign_length [OF s] sig.sign_verifies [OF k s] by (simp add: identity_sign_def s)
qed

lemma public_key_length: "can_sign X rnd identity \<Longrightarrow> length (id_public_key identity) = 2592"
  by (auto simp: can_sign_def dest: sig.sig_lengths)

text \<open>One authentication message: what a side sends, the other decrypts and accepts.\<close>

lemma auth_sent:
  assumes id: "can_sign X rnd (cn_identity a)" and m: "mirrored (cn_session_keys a) (cn_session_keys b)"
    and n: "cn_send_counter a = cn_recv_counter b" "counter_ok (cn_send_counter a)"
  shows "\<exists>ct s. send_auth X (rn_sign rnd) pc a =
      (a\<lparr>cn_send_counter := cn_send_counter a + 1\<rparr>, pc, Hs_Write (send_raw ct)) \<and> length ct \<le> 2097152 \<and>
    recv_encrypted X (Some ct) b = Inr (b\<lparr>cn_recv_counter := cn_recv_counter b + 1\<rparr>,
      Some (TransportCodec_encode X AuthSignature
        (encode_auth_payload (cn_local_role a) (id_public_key (cn_identity a)) s) 0)) \<and> length s \<le> 4627 \<and>
    oqs_sig_verify X (sk_session_fingerprint (cn_session_keys b)) s (id_public_key (cn_identity a))"
proof -
  let ?fp = "sk_session_fingerprint (cn_session_keys a)" and ?pk = "id_public_key (cn_identity a)"
  have pk: "length ?pk = 2592" by (rule public_key_length [OF id])
  have fp: "length ?fp = 32" "sk_session_fingerprint (cn_session_keys b) = ?fp" by (rule mirrored_sizes [OF m])+
  obtain s where s: "identity_sign X (rn_sign rnd) (cn_identity a) ?fp = Inr s" "length s \<le> 4627" "oqs_sig_verify X ?fp s ?pk"
    using sign_ok [OF id fp(1)] by blast
  let ?p = "encode_auth_payload (cn_local_role a) ?pk s"
  let ?msg = "TransportCodec_encode X AuthSignature ?p 0"
  have "length ?p \<le> 7224" using pk s(2) by (simp add: encode_auth_payload_def wire_simps)
  then have lm: "length ?msg \<le> 7288" using transport_size(2) [of AuthSignature ?p 0] by simp
  obtain ct where "send_encrypted X ?msg a = Inr (a\<lparr>cn_send_counter := cn_send_counter a + 1\<rparr>, Some (send_raw ct))"
      "length ct = length ?msg + 16"
      "recv_encrypted X (Some ct) b = Inr (b\<lparr>cn_recv_counter := cn_recv_counter b + 1\<rparr>, Some ?msg)"
    using send_recv_encrypted [OF m n, of ?msg] lm by auto
  then show ?thesis
    using lm s fp(2) by (intro exI [of _ ct] exI [of _ s]) (simp add: send_auth_def auth_message_def)
qed

lemma auth_accepted:
  assumes id: "can_sign X rnd (cn_identity a)" and rl: "is_implemented_role (role_byte (cn_local_role a))"
    and m: "mirrored (cn_session_keys a) (cn_session_keys b)"
    and n: "cn_send_counter a = cn_recv_counter b" "counter_ok (cn_send_counter a)"
    and e: "expected = None \<or> expected = Some (id_public_key (cn_identity a))"
  shows "\<exists>ct s. send_auth X (rn_sign rnd) pc a =
      (a\<lparr>cn_send_counter := cn_send_counter a + 1\<rparr>, pc, Hs_Write (send_raw ct)) \<and> length ct \<le> 2097152 \<and>
    check_auth X expected (Some ct) b = Inr (b\<lparr>cn_recv_counter := cn_recv_counter b + 1\<rparr>,
      Some \<lparr>ap_role = cn_local_role a, ap_pubkey = id_public_key (cn_identity a), ap_signature = s\<rparr>)"
proof -
  have pk: "length (id_public_key (cn_identity a)) = 2592" by (rule public_key_length [OF id])
  obtain ct s where c: "send_auth X (rn_sign rnd) pc a =
        (a\<lparr>cn_send_counter := cn_send_counter a + 1\<rparr>, pc, Hs_Write (send_raw ct))" "length ct \<le> 2097152"
      "recv_encrypted X (Some ct) b = Inr (b\<lparr>cn_recv_counter := cn_recv_counter b + 1\<rparr>,
        Some (TransportCodec_encode X AuthSignature
          (encode_auth_payload (cn_local_role a) (id_public_key (cn_identity a)) s) 0))" "length s \<le> 4627"
      "oqs_sig_verify X (sk_session_fingerprint (cn_session_keys b)) s (id_public_key (cn_identity a))"
    using auth_sent [OF id m n, of pc] by blast
  let ?p = "encode_auth_payload (cn_local_role a) (id_public_key (cn_identity a)) s"
  have "length ?p < 2 ^ 30" using pk c(4) by (simp add: encode_auth_payload_def wire_simps)
  then have "TransportCodec_decode X (TransportCodec_encode X AuthSignature ?p 0) =
      Some \<lparr>dm_type = AuthSignature, dm_payload = ?p, dm_request_id = 0\<rparr>"
    by (intro transport_round_trip) (simp_all add: known_type_def msg_types_def)
  then show ?thesis
    using c e by (intro exI [of _ ct] exI [of _ s]) (auto simp: check_auth_def auth_payload_round_trip [OF rl pk])
qed

end

section \<open>The handshake\<close>

lemma mirrored_sym: "mirrored a b \<Longrightarrow> mirrored b a"
  unfolding mirrored_def by metis

text \<open>The state of two ends that have authenticated each other.\<close>

definition established :: "connection \<Rightarrow> connection \<Rightarrow> bool" where
  "established a b \<longleftrightarrow>
     cn_authenticated a \<and> cn_authenticated b \<and>
     cn_peer_pubkey a = id_public_key (cn_identity b) \<and> cn_peer_pubkey b = id_public_key (cn_identity a) \<and>
     cn_peer_role a = cn_local_role b \<and> cn_peer_role b = cn_local_role a \<and>
     mirrored (cn_session_keys a) (cn_session_keys b) \<and>
     cn_send_counter a = cn_recv_counter b \<and> cn_recv_counter a = cn_send_counter b"

text \<open>What the handshake leaves alone, and how far it moves the counters.\<close>

definition same_end :: "connection \<Rightarrow> connection \<Rightarrow> bool" where
  "same_end c c' \<longleftrightarrow>
     cn_identity c' = cn_identity c \<and> cn_local_role c' = cn_local_role c \<and> cn_closed c' = cn_closed c \<and>
     cn_closing c' = cn_closing c \<and> cn_send_queue c' = cn_send_queue c \<and>
     cn_send_counter c' = cn_send_counter c + 1 \<and> cn_recv_counter c' = cn_recv_counter c + 1"

definition completes :: "hs_side \<times> hs_side \<Rightarrow> connection \<Rightarrow> connection \<Rightarrow> bool" where
  "completes sides a b \<longleftrightarrow>
     (\<exists>a' b'. sides = (((a', Hs_Stopped, Hs_Return True), []), ((b', Hs_Stopped, Hs_Return True), [])) \<and>
        established a' b' \<and> same_end a a' \<and> same_end b b')"

lemma completes_keys:
  "completes s (a\<lparr>cn_session_keys := k\<rparr>) (b\<lparr>cn_session_keys := k'\<rparr>) = completes s a b"
  by (simp add: completes_def same_end_def)

lemma exchange_stopped:
  "hs_exchange X ri rr n (((a, pa, Hs_Return oka), ia), ((b, pb, Hs_Return okb), ib)) =
    (((a, pa, Hs_Return oka), ia), ((b, pb, Hs_Return okb), ib))"
  by (cases n) simp_all

context externals
begin

lemma auth_exchange:
  assumes sa: "can_sign X ri (cn_identity a)" and sb: "can_sign X rr (cn_identity b)"
    and ra: "is_implemented_role (role_byte (cn_local_role a))" and rb: "is_implemented_role (role_byte (cn_local_role b))"
    and m: "mirrored (cn_session_keys a) (cn_session_keys b)"
    and na: "cn_send_counter a = cn_recv_counter b" "counter_ok (cn_send_counter a)"
    and nb: "cn_send_counter b = cn_recv_counter a" "counter_ok (cn_send_counter b)"
    and e: "(ea, eb) = (None, None) \<or>
      (ea, eb) = (Some (id_public_key (cn_identity b)), Some (id_public_key (cn_identity a)))"
  shows "completes (hs_exchange X ri rr (Suc (Suc (Suc (Suc n))))
    ((send_auth X (rn_sign ri) (I_Auth_Sent ea) a, []), ((b, R_Auth_Wait eb, Hs_Read), []))) a b"
proof -
  obtain ca ga where a: "send_auth X (rn_sign ri) (I_Auth_Sent ea) a =
        (a\<lparr>cn_send_counter := cn_send_counter a + 1\<rparr>, I_Auth_Sent ea, Hs_Write (send_raw ca))" "length ca \<le> 2097152"
      "check_auth X eb (Some ca) b = Inr (b\<lparr>cn_recv_counter := cn_recv_counter b + 1\<rparr>,
        Some \<lparr>ap_role = cn_local_role a, ap_pubkey = id_public_key (cn_identity a), ap_signature = ga\<rparr>)"
    using auth_accepted [OF sa ra m na, of eb "I_Auth_Sent ea"] e by auto
  let ?b = "b\<lparr>cn_recv_counter := cn_recv_counter b + 1\<rparr>"
  let ?auth = "\<lparr>ap_role = cn_local_role a, ap_pubkey = id_public_key (cn_identity a), ap_signature = ga\<rparr>"
  let ?a = "a\<lparr>cn_send_counter := cn_send_counter a + 1\<rparr>"
  define b1 where "b1 = (case eb of None \<Rightarrow> record_peer ?auth ?b | Some _ \<Rightarrow> ?b)"
  define pb where "pb = R_Auth_Sent (case eb of None \<Rightarrow> None | Some _ \<Rightarrow> Some ?auth)"
  have b1: "cn_identity b1 = cn_identity b" "cn_local_role b1 = cn_local_role b"
      "cn_session_keys b1 = cn_session_keys b" "cn_send_counter b1 = cn_send_counter b"
    by (simp_all add: b1_def record_peer_def split: option.split)
  obtain cb gb where b: "send_auth X (rn_sign rr) pb b1 =
        (b1\<lparr>cn_send_counter := cn_send_counter b1 + 1\<rparr>, pb, Hs_Write (send_raw cb))" "length cb \<le> 2097152"
      "check_auth X ea (Some cb) ?a = Inr (?a\<lparr>cn_recv_counter := cn_recv_counter a + 1\<rparr>,
        Some \<lparr>ap_role = cn_local_role b, ap_pubkey = id_public_key (cn_identity b), ap_signature = gb\<rparr>)"
    using auth_accepted [of rr b1 ?a ea pb] sb rb nb mirrored_sym [OF m] e by (auto simp: b1)
  have R: "responder_auth X rr eb (Some ca) b = (b1\<lparr>cn_send_counter := cn_send_counter b1 + 1\<rparr>, pb, Hs_Write (send_raw cb))"
    using b(1) by (simp add: responder_auth_def a(3) b1_def pb_def split: option.splits)
  let ?a' = "(record_peer \<lparr>ap_role = cn_local_role b, ap_pubkey = id_public_key (cn_identity b), ap_signature = gb\<rparr>
    (?a\<lparr>cn_recv_counter := cn_recv_counter a + 1\<rparr>))\<lparr>cn_authenticated := True\<rparr>"
  let ?b' = "(record_peer ?auth (b1\<lparr>cn_send_counter := cn_send_counter b1 + 1\<rparr>))\<lparr>cn_authenticated := True\<rparr>"
  have sent: "hs_written X pb (b1\<lparr>cn_send_counter := cn_send_counter b1 + 1\<rparr>) = (?b', Hs_Stopped, Hs_Return True)"
    by (simp add: pb_def b1_def responder_auth_sent_def hs_return_def record_peer_def split: option.split)
  have "hs_exchange X ri rr (Suc (Suc (Suc (Suc n))))
      ((send_auth X (rn_sign ri) (I_Auth_Sent ea) a, []), ((b, R_Auth_Wait eb, Hs_Read), [])) =
    (((?a', Hs_Stopped, Hs_Return True), []), ((?b', Hs_Stopped, Hs_Return True), []))"
    by (simp add: a(1) recv_send_raw_exact [OF a(2)] recv_send_raw_exact [OF b(2)] R sent initiator_auth_reply_def b(3)
        hs_return_def exchange_stopped)
  moreover have "established ?a' ?b' \<and> same_end a ?a' \<and> same_end b ?b'"
    using m na(1) nb(1) by (simp add: established_def same_end_def record_peer_def b1_def split: option.split)
  ultimately show ?thesis unfolding completes_def by blast
qed

text \<open>The key exchange: what the two classes of \<open>handshake.cpp\<close> make of each other's messages.\<close>

lemma kem_exchange:
  assumes k: "can_agree X ri rr" and a: "length (id_public_key ia) = 2592" and b: "length (id_public_key ib) = 2592"
  shows "\<exists>hi kmsg hr cmsg hi' pl.
    initiator_start X (rn_kem_keypair ri) (HandshakeInitiator ia) = Inr (kmsg, hi) \<and> length kmsg \<le> 2097152 \<and>
    TransportCodec_decode X kmsg = Some \<lparr>dm_type = KemPubkey, dm_payload = pl, dm_request_id = 0\<rparr> \<and>
    receive_kem_pubkey X (rn_kem_encaps rr) kmsg (HandshakeResponder ib) = Inr ((HS_Success, cmsg), hr) \<and>
    length cmsg \<le> 2097152 \<and> receive_kem_ciphertext X cmsg hi = Inr (HS_Success, hi') \<and>
    mirrored (hi_keys hi') (hr_keys hr)"
proof -
  obtain pk sk ct ss where kp: "oqs_kem_keypair X (rn_kem_keypair ri) = Some (pk, sk)"
    and en: "oqs_kem_encaps X pk (rn_kem_encaps rr) = Some (ct, ss)"
    using k by (auto simp: can_agree_def)
  have de: "oqs_kem_decaps X ct sk = Some ss" by (rule kem.decaps_encaps [OF kp en])
  have l: "length pk = 1568" "length ct = 1568"
    using kem.kem_lengths [OF kp] kem.encaps_lengths [OF en] by simp_all
  obtain ka kb where keys: "derive_session_keys X ss (id_public_key ia) (id_public_key ib) True = Inr ka"
      "derive_session_keys X ss (id_public_key ia) (id_public_key ib) False = Inr kb" "mirrored ka kb"
    using session_keys_mirrored by blast
  let ?kp = "pk @ id_public_key ia" and ?cp = "ct @ id_public_key ib"
  let ?kmsg = "TransportCodec_encode X KemPubkey ?kp 0" and ?cmsg = "TransportCodec_encode X KemCiphertext ?cp 0"
  have kd: "TransportCodec_decode X ?kmsg = Some \<lparr>dm_type = KemPubkey, dm_payload = ?kp, dm_request_id = 0\<rparr>"
    by (rule transport_round_trip) (use l a in \<open>simp_all add: known_type_def msg_types_def\<close>)
  have cd: "TransportCodec_decode X ?cmsg = Some \<lparr>dm_type = KemCiphertext, dm_payload = ?cp, dm_request_id = 0\<rparr>"
    by (rule transport_round_trip) (use l b in \<open>simp_all add: known_type_def msg_types_def\<close>)
  have lens: "length ?kmsg \<le> 2097152" "length ?cmsg \<le> 2097152"
    using transport_size(2) [of KemPubkey ?kp 0] transport_size(2) [of KemCiphertext ?cp 0] l a b by simp_all
  let ?hi = "(HandshakeInitiator ia)\<lparr>hi_kem_public := pk, hi_kem_secret := sk\<rparr>"
  let ?hr = "(HandshakeResponder ib)\<lparr>hr_keys := kb, hr_initiator_signing_pubkey := id_public_key ia\<rparr>"
  have 1: "initiator_start X (rn_kem_keypair ri) (HandshakeInitiator ia) = Inr (?kmsg, ?hi)"
    by (simp add: initiator_start_def kem_generate_keypair_def kp HandshakeInitiator_def)
  have 2: "receive_kem_pubkey X (rn_kem_encaps rr) ?kmsg (HandshakeResponder ib) = Inr ((HS_Success, ?cmsg), ?hr)"
    using l a unfolding receive_kem_pubkey_def kd
    by (simp add: HandshakeResponder_def kem_encaps_def en keys(2) KEM_PUBLIC_KEY_SIZE_def SIGNER_PUBLIC_KEY_SIZE_def)
  have 3: "receive_kem_ciphertext X ?cmsg ?hi = Inr (HS_Success, ?hi\<lparr>hi_keys := ka\<rparr>)"
    using l b unfolding receive_kem_ciphertext_def cd
    by (simp add: HandshakeInitiator_def kem_decaps_def de keys(1) KEM_CIPHERTEXT_SIZE_def SIGNER_PUBLIC_KEY_SIZE_def)
  have "mirrored (hi_keys (?hi\<lparr>hi_keys := ka\<rparr>)) (hr_keys ?hr)" using keys(3) by simp
  with 1 kd lens 2 3 show ?thesis by blast
qed

lemma pq_exchange:
  assumes k: "can_agree X ri rr" and sa: "can_sign X ri (cn_identity a)" and sb: "can_sign X rr (cn_identity b)"
    and ra: "is_implemented_role (role_byte (cn_local_role a))" and rb: "is_implemented_role (role_byte (cn_local_role b))"
    and na: "cn_send_counter a = cn_recv_counter b" "counter_ok (cn_send_counter a)"
    and nb: "cn_send_counter b = cn_recv_counter a" "counter_ok (cn_send_counter b)"
    and pc: "\<And>msg pl. TransportCodec_decode X msg = Some \<lparr>dm_type = KemPubkey, dm_payload = pl, dm_request_id = 0\<rparr> \<Longrightarrow>
      hs_frame X rr pc (Some msg) b = do_handshake_responder_pq X rr msg b"
  shows "completes (hs_exchange X ri rr (Suc (Suc (Suc (Suc (Suc (Suc (Suc (Suc n))))))))
    ((do_handshake_initiator_pq X ri a, []), ((b, pc, Hs_Read), []))) a b"
proof -
  obtain hi kmsg hr cmsg hi' pl where
    1: "initiator_start X (rn_kem_keypair ri) (HandshakeInitiator (cn_identity a)) = Inr (kmsg, hi)" "length kmsg \<le> 2097152"
    and dec: "TransportCodec_decode X kmsg = Some \<lparr>dm_type = KemPubkey, dm_payload = pl, dm_request_id = 0\<rparr>"
    and 2: "receive_kem_pubkey X (rn_kem_encaps rr) kmsg (HandshakeResponder (cn_identity b)) = Inr ((HS_Success, cmsg), hr)"
      "length cmsg \<le> 2097152"
    and 3: "receive_kem_ciphertext X cmsg hi = Inr (HS_Success, hi')" "mirrored (hi_keys hi') (hr_keys hr)"
    using kem_exchange [OF k public_key_length [OF sa] public_key_length [OF sb]] by blast
  let ?a = "a\<lparr>cn_session_keys := hi_keys hi'\<rparr>" and ?b = "b\<lparr>cn_session_keys := hr_keys hr\<rparr>"
  have R: "hs_frame X rr pc (Some kmsg) b = (b, R_Kem_Sent hr, Hs_Write (send_raw cmsg))"
    by (simp add: pc [OF dec] do_handshake_responder_pq_def 2)
  have "hs_exchange X ri rr (Suc (Suc (Suc (Suc (Suc (Suc (Suc (Suc n))))))))
      ((do_handshake_initiator_pq X ri a, []), ((b, pc, Hs_Read), [])) =
    hs_exchange X ri rr (Suc (Suc (Suc (Suc n))))
      ((send_auth X (rn_sign ri) (I_Auth_Sent None) ?a, []), ((?b, R_Auth_Wait None, Hs_Read), []))"
    by (simp del: hs_exchange.simps(2) add: hs_exchange.simps(2) [of X ri rr "Suc (Suc (Suc (Suc m)))" for m]
        do_handshake_initiator_pq_def 1(1) recv_send_raw_exact [OF 1(2)]
        recv_send_raw_exact [OF 2(2)] R initiator_kem_reply_def 3(1))
  then show ?thesis
    using auth_exchange [of ri ?a rr ?b None None n] 3(2) sa sb ra rb na nb by (simp add: completes_keys)
qed

lemma trusted_exchange:
  assumes sa: "can_sign X ri (cn_identity a)" and sb: "can_sign X rr (cn_identity b)"
    and ra: "is_implemented_role (role_byte (cn_local_role a))" and rb: "is_implemented_role (role_byte (cn_local_role b))"
    and na: "cn_send_counter a = cn_recv_counter b" "counter_ok (cn_send_counter a)"
    and nb: "cn_send_counter b = cn_recv_counter a" "counter_ok (cn_send_counter b)"
    and r: "length (rn_nonce ri) = 32" "length (rn_nonce rr) = 32"
  shows "completes (hs_exchange X ri rr (Suc (Suc (Suc (Suc (Suc (Suc (Suc (Suc n))))))))
    ((do_handshake_initiator_trusted X ri a, []), ((b, R_First_Wait True, Hs_Read), []))) a b"
proof -
  let ?pa = "id_public_key (cn_identity a)" and ?pb = "id_public_key (cn_identity b)"
  have pk: "length ?pa = 2592" "length ?pb = 2592" using public_key_length sa sb by blast+
  obtain ka kb where keys: "derive_lightweight_session_keys X (rn_nonce ri) (rn_nonce rr) ?pa ?pb True = Inr ka"
      "derive_lightweight_session_keys X (rn_nonce ri) (rn_nonce rr) ?pa ?pb False = Inr kb" "mirrored ka kb"
    using lightweight_keys_mirrored by blast
  let ?ma = "TransportCodec_encode X TrustedHello (rn_nonce ri @ ?pa) 0"
  let ?mb = "TransportCodec_encode X TrustedHello (rn_nonce rr @ ?pb) 0"
  have da: "TransportCodec_decode X ?ma = Some \<lparr>dm_type = TrustedHello, dm_payload = rn_nonce ri @ ?pa, dm_request_id = 0\<rparr>"
    and db: "TransportCodec_decode X ?mb = Some \<lparr>dm_type = TrustedHello, dm_payload = rn_nonce rr @ ?pb, dm_request_id = 0\<rparr>"
    by (rule transport_round_trip; use r pk in \<open>simp add: known_type_def msg_types_def\<close>)+
  have la: "length ?ma \<le> 2097152" and lb: "length ?mb \<le> 2097152"
    using transport_size(2) [of TrustedHello "rn_nonce ri @ ?pa" 0] transport_size(2) [of TrustedHello "rn_nonce rr @ ?pb" 0]
      r pk by simp_all
  let ?a = "a\<lparr>cn_session_keys := ka\<rparr>" and ?b = "b\<lparr>cn_session_keys := kb\<rparr>"
  have R: "responder_first X rr True (Some ?ma) b = (b, R_Hello_Sent (rn_nonce ri) ?pa (rn_nonce rr), Hs_Write (send_raw ?mb))"
    using r pk by (simp add: responder_first_def da do_handshake_responder_trusted_def SIGNER_PUBLIC_KEY_SIZE_def)
  have I: "initiator_hello_reply X ri (rn_nonce ri) (Some ?mb) a = send_auth X (rn_sign ri) (I_Auth_Sent (Some ?pb)) ?a"
    using r pk by (simp add: initiator_hello_reply_def db SIGNER_PUBLIC_KEY_SIZE_def keys(1))
  have "hs_exchange X ri rr (Suc (Suc (Suc (Suc (Suc (Suc (Suc (Suc n))))))))
      ((do_handshake_initiator_trusted X ri a, []), ((b, R_First_Wait True, Hs_Read), [])) =
    hs_exchange X ri rr (Suc (Suc (Suc (Suc n))))
      ((send_auth X (rn_sign ri) (I_Auth_Sent (Some ?pb)) ?a, []), ((?b, R_Auth_Wait (Some ?pa), Hs_Read), []))"
    by (simp del: hs_exchange.simps(2) add: hs_exchange.simps(2) [of X ri rr "Suc (Suc (Suc (Suc m)))" for m]
        do_handshake_initiator_trusted_def recv_send_raw_exact [OF la] recv_send_raw_exact [OF lb] R I
        responder_hello_sent_def keys(2))
  then show ?thesis
    using auth_exchange [of ri ?a rr ?b "Some ?pb" "Some ?pa" n] keys(3) sa sb ra rb na nb by (simp add: completes_keys)
qed

text \<open>An initiator that trusts a responder that does not trust it is sent back to the key exchange.\<close>

lemma mismatch_exchange:
  assumes k: "can_agree X ri rr" and sa: "can_sign X ri (cn_identity a)" and sb: "can_sign X rr (cn_identity b)"
    and ra: "is_implemented_role (role_byte (cn_local_role a))" and rb: "is_implemented_role (role_byte (cn_local_role b))"
    and na: "cn_send_counter a = cn_recv_counter b" "counter_ok (cn_send_counter a)"
    and nb: "cn_send_counter b = cn_recv_counter a" "counter_ok (cn_send_counter b)"
    and r: "length (rn_nonce ri) = 32"
  shows "completes (hs_exchange X ri rr (Suc (Suc (Suc (Suc (Suc (Suc (Suc (Suc (Suc (Suc (Suc (Suc n))))))))))))
    ((do_handshake_initiator_trusted X ri a, []), ((b, R_First_Wait False, Hs_Read), []))) a b"
proof -
  let ?pa = "id_public_key (cn_identity a)"
  let ?ma = "TransportCodec_encode X TrustedHello (rn_nonce ri @ ?pa) 0" and ?mq = "TransportCodec_encode X PQRequired [] 0"
  have pk: "length ?pa = 2592" using public_key_length sa by blast
  have da: "TransportCodec_decode X ?ma = Some \<lparr>dm_type = TrustedHello, dm_payload = rn_nonce ri @ ?pa, dm_request_id = 0\<rparr>"
    and dq: "TransportCodec_decode X ?mq = Some \<lparr>dm_type = PQRequired, dm_payload = [], dm_request_id = 0\<rparr>"
    by (rule transport_round_trip; use r pk in \<open>simp add: known_type_def msg_types_def\<close>)+
  have la: "length ?ma \<le> 2097152" and lq: "length ?mq \<le> 2097152"
    using transport_size(2) [of TrustedHello "rn_nonce ri @ ?pa" 0] transport_size(2) [of PQRequired "[]" 0] r pk by simp_all
  have "hs_exchange X ri rr (Suc (Suc (Suc (Suc (Suc (Suc (Suc (Suc (Suc (Suc (Suc (Suc n))))))))))))
      ((do_handshake_initiator_trusted X ri a, []), ((b, R_First_Wait False, Hs_Read), [])) =
    hs_exchange X ri rr (Suc (Suc (Suc (Suc (Suc (Suc (Suc (Suc n))))))))
      ((do_handshake_initiator_pq X ri a, []), ((b, R_Kem_Wait, Hs_Read), []))"
    by (simp del: hs_exchange.simps(2)
        add: hs_exchange.simps(2) [of X ri rr "Suc (Suc (Suc (Suc (Suc (Suc (Suc (Suc m)))))))" for m]
        do_handshake_initiator_trusted_def recv_send_raw_exact [OF la] recv_send_raw_exact [OF lq] responder_first_def da
        do_handshake_responder_pq_fallback_def initiator_hello_reply_def dq)
  then show ?thesis using pq_exchange [OF k sa sb ra rb na nb, of R_Kem_Wait n] by simp
qed

lemma handshake_completes:
  assumes k: "can_agree X ri rr" and sa: "can_sign X ri (cn_identity a)" and sb: "can_sign X rr (cn_identity b)"
    and ra: "is_implemented_role (role_byte (cn_local_role a))" and rb: "is_implemented_role (role_byte (cn_local_role b))"
    and na: "cn_send_counter a = cn_recv_counter b" "counter_ok (cn_send_counter a)"
    and nb: "cn_send_counter b = cn_recv_counter a" "counter_ok (cn_send_counter b)"
    and r: "length (rn_nonce ri) = 32" "length (rn_nonce rr) = 32" and i: "cn_is_initiator a" "\<not> cn_is_initiator b"
  shows "completes (hs_dialogue X ri rr ti tr a b) a b"
proof -
  have 16: "16 = Suc (Suc (Suc (Suc (Suc (Suc (Suc (Suc (Suc (Suc (Suc (Suc (4 :: nat))))))))))))" by simp
  show ?thesis
    unfolding hs_dialogue_def 16
    using pq_exchange [OF k sa sb ra rb na nb, of "R_First_Wait tr" "Suc (Suc (Suc (Suc 4)))"]
      trusted_exchange [OF sa sb ra rb na nb r, of "Suc (Suc (Suc (Suc 4)))"]
      mismatch_exchange [OF k sa sb ra rb na nb r(1), of 4] i
    by (cases ti; cases tr) (simp_all add: do_handshake_def responder_first_def)
qed

end

text \<open>C3: The handshake of two honest ends over a reliable network completes, whether or not each trusts the
  other's address: both return \<open>true\<close>, each has authenticated the other's signing key and role, the
  directional keys of one are the mirrored keys of the other, both signed the same fingerprint, and the
  message counters of the two directions agree.  The calls of the key exchange and of signing are
  assumed to succeed.\<close>

theorem handshake_agrees:
  assumes "externals X" and "can_agree X ri rr" and "can_sign X ri idi" and "can_sign X rr idr"
    and "is_implemented_role (role_byte rli)" and "is_implemented_role (role_byte rlr)"
    and "length (rn_nonce ri) = 32" and "length (rn_nonce rr) = 32"
    and "a = (new_connection idi True uds_i now_i)\<lparr>cn_local_role := rli\<rparr>"
    and "b = (new_connection idr False uds_r now_r)\<lparr>cn_local_role := rlr\<rparr>"
  shows "\<exists>a' b'. hs_dialogue X ri rr trust_i trust_r a b =
      (((a', Hs_Stopped, Hs_Return True), []), ((b', Hs_Stopped, Hs_Return True), [])) \<and>
    cn_authenticated a' \<and> cn_peer_pubkey a' = id_public_key idr \<and> cn_peer_role a' = rlr \<and>
    cn_authenticated b' \<and> cn_peer_pubkey b' = id_public_key idi \<and> cn_peer_role b' = rli \<and>
    mirrored (cn_session_keys a') (cn_session_keys b') \<and>
    cn_send_counter a' = 1 \<and> cn_recv_counter b' = 1 \<and> cn_send_counter b' = 1 \<and> cn_recv_counter a' = 1"
proof -
  have "completes (hs_dialogue X ri rr trust_i trust_r a b) a b"
    by (rule externals.handshake_completes [OF assms(1,2)])
      (use assms(3-) in \<open>simp_all add: new_connection_def counter_ok_def NONCE_LIMIT_def\<close>)
  then show ?thesis
    using assms(9,10) unfolding completes_def established_def same_end_def by (auto simp: new_connection_def)
qed

end
