(* ===== verification/Channel_Proof.thy ===== *)
theory Channel_Proof
  imports Connection_Proof
begin

text \<open>
  The channel two authenticated ends have: what one side hands to \<open>send_message\<close>, the message loop of the
  other side delivers, in order and unchanged, whether it goes out whole or in chunks.
\<close>

section \<open>The two loops\<close>

text \<open>The drain coroutine when every write succeeds, until it sleeps: what it writes and whom it tells what.\<close>

inductive drains :: "'t externals \<Rightarrow> drain_step \<Rightarrow> bytes \<Rightarrow> signals \<Rightarrow> connection \<Rightarrow> bool" for X where
  drain_sleep: "drains X (c, pc, Drain_Sleep, sigs) [] sigs c"
| drain_write: "drains X (drain_send_queue X pc True c) out sigs' c' \<Longrightarrow>
    drains X (c, pc, Drain_Write dat, sigs) (dat @ out) (sigs @ sigs') c'"

inductive_cases drains_sleepE: "drains X (c, pc, Drain_Sleep, sigs) out sigs' c'"

lemma recv_raw_shorter: "recv_raw input = Some (frame, rest) \<Longrightarrow> length rest < length input"
  by (auto simp: recv_raw_def Let_def split: if_splits)

text \<open>The message loop over the frames that are complete in a stream, with what it hands out.\<close>

function receive_stream ::
    "'t externals \<Rightarrow> u64 \<Rightarrow> bytes \<Rightarrow> loop_pc \<Rightarrow> connection \<Rightarrow> net_error + loop_step" where
  "receive_stream X now input pc c =
     (if pc = Loop_Stopped then Inr (c, pc, [])
      else case recv_raw input of
        None \<Rightarrow> Inr (c, pc, [])
      | Some (frame, rest) \<Rightarrow>
          (case message_loop X now pc (Some frame) c of
             Inl e \<Rightarrow> Inl e
           | Inr (c', pc', es) \<Rightarrow>
               (case receive_stream X now rest pc' c' of
                  Inl e \<Rightarrow> Inl e
                | Inr (c'', pc'', es') \<Rightarrow> Inr (c'', pc'', es @ es'))))"
  by pat_completeness auto
termination
  by (relation "measure (\<lambda>(_, _, input, _, _). length input)") (auto dest: recv_raw_shorter)

declare receive_stream.simps [simp del]

definition add_effects :: "loop_effect list \<Rightarrow> net_error + loop_step \<Rightarrow> net_error + loop_step" where
  "add_effects es r = (case r of Inl e \<Rightarrow> Inl e | Inr (c, pc, es') \<Rightarrow> Inr (c, pc, es @ es'))"

lemma add_effects_simps [simp]:
  "add_effects [] r = r" "add_effects es (add_effects es' r) = add_effects (es @ es') r"
  "add_effects es (Inr (c, pc, es')) = Inr (c, pc, es @ es')"
  by (auto simp: add_effects_def split: sum.split)

section \<open>Linked ends\<close>

definition linked :: "connection \<Rightarrow> connection \<Rightarrow> nat \<Rightarrow> bool" where
  "linked a b budget \<longleftrightarrow>
     mirrored (cn_session_keys a) (cn_session_keys b) \<and> cn_send_counter a = cn_recv_counter b \<and>
     unat (cn_send_counter a) + budget \<le> 2 ^ 63 \<and> \<not> cn_closed a \<and> \<not> cn_closed b \<and> cn_authenticated b"

lemma linked_mono: "linked a b n \<Longrightarrow> m \<le> n \<Longrightarrow> linked a b m"
  unfolding linked_def by linarith

lemma linked_queue [simp]: "linked (a\<lparr>cn_send_queue := q\<rparr>) b n = linked a b n"
  by (simp add: linked_def)

lemma counter_ok_iff: "counter_ok n \<longleftrightarrow> unat n < 2 ^ 63"
  by (simp add: counter_ok_def NONCE_LIMIT_def not_le word_less_nat_alt)

lemma linked_advance:
  "linked a b (Suc n) \<Longrightarrow>
    linked (a\<lparr>cn_send_counter := cn_send_counter a + 1\<rparr>) (b\<lparr>cn_recv_counter := cn_recv_counter b + 1, cn_last_recv_time := now\<rparr>) n"
  by (auto simp: linked_def unat_word_ariths)

definition advance :: "u64 \<Rightarrow> connection \<Rightarrow> connection" where
  "advance now b = b\<lparr>cn_recv_counter := cn_recv_counter b + 1, cn_last_recv_time := now\<rparr>"

definition sent :: "connection \<Rightarrow> connection" where
  "sent a = a\<lparr>cn_send_counter := cn_send_counter a + 1\<rparr>"

lemma sent_queue [simp]: "cn_send_queue (sent a) = cn_send_queue a"
  by (simp add: sent_def)

lemma advance_open [simp]: "cn_closed (advance now b) = cn_closed b" "cn_authenticated (advance now b) = cn_authenticated b"
  by (simp_all add: advance_def)

text \<open>The frames that carry \<open>r\<close> bytes of chunked data and the sentinel.\<close>

definition data_frames :: "nat \<Rightarrow> nat" where
  "data_frames r = (r + STREAMING_THRESHOLD - 1) div STREAMING_THRESHOLD + 1"

lemma ceil_div_step:
  assumes "0 < (t::nat)" and "0 < r"
  shows "Suc ((r - min t r + t - 1) div t) = (r + t - 1) div t"
proof -
  have "r + t - 1 = (r - 1) + t" using assms by simp
  moreover have "((r - 1) + t) div t = (r - 1) div t + 1" by (rule div_add_self2) (use assms in simp)
  ultimately have "(r + t - 1) div t = Suc ((r - 1) div t)" by (simp only: Suc_eq_plus1)
  moreover have "(r - min t r + t - 1) div t = (r - 1) div t"
    using assms by (cases "r < t") simp_all
  ultimately show ?thesis by simp
qed

lemma data_frames_step: "0 < r \<Longrightarrow> data_frames r = Suc (data_frames (r - min STREAMING_THRESHOLD r))"
  using ceil_div_step [of STREAMING_THRESHOLD r] by (simp add: data_frames_def STREAMING_THRESHOLD_def)

lemma data_frames_pos: "Suc 0 \<le> data_frames r"
  by (simp add: data_frames_def)

text \<open>From one point of the sender to another, and of the receiver.\<close>

definition leads :: "'t externals \<Rightarrow> drain_step \<Rightarrow> bytes \<Rightarrow> signals \<Rightarrow> drain_step \<Rightarrow> bool" where
  "leads X s out sigs t \<longleftrightarrow>
     (\<forall>out' sigs' c. drains X t out' sigs' c \<longrightarrow> drains X s (out @ out') (sigs @ sigs') c)"

definition hears ::
    "'t externals \<Rightarrow> u64 \<Rightarrow> loop_pc \<Rightarrow> connection \<Rightarrow> bytes \<Rightarrow> loop_effect list \<Rightarrow> loop_pc \<Rightarrow> connection \<Rightarrow> bool" where
  "hears X now pc b out es pc' b' \<longleftrightarrow>
     (\<forall>rest. receive_stream X now (out @ rest) pc b = add_effects es (receive_stream X now rest pc' b'))"

lemma leads_trans: "leads X s o1 s1 t \<Longrightarrow> leads X t o2 s2 u \<Longrightarrow> leads X s (o1 @ o2) (s1 @ s2) u"
  by (simp add: leads_def)

lemma hears_trans:
  "hears X now pc b o1 e1 pc' b' \<Longrightarrow> hears X now pc' b' o2 e2 pc'' b'' \<Longrightarrow> hears X now pc b (o1 @ o2) (e1 @ e2) pc'' b''"
  by (simp add: hears_def)

lemma leads_write: "leads X (c, pc, Drain_Write dat, sigs) dat sigs (drain_send_queue X pc True c)"
  by (simp add: leads_def drain_write)

text \<open>The bytes written for a list of plaintexts.\<close>

inductive framed :: "'t externals \<Rightarrow> connection \<Rightarrow> bytes list \<Rightarrow> bytes \<Rightarrow> connection \<Rightarrow> bool" for X where
  framed_nil: "framed X a [] [] a"
| framed_cons: "send_encrypted X p a = Inr (a1, Some o1) \<Longrightarrow> framed X a1 ps o2 a2 \<Longrightarrow> framed X a (p # ps) (o1 @ o2) a2"

inductive_simps framed_simps: "framed X a [] out a'" "framed X a (p # ps) out a'"

lemma framed_append: "framed X a ps o1 a1 \<Longrightarrow> framed X a1 qs o2 a2 \<Longrightarrow> framed X a (ps @ qs) (o1 @ o2) a2"
  by (induction rule: framed.induct) (auto intro: framed_cons)

definition subframes :: "bytes \<Rightarrow> bytes list" where
  "subframes p = records STREAMING_THRESHOLD ((length p + STREAMING_THRESHOLD - 1) div STREAMING_THRESHOLD) p"

lemma subframes_step:
  assumes "p \<noteq> []"
  shows "subframes p = take STREAMING_THRESHOLD p # subframes (drop STREAMING_THRESHOLD p)"
proof -
  let ?t = STREAMING_THRESHOLD
  have "Suc ((length p - min ?t (length p) + ?t - 1) div ?t) = (length p + ?t - 1) div ?t"
    by (rule ceil_div_step) (use assms in \<open>simp_all add: STREAMING_THRESHOLD_def\<close>)
  moreover have "length p - min ?t (length p) = length (drop ?t p)" by simp
  ultimately have "(length p + ?t - 1) div ?t = Suc ((length (drop ?t p) + ?t - 1) div ?t)" by (simp only:)
  then show ?thesis unfolding subframes_def by (simp only: records_Suc)
qed

lemma subframes_nil [simp]: "subframes [] = []"
  by (simp add: subframes_def records_def STREAMING_THRESHOLD_def)

context externals
begin

text \<open>One frame: the sender's step, and the receiver's step on what was written.\<close>

lemma frame_heard:
  assumes l: "linked a b (Suc n)" and p: "length p \<le> 2097136" and pc: "pc \<noteq> Loop_Stopped"
    and f: "loop_frame X pc p (advance now b) = (advance now b, pc', es)"
  shows "\<exists>out. send_encrypted X p a = Inr (sent a, Some out) \<and> hears X now pc b out es pc' (advance now b) \<and>
    linked (sent a) (advance now b) n"
proof -
  have m: "mirrored (cn_session_keys a) (cn_session_keys b)" "cn_send_counter a = cn_recv_counter b"
      "counter_ok (cn_send_counter a)"
    using l by (auto simp: linked_def counter_ok_iff)
  obtain ct where ct: "send_encrypted X p a = Inr (a\<lparr>cn_send_counter := cn_send_counter a + 1\<rparr>, Some (send_raw ct))"
      "length ct = length p + 16" "recv_encrypted X (Some ct) b = Inr (b\<lparr>cn_recv_counter := cn_recv_counter b + 1\<rparr>, Some p)"
    using send_recv_encrypted [OF m p] by blast
  have "recv_raw (send_raw ct @ rest) = Some (ct, rest)" for rest by (rule recv_send_raw) (use ct p in simp)
  then have "hears X now pc b (send_raw ct) es pc' (advance now b)"
    unfolding hears_def using pc f
    by (subst receive_stream.simps) (simp add: message_loop_def ct(3) advance_def add_effects_def split: prod.split)
  then show ?thesis using ct(1) linked_advance [OF l, of now] by (auto simp: advance_def sent_def)
qed

lemma frame_through:
  assumes l: "linked a b (Suc n)" and p: "length p \<le> 2097136" and pc: "pc \<noteq> Loop_Stopped"
    and f: "loop_frame X pc p (advance now b) = (advance now b, pc', es)"
  shows "\<exists>out. leads X (drain_send X m p next_pc sigs a) out sigs (drain_send_queue X next_pc True (sent a)) \<and>
    hears X now pc b out es pc' (advance now b) \<and> linked (sent a) (advance now b) n \<and> framed X a [p] out (sent a)"
proof -
  obtain out where o: "send_encrypted X p a = Inr (sent a, Some out)" "hears X now pc b out es pc' (advance now b)"
      "linked (sent a) (advance now b) n"
    using frame_heard [OF assms] by blast
  have "leads X (drain_send X m p next_pc sigs a) out sigs (drain_send_queue X next_pc True (sent a))"
    using leads_write [of X "sent a" next_pc out sigs] by (simp add: drain_send_def o(1))
  moreover have "framed X a [p] out (sent a)" using framed_cons [OF o(1) framed_nil] by simp
  ultimately show ?thesis using o by blast
qed

text \<open>The data of a chunked message from an offset on, with the sentinel.\<close>

lemma chunks_through:
  assumes "linked a b (data_frames (length (pm_chunked_payload m) - off) + n)"
    and "off \<le> length (pm_chunked_payload m)" and "unat declared = length (pm_chunked_payload m)"
  shows "\<exists>out a' b'. leads X (drain_chunk X m off a) out [] (drain_next X [(pm_waiter m, True)] a') \<and>
    hears X now (Loop_Chunk ty rid declared (take off (pm_chunked_payload m))) b out
      [Deliver (msg_type_of_byte ty) (pm_chunked_payload m) rid] Loop_Recv b' \<and>
    linked a' b' n \<and> cn_send_queue a' = cn_send_queue a \<and>
    framed X a (subframes (drop off (pm_chunked_payload m)) @ [[]]) out a'"
  using assms
proof (induction "length (pm_chunked_payload m) - off" arbitrary: a b off rule: less_induct)
  case less
  let ?p = "pm_chunked_payload m" and ?T = STREAMING_THRESHOLD
  show ?case
  proof (cases "off < length ?p")
    case False
    then have all: "take off ?p = ?p" by simp
    have "linked a b (Suc n)"
      by (rule linked_mono [OF less.prems(1)]) (use data_frames_pos [of "length ?p - off"] in simp)
    from frame_through [OF this, of "[]" "Loop_Chunk ty rid declared ?p" now Loop_Recv
        "[Deliver (msg_type_of_byte ty) ?p rid]" m "Drain_Sentinel m" "[]"] less.prems(1)
    obtain out where "leads X (drain_send X m [] (Drain_Sentinel m) [] a) out [] (drain_next X [(pm_waiter m, True)] (sent a))"
        "hears X now (Loop_Chunk ty rid declared ?p) b out [Deliver (msg_type_of_byte ty) ?p rid] Loop_Recv (advance now b)"
        "linked (sent a) (advance now b) n" "framed X a [[]] out (sent a)"
      by (auto simp: loop_frame_def recv_chunked_def loop_top_def linked_def)
    then show ?thesis using False unfolding all drain_chunk_def by (auto intro!: exI)
  next
    case True
    define len where "len = min ?T (length ?p - off)"
    let ?chunk = "take len (drop off ?p)"
    have len: "0 < len" "len \<le> length ?p - off" "len \<le> 1048576" using True by (auto simp: len_def STREAMING_THRESHOLD_def)
    have tk: "take off ?p @ ?chunk = take (off + len) ?p" by (simp add: take_add)
    have ne: "?chunk \<noteq> []" using len True by simp
    have l: "linked a b (Suc (data_frames (length ?p - (off + len)) + n))"
      using less.prems(1) data_frames_step [of "length ?p - off"] True by (simp add: len_def diff_diff_left)
    have f: "loop_frame X (Loop_Chunk ty rid declared (take off ?p)) ?chunk (advance now b) =
        (advance now b, Loop_Chunk ty rid declared (take (off + len) ?p), [])"
      using len less.prems(3) unfolding loop_frame_def recv_chunked_def
      by (simp only: loop_pc.case if_not_P [OF ne] Let_def tk) simp
    obtain o1 where 1: "leads X (drain_send X m ?chunk (Drain_Chunk m (off + len)) [] a) o1 [] (drain_chunk X m (off + len) (sent a))"
        "hears X now (Loop_Chunk ty rid declared (take off ?p)) b o1 [] (Loop_Chunk ty rid declared (take (off + len) ?p)) (advance now b)"
        "linked (sent a) (advance now b) (data_frames (length ?p - (off + len)) + n)" "framed X a [?chunk] o1 (sent a)"
      using frame_through [OF l _ _ f, of m "Drain_Chunk m (off + len)" "[]"] len by auto
    have d: "drain_chunk X m off a = drain_send X m ?chunk (Drain_Chunk m (off + len)) [] a"
      using True by (simp add: drain_chunk_def len_def Let_def)
    have shorter: "length ?p - (off + len) < length ?p - off" and within: "off + len \<le> length ?p"
      using len True by linarith+
    obtain o2 a' b' where 2: "leads X (drain_chunk X m (off + len) (sent a)) o2 [] (drain_next X [(pm_waiter m, True)] a')"
        "hears X now (Loop_Chunk ty rid declared (take (off + len) ?p)) (advance now b) o2
          [Deliver (msg_type_of_byte ty) ?p rid] Loop_Recv b'" "linked a' b' n" "cn_send_queue a' = cn_send_queue (sent a)"
        "framed X (sent a) (subframes (drop (off + len) ?p) @ [[]]) o2 a'"
      using less.hyps [OF shorter 1(3) within less.prems(3)] by auto
    have "subframes (drop off ?p) = ?chunk # subframes (drop (off + len) ?p)"
      using subframes_step [of "drop off ?p"] True by (auto simp: len_def min_def add.commute)
    then have "framed X a (subframes (drop off ?p) @ [[]]) (o1 @ o2) a'" using framed_append [OF 1(4) 2(5)] by simp
    then show ?thesis
      using leads_trans [OF 1(1) 2(1)] hears_trans [OF 1(2) 2(2)] 2(3,4) unfolding d by auto
  qed
qed

end

section \<open>Messages\<close>

type_synonym app_message = "transport_msg_type \<times> bytes \<times> u32"

definition deliverable :: "app_message \<Rightarrow> bool" where
  "deliverable msg \<longleftrightarrow>
     (case msg of (t, p, _) \<Rightarrow> known_type t \<and> t \<notin> {Ping, Pong, Goodbye} \<and> length p \<le> MAX_CHUNKED_WIRE_PAYLOAD)"

text \<open>The queue entry \<open>send_message\<close> makes, and the frames it costs.\<close>

definition queued :: "'t externals \<Rightarrow> nat \<Rightarrow> app_message \<Rightarrow> pending_message" where
  "queued X w msg =
     (case msg of (t, p, r) \<Rightarrow>
        if length p \<ge> STREAMING_THRESHOLD
        then \<lparr>pm_encoded = [0x01, msg_type_byte t] @ store_u32_be r @ store_u64_be (of_nat (length p)), pm_waiter = w,
              pm_is_chunked = True, pm_chunked_payload = p\<rparr>
        else \<lparr>pm_encoded = TransportCodec_encode X t p r, pm_waiter = w, pm_is_chunked = False, pm_chunked_payload = []\<rparr>)"

definition frame_cost :: "app_message \<Rightarrow> nat" where
  "frame_cost msg = (case msg of (_, p, _) \<Rightarrow> if length p \<ge> STREAMING_THRESHOLD then Suc (data_frames (length p)) else 1)"

definition delivery :: "app_message \<Rightarrow> loop_effect" where
  "delivery msg = (case msg of (t, p, r) \<Rightarrow> Deliver t p r)"

text \<open>The plaintexts of the frames.\<close>

definition plaintexts :: "'t externals \<Rightarrow> app_message \<Rightarrow> bytes list" where
  "plaintexts X msg =
     (case msg of (t, p, r) \<Rightarrow>
        if length p \<ge> STREAMING_THRESHOLD
        then ([0x01, msg_type_byte t] @ store_u32_be r @ store_u64_be (of_nat (length p))) # subframes p @ [[]]
        else [TransportCodec_encode X t p r])"

lemma chunked_header_parsed:
  assumes "length p \<le> MAX_CHUNKED_WIRE_PAYLOAD"
  shows "recv_chunked_header ([0x01, ty] @ store_u32_be r @ store_u64_be (of_nat (length p))) =
      Some (ty, r, of_nat (length p), [])"
    and "unat (of_nat (length p) :: u64) = length p"
proof -
  define n where "n = (of_nat (length p) :: u64)"
  show n: "unat (of_nat (length p) :: u64) = length p"
    using assms unfolding unat_of_nat_u64 by (simp add: connection_sizes)
  have "recv_chunked_header ([0x01, ty] @ store_u32_be r @ store_u64_be n) =
      (if unat n > MAX_CHUNKED_WIRE_PAYLOAD then None else Some (ty, r, n, []))"
    by (simp add: recv_chunked_header_def Let_def wire_simps CHUNKED_HEADER_SIZE_def)
  then have "recv_chunked_header ([0x01, ty] @ store_u32_be r @ store_u64_be n) = Some (ty, r, n, [])"
    using assms n unfolding n_def [symmetric] by simp
  then show "recv_chunked_header ([0x01, ty] @ store_u32_be r @ store_u64_be (of_nat (length p))) =
      Some (ty, r, of_nat (length p), [])" by (simp add: n_def)
qed

context externals
begin

lemma message_through:
  assumes l: "linked a b (frame_cost msg + n)" and d: "deliverable msg" and q: "cn_send_queue a = queued X w msg # q"
  shows "\<exists>out a' b'. leads X (drain_next X sigs a) out sigs (drain_next X [(w, True)] a') \<and>
    hears X now Loop_Recv b out [delivery msg] Loop_Recv b' \<and> linked a' b' n \<and> cn_send_queue a' = q \<and>
    framed X (a\<lparr>cn_send_queue := q\<rparr>) (plaintexts X msg) out a'"
proof -
  obtain t p r where msg: "msg = (t, p, r)" by (cases msg)
  have t: "known_type t" "t \<noteq> Ping" "t \<noteq> Pong" "t \<noteq> Goodbye" and p: "length p \<le> MAX_CHUNKED_WIRE_PAYLOAD"
    using d by (auto simp: deliverable_def msg)
  have up: "\<not> cn_closed a" "\<not> cn_closed b" "cn_authenticated b" using l by (auto simp: linked_def)
  let ?a = "a\<lparr>cn_send_queue := q\<rparr>" and ?m = "queued X w msg"
  have w: "pm_waiter ?m = w" by (simp add: queued_def msg)
  have start: "drain_next X sigs a =
      drain_send X ?m (pm_encoded ?m) (if pm_is_chunked ?m then Drain_Header ?m else Drain_Single ?m) sigs ?a"
    using up(1) q by (simp add: drain_next_def)
  show ?thesis
  proof (cases "length p \<ge> STREAMING_THRESHOLD")
    case True
    let ?h = "[0x01, msg_type_byte t] @ store_u32_be r @ store_u64_be (of_nat (length p))"
    have m: "pm_encoded ?m = ?h" "pm_is_chunked ?m" "pm_chunked_payload ?m = p" using True by (simp_all add: queued_def msg)
    have l1: "linked ?a b (Suc (data_frames (length p - 0) + n))" using l True by (simp add: frame_cost_def msg)
    have f: "loop_frame X Loop_Recv ?h (advance now b) =
        (advance now b, Loop_Chunk (msg_type_byte t) r (of_nat (length p)) (take 0 p), [])"
      using chunked_header_parsed(1) [OF p, of "msg_type_byte t" r] by (simp add: loop_frame_def)
    obtain o1 where 1: "leads X (drain_send X ?m ?h (Drain_Header ?m) sigs ?a) o1 sigs (drain_chunk X ?m 0 (sent ?a))"
        "hears X now Loop_Recv b o1 [] (Loop_Chunk (msg_type_byte t) r (of_nat (length p)) (take 0 p)) (advance now b)"
        "linked (sent ?a) (advance now b) (data_frames (length p - 0) + n)" "framed X ?a [?h] o1 (sent ?a)"
      using frame_through [OF l1 _ _ f, of ?m "Drain_Header ?m" sigs] by (auto simp: wire_simps)
    obtain o2 a' b' where 2: "leads X (drain_chunk X ?m 0 (sent ?a)) o2 [] (drain_next X [(w, True)] a')"
        "hears X now (Loop_Chunk (msg_type_byte t) r (of_nat (length p)) (take 0 p)) (advance now b) o2
          [Deliver (msg_type_of_byte (msg_type_byte t)) p r] Loop_Recv b'" "linked a' b' n" "cn_send_queue a' = q"
        "framed X (sent ?a) (subframes p @ [[]]) o2 a'"
      using chunks_through [of "sent ?a" "advance now b" ?m 0 n "of_nat (length p)" now "msg_type_byte t" r] 1(3) chunked_header_parsed(2) [OF p]
      by (auto simp: m(3) w)
    have "framed X ?a (plaintexts X msg) (o1 @ o2) a'"
      using framed_append [OF 1(4) 2(5)] True by (simp add: plaintexts_def msg)
    then show ?thesis
      using leads_trans [OF 1(1) 2(1)] hears_trans [OF 1(2) 2(2)] 2(3,4) m(1,2)
      by (auto simp: start delivery_def msg msg_type_round_trip [OF t(1)])
  next
    case False
    let ?e = "TransportCodec_encode X t p r"
    have m: "pm_encoded ?m = ?e" "\<not> pm_is_chunked ?m" using False by (simp_all add: queued_def msg)
    have dec: "TransportCodec_decode X ?e = Some \<lparr>dm_type = t, dm_payload = p, dm_request_id = r\<rparr>"
      by (rule transport_round_trip [OF t(1)]) (use False in \<open>simp add: STREAMING_THRESHOLD_def\<close>)
    have e: "length ?e \<le> 2097136"
      using transport_size(2) [of t p r] False by (simp add: STREAMING_THRESHOLD_def)
    have f: "loop_frame X Loop_Recv ?e (advance now b) = (advance now b, Loop_Recv, [Deliver t p r])"
      using transport_not_chunked [of t p r] t up by (simp add: loop_frame_def loop_message_def dec loop_top_def)
    have pl: "plaintexts X msg = [?e]" using False by (simp add: plaintexts_def msg)
    have "linked ?a b (Suc n)" using l False by (simp add: frame_cost_def msg)
    from frame_through [OF this e _ f, of ?m "Drain_Single ?m" sigs]
    obtain out where "leads X (drain_send X ?m ?e (Drain_Single ?m) sigs ?a) out sigs (drain_next X [(w, True)] (sent ?a))"
        "hears X now Loop_Recv b out [Deliver t p r] Loop_Recv (advance now b)" "linked (sent ?a) (advance now b) n"
        "framed X ?a (plaintexts X msg) out (sent ?a)"
      by (auto simp: w pl)
    moreover have "cn_send_queue (sent ?a) = q" by simp
    moreover have "delivery msg = Deliver t p r" by (simp add: delivery_def msg)
    ultimately show ?thesis unfolding start m(1) if_not_P [OF m(2)] by metis
  qed
qed

lemma queue_through:
  assumes "linked a b (sum_list (map frame_cost msgs))" and "list_all deliverable msgs"
    and "cn_send_queue a = map2 (queued X) ws msgs" and "length ws = length msgs"
  shows "\<exists>out a' b'. drains X (drain_next X sigs a) out (sigs @ map (\<lambda>w. (w, True)) ws) a' \<and>
    receive_stream X now out Loop_Recv b = Inr (b', Loop_Recv, map delivery msgs) \<and>
    cn_send_queue a' = [] \<and> linked a' b' 0"
  using assms
proof (induction msgs arbitrary: a b ws sigs)
  case Nil
  then have "drain_next X sigs a = (a, Drain_Wait, Drain_Sleep, sigs)" by (simp add: drain_next_def linked_def)
  moreover have "receive_stream X now [] Loop_Recv b = Inr (b, Loop_Recv, [])" by (simp add: receive_stream.simps)
  ultimately show ?case using Nil drain_sleep [of X a Drain_Wait sigs] by auto
next
  case (Cons msg msgs)
  obtain w ws' where ws: "ws = w # ws'" "length ws' = length msgs" using Cons.prems(4) by (cases ws) auto
  have l: "linked a b (frame_cost msg + sum_list (map frame_cost msgs))" using Cons.prems(1) by simp
  have d: "deliverable msg" "list_all deliverable msgs" using Cons.prems(2) by auto
  have q: "cn_send_queue a = queued X w msg # map2 (queued X) ws' msgs" using Cons.prems(3) by (simp add: ws)
  obtain o1 a1 b1 where 1: "leads X (drain_next X sigs a) o1 sigs (drain_next X [(w, True)] a1)"
      "hears X now Loop_Recv b o1 [delivery msg] Loop_Recv b1" "linked a1 b1 (sum_list (map frame_cost msgs))"
      "cn_send_queue a1 = map2 (queued X) ws' msgs"
    using message_through [OF l d(1) q] by blast
  obtain o2 a' b' where 2: "drains X (drain_next X [(w, True)] a1) o2 ([(w, True)] @ map (\<lambda>w. (w, True)) ws') a'"
      "receive_stream X now o2 Loop_Recv b1 = Inr (b', Loop_Recv, map delivery msgs)" "cn_send_queue a' = []" "linked a' b' 0"
    using Cons.IH [OF 1(3) d(2) 1(4) ws(2), of "[(w, True)]"] by blast
  have "drains X (drain_next X sigs a) (o1 @ o2) (sigs @ map (\<lambda>w. (w, True)) ws) a'"
    using 1(1) 2(1) by (simp add: leads_def ws)
  moreover have "receive_stream X now (o1 @ o2) Loop_Recv b = Inr (b', Loop_Recv, map delivery (msg # msgs))"
    using 1(2) 2(2) by (simp add: hears_def)
  ultimately show ?case using 2(3,4) by blast
qed

end

text \<open>Handing a list of messages to \<open>send_message\<close>, the waiters numbered from \<open>w\<close> on.\<close>

primrec send_all :: "'t externals \<Rightarrow> nat \<Rightarrow> app_message list \<Rightarrow> connection \<Rightarrow> connection \<times> send_outcome list" where
  "send_all X w [] c = (c, [])"
| "send_all X w (msg # msgs) c =
     (case msg of (t, p, r) \<Rightarrow>
        let (c', o1) = send_message X w t p r c; (c'', os) = send_all X (Suc w) msgs c' in (c'', o1 # os))"

lemma send_message_queued:
  assumes "\<not> cn_closed c" and "\<not> cn_closing c" and "length (cn_send_queue c) < MAX_SEND_QUEUE"
  shows "send_message X w t p r c = (c\<lparr>cn_send_queue := cn_send_queue c @ [queued X w (t, p, r)]\<rparr>, Send_Queued)"
  using assms
  by (simp add: send_message_def send_message_chunked_def enqueue_send_def enqueue_def queued_def Let_def)

lemma send_all_queued:
  assumes "\<not> cn_closed c" and "\<not> cn_closing c" and "length (cn_send_queue c) + length msgs \<le> MAX_SEND_QUEUE"
  shows "send_all X w msgs c =
    (c\<lparr>cn_send_queue := cn_send_queue c @ map2 (queued X) [w..<w + length msgs] msgs\<rparr>,
     replicate (length msgs) Send_Queued)"
  using assms
proof (induction msgs arbitrary: w c)
  case (Cons msg msgs)
  have up: "[w..<Suc (w + length msgs)] = w # [Suc w..<Suc (w + length msgs)]" by (rule upt_conv_Cons) simp
  show ?case
    using Cons.prems Cons.IH [of "c\<lparr>cn_send_queue := cn_send_queue c @ [queued X w msg]\<rparr>" "Suc w"]
    by (cases msg) (simp add: send_message_queued up del: upt_Suc)
qed simp

text \<open>C4: Between two ends that a handshake has established, the messages handed to \<open>send_message\<close> arrive: all
  are queued, the drain coroutine empties the queue and tells every waiter that its message went out,
  and the other side's message loop, reading the bytes written, hands exactly these messages to its
  callback, in order, with type, payload and request id unchanged.  This holds for payloads sent whole
  and for payloads sent in chunks, up to the declared size limit, as long as the nonce counter does not
  reach its limit.\<close>

theorem channel_exact:
  assumes X: "externals X" and e: "established a b" and a: "\<not> cn_closed a" "\<not> cn_closing a" "cn_send_queue a = []"
    and b: "\<not> cn_closed b" and msgs: "length msgs \<le> MAX_SEND_QUEUE" "list_all deliverable msgs"
    and budget: "unat (cn_send_counter a) + sum_list (map frame_cost msgs) \<le> 2 ^ 63"
  shows "\<exists>a1 out a2 b2.
    send_all X 0 msgs a = (a1, replicate (length msgs) Send_Queued) \<and>
    drains X (drain_next X [] a1) out (map (\<lambda>w. (w, True)) [0..<length msgs]) a2 \<and> cn_send_queue a2 = [] \<and>
    receive_stream X now out Loop_Recv b = Inr (b2, Loop_Recv, map (\<lambda>(t, p, r). Deliver t p r) msgs)"
proof -
  let ?a1 = "a\<lparr>cn_send_queue := map2 (queued X) [0..<length msgs] msgs\<rparr>"
  have q: "send_all X 0 msgs a = (?a1, replicate (length msgs) Send_Queued)"
    using send_all_queued [of a msgs X 0] a msgs(1) by simp
  have "linked ?a1 b (sum_list (map frame_cost msgs))" using e a b budget by (simp add: linked_def established_def)
  from externals.queue_through [OF X this msgs(2), of "[0..<length msgs]" "[]" now]
  obtain out a2 b2 where "drains X (drain_next X [] ?a1) out (map (\<lambda>w. (w, True)) [0..<length msgs]) a2"
      "receive_stream X now out Loop_Recv b = Inr (b2, Loop_Recv, map delivery msgs)" "cn_send_queue a2 = []"
    by auto
  moreover have "map delivery msgs = map (\<lambda>(t, p, r). Deliver t p r) msgs" by (auto simp: delivery_def)
  ultimately show ?thesis using q by auto
qed

end
