(* ===== verification/Connection_Example.thy ===== *)
theory Connection_Example
  imports Channel_Proof
begin

text \<open>
  The handshake and the channel property applied to two concrete ends on the reference libraries, and
  two behaviours of the connection worth knowing.
\<close>

definition ex_identity :: "byte \<Rightarrow> node_identity" where
  "ex_identity b = \<lparr>id_public_key = pad_to 2592 [b], id_secret_key = pad_to 4896 [b]\<rparr>"

definition ex_random :: hs_random where
  "ex_random = \<lparr>rn_nonce = replicate 32 5, rn_kem_keypair = [1], rn_kem_encaps = [2], rn_sign = [3]\<rparr>"

lemma ex_can_sign: "can_sign ref_externals ex_random (ex_identity b)"
  by (auto simp: can_sign_def ref_externals_def ex_identity_def copy_sign_def intro: exI [of _ "[b]"])

lemma ex_can_agree: "can_agree ref_externals ex_random ex_random"
  by (simp add: can_agree_def ref_externals_def)

theorem handshake_agrees_witness:
  "\<exists>a b. hs_dialogue ref_externals ex_random ex_random True False
      ((new_connection (ex_identity 1) True False 0)\<lparr>cn_local_role := Role_Client\<rparr>)
      ((new_connection (ex_identity 2) False False 0)\<lparr>cn_local_role := Role_Peer\<rparr>) =
      (((a, Hs_Stopped, Hs_Return True), []), ((b, Hs_Stopped, Hs_Return True), [])) \<and>
    cn_authenticated a \<and> cn_peer_pubkey a = id_public_key (ex_identity 2) \<and> cn_peer_role a = Role_Peer \<and>
    cn_authenticated b \<and> cn_peer_pubkey b = id_public_key (ex_identity 1) \<and> cn_peer_role b = Role_Client \<and>
    mirrored (cn_session_keys a) (cn_session_keys b) \<and>
    cn_send_counter a = 1 \<and> cn_recv_counter b = 1 \<and> cn_send_counter b = 1 \<and> cn_recv_counter a = 1"
  by (rule handshake_agrees [OF ref.externals_axioms ex_can_agree ex_can_sign ex_can_sign])
    (simp_all add: ex_random_def is_implemented_role_def)

definition ex_end :: "byte \<Rightarrow> byte \<Rightarrow> connection" where
  "ex_end b b' = (new_connection (ex_identity b) (b = 1) False 0)
     \<lparr>cn_authenticated := True, cn_peer_pubkey := id_public_key (ex_identity b'),
      cn_session_keys := \<lparr>sk_send_key = replicate 32 b, sk_recv_key = replicate 32 b', sk_session_fingerprint = replicate 32 9\<rparr>,
      cn_send_counter := 1, cn_recv_counter := 1\<rparr>"

theorem channel_exact_witness:
  "\<exists>a1 out a2 b2.
    send_all ref_externals 0 [(BlobNotify, [1, 2], 7), (Subscribe, [], 8)] (ex_end 1 2) = (a1, [Send_Queued, Send_Queued]) \<and>
    drains ref_externals (drain_next ref_externals [] a1) out [(0, True), (1, True)] a2 \<and> cn_send_queue a2 = [] \<and>
    receive_stream ref_externals 5 out Loop_Recv (ex_end 2 1) =
      Inr (b2, Loop_Recv, [Deliver BlobNotify [1, 2] 7, Deliver Subscribe [] 8])"
proof -
  let ?ms = "[(BlobNotify, [1, 2], 7), (Subscribe, [], 8)] :: app_message list"
  have e: "established (ex_end 1 2) (ex_end 2 1)"
    by (simp add: established_def ex_end_def new_connection_def mirrored_def)
  have a: "\<not> cn_closed (ex_end 1 2)" "\<not> cn_closing (ex_end 1 2)" "cn_send_queue (ex_end 1 2) = []" "\<not> cn_closed (ex_end 2 1)"
    by (simp_all add: ex_end_def new_connection_def)
  have m: "length ?ms \<le> MAX_SEND_QUEUE" "list_all deliverable ?ms"
    by (simp_all add: connection_sizes deliverable_def known_type_def msg_types_def)
  have b: "unat (cn_send_counter (ex_end 1 2)) + sum_list (map frame_cost ?ms) \<le> 2 ^ 63"
    by (simp add: ex_end_def frame_cost_def connection_sizes)
  show ?thesis
    using channel_exact [OF ref.externals_axioms e a m b, of 5] by (simp add: numeral_2_eq_2 del: send_all.simps)
qed

section \<open>Two behaviours\<close>

text \<open>When the socket is lost the message loop ends without closing the connection; the drain coroutine,
  which only ends once the connection is closed, stays asleep, also after a failed write.\<close>

theorem lost_connection_stays_open:
  assumes "\<not> cn_closed c"
  shows "message_loop X now pc None c = Inr (c, Loop_Stopped, []) \<and>
    (cn_send_queue c = [] \<longrightarrow> drain_send_queue X Drain_Wait ok c = (c, Drain_Wait, Drain_Sleep, [])) \<and>
    drain_send_queue X (Drain_Single m) False c =
      (c\<lparr>cn_send_queue := []\<rparr>, Drain_Wait, Drain_Sleep, (pm_waiter m, False) # map (\<lambda>m. (pm_waiter m, False)) (cn_send_queue c))"
  using assms
  by (simp add: message_loop_def recv_encrypted_def drain_next_def drain_failed_def fail_queue_def)

text \<open>The signing key an initiator announces with its key-exchange message is kept by \<open>handshake.cpp\<close> but not
  compared by \<open>connection.cpp\<close>: any end that shares the session keys is recorded under whatever key it
  signs with.\<close>

theorem announced_key_ignored:
  assumes X: "externals X" and s: "can_sign X rnd (cn_identity e)" and r: "is_implemented_role (role_byte (cn_local_role e))"
    and hs: "hr_initiator_signing_pubkey hs \<noteq> id_public_key (cn_identity e)"
    and k: "mirrored (cn_session_keys e) (hr_keys hs)" "cn_send_counter e = cn_recv_counter b" "counter_ok (cn_send_counter e)"
  shows "\<exists>ct pc s. send_auth X (rn_sign rnd) (I_Auth_Sent None) e = (s, pc, Hs_Write (send_raw ct)) \<and>
    hs_written X (R_Kem_Sent hs) b = (b\<lparr>cn_session_keys := hr_keys hs\<rparr>, R_Auth_Wait None, Hs_Read) \<and>
    (\<exists>auth. check_auth X None (Some ct) (b\<lparr>cn_session_keys := hr_keys hs\<rparr>) =
       Inr (b\<lparr>cn_session_keys := hr_keys hs, cn_recv_counter := cn_recv_counter b + 1\<rparr>, Some auth) \<and>
       ap_pubkey auth = id_public_key (cn_identity e) \<and> ap_pubkey auth \<noteq> hr_initiator_signing_pubkey hs)"
proof -
  obtain ct g where "send_auth X (rn_sign rnd) (I_Auth_Sent None) e =
        (e\<lparr>cn_send_counter := cn_send_counter e + 1\<rparr>, I_Auth_Sent None, Hs_Write (send_raw ct))"
      "check_auth X None (Some ct) (b\<lparr>cn_session_keys := hr_keys hs\<rparr>) =
        Inr (b\<lparr>cn_session_keys := hr_keys hs, cn_recv_counter := cn_recv_counter b + 1\<rparr>,
          Some \<lparr>ap_role = cn_local_role e, ap_pubkey = id_public_key (cn_identity e), ap_signature = g\<rparr>)"
    using externals.auth_accepted [OF X s r, of "b\<lparr>cn_session_keys := hr_keys hs\<rparr>" None "I_Auth_Sent None"] k by auto
  then show ?thesis using hs by auto
qed

end
