(* ===== verification/Cli_Identity.thy ===== *)
theory Cli_Identity
  imports Codec
begin

text \<open>
  \<open>cli/src/identity.cpp\<close>: the keys of a user.  A directory is its files and which of them only the owner may
  read; \<open>can_read\<close> and \<open>can_write\<close> say which files the system lets the program open.
\<close>

definition SIGNING_PK_SIZE :: nat where "SIGNING_PK_SIZE = 2592"
definition SIGNING_SK_SIZE :: nat where "SIGNING_SK_SIZE = 4896"
definition KEM_PK_SIZE :: nat where "KEM_PK_SIZE = 1568"
definition KEM_SK_SIZE :: nat where "KEM_SK_SIZE = 3168"
definition EXPORT_SIZE :: nat where "EXPORT_SIZE = SIGNING_PK_SIZE + KEM_PK_SIZE"

record cli_identity =
  id_signing_pk :: bytes
  id_signing_sk :: bytes
  id_kem_pk :: bytes
  id_kem_sk :: bytes
  id_namespace_id :: bytes

record key_dir =
  kd_files :: "string \<rightharpoonup> bytes"
  kd_owner_only :: "string \<Rightarrow> bool"

datatype identity_error =
  Signing_Keypair_Failed | Encryption_Keypair_Failed | Key_Not_Found string | Cannot_Open string | Cannot_Write string
| Invalid_Key_Size string nat | Signing_Failed | Invalid_Export_Size nat

definition cli_read_file :: "(string \<Rightarrow> bool) \<Rightarrow> key_dir \<Rightarrow> string \<Rightarrow> identity_error + bytes" where
  "cli_read_file can_read dir path =
     (case kd_files dir path of
        None \<Rightarrow> Inl (Cannot_Open path)
      | Some c \<Rightarrow> if can_read path then Inr c else Inl (Cannot_Open path))"

text \<open>The directory after the call is part of the result, also when it throws.\<close>

definition cli_write_file ::
    "(string \<Rightarrow> bool) \<Rightarrow> string \<Rightarrow> bytes \<Rightarrow> key_dir \<Rightarrow> (identity_error + unit) \<times> key_dir" where
  "cli_write_file can_write path dat dir =
     (if can_write path then (Inr (), dir\<lparr>kd_files := (kd_files dir)(path \<mapsto> dat)\<rparr>)
      else (Inl (Cannot_Write path), dir))"

definition derive_namespace :: "'t externals \<Rightarrow> bytes \<Rightarrow> bytes" where
  "derive_namespace X signing_pk = oqs_sha3_256 X signing_pk"

definition Identity_generate :: "'t externals \<Rightarrow> bytes \<Rightarrow> bytes \<Rightarrow> identity_error + cli_identity" where
  "Identity_generate X sig_random kem_random =
     (case oqs_sig_keypair X sig_random of
        None \<Rightarrow> Inl Signing_Keypair_Failed
      | Some (signing_pk, signing_sk) \<Rightarrow>
          (case oqs_kem_keypair X kem_random of
             None \<Rightarrow> Inl Encryption_Keypair_Failed
           | Some (kem_pk, kem_sk) \<Rightarrow>
               Inr \<lparr>id_signing_pk = signing_pk, id_signing_sk = signing_sk, id_kem_pk = kem_pk, id_kem_sk = kem_sk,
                    id_namespace_id = derive_namespace X signing_pk\<rparr>))"

definition key_paths :: "string list" where
  "key_paths = [''identity.pub'', ''identity.key'', ''identity.kpub'', ''identity.kem'']"

fun read_keys :: "(string \<Rightarrow> bool) \<Rightarrow> key_dir \<Rightarrow> string list \<Rightarrow> identity_error + bytes list" where
  "read_keys can_read dir [] = Inr []"
| "read_keys can_read dir (p # ps) =
     (case cli_read_file can_read dir p of
        Inl e \<Rightarrow> Inl e
      | Inr k \<Rightarrow> (case read_keys can_read dir ps of Inl e \<Rightarrow> Inl e | Inr ks \<Rightarrow> Inr (k # ks)))"

definition Identity_load_from :: "'t externals \<Rightarrow> (string \<Rightarrow> bool) \<Rightarrow> key_dir \<Rightarrow> identity_error + cli_identity" where
  "Identity_load_from X can_read dir =
     (case find (\<lambda>p. kd_files dir p = None) key_paths of
        Some p \<Rightarrow> Inl (Key_Not_Found p)
      | None \<Rightarrow>
          (case read_keys can_read dir key_paths of
             Inl e \<Rightarrow> Inl e
           | Inr ks \<Rightarrow>
               let signing_pk = ks ! 0; signing_sk = ks ! 1; kem_pk = ks ! 2; kem_sk = ks ! 3 in
               if length signing_pk \<noteq> SIGNING_PK_SIZE then Inl (Invalid_Key_Size (key_paths ! 0) (length signing_pk))
               else if length signing_sk \<noteq> SIGNING_SK_SIZE then Inl (Invalid_Key_Size (key_paths ! 1) (length signing_sk))
               else if length kem_pk \<noteq> KEM_PK_SIZE then Inl (Invalid_Key_Size (key_paths ! 2) (length kem_pk))
               else if length kem_sk \<noteq> KEM_SK_SIZE then Inl (Invalid_Key_Size (key_paths ! 3) (length kem_sk))
               else Inr \<lparr>id_signing_pk = signing_pk, id_signing_sk = signing_sk, id_kem_pk = kem_pk,
                 id_kem_sk = kem_sk, id_namespace_id = derive_namespace X signing_pk\<rparr>))"

fun write_keys ::
    "(string \<Rightarrow> bool) \<Rightarrow> (string \<times> bytes) list \<Rightarrow> key_dir \<Rightarrow> (identity_error + unit) \<times> key_dir" where
  "write_keys can_write [] dir = (Inr (), dir)"
| "write_keys can_write ((p, k) # ks) dir =
     (case cli_write_file can_write p k dir of
        (Inl e, dir1) \<Rightarrow> (Inl e, dir1)
      | (Inr _, dir1) \<Rightarrow> write_keys can_write ks dir1)"

definition Identity_save_to ::
    "(string \<Rightarrow> bool) \<Rightarrow> cli_identity \<Rightarrow> key_dir \<Rightarrow> (identity_error + unit) \<times> key_dir" where
  "Identity_save_to can_write i dir =
     (case write_keys can_write
        [(''identity.pub'', id_signing_pk i), (''identity.key'', id_signing_sk i),
         (''identity.kpub'', id_kem_pk i), (''identity.kem'', id_kem_sk i)] dir of
        (Inl e, dir1) \<Rightarrow> (Inl e, dir1)
      | (Inr _, dir1) \<Rightarrow>
          (Inr (), dir1\<lparr>kd_owner_only := (kd_owner_only dir1)(''identity.key'' := True, ''identity.kem'' := True)\<rparr>))"

definition Identity_sign :: "'t externals \<Rightarrow> cli_identity \<Rightarrow> bytes \<Rightarrow> bytes \<Rightarrow> identity_error + bytes" where
  "Identity_sign X i random message =
     (case oqs_sig_sign X (id_signing_sk i) message random of None \<Rightarrow> Inl Signing_Failed | Some s \<Rightarrow> Inr s)"

definition export_public_keys :: "cli_identity \<Rightarrow> bytes" where
  "export_public_keys i = id_signing_pk i @ id_kem_pk i"

definition load_public_keys :: "bytes \<Rightarrow> identity_error + bytes \<times> bytes" where
  "load_public_keys dat =
     (if length dat \<noteq> EXPORT_SIZE then Inl (Invalid_Export_Size (length dat))
      else Inr (take SIGNING_PK_SIZE dat, drop SIGNING_PK_SIZE dat))"

section \<open>Identities survive\<close>

definition wf_identity :: "'t externals \<Rightarrow> cli_identity \<Rightarrow> bool" where
  "wf_identity X i \<longleftrightarrow>
     length (id_signing_pk i) = 2592 \<and> length (id_signing_sk i) = 4896 \<and> length (id_kem_pk i) = 1568 \<and>
     length (id_kem_sk i) = 3168 \<and> id_namespace_id i = oqs_sha3_256 X (id_signing_pk i)"

lemmas key_sizes = SIGNING_PK_SIZE_def SIGNING_SK_SIZE_def KEM_PK_SIZE_def KEM_SK_SIZE_def EXPORT_SIZE_def

lemma load_after_save:
  assumes "wf_identity X i" and "list_all can_write key_paths" and "list_all can_read key_paths"
  shows "\<exists>dir'. Identity_save_to can_write i dir = (Inr (), dir') \<and> Identity_load_from X can_read dir' = Inr i \<and>
    kd_owner_only dir' ''identity.key'' \<and> kd_owner_only dir' ''identity.kem''"
  using assms by (cases i) (simp add: Identity_save_to_def Identity_load_from_def cli_write_file_def cli_read_file_def
      key_paths_def wf_identity_def key_sizes derive_namespace_def)

lemma export_round_trip: "wf_identity X i \<Longrightarrow> load_public_keys (export_public_keys i) = Inr (id_signing_pk i, id_kem_pk i)"
  by (simp add: load_public_keys_def export_public_keys_def wf_identity_def key_sizes)

lemma load_from_wf: "Identity_load_from X can_read dir = Inr i \<Longrightarrow> wf_identity X i"
  by (auto simp: Identity_load_from_def wf_identity_def Let_def key_sizes derive_namespace_def split: option.splits sum.splits if_splits)

context externals
begin

lemma generate_wf: "Identity_generate X r r' = Inr i \<Longrightarrow> wf_identity X i"
  by (auto simp: Identity_generate_def wf_identity_def derive_namespace_def
      dest!: sig.sig_lengths kem.kem_lengths split: option.splits)

lemma signature_verifies:
  "Identity_generate X r r' = Inr i \<Longrightarrow> Identity_sign X i s m = Inr sg \<Longrightarrow> oqs_sig_verify X m sg (id_signing_pk i)"
  by (auto simp: Identity_generate_def Identity_sign_def split: option.splits) (rule sig.sign_verifies)

end

text \<open>C39: A generated identity survives its files: where the key files can be written and read, saving it into any
  directory and loading it back gives the same keys and namespace, the secret keys are left readable by the
  owner only, and the exported public keys parse to the two public keys.\<close>

theorem identity_round_trip:
  assumes "externals X" and "Identity_generate X r r' = Inr i"
    and "list_all can_write key_paths" and "list_all can_read key_paths"
  shows "\<exists>dir'. Identity_save_to can_write i dir = (Inr (), dir') \<and> Identity_load_from X can_read dir' = Inr i \<and>
    kd_owner_only dir' ''identity.key'' \<and> kd_owner_only dir' ''identity.kem'' \<and>
    load_public_keys (export_public_keys i) = Inr (id_signing_pk i, id_kem_pk i)"
  using load_after_save [OF externals.generate_wf [OF assms(1,2)] assms(3,4)]
    export_round_trip [OF externals.generate_wf [OF assms(1,2)]] by blast

theorem identity_round_trip_witness:
  "\<exists>i dir'. Identity_generate ref_externals [7] [8] = Inr i \<and>
    Identity_save_to (\<lambda>_. True) i \<lparr>kd_files = Map.empty, kd_owner_only = \<lambda>_. False\<rparr> = (Inr (), dir') \<and>
    Identity_load_from ref_externals (\<lambda>_. True) dir' = Inr i"
proof -
  obtain i where i: "Identity_generate ref_externals [7] [8] = Inr i"
    by (simp add: Identity_generate_def ref_externals_def)
  show ?thesis
    using identity_round_trip [OF ref.externals_axioms i, of "\<lambda>_. True" "\<lambda>_. True"
        "\<lparr>kd_files = Map.empty, kd_owner_only = \<lambda>_. False\<rparr>"] i by (auto simp: list_all_iff)
qed

end
