(* ===== verification/Cli_Wire.thy ===== *)
theory Cli_Wire
  imports Cli_Identity Hex Dispatcher
begin

text \<open>
  \<open>cli/src/wire.h\<close> and \<open>cli/src/wire.cpp\<close>: the client's own copy of the wire format, compiled apart from the node.
  The client builds and reads FlatBuffers by hand, without the verifier: \<open>cli_buffers\<close> has the tables it
  builds, the accessors it uses, and the root offset it reads from the first bytes of a buffer.
\<close>

section \<open>Big-endian helpers\<close>

definition cli_store_u16_be :: "u16 \<Rightarrow> bytes" where
  "cli_store_u16_be val = [ucast (drop_bit 8 val), ucast val]"

definition cli_store_u32_be :: "u32 \<Rightarrow> bytes" where
  "cli_store_u32_be val = [ucast (drop_bit 24 val), ucast (drop_bit 16 val), ucast (drop_bit 8 val), ucast val]"

definition cli_store_u64_be :: "u64 \<Rightarrow> bytes" where
  "cli_store_u64_be val =
     [ucast (drop_bit 56 val), ucast (drop_bit 48 val), ucast (drop_bit 40 val), ucast (drop_bit 32 val),
      ucast (drop_bit 24 val), ucast (drop_bit 16 val), ucast (drop_bit 8 val), ucast val]"

definition cli_load_u16_be :: "bytes \<Rightarrow> u16" where
  "cli_load_u16_be p = push_bit 8 (ucast (p ! 0)) OR ucast (p ! 1)"

definition cli_load_u32_be :: "bytes \<Rightarrow> u32" where
  "cli_load_u32_be p =
     (push_bit 24 (ucast (p ! 0)) OR push_bit 16 (ucast (p ! 1)) OR push_bit 8 (ucast (p ! 2)) OR ucast (p ! 3))"

definition cli_load_u64_be :: "bytes \<Rightarrow> u64" where
  "cli_load_u64_be p =
     (push_bit 56 (ucast (p ! 0)) OR push_bit 48 (ucast (p ! 1)) OR push_bit 40 (ucast (p ! 2)) OR
      push_bit 32 (ucast (p ! 3)) OR push_bit 24 (ucast (p ! 4)) OR push_bit 16 (ucast (p ! 5)) OR
      push_bit 8 (ucast (p ! 6)) OR ucast (p ! 7))"

section \<open>Buffers\<close>

record fb_manifest =
  fm_version :: u32
  fm_chunk_size_bytes :: u32
  fm_segment_count :: u32
  fm_total_plaintext_bytes :: u64
  fm_plaintext_sha3 :: "bytes option"
  fm_chunk_hashes :: "bytes option"
  fm_filename :: "bytes option"

record cli_buffers =
  cb_root_offset :: "bytes \<Rightarrow> nat"
  cb_transport :: "byte \<Rightarrow> bytes \<Rightarrow> u32 \<Rightarrow> bytes"
  cb_get_transport :: "bytes \<Rightarrow> fb_transport"
  cb_blob :: "bytes \<Rightarrow> bytes \<Rightarrow> u32 \<Rightarrow> u64 \<Rightarrow> bytes \<Rightarrow> bytes"
  cb_get_blob :: "bytes \<Rightarrow> fb_blob"
  cb_write_body :: "bytes \<Rightarrow> bytes \<Rightarrow> bytes \<Rightarrow> u32 \<Rightarrow> u64 \<Rightarrow> bytes \<Rightarrow> bytes"
  cb_manifest :: "u32 \<Rightarrow> u32 \<Rightarrow> u32 \<Rightarrow> u64 \<Rightarrow> bytes \<Rightarrow> bytes \<Rightarrow> bytes \<Rightarrow> bytes"
  cb_get_manifest :: "bytes \<Rightarrow> fb_manifest"

text \<open>The test before every use of a root table.\<close>

definition cli_root_ok :: "cli_buffers \<Rightarrow> bytes \<Rightarrow> bool" where
  "cli_root_ok B d \<longleftrightarrow> length d \<ge> 4 + 2 * 2 \<and> cb_root_offset B d < length d"

section \<open>Messages\<close>

datatype cli_msg_type =
  Cli_Delete | Cli_DeleteAck | Cli_WriteAck | Cli_ReadRequest | Cli_ReadResponse | Cli_ListRequest | Cli_ListResponse
| Cli_StatsRequest | Cli_StatsResponse | Cli_ExistsRequest | Cli_ExistsResponse | Cli_NodeInfoRequest
| Cli_NodeInfoResponse | Cli_DelegationListRequest | Cli_DelegationListResponse | Cli_SyncNamespaceAnnounce
| Cli_ErrorResponse | Cli_BlobWrite

primrec cli_msg_byte :: "cli_msg_type \<Rightarrow> byte" where
  "cli_msg_byte Cli_Delete = 17" | "cli_msg_byte Cli_DeleteAck = 18" | "cli_msg_byte Cli_WriteAck = 30"
| "cli_msg_byte Cli_ReadRequest = 31" | "cli_msg_byte Cli_ReadResponse = 32" | "cli_msg_byte Cli_ListRequest = 33"
| "cli_msg_byte Cli_ListResponse = 34" | "cli_msg_byte Cli_StatsRequest = 35" | "cli_msg_byte Cli_StatsResponse = 36"
| "cli_msg_byte Cli_ExistsRequest = 37" | "cli_msg_byte Cli_ExistsResponse = 38"
| "cli_msg_byte Cli_NodeInfoRequest = 39" | "cli_msg_byte Cli_NodeInfoResponse = 40"
| "cli_msg_byte Cli_DelegationListRequest = 51" | "cli_msg_byte Cli_DelegationListResponse = 52"
| "cli_msg_byte Cli_SyncNamespaceAnnounce = 62" | "cli_msg_byte Cli_ErrorResponse = 63"
| "cli_msg_byte Cli_BlobWrite = 64"

record decoded_transport =
  dt_type :: byte
  dt_payload :: bytes
  dt_request_id :: u32

definition cli_encode_transport :: "cli_buffers \<Rightarrow> byte \<Rightarrow> bytes \<Rightarrow> u32 \<Rightarrow> bytes" where
  "cli_encode_transport B type payload request_id = cb_transport B type payload request_id"

definition cli_decode_transport :: "cli_buffers \<Rightarrow> bytes \<Rightarrow> decoded_transport option" where
  "cli_decode_transport B d =
     (if \<not> cli_root_ok B d then None
      else let t = cb_get_transport B d in
        Some \<lparr>dt_type = ft_type t, dt_payload = (case ft_payload t of None \<Rightarrow> [] | Some p \<Rightarrow> p),
              dt_request_id = ft_request_id t\<rparr>)"

definition cli_make_aead_nonce :: "u64 \<Rightarrow> bytes" where
  "cli_make_aead_nonce counter = replicate 4 0 @ cli_store_u64_be counter"

definition cli_encrypt_frame :: "'t externals \<Rightarrow> bytes \<Rightarrow> bytes \<Rightarrow> u64 \<Rightarrow> bytes option" where
  "cli_encrypt_frame X plaintext key counter = sodium_encrypt X plaintext [] (cli_make_aead_nonce counter) key"

definition cli_decrypt_frame :: "'t externals \<Rightarrow> bytes \<Rightarrow> bytes \<Rightarrow> u64 \<Rightarrow> bytes option" where
  "cli_decrypt_frame X ciphertext_with_tag key counter =
     (if length ciphertext_with_tag < 16 then None
      else sodium_decrypt X ciphertext_with_tag [] (cli_make_aead_nonce counter) key)"

section \<open>Hashes\<close>

definition cli_sha3_256 :: "'t externals \<Rightarrow> bytes \<Rightarrow> bytes" where
  "cli_sha3_256 X dat = oqs_sha3_256 X dat"

text \<open>\<open>Sha3Hasher\<close>: the state of the incremental hash is what was absorbed.\<close>

record sha3_hasher =
  sh_absorbed :: "bytes list"

definition new_hasher :: sha3_hasher where
  "new_hasher = \<lparr>sh_absorbed = []\<rparr>"

definition hasher_absorb :: "sha3_hasher \<Rightarrow> bytes \<Rightarrow> sha3_hasher" where
  "hasher_absorb h dat = h\<lparr>sh_absorbed := sh_absorbed h @ [dat]\<rparr>"

definition hasher_finalize :: "'t externals \<Rightarrow> sha3_hasher \<Rightarrow> bytes" where
  "hasher_finalize X h = oqs_sha3_256_inc X (sh_absorbed h)"

section \<open>Blobs\<close>

definition cli_encode_blob :: "cli_buffers \<Rightarrow> blob_data \<Rightarrow> bytes" where
  "cli_encode_blob B blob =
     cb_blob B (bd_signer_hint blob) (bd_data blob) (bd_ttl blob) (bd_timestamp blob) (bd_signature blob)"

text \<open>A hint of another length leaves the zeros of the record.\<close>

definition cli_decode_blob :: "cli_buffers \<Rightarrow> bytes \<Rightarrow> blob_data option" where
  "cli_decode_blob B buffer =
     (if \<not> cli_root_ok B buffer then None
      else let t = cb_get_blob B buffer in
        Some \<lparr>bd_signer_hint = (case fb_signer_hint t of
                  Some sh \<Rightarrow> if length sh = 32 then sh else replicate 32 0 | None \<Rightarrow> replicate 32 0),
              bd_data = (case fb_data t of None \<Rightarrow> [] | Some dt \<Rightarrow> dt),
              bd_ttl = fb_ttl t, bd_timestamp = fb_timestamp t,
              bd_signature = (case fb_signature t of None \<Rightarrow> [] | Some sig \<Rightarrow> sig)\<rparr>)"

definition cli_build_signing_input :: "'t externals \<Rightarrow> bytes \<Rightarrow> bytes \<Rightarrow> u32 \<Rightarrow> u64 \<Rightarrow> bytes" where
  "cli_build_signing_input X target_namespace dat ttl timestamp =
     oqs_sha3_256_inc X [target_namespace, dat, cli_store_u32_be ttl, cli_store_u64_be timestamp]"

text \<open>\<open>random\<close> is the randomness of the signature.\<close>

definition build_owned_blob ::
    "'t externals \<Rightarrow> cli_identity \<Rightarrow> bytes \<Rightarrow> bytes \<Rightarrow> bytes \<Rightarrow> u32 \<Rightarrow> u64 \<Rightarrow> identity_error + bytes \<times> blob_data" where
  "build_owned_blob X ident random target_namespace dat ttl timestamp =
     (let signer_hint = cli_sha3_256 X (id_signing_pk ident);
          signing_input = cli_build_signing_input X target_namespace dat ttl timestamp in
      case Identity_sign X ident random signing_input of
        Inl e \<Rightarrow> Inl e
      | Inr signature \<Rightarrow>
          Inr (target_namespace, \<lparr>bd_signer_hint = signer_hint, bd_data = dat, bd_ttl = ttl, bd_timestamp = timestamp,
                  bd_signature = signature\<rparr>))"

definition encode_blob_write_body :: "cli_buffers \<Rightarrow> bytes \<Rightarrow> blob_data \<Rightarrow> bytes" where
  "encode_blob_write_body B target_namespace blob =
     cb_write_body B target_namespace (bd_signer_hint blob) (bd_data blob) (bd_ttl blob) (bd_timestamp blob)
       (bd_signature blob)"

section \<open>Payloads\<close>

definition CENV_MAGIC :: bytes where "CENV_MAGIC = [0x43, 0x45, 0x4E, 0x56]"
definition TOMBSTONE_MAGIC_CLI :: bytes where "TOMBSTONE_MAGIC_CLI = [0xDE, 0xAD, 0xBE, 0xEF]"
definition DELEGATION_MAGIC_CLI :: bytes where "DELEGATION_MAGIC_CLI = [0xDE, 0x1E, 0x6A, 0x7E]"
definition PUBKEY_MAGIC_CLI :: bytes where "PUBKEY_MAGIC_CLI = [0x50, 0x55, 0x42, 0x4B]"
definition CDAT_MAGIC :: bytes where "CDAT_MAGIC = [0x43, 0x44, 0x41, 0x54]"
definition CPAR_MAGIC :: bytes where "CPAR_MAGIC = [0x43, 0x50, 0x41, 0x52]"
definition NAME_MAGIC_CLI :: bytes where "NAME_MAGIC_CLI = [0x4E, 0x41, 0x4D, 0x45]"
definition BOMB_MAGIC_CLI :: bytes where "BOMB_MAGIC_CLI = [0x42, 0x4F, 0x4D, 0x42]"

definition cli_make_tombstone_data :: "bytes \<Rightarrow> bytes" where
  "cli_make_tombstone_data target_hash = [0xDE, 0xAD, 0xBE, 0xEF] @ target_hash"

definition cli_make_delegation_data :: "bytes \<Rightarrow> bytes" where
  "cli_make_delegation_data delegate_signing_pubkey = [0xDE, 0x1E, 0x6A, 0x7E] @ delegate_signing_pubkey"

definition cli_make_pubkey_data :: "bytes \<Rightarrow> bytes \<Rightarrow> bytes" where
  "cli_make_pubkey_data signing_pk kem_pk = PUBKEY_MAGIC_CLI @ signing_pk @ kem_pk"

definition cli_is_pubkey_blob :: "bytes \<Rightarrow> bool" where
  "cli_is_pubkey_blob d \<longleftrightarrow> length d = 4 + 2592 + 1568 \<and> d ! 0 = 0x50 \<and> d ! 1 = 0x55 \<and> d ! 2 = 0x42 \<and> d ! 3 = 0x4B"

text \<open>\<open>None\<close> is a thrown \<open>invalid_argument\<close>.\<close>

definition cli_make_name_data :: "bytes \<Rightarrow> bytes \<Rightarrow> bytes option" where
  "cli_make_name_data name target_hash =
     (if length name > 65535 then None
      else Some (NAME_MAGIC_CLI @ cli_store_u16_be (of_nat (length name)) @ name @ target_hash))"

definition cli_make_bomb_data :: "bytes list \<Rightarrow> bytes option" where
  "cli_make_bomb_data targets =
     (if length targets > 4294967295 then None
      else Some (BOMB_MAGIC_CLI @ cli_store_u32_be (of_nat (length targets)) @ concat targets))"

definition cli_parse_name_payload :: "bytes \<Rightarrow> (bytes \<times> bytes) option" where
  "cli_parse_name_payload d =
     (if length d < 4 + 2 + 1 + 32 then None
      else if take 4 d \<noteq> NAME_MAGIC_CLI then None
      else let name_len = cli_load_u16_be (drop 4 d) in
        if name_len = 0 then None
        else if length d \<noteq> 4 + 2 + unat name_len + 32 then None
        else Some (take (unat name_len) (drop 6 d), take 32 (drop (6 + unat name_len) d)))"

definition type_label :: "bytes \<Rightarrow> string" where
  "type_label type =
     (if take 4 type = CENV_MAGIC then ''CENV''
      else if take 4 type = PUBKEY_MAGIC_CLI then ''PUBK''
      else if take 4 type = TOMBSTONE_MAGIC_CLI then ''TOMB''
      else if take 4 type = DELEGATION_MAGIC_CLI then ''DLGT''
      else if take 4 type = CDAT_MAGIC then ''CDAT''
      else if take 4 type = CPAR_MAGIC then ''CPAR''
      else if take 4 type = NAME_MAGIC_CLI then ''NAME''
      else if take 4 type = BOMB_MAGIC_CLI then ''BOMB''
      else ''DATA'')"

definition is_hidden_type :: "bytes \<Rightarrow> bool" where
  "is_hidden_type type \<longleftrightarrow>
     take 4 type = PUBKEY_MAGIC_CLI \<or> take 4 type = CDAT_MAGIC \<or> take 4 type = DELEGATION_MAGIC_CLI \<or> take 4 type = NAME_MAGIC_CLI"

section \<open>Hex\<close>

definition cli_to_hex :: "bytes \<Rightarrow> string" where
  "cli_to_hex bs = concat (map (\<lambda>b. [''0123456789abcdef'' ! unat (drop_bit 4 b AND 0xF),
     ''0123456789abcdef'' ! unat (b AND 0xF)]) bs)"

text \<open>The lambda returns an \<open>int\<close>, negative for a character that is no hex digit.\<close>

definition cli_nibble :: "char \<Rightarrow> int" where
  "cli_nibble c =
     (if in_range CHR ''0'' CHR ''9'' c then of_char c - of_char CHR ''0''
      else if in_range CHR ''a'' CHR ''f'' c then of_char c - of_char CHR ''a'' + 10
      else if in_range CHR ''A'' CHR ''F'' c then of_char c - of_char CHR ''A'' + 10
      else -1)"

fun cli_hex_loop :: "string \<Rightarrow> bytes option" where
  "cli_hex_loop (h # l # cs) =
     (let hi = cli_nibble h; lo = cli_nibble l in
      if hi < 0 \<or> lo < 0 then None
      else map_option ((#) (of_int (push_bit 4 hi OR lo))) (cli_hex_loop cs))"
| "cli_hex_loop _ = Some []"

definition cli_from_hex :: "string \<Rightarrow> bytes option" where
  "cli_from_hex hex_str = (if length hex_str mod 2 \<noteq> 0 then None else cli_hex_loop hex_str)"

section \<open>Manifests\<close>

definition MANIFEST_VERSION_V1 :: u32 where "MANIFEST_VERSION_V1 = 1"
definition MAX_CHUNKS :: u32 where "MAX_CHUNKS = 65536"
definition CHUNK_SIZE_BYTES_MIN :: u32 where "CHUNK_SIZE_BYTES_MIN = 1024 * 1024"

record manifest_data =
  md_version :: u32
  md_chunk_size_bytes :: u32
  md_segment_count :: u32
  md_total_plaintext_bytes :: u64
  md_plaintext_sha3 :: bytes
  md_chunk_hashes :: bytes
  md_filename :: bytes

definition encode_manifest_payload :: "cli_buffers \<Rightarrow> manifest_data \<Rightarrow> bytes" where
  "encode_manifest_payload B m =
     CPAR_MAGIC @ cb_manifest B (md_version m) (md_chunk_size_bytes m) (md_segment_count m) (md_total_plaintext_bytes m)
       (md_plaintext_sha3 m) (md_chunk_hashes m) (md_filename m)"

definition manifest_valid :: "fb_manifest \<Rightarrow> u64 \<Rightarrow> bool" where
  "manifest_valid t session_cap \<longleftrightarrow>
     fm_version t = MANIFEST_VERSION_V1 \<and> fm_segment_count t \<noteq> 0 \<and> fm_segment_count t \<le> MAX_CHUNKS \<and>
     fm_chunk_size_bytes t \<ge> CHUNK_SIZE_BYTES_MIN \<and> ucast (fm_chunk_size_bytes t) \<le> session_cap \<and>
     fm_total_plaintext_bytes t \<noteq> 0 \<and>
     fm_total_plaintext_bytes t \<le> ucast (fm_segment_count t) * ucast (fm_chunk_size_bytes t)"

definition decode_manifest_payload :: "cli_buffers \<Rightarrow> bytes \<Rightarrow> u64 \<Rightarrow> manifest_data option" where
  "decode_manifest_payload B d session_cap =
     (if length d < 4 \<or> take 4 d \<noteq> CPAR_MAGIC then None
      else if \<not> cli_root_ok B (drop 4 d) then None
      else let t = cb_get_manifest B (drop 4 d) in
        if \<not> manifest_valid t session_cap then None
        else case (fm_plaintext_sha3 t, fm_chunk_hashes t) of
          (Some sha3, Some hashes) \<Rightarrow>
            if length sha3 \<noteq> 32 \<or> length hashes \<noteq> unat (ucast (fm_segment_count t) * 32 :: u64) then None
            else Some \<lparr>md_version = fm_version t, md_chunk_size_bytes = fm_chunk_size_bytes t,
                   md_segment_count = fm_segment_count t, md_total_plaintext_bytes = fm_total_plaintext_bytes t,
                   md_plaintext_sha3 = sha3, md_chunk_hashes = hashes,
                   md_filename = (case fm_filename t of None \<Rightarrow> [] | Some f \<Rightarrow> f)\<rparr>
        | _ \<Rightarrow> None)"

end
