(* ===== verification/Cli_Pump.thy ===== *)
theory Cli_Pump
  imports Cli_Wire
begin

text \<open>
  \<open>cli/src/pipeline_pump.h\<close>: how replies that arrive out of order find the request they answer.  A source is what
  \<open>Connection::recv\<close> is: it gives the next reply or fails, and moves on.  The correlation map has no order the code
  could rely on; the model keeps an association list, and \<open>begin()\<close> is its head.  The loop waits as long as the source
  gives other replies, so it has fuel, and \<open>None\<close> is a loop that has not ended.
\<close>

type_synonym reply_map = "(u32 \<times> decoded_transport) list"
type_synonym 's reply_source = "'s \<Rightarrow> decoded_transport option \<times> 's"

definition reply_erase :: "u32 \<Rightarrow> reply_map \<Rightarrow> reply_map" where
  "reply_erase rid pending = filter (\<lambda>(r, _). r \<noteq> rid) pending"

definition insert_or_assign :: "decoded_transport \<Rightarrow> reply_map \<Rightarrow> reply_map" where
  "insert_or_assign m pending = reply_erase (dt_request_id m) pending @ [(dt_request_id m, m)]"

definition pump_one_for_backpressure ::
    "'s reply_source \<Rightarrow> 's \<Rightarrow> reply_map \<Rightarrow> bool \<times> 's \<times> reply_map" where
  "pump_one_for_backpressure source s pending =
     (case source s of
        (None, s') \<Rightarrow> (False, s', pending)
      | (Some m, s') \<Rightarrow> (True, s', insert_or_assign m pending))"

fun pump_until ::
    "nat \<Rightarrow> u32 \<Rightarrow> 's reply_source \<Rightarrow> 's \<Rightarrow> reply_map \<Rightarrow> nat \<Rightarrow> (decoded_transport option \<times> 's \<times> reply_map \<times> nat) option" where
  "pump_until 0 target source s pending in_flight = None"
| "pump_until (Suc fuel) target source s pending in_flight =
     (case source s of
        (None, s') \<Rightarrow> Some (None, s', pending, in_flight)
      | (Some m, s') \<Rightarrow>
          if dt_request_id m = target then Some (Some m, s', pending, if in_flight > 0 then in_flight - 1 else in_flight)
          else pump_until fuel target source s' (insert_or_assign m pending) in_flight)"

definition pump_recv_for ::
    "nat \<Rightarrow> u32 \<Rightarrow> 's reply_source \<Rightarrow> 's \<Rightarrow> reply_map \<Rightarrow> nat \<Rightarrow> (decoded_transport option \<times> 's \<times> reply_map \<times> nat) option" where
  "pump_recv_for fuel target source s pending in_flight =
     (case map_of pending target of
        Some m \<Rightarrow> Some (Some m, s, reply_erase target pending, if in_flight > 0 then in_flight - 1 else in_flight)
      | None \<Rightarrow> pump_until fuel target source s pending in_flight)"

definition pump_recv_any ::
    "'s reply_source \<Rightarrow> 's \<Rightarrow> reply_map \<Rightarrow> nat \<Rightarrow> decoded_transport option \<times> 's \<times> reply_map \<times> nat" where
  "pump_recv_any source s pending in_flight =
     (case pending of
        (rid, m) # _ \<Rightarrow> (Some m, s, reply_erase rid pending, if in_flight > 0 then in_flight - 1 else in_flight)
      | [] \<Rightarrow>
          (case source s of
             (None, s') \<Rightarrow> (None, s', pending, in_flight)
           | (Some m, s') \<Rightarrow> (Some m, s', pending, if in_flight > 0 then in_flight - 1 else in_flight)))"

section \<open>No reply is lost or mistaken\<close>

text \<open>A source that gives a list of replies and then fails.\<close>

fun next_reply :: "decoded_transport list reply_source" where
  "next_reply [] = (None, [])"
| "next_reply (m # ms) = (Some m, ms)"

text \<open>Every stashed reply is filed under its own request, once.\<close>

definition reply_map_ok :: "reply_map \<Rightarrow> bool" where
  "reply_map_ok pending \<longleftrightarrow> distinct (map fst pending) \<and> (\<forall>(r, m) \<in> set pending. dt_request_id m = r)"

lemma map_of_reply_erase: "map_of (reply_erase r p) = (map_of p)(r := None)"
  by (rule ext) (induction p, auto simp: reply_erase_def)

lemma reply_erase_ok: "reply_map_ok p \<Longrightarrow> reply_map_ok (reply_erase r p)"
  by (induction p) (auto simp: reply_map_ok_def reply_erase_def)

lemma insert_or_assign_ok: "reply_map_ok p \<Longrightarrow> reply_map_ok (insert_or_assign m p)"
  using reply_erase_ok [of p "dt_request_id m"]
  by (auto simp: reply_map_ok_def insert_or_assign_def) (auto simp: reply_erase_def)

lemma map_of_insert_or_assign: "map_of (insert_or_assign m p) = (map_of p)(dt_request_id m \<mapsto> m)"
  by (rule ext) (auto simp: insert_or_assign_def map_of_reply_erase map_add_def fun_upd_def split: option.split)

definition stash :: "decoded_transport list \<Rightarrow> reply_map \<Rightarrow> reply_map" where
  "stash ms p = fold insert_or_assign ms p"

lemma stash_ok: "reply_map_ok p \<Longrightarrow> reply_map_ok (stash ms p)"
  unfolding stash_def by (induction ms arbitrary: p) (simp_all add: insert_or_assign_ok)

lemma map_of_stash:
  "map_of (stash ms p) = (map_of p) ++ map_of (rev (map (\<lambda>m. (dt_request_id m, m)) ms))"
  unfolding stash_def
  by (induction ms arbitrary: p) (simp_all add: map_of_insert_or_assign map_add_upd_left)

lemma pump_until_found:
  "\<forall>m' \<in> set pre. dt_request_id m' \<noteq> target \<Longrightarrow> dt_request_id m = target \<Longrightarrow> length pre < fuel \<Longrightarrow>
     pump_until fuel target next_reply (pre @ m # post) p n = Some (Some m, post, stash pre p, n - 1)"
proof (induction pre arbitrary: fuel p)
  case Nil
  then show ?case by (cases fuel) (auto simp: stash_def)
next
  case (Cons a pre)
  then show ?case by (cases fuel) (auto simp: stash_def)
qed

lemma reply_map_ok_rid: "reply_map_ok p \<Longrightarrow> map_of p r = Some m \<Longrightarrow> dt_request_id m = r"
  by (auto simp: reply_map_ok_def dest: map_of_SomeD)

text \<open>C38: Waiting for the reply to a request ends with that reply and mixes up no other: a reply already stashed is
  returned at once and leaves the wire alone; otherwise it is the first to arrive for the request, those before it
  are stashed under their own requests, a later one in place of an earlier, and those after it stay on the wire.
  In both cases one slot of the pipeline is freed.\<close>

theorem pump_recv_for_exact:
  assumes "reply_map_ok p" and "\<forall>m' \<in> set pre. dt_request_id m' \<noteq> target" and "dt_request_id m = target"
    and "length pre < fuel"
  shows "\<exists>r rest p'. pump_recv_for fuel target next_reply (pre @ m # post) p n = Some (Some r, rest, p', n - 1) \<and>
    dt_request_id r = target \<and> reply_map_ok p' \<and>
    (case map_of p target of
       Some s \<Rightarrow> r = s \<and> rest = pre @ m # post \<and> map_of p' = (map_of p)(target := None)
     | None \<Rightarrow> r = m \<and> rest = post \<and>
         map_of p' = map_of p ++ map_of (rev (map (\<lambda>m'. (dt_request_id m', m')) pre)))"
proof (cases "map_of p target")
  case None
  then show ?thesis
    using pump_until_found [OF assms(2-4), of post p n] stash_ok [OF assms(1)] assms(3)
    by (simp add: pump_recv_for_def map_of_stash)
next
  case (Some s)
  then show ?thesis
    using reply_map_ok_rid [OF assms(1) Some] reply_erase_ok [OF assms(1)]
    by (simp add: pump_recv_for_def map_of_reply_erase)
qed

definition ex_reply :: "u32 \<Rightarrow> decoded_transport" where
  "ex_reply rid = \<lparr>dt_type = 30, dt_payload = [7], dt_request_id = rid\<rparr>"

text \<open>The reply to request 2 arrives after that to request 1.\<close>

theorem pump_recv_for_exact_witness:
  "\<exists>p'. pump_recv_for 2 2 next_reply [ex_reply 1, ex_reply 2, ex_reply 3] [] 3 =
     Some (Some (ex_reply 2), [ex_reply 3], p', 2) \<and> map_of p' 1 = Some (ex_reply 1)"
  using pump_recv_for_exact [of "[]" "[ex_reply 1]" 2 "ex_reply 2" 2 "[ex_reply 3]" 3]
  by (auto simp: ex_reply_def reply_map_ok_def)

end
