(* ===== verification/Cli_Connection.thy ===== *)
theory Cli_Connection
  imports Cli_Pump Connection
begin

text \<open>
  \<open>cli/src/connection.cpp\<close>: the blocking connection of the client.  A socket is the bytes that will still arrive, what
  was written, and how many more bytes it takes before it fails, if it does.  A method is a function of the connection that
  either gives a result or stops: with \<open>Cli_Failed\<close> where the code returns \<open>false\<close> or \<open>nullopt\<close>, with \<open>Cli_Threw\<close>
  where it throws.  Log lines, the debug assertion on the frame size and the erasure of secrets are left out.
\<close>

datatype cli_stop = Cli_Failed | Cli_Threw

record cli_socket =
  so_in :: bytes
  so_room :: "nat option"
  so_out :: bytes

record cli_connection =
  cl_identity :: cli_identity
  cl_tcp_socket :: "cli_socket option"
  cl_uds_socket :: "cli_socket option"
  cl_send_key :: bytes
  cl_recv_key :: bytes
  cl_send_counter :: u64
  cl_recv_counter :: u64
  cl_connected :: bool
  cl_is_uds :: bool
  cl_pending_replies :: reply_map
  cl_in_flight :: nat
  cl_session_blob_cap :: u64

type_synonym 'a act = "cli_connection \<Rightarrow> (cli_stop + 'a) \<times> cli_connection"

definition act_return :: "'a \<Rightarrow> 'a act" where
  "act_return x c = (Inr x, c)"

definition act_fail :: "'a act" where
  "act_fail c = (Inl Cli_Failed, c)"

definition act_bind :: "'a act \<Rightarrow> ('a \<Rightarrow> 'b act) \<Rightarrow> 'b act" where
  "act_bind m f c = (case m c of (Inl e, c') \<Rightarrow> (Inl e, c') | (Inr x, c') \<Rightarrow> f x c')"

definition kPipelineDepth :: nat where "kPipelineDepth = 8"

definition new_cli_connection :: "cli_identity \<Rightarrow> cli_connection" where
  "new_cli_connection identity =
     \<lparr>cl_identity = identity, cl_tcp_socket = None, cl_uds_socket = None, cl_send_key = [], cl_recv_key = [],
      cl_send_counter = 0, cl_recv_counter = 0, cl_connected = False, cl_is_uds = False, cl_pending_replies = [],
      cl_in_flight = 0, cl_session_blob_cap = 0\<rparr>"

section \<open>Bytes and frames\<close>

definition socket_write :: "bytes \<Rightarrow> cli_socket \<Rightarrow> bool \<times> cli_socket" where
  "socket_write dat s =
     (case so_room s of
        None \<Rightarrow> (True, s\<lparr>so_out := so_out s @ dat\<rparr>)
      | Some room \<Rightarrow>
          (length dat \<le> room, s\<lparr>so_out := so_out s @ take room dat, so_room := Some (room - length dat)\<rparr>))"

definition socket_read :: "nat \<Rightarrow> cli_socket \<Rightarrow> bytes option \<times> cli_socket" where
  "socket_read n s =
     (if length (so_in s) < n then (None, s\<lparr>so_in := []\<rparr>)
      else (Some (take n (so_in s)), s\<lparr>so_in := drop n (so_in s)\<rparr>))"

definition write_bytes :: "bytes \<Rightarrow> unit act" where
  "write_bytes dat c =
     (case (cl_is_uds c, cl_uds_socket c, cl_tcp_socket c) of
        (True, Some s, _) \<Rightarrow>
          (let (ok, s') = socket_write dat s in
           (if ok then Inr () else Inl Cli_Failed, c\<lparr>cl_uds_socket := Some s'\<rparr>))
      | (_, _, Some s) \<Rightarrow>
          (let (ok, s') = socket_write dat s in
           (if ok then Inr () else Inl Cli_Failed, c\<lparr>cl_tcp_socket := Some s'\<rparr>))
      | _ \<Rightarrow> (Inl Cli_Failed, c))"

definition read_bytes :: "nat \<Rightarrow> bytes act" where
  "read_bytes n c =
     (case (cl_is_uds c, cl_uds_socket c, cl_tcp_socket c) of
        (True, Some s, _) \<Rightarrow>
          (let (r, s') = socket_read n s in
           (case r of None \<Rightarrow> Inl Cli_Failed | Some d \<Rightarrow> Inr d, c\<lparr>cl_uds_socket := Some s'\<rparr>))
      | (_, _, Some s) \<Rightarrow>
          (let (r, s') = socket_read n s in
           (case r of None \<Rightarrow> Inl Cli_Failed | Some d \<Rightarrow> Inr d, c\<lparr>cl_tcp_socket := Some s'\<rparr>))
      | _ \<Rightarrow> (Inl Cli_Failed, c))"

definition cli_send_raw :: "bytes \<Rightarrow> unit act" where
  "cli_send_raw dat =
     act_bind (write_bytes (cli_store_u32_be (of_nat (length dat)))) (\<lambda>_.
     if dat = [] then act_return () else write_bytes dat)"

definition cli_recv_raw :: "bytes act" where
  "cli_recv_raw =
     act_bind (read_bytes 4) (\<lambda>header.
     let len = cli_load_u32_be header in
     if unat len > MAX_FRAME_SIZE then act_fail
     else if len = 0 then act_return [] else read_bytes (unat len))"

definition cli_send_encrypted :: "'t externals \<Rightarrow> bytes \<Rightarrow> unit act" where
  "cli_send_encrypted X plaintext c =
     (case cli_encrypt_frame X plaintext (cl_send_key c) (cl_send_counter c) of
        None \<Rightarrow> (Inl Cli_Threw, c)
      | Some ct \<Rightarrow> cli_send_raw ct (c\<lparr>cl_send_counter := cl_send_counter c + 1\<rparr>))"

definition cli_recv_encrypted :: "'t externals \<Rightarrow> bytes act" where
  "cli_recv_encrypted X =
     act_bind cli_recv_raw (\<lambda>raw c.
     case cli_decrypt_frame X raw (cl_recv_key c) (cl_recv_counter c) of
       None \<Rightarrow> (Inl Cli_Failed, c)
     | Some pt \<Rightarrow> (Inr pt, c\<lparr>cl_recv_counter := cl_recv_counter c + 1\<rparr>))"

section \<open>Handshakes\<close>

definition TYPE_KEM_PUBKEY :: byte where "TYPE_KEM_PUBKEY = 1"
definition TYPE_KEM_CIPHERTEXT :: byte where "TYPE_KEM_CIPHERTEXT = 2"
definition TYPE_AUTH_SIGNATURE :: byte where "TYPE_AUTH_SIGNATURE = 3"
definition TYPE_TRUSTED_HELLO :: byte where "TYPE_TRUSTED_HELLO = 23"
definition ROLE_CLIENT :: byte where "ROLE_CLIENT = 1"

definition cli_encode_auth_payload :: "byte \<Rightarrow> bytes \<Rightarrow> bytes \<Rightarrow> bytes" where
  "cli_encode_auth_payload rl signing_pubkey signature =
     [rl] @ cli_store_u32_be (of_nat (length signing_pubkey)) @ signing_pubkey @ signature"

record cli_auth_payload =
  ca_role :: byte
  ca_pubkey :: bytes
  ca_signature :: bytes

definition cli_decode_auth_payload :: "bytes \<Rightarrow> cli_auth_payload option" where
  "cli_decode_auth_payload dat =
     (if length dat < 5 then None
      else let pk_size = cli_load_u32_be (drop 1 dat) in
        if unat pk_size \<noteq> SIGNING_PK_SIZE then None
        else if unat pk_size > length dat - 5 then None
        else Some \<lparr>ca_role = dat ! 0, ca_pubkey = take (unat pk_size) (drop 5 dat),
          ca_signature = drop (5 + unat pk_size) dat\<rparr>)"

text \<open>The return codes of the key derivation are not checked: it does not fail in libsodium, and what the buffers
  would hold is not defined.\<close>

definition cli_derive_keys :: "'t externals \<Rightarrow> bytes \<Rightarrow> bytes \<Rightarrow> unit act" where
  "cli_derive_keys X salt ikm c =
     (case sodium_hkdf_extract X salt ikm of
        None \<Rightarrow> (Inl Cli_Threw, c)
      | Some prk \<Rightarrow>
          (case (sodium_hkdf_expand X prk ''chromatin-init-to-resp-v1'' 32,
                 sodium_hkdf_expand X prk ''chromatin-resp-to-init-v1'' 32) of
             (Some init_to_resp, Some resp_to_init) \<Rightarrow>
               (Inr (), c\<lparr>cl_send_key := init_to_resp, cl_recv_key := resp_to_init\<rparr>)
           | _ \<Rightarrow> (Inl Cli_Threw, c)))"

text \<open>The exchange of signatures that ends both handshakes, the same code but for the comparison with the announced
  key, which only the trusted handshake makes.\<close>

definition cli_send_auth :: "'t externals \<Rightarrow> cli_buffers \<Rightarrow> bytes \<Rightarrow> bytes \<Rightarrow> unit act" where
  "cli_send_auth X B random fingerprint c =
     (case Identity_sign X (cl_identity c) random fingerprint of
        Inl _ \<Rightarrow> (Inl Cli_Threw, c)
      | Inr sig \<Rightarrow>
          cli_send_encrypted X (cli_encode_transport B TYPE_AUTH_SIGNATURE
            (cli_encode_auth_payload ROLE_CLIENT (id_signing_pk (cl_identity c)) sig) 0) c)"

definition cli_check_auth :: "'t externals \<Rightarrow> cli_buffers \<Rightarrow> bytes option \<Rightarrow> bytes \<Rightarrow> unit act" where
  "cli_check_auth X B announced fingerprint =
     act_bind (cli_recv_encrypted X) (\<lambda>pt.
     case cli_decode_transport B pt of
       None \<Rightarrow> act_fail
     | Some msg \<Rightarrow>
         if dt_type msg \<noteq> TYPE_AUTH_SIGNATURE then act_fail
         else (case cli_decode_auth_payload (dt_payload msg) of
                 None \<Rightarrow> act_fail
               | Some auth \<Rightarrow>
                   if (case announced of None \<Rightarrow> False | Some pk \<Rightarrow> ca_pubkey auth \<noteq> pk) then act_fail
                   else if \<not> oqs_sig_verify X fingerprint (ca_signature auth) (ca_pubkey auth) then act_fail
                   else act_return ()))"

definition handshake_pq :: "'t externals \<Rightarrow> cli_buffers \<Rightarrow> hs_random \<Rightarrow> unit act" where
  "handshake_pq X B rnd c =
     (case oqs_kem_keypair X (rn_kem_keypair rnd) of
        None \<Rightarrow> (Inl Cli_Failed, c)
      | Some (kem_pk, kem_sk) \<Rightarrow>
          let signing_pk = id_signing_pk (cl_identity c) in
          act_bind (cli_send_raw (cli_encode_transport B TYPE_KEM_PUBKEY (kem_pk @ signing_pk) 0)) (\<lambda>_.
          act_bind cli_recv_raw (\<lambda>resp_raw.
          case cli_decode_transport B resp_raw of
            None \<Rightarrow> act_fail
          | Some resp \<Rightarrow>
              if dt_type resp \<noteq> TYPE_KEM_CIPHERTEXT then act_fail
              else if length (dt_payload resp) \<noteq> 1568 + SIGNING_PK_SIZE then act_fail
              else
                let ct = take 1568 (dt_payload resp); resp_signing_pk = drop 1568 (dt_payload resp) in
                (case oqs_kem_decaps X ct kem_sk of
                   None \<Rightarrow> act_fail
                 | Some shared_secret \<Rightarrow>
                     act_bind (cli_derive_keys X [] shared_secret) (\<lambda>_.
                     let fingerprint = cli_sha3_256 X (shared_secret @ signing_pk @ resp_signing_pk) in
                     act_bind (cli_send_auth X B (rn_sign rnd) fingerprint) (\<lambda>_.
                     cli_check_auth X B None fingerprint))))) c)"

definition handshake_trusted :: "'t externals \<Rightarrow> cli_buffers \<Rightarrow> hs_random \<Rightarrow> unit act" where
  "handshake_trusted X B rnd c =
     (let signing_pk = id_signing_pk (cl_identity c) in
      act_bind (cli_send_raw (cli_encode_transport B TYPE_TRUSTED_HELLO (rn_nonce rnd @ signing_pk) 0)) (\<lambda>_.
      act_bind cli_recv_raw (\<lambda>resp_raw.
      case cli_decode_transport B resp_raw of
        None \<Rightarrow> act_fail
      | Some resp \<Rightarrow>
          if dt_type resp \<noteq> TYPE_TRUSTED_HELLO then act_fail
          else if length (dt_payload resp) \<noteq> 32 + SIGNING_PK_SIZE then act_fail
          else
            let nonce_r = take 32 (dt_payload resp); resp_signing_pk = drop 32 (dt_payload resp);
                ikm = rn_nonce rnd @ nonce_r; salt = signing_pk @ resp_signing_pk in
            act_bind (cli_derive_keys X salt ikm) (\<lambda>_.
            let fingerprint = cli_sha3_256 X (ikm @ salt) in
            act_bind (cli_send_auth X B (rn_sign rnd) fingerprint) (\<lambda>_.
            cli_check_auth X B (Some resp_signing_pk) fingerprint)))) c)"

text \<open>Declared, and called by nothing.\<close>

definition drain_announce :: "'t externals \<Rightarrow> cli_buffers \<Rightarrow> unit act" where
  "drain_announce X B =
     act_bind (cli_recv_encrypted X) (\<lambda>pt.
     case cli_decode_transport B pt of None \<Rightarrow> act_fail | Some _ \<Rightarrow> act_return ())"

section \<open>Messages\<close>

fun send_subframes :: "'t externals \<Rightarrow> bytes list \<Rightarrow> unit act" where
  "send_subframes X [] = act_return ()"
| "send_subframes X (chunk # chunks) = act_bind (cli_send_encrypted X chunk) (\<lambda>_. send_subframes X chunks)"

definition send_chunked :: "'t externals \<Rightarrow> cli_msg_type \<Rightarrow> bytes \<Rightarrow> u32 \<Rightarrow> unit act" where
  "send_chunked X type payload request_id =
     (let header = [0x01, cli_msg_byte type] @ cli_store_u32_be request_id @ cli_store_u64_be (of_nat (length payload));
          n = (length payload + STREAMING_THRESHOLD - 1) div STREAMING_THRESHOLD in
      act_bind (cli_send_encrypted X header) (\<lambda>_.
      act_bind (send_subframes X (records STREAMING_THRESHOLD n payload)) (\<lambda>_.
      cli_send_encrypted X [])))"

definition cli_send :: "'t externals \<Rightarrow> cli_buffers \<Rightarrow> cli_msg_type \<Rightarrow> bytes \<Rightarrow> u32 \<Rightarrow> unit act" where
  "cli_send X B type payload request_id c =
     (if \<not> cl_connected c then (Inl Cli_Failed, c)
      else if length payload \<ge> STREAMING_THRESHOLD then send_chunked X type payload request_id c
      else cli_send_encrypted X (cli_encode_transport B (cli_msg_byte type) payload request_id) c)"

text \<open>The bytes the open socket still has.\<close>

definition cli_input_left :: "cli_connection \<Rightarrow> nat" where
  "cli_input_left c =
     (case (cl_is_uds c, cl_uds_socket c, cl_tcp_socket c) of
        (True, Some s, _) \<Rightarrow> length (so_in s) | (_, _, Some s) \<Rightarrow> length (so_in s) | _ \<Rightarrow> 0)"

lemma read_bytes_left:
  "read_bytes n c = (Inr d, c') \<Longrightarrow> cli_input_left c' + n = cli_input_left c"
  by (auto simp: read_bytes_def cli_input_left_def socket_read_def split: bool.splits option.splits if_splits)

lemma recv_raw_left: "cli_recv_raw c = (Inr d, c') \<Longrightarrow> cli_input_left c' < cli_input_left c"
  by (auto simp: cli_recv_raw_def act_bind_def act_return_def act_fail_def Let_def
      dest!: read_bytes_left split: prod.splits sum.splits if_splits)

lemma input_left_counter [simp]: "cli_input_left (c\<lparr>cl_recv_counter := n\<rparr>) = cli_input_left c"
  by (simp add: cli_input_left_def)

lemma recv_encrypted_left: "cli_recv_encrypted X c = (Inr d, c') \<Longrightarrow> cli_input_left c' < cli_input_left c"
  by (auto simp: cli_recv_encrypted_def act_bind_def
      dest!: recv_raw_left split: prod.splits sum.splits option.splits)

function recv_subframes :: "'t externals \<Rightarrow> bytes \<Rightarrow> bytes act" where
  "recv_subframes X payload c =
     (case cli_recv_encrypted X c of
        (Inl e, c') \<Rightarrow> (Inl e, c')
      | (Inr chunk, c') \<Rightarrow> if chunk = [] then (Inr payload, c') else recv_subframes X (payload @ chunk) c')"
  by pat_completeness auto
termination
  by (relation "measure (\<lambda>(X, payload, c). cli_input_left c)") (auto dest: recv_encrypted_left [OF sym])

declare recv_subframes.simps [simp del]

definition cli_recv :: "'t externals \<Rightarrow> cli_buffers \<Rightarrow> decoded_transport act" where
  "cli_recv X B c =
     (if \<not> cl_connected c then (Inl Cli_Failed, c)
      else act_bind (cli_recv_encrypted X) (\<lambda>pt.
        if pt \<noteq> [] \<and> pt ! 0 = 0x01 \<and> length pt \<ge> 14 then
          let type = pt ! 1; request_id = cli_load_u32_be (drop 2 pt); total_size = cli_load_u64_be (drop 6 pt) in
          if unat total_size > MAX_CHUNKED_WIRE_PAYLOAD then act_fail
          else act_bind (recv_subframes X (drop 14 pt)) (\<lambda>payload.
            act_return \<lparr>dt_type = type, dt_payload = payload, dt_request_id = request_id\<rparr>)
        else (case cli_decode_transport B pt of None \<Rightarrow> act_fail | Some msg \<Rightarrow> act_return msg)) c)"

section \<open>Requests in flight\<close>

definition cli_source :: "'t externals \<Rightarrow> cli_buffers \<Rightarrow> cli_connection reply_source" where
  "cli_source X B c = (case cli_recv X B c of (Inl _, c') \<Rightarrow> (None, c') | (Inr m, c') \<Rightarrow> (Some m, c'))"

text \<open>The loop that waits for a slot; \<open>None\<close> is a loop that has not ended.\<close>

fun await_slot :: "nat \<Rightarrow> 't externals \<Rightarrow> cli_buffers \<Rightarrow> cli_connection \<Rightarrow> (bool \<times> cli_connection) option" where
  "await_slot 0 X B c = None"
| "await_slot (Suc fuel) X B c =
     (if cl_in_flight c \<ge> kPipelineDepth then
        let (ok, c1, pending) = pump_one_for_backpressure (cli_source X B) c (cl_pending_replies c);
            c2 = c1\<lparr>cl_pending_replies := pending\<rparr> in
        if \<not> ok then Some (False, c2) else await_slot fuel X B c2
      else Some (True, c))"

definition send_async ::
    "nat \<Rightarrow> 't externals \<Rightarrow> cli_buffers \<Rightarrow> cli_msg_type \<Rightarrow> bytes \<Rightarrow> u32 \<Rightarrow> cli_connection \<Rightarrow>
      ((cli_stop + unit) \<times> cli_connection) option" where
  "send_async fuel X B type payload request_id c =
     (if \<not> cl_connected c then Some (Inl Cli_Failed, c)
      else case await_slot fuel X B c of
        None \<Rightarrow> None
      | Some (False, c1) \<Rightarrow> Some (Inl Cli_Failed, c1)
      | Some (True, c1) \<Rightarrow>
          Some (act_bind (cli_send X B type payload request_id)
            (\<lambda>_ c2. (Inr (), c2\<lparr>cl_in_flight := cl_in_flight c2 + 1\<rparr>)) c1))"

definition recv_for ::
    "nat \<Rightarrow> 't externals \<Rightarrow> cli_buffers \<Rightarrow> u32 \<Rightarrow> cli_connection \<Rightarrow> (decoded_transport option \<times> cli_connection) option" where
  "recv_for fuel X B request_id c =
     (if \<not> cl_connected c then Some (None, c)
      else case pump_recv_for fuel request_id (cli_source X B) c (cl_pending_replies c) (cl_in_flight c) of
        None \<Rightarrow> None
      | Some (r, c1, pending, n) \<Rightarrow> Some (r, c1\<lparr>cl_pending_replies := pending, cl_in_flight := n\<rparr>))"

definition recv_next :: "'t externals \<Rightarrow> cli_buffers \<Rightarrow> cli_connection \<Rightarrow> decoded_transport option \<times> cli_connection" where
  "recv_next X B c =
     (if \<not> cl_connected c then (None, c)
      else case pump_recv_any (cli_source X B) c (cl_pending_replies c) (cl_in_flight c) of
        (r, c1, pending, n) \<Rightarrow> (r, c1\<lparr>cl_pending_replies := pending, cl_in_flight := n\<rparr>))"

section \<open>Connecting\<close>

definition cli_close :: "cli_connection \<Rightarrow> cli_connection" where
  "cli_close c =
     c\<lparr>cl_connected := False, cl_uds_socket := None, cl_tcp_socket := None, cl_send_key := [], cl_recv_key := [],
       cl_send_counter := 0, cl_recv_counter := 0, cl_pending_replies := [], cl_in_flight := 0,
       cl_session_blob_cap := 0\<rparr>"

definition read_session_cap :: "bytes \<Rightarrow> u64 option" where
  "read_session_cap p =
     (if length p < 1 then None
      else let ver_len = unat (p ! 0); required = ver_len + 40 + 8 in
        if length p < 1 + required then None
        else Some (cli_load_u64_be (drop (1 + ver_len + 40) p)))"

definition seed_session_cap :: "'t externals \<Rightarrow> cli_buffers \<Rightarrow> unit act" where
  "seed_session_cap X B =
     act_bind (cli_send X B Cli_NodeInfoRequest [] 0x130001) (\<lambda>_.
     act_bind (cli_recv X B) (\<lambda>resp.
     if dt_type resp \<noteq> cli_msg_byte Cli_NodeInfoResponse then act_fail
     else (case read_session_cap (dt_payload resp) of
             None \<Rightarrow> act_fail
           | Some cap \<Rightarrow> (\<lambda>c. (Inr (), c\<lparr>cl_session_blob_cap := cap\<rparr>)))))"

text \<open>What the system answers: whether the path is given and there, and the sockets if they connect.\<close>

record cli_network =
  ne_uds_exists :: bool
  ne_uds :: "cli_socket option"
  ne_tcp :: "cli_socket option"

definition connect_uds :: "cli_network \<Rightarrow> cli_connection \<Rightarrow> bool \<times> cli_connection" where
  "connect_uds net c =
     (case ne_uds net of
        Some s \<Rightarrow> (True, c\<lparr>cl_uds_socket := Some s, cl_is_uds := True\<rparr>)
      | None \<Rightarrow> (False, c\<lparr>cl_uds_socket := None, cl_is_uds := False\<rparr>))"

definition connect_tcp :: "cli_network \<Rightarrow> cli_connection \<Rightarrow> bool \<times> cli_connection" where
  "connect_tcp net c =
     (case ne_tcp net of
        Some s \<Rightarrow> (True, c\<lparr>cl_tcp_socket := Some s, cl_is_uds := False\<rparr>)
      | None \<Rightarrow> (False, c\<lparr>cl_tcp_socket := None\<rparr>))"

definition cli_connected :: "'t externals \<Rightarrow> cli_buffers \<Rightarrow> bool act" where
  "cli_connected X B c =
     (case seed_session_cap X B (c\<lparr>cl_connected := True\<rparr>) of
        (Inl Cli_Threw, c') \<Rightarrow> (Inl Cli_Threw, c')
      | (Inl Cli_Failed, c') \<Rightarrow> (Inr False, cli_close c')
      | (Inr _, c') \<Rightarrow> (Inr True, c'))"

definition cli_connect_tcp :: "'t externals \<Rightarrow> cli_buffers \<Rightarrow> hs_random \<Rightarrow> cli_network \<Rightarrow> bool act" where
  "cli_connect_tcp X B rnd net c =
     (case connect_tcp net c of
        (False, c1) \<Rightarrow> (Inr False, c1)
      | (True, c1) \<Rightarrow>
          (case handshake_pq X B rnd c1 of
             (Inl Cli_Threw, c2) \<Rightarrow> (Inl Cli_Threw, c2)
           | (Inl Cli_Failed, c2) \<Rightarrow> (Inr False, cli_close c2)
           | (Inr _, c2) \<Rightarrow> cli_connected X B c2))"

definition cli_connect :: "'t externals \<Rightarrow> cli_buffers \<Rightarrow> hs_random \<Rightarrow> hs_random \<Rightarrow> cli_network \<Rightarrow> bool act" where
  "cli_connect X B rnd_uds rnd_tcp net c =
     (if ne_uds_exists net then
        (case connect_uds net c of
           (False, c1) \<Rightarrow> cli_connect_tcp X B rnd_tcp net c1
         | (True, c1) \<Rightarrow>
             (case handshake_trusted X B rnd_uds c1 of
                (Inl Cli_Threw, c2) \<Rightarrow> (Inl Cli_Threw, c2)
              | (Inl Cli_Failed, c2) \<Rightarrow> cli_connect_tcp X B rnd_tcp net (cli_close c2)
              | (Inr _, c2) \<Rightarrow> cli_connected X B c2))
      else cli_connect_tcp X B rnd_tcp net c)"

end
