(* ===== verification/Cli_Wire_Proof.thy ===== *)
theory Cli_Wire_Proof
  imports Cli_Wire
begin

text \<open>
  The client and the node agree on the wire: what \<open>cli/src/wire.cpp\<close> builds is what \<open>db/wire/codec.cpp\<close> and
  \<open>db/peer/message_dispatcher.cpp\<close> read, and back.  The locale \<open>cli_flatbuffers\<close> has what the client relies on of
  the FlatBuffers library; the payloads and the signing input, which need no library, are equal outright.
\<close>

section \<open>The same bytes\<close>

lemma cli_store_eq [wire_simps]:
  "cli_store_u16_be v = be_bytes 2 (unat v)" "cli_store_u32_be w = be_bytes 4 (unat w)"
  "cli_store_u64_be x = be_bytes 8 (unat x)"
  unfolding cli_store_u16_be_def cli_store_u32_be_def cli_store_u64_be_def be_bytes_2 be_bytes_4 be_bytes_8
  by simp_all

lemma cli_load_u16_eq: "2 \<le> length p \<Longrightarrow> Inr (cli_load_u16_be p) = read_u16_be p"
  by (simp add: cli_load_u16_be_def read_u16_be_def)

lemma cli_nonce_eq: "cli_make_aead_nonce = make_nonce"
  by (rule ext) (simp add: cli_make_aead_nonce_def make_nonce_def wire_simps)

lemma cli_signing_input_eq: "cli_build_signing_input = build_signing_input"
  by (intro ext) (simp add: cli_build_signing_input_def build_signing_input_def wire_simps)

lemma cli_payloads_eq:
  "cli_make_tombstone_data = make_tombstone_data" "cli_make_delegation_data = make_delegation_data"
  "cli_is_pubkey_blob = is_pubkey_blob"
  by (auto intro!: ext simp: cli_make_tombstone_data_def make_tombstone_data_def TOMBSTONE_MAGIC_def
      cli_make_delegation_data_def make_delegation_data_def DELEGATION_MAGIC_def cli_is_pubkey_blob_def
      is_pubkey_blob_def PUBKEY_MAGIC_def PUBKEY_DATA_SIZE_def)

lemma cli_make_name_eq: "make_name_data n t = (case cli_make_name_data n t of None \<Rightarrow> Inl Name_Too_Long | Some d \<Rightarrow> Inr d)"
  by (simp add: make_name_data_def cli_make_name_data_def NAME_MAGIC_def NAME_MAGIC_CLI_def wire_simps)

lemma cli_make_bomb_eq: "make_bomb_data ts = (case cli_make_bomb_data ts of None \<Rightarrow> Inl Too_Many_Targets | Some d \<Rightarrow> Inr d)"
  by (simp add: make_bomb_data_def cli_make_bomb_data_def BOMB_MAGIC_def BOMB_MAGIC_CLI_def wire_simps)

text \<open>The client's parser of names is the node's, except that it has no empty name.\<close>

lemma cli_parse_name_eq:
  "cli_parse_name_payload d = (case parse_name_payload d of None \<Rightarrow> None | Some (n, t) \<Rightarrow> if n = [] then None else Some (n, t))"
proof (cases "38 \<le> length d")
  case True
  define v where "v = cli_load_u16_be (drop 4 d)"
  have len: "read_u16_be (take 2 (drop 4 d)) = Inr v"
    using True by (auto simp: v_def cli_load_u16_be_def read_u16_be_def)
  have node: "parse_name_payload d =
      (if take 4 d = NAME_MAGIC \<and> length d = 38 + unat v
       then Some (take (unat v) (drop 6 d), take 32 (drop (6 + unat v) d)) else None)"
    using True unfolding parse_name_payload_def is_name_def len NAME_MIN_DATA_SIZE_def by simp
  have "v = 0 \<longleftrightarrow> take (unat v) (drop 6 d) = []" if "length d = 38 + unat v"
    using that by (simp add: unat_eq_zero)
  then show ?thesis
    unfolding node cli_parse_name_payload_def v_def [symmetric] Let_def
    using True by (auto simp: NAME_MAGIC_def NAME_MAGIC_CLI_def)
next
  case False
  then show ?thesis
    by (simp add: cli_parse_name_payload_def parse_name_payload_def is_name_def NAME_MIN_DATA_SIZE_def)
qed

lemma cli_to_hex_eq: "cli_to_hex = to_hex"
proof
  show "cli_to_hex bs = to_hex bs" for bs
    by (induction bs) (simp_all add: cli_to_hex_def hex_chars_def)
qed

primrec node_msg_type :: "cli_msg_type \<Rightarrow> transport_msg_type" where
  "node_msg_type Cli_Delete = MsgDelete" | "node_msg_type Cli_DeleteAck = DeleteAck"
| "node_msg_type Cli_WriteAck = WriteAck" | "node_msg_type Cli_ReadRequest = ReadRequest"
| "node_msg_type Cli_ReadResponse = ReadResponse" | "node_msg_type Cli_ListRequest = ListRequest"
| "node_msg_type Cli_ListResponse = ListResponse" | "node_msg_type Cli_StatsRequest = StatsRequest"
| "node_msg_type Cli_StatsResponse = StatsResponse" | "node_msg_type Cli_ExistsRequest = ExistsRequest"
| "node_msg_type Cli_ExistsResponse = ExistsResponse" | "node_msg_type Cli_NodeInfoRequest = NodeInfoRequest"
| "node_msg_type Cli_NodeInfoResponse = NodeInfoResponse"
| "node_msg_type Cli_DelegationListRequest = DelegationListRequest"
| "node_msg_type Cli_DelegationListResponse = DelegationListResponse"
| "node_msg_type Cli_SyncNamespaceAnnounce = SyncNamespaceAnnounce" | "node_msg_type Cli_ErrorResponse = ErrorResponse"
| "node_msg_type Cli_BlobWrite = BlobWrite"

lemma cli_msg_byte_eq: "msg_type_byte (node_msg_type t) = cli_msg_byte t"
  by (cases t) simp_all

lemma node_reads_cli_type: "msg_type_of_byte (cli_msg_byte t) = node_msg_type t"
  by (cases t) (simp_all add: msg_type_of_byte_def msg_types_def)

section \<open>What FlatBuffers promises the client\<close>

text \<open>Tables built with the field offsets of the schemas verify, have their root inside the buffer, and read back
  the fields, with the accessors of either program.\<close>

locale cli_flatbuffers = externals X for X :: "'t externals" +
  fixes B :: cli_buffers
  assumes transport_verify: "length p < 2 ^ 30 \<Longrightarrow> fb_verify_transport X (cb_transport B t p r)"
    and transport_read: "length p < 2 ^ 30 \<Longrightarrow> fb_get_transport X (cb_transport B t p r) =
        \<lparr>ft_type = t, ft_payload = Some p, ft_request_id = r\<rparr>"
    and cli_transport_size: "4 \<le> length (cb_transport B t p r)" "length (cb_transport B t p r) < length p + 64"
    and cli_transport_aligned: "unat (hd (cb_transport B t p r)) mod 4 = 0"
    and node_transport_root: "length p < 2 ^ 30 \<Longrightarrow> cli_root_ok B (fb_create_transport X t p r)"
    and node_transport_read: "length p < 2 ^ 30 \<Longrightarrow> cb_get_transport B (fb_create_transport X t p r) =
        \<lparr>ft_type = t, ft_payload = Some p, ft_request_id = r\<rparr>"
    and write_body_verify: "length ns + length h + length d + length s < 2 ^ 30 \<Longrightarrow>
      fb_verify_blob_write_body X (cb_write_body B ns h d ttl ts s)"
    and write_body_read: "length ns + length h + length d + length s < 2 ^ 30 \<Longrightarrow>
      fb_get_blob_write_body X (cb_write_body B ns h d ttl ts s) =
        \<lparr>fw_target_namespace = Some ns, fw_blob = Some \<lparr>fb_signer_hint = Some h, fb_data = Some d, fb_ttl = ttl,
           fb_timestamp = ts, fb_signature = Some s\<rparr>\<rparr>"
    and node_blob_root: "length h + length d + length s < 2 ^ 30 \<Longrightarrow> cli_root_ok B (fb_create_blob X h d ttl ts s)"
    and node_blob_read: "length h + length d + length s < 2 ^ 30 \<Longrightarrow> cb_get_blob B (fb_create_blob X h d ttl ts s) =
        \<lparr>fb_signer_hint = Some h, fb_data = Some d, fb_ttl = ttl, fb_timestamp = ts, fb_signature = Some s\<rparr>"
    and manifest_root: "length sha3 + length hs + length f < 2 ^ 30 \<Longrightarrow>
      cli_root_ok B (cb_manifest B v c n t' sha3 hs f)"
    and manifest_read: "length sha3 + length hs + length f < 2 ^ 30 \<Longrightarrow>
      cb_get_manifest B (cb_manifest B v c n t' sha3 hs f) =
        \<lparr>fm_version = v, fm_chunk_size_bytes = c, fm_segment_count = n, fm_total_plaintext_bytes = t',
         fm_plaintext_sha3 = Some sha3, fm_chunk_hashes = Some hs, fm_filename = Some f\<rparr>"
begin

lemma cli_reads_node_blob: "wf_blob b \<Longrightarrow> cli_decode_blob B (encode_blob X b) = Some b"
  by (simp add: cli_decode_blob_def encode_blob_def wf_blob_def node_blob_root node_blob_read)

lemma node_reads_cli_message:
  "length p < 2 ^ 30 \<Longrightarrow> TransportCodec_decode X (cli_encode_transport B (cli_msg_byte t) p r) =
     Some \<lparr>dm_type = node_msg_type t, dm_payload = p, dm_request_id = r\<rparr>"
  by (simp add: TransportCodec_decode_def cli_encode_transport_def transport_verify transport_read node_reads_cli_type)

lemma cli_reads_node_message:
  "length p < 2 ^ 30 \<Longrightarrow> cli_decode_transport B (TransportCodec_encode X (node_msg_type t) p r) =
     Some \<lparr>dt_type = cli_msg_byte t, dt_payload = p, dt_request_id = r\<rparr>"
  by (simp add: cli_decode_transport_def TransportCodec_encode_def node_transport_root node_transport_read
      cli_msg_byte_eq)

lemma build_owned_blob_wf:
  assumes "build_owned_blob X i r ns d ttl ts = Inr (ns', b)" and "length d < 2 ^ 28"
  shows "ns' = ns \<and> wf_blob b \<and> bd_data b = d \<and> bd_ttl b = ttl \<and> bd_timestamp b = ts \<and>
    bd_signer_hint b = oqs_sha3_256 X (id_signing_pk i) \<and> length (bd_signature b) \<le> 4627"
  using assms by (auto simp: build_owned_blob_def Identity_sign_def wf_blob_def cli_sha3_256_def sha3.length_sha3
      dest!: sig.sign_length split: option.splits sum.splits)

lemma node_reads_cli_write:
  assumes "length ns = 32" and "wf_blob b"
  shows "read_envelope X [] (encode_blob_write_body B ns b) = Write_Accept ns b"
  using assms by (simp add: read_envelope_def encode_blob_write_body_def wf_blob_def write_body_verify write_body_read
      decode_blob_from_fb_def)

lemma owned_blob_verifies:
  assumes "Identity_generate X r r' = Inr i" and "build_owned_blob X i s ns d ttl ts = Inr (ns', b)"
  shows "oqs_sig_verify X (build_signing_input X ns d ttl ts) (bd_signature b) (id_signing_pk i)"
  using assms(2) signature_verifies [OF assms(1), of s "build_signing_input X ns d ttl ts"]
  by (auto simp: build_owned_blob_def cli_signing_input_eq split: sum.splits)

lemma decode_encode_manifest:
  assumes "length (md_plaintext_sha3 m) = 32" and "length (md_chunk_hashes m) = unat (md_segment_count m) * 32"
    and "length (md_filename m) < 2 ^ 20" and "md_version m = MANIFEST_VERSION_V1"
    and "md_segment_count m \<noteq> 0" and "md_segment_count m \<le> MAX_CHUNKS"
    and "md_chunk_size_bytes m \<ge> CHUNK_SIZE_BYTES_MIN" and "ucast (md_chunk_size_bytes m) \<le> cap"
    and "md_total_plaintext_bytes m \<noteq> 0"
    and "md_total_plaintext_bytes m \<le> ucast (md_segment_count m) * ucast (md_chunk_size_bytes m)"
  shows "decode_manifest_payload B (encode_manifest_payload B m) cap = Some m"
proof -
  have n: "unat (md_segment_count m) \<le> 65536" using assms(6) by (simp add: MAX_CHUNKS_def word_le_nat_alt)
  then have "unat (ucast (md_segment_count m) * 32 :: u64) = unat (md_segment_count m) * 32"
    by (subst unat_mult_lem [THEN iffD1]) (simp_all add: unsigned_ucast_eq take_bit_nat_eq_self)
  moreover have "length (md_plaintext_sha3 m) + length (md_chunk_hashes m) + length (md_filename m) < 2 ^ 30"
    using assms(1-3) n by simp
  ultimately show ?thesis
    using assms by (simp add: decode_manifest_payload_def encode_manifest_payload_def manifest_root manifest_read
        CPAR_MAGIC_def manifest_valid_def Let_def)
qed

end

section \<open>A concrete library\<close>

definition flat_manifest :: "u32 \<Rightarrow> u32 \<Rightarrow> u32 \<Rightarrow> u64 \<Rightarrow> bytes \<Rightarrow> bytes \<Rightarrow> bytes \<Rightarrow> bytes" where
  "flat_manifest v c n t sha3 hs f =
     be_bytes 4 (unat v) @ be_bytes 4 (unat c) @ be_bytes 4 (unat n) @ be_bytes 8 (unat t) @
     be_bytes 4 (length sha3) @ be_bytes 4 (length hs) @ sha3 @ hs @ f"

definition flat_manifest_accessor :: "bytes \<Rightarrow> fb_manifest" where
  "flat_manifest_accessor b =
     (let ls = be_nat (take 4 (drop 20 b)); lh = be_nat (take 4 (drop 24 b)); r = drop 28 b in
      \<lparr>fm_version = of_nat (be_nat (take 4 b)), fm_chunk_size_bytes = of_nat (be_nat (take 4 (drop 4 b))),
       fm_segment_count = of_nat (be_nat (take 4 (drop 8 b))),
       fm_total_plaintext_bytes = of_nat (be_nat (take 8 (drop 12 b))), fm_plaintext_sha3 = Some (take ls r),
       fm_chunk_hashes = Some (take lh (drop ls r)), fm_filename = Some (drop (ls + lh) r)\<rparr>)"

lemma flat_manifest_read:
  assumes "length sha3 + length hs + length f < 2 ^ 30"
  shows "flat_manifest_accessor (flat_manifest v c n t sha3 hs f) =
    \<lparr>fm_version = v, fm_chunk_size_bytes = c, fm_segment_count = n, fm_total_plaintext_bytes = t,
     fm_plaintext_sha3 = Some sha3, fm_chunk_hashes = Some hs, fm_filename = Some f\<rparr>"
proof -
  have u: "unat w < 2 ^ 32" for w :: u32 using unsigned_less [of w, where ?'a = nat] by simp
  have "unat t < 2 ^ 64" using unsigned_less [of t, where ?'a = nat] by simp
  then show ?thesis using assms u [of v] u [of c] u [of n]
    by (simp add: flat_manifest_accessor_def flat_manifest_def Let_def)
qed

definition ref_buffers :: cli_buffers where
  "ref_buffers =
     \<lparr>cb_root_offset = \<lambda>_. 0, cb_transport = flat_create_transport, cb_get_transport = flat_transport_accessor,
      cb_blob = flat_create, cb_get_blob = flat_accessor, cb_write_body = flat_create_write,
      cb_manifest = flat_manifest, cb_get_manifest = flat_manifest_accessor\<rparr>"

lemma flat_lengths:
  "8 \<le> length (flat_create_transport t p r)" "8 \<le> length (flat_create h d ttl ts s)"
  "8 \<le> length (flat_manifest v c n t' sha3 hs f)"
  by (simp_all add: flat_create_transport_def flat_create_def flat_manifest_def)

lemma ref_root_ok: "8 \<le> length b \<Longrightarrow> cli_root_ok ref_buffers b"
  by (cases b) (simp_all add: cli_root_ok_def ref_buffers_def)

interpretation ref_cli: cli_flatbuffers ref_externals ref_buffers
proof (intro cli_flatbuffers.intro ref.externals_axioms cli_flatbuffers_axioms.intro)
qed (simp_all add: ref_externals_def ref_buffers_def ref_ft.transport_get ref_ft.transport_verify
    ref_fw.write_get ref_fw.write_verify ref_fb.get_create flat_manifest_read
    ref_root_ok [unfolded ref_buffers_def] flat_lengths ref_ft.transport_length ref_ft.transport_root)

section \<open>A write of the client\<close>



end
