(* ===== verification/Cli_Connection_Proof.thy ===== *)
theory Cli_Connection_Proof
  imports Cli_Connection Cli_Wire_Proof Channel_Proof
begin

text \<open>
  The client's connection at one end and the node's at the other: the handshakes agree on keys, a request of the client
  is delivered by the node's message loop, and a message the node sends is what the client's \<open>recv\<close> returns.
\<close>

section \<open>The open socket\<close>

definition cli_sock :: "cli_connection \<Rightarrow> cli_socket option" where
  "cli_sock c =
     (case (cl_is_uds c, cl_uds_socket c, cl_tcp_socket c) of
        (True, Some s, _) \<Rightarrow> Some s | (_, _, Some s) \<Rightarrow> Some s | _ \<Rightarrow> None)"

text \<open>A socket that does not fail.\<close>

definition cli_open :: "cli_connection \<Rightarrow> bool" where
  "cli_open c \<longleftrightarrow> (\<exists>s. cli_sock c = Some s \<and> so_room s = None)"

definition cli_in :: "cli_connection \<Rightarrow> bytes" where
  "cli_in c = so_in (the (cli_sock c))"

definition cli_out :: "cli_connection \<Rightarrow> bytes" where
  "cli_out c = so_out (the (cli_sock c))"

definition kept :: "cli_connection \<Rightarrow> cli_connection \<Rightarrow> bool" where
  "kept c c' \<longleftrightarrow>
     cli_open c' \<and> cl_identity c' = cl_identity c \<and> cl_send_key c' = cl_send_key c \<and> cl_recv_key c' = cl_recv_key c \<and>
     cl_connected c' = cl_connected c \<and> cl_pending_replies c' = cl_pending_replies c \<and>
     cl_in_flight c' = cl_in_flight c \<and> cl_session_blob_cap c' = cl_session_blob_cap c"

definition counters :: "cli_connection \<Rightarrow> u64 \<times> u64" where
  "counters c = (cl_send_counter c, cl_recv_counter c)"

lemma kept_trans: "kept a b \<Longrightarrow> kept b c \<Longrightarrow> kept a c"
  by (simp add: kept_def)

lemma kept_open: "kept c c' \<Longrightarrow> cli_open c'"
  by (simp add: kept_def)

lemmas sock_defs = cli_open_def cli_in_def cli_out_def cli_sock_def kept_def counters_def

lemma sock_counters [simp]:
  "cli_open (c\<lparr>cl_send_counter := n\<rparr>) = cli_open c" "cli_in (c\<lparr>cl_send_counter := n\<rparr>) = cli_in c"
  "cli_out (c\<lparr>cl_send_counter := n\<rparr>) = cli_out c" "cli_open (c\<lparr>cl_recv_counter := n\<rparr>) = cli_open c"
  "cli_in (c\<lparr>cl_recv_counter := n\<rparr>) = cli_in c" "cli_out (c\<lparr>cl_recv_counter := n\<rparr>) = cli_out c"
  "kept c (c'\<lparr>cl_send_counter := n\<rparr>) = kept c c'" "kept c (c'\<lparr>cl_recv_counter := n\<rparr>) = kept c c'"
  "kept (c\<lparr>cl_send_counter := n\<rparr>) c' = kept c c'"
  by (simp_all add: sock_defs)

lemma write_bytes_ok:
  "cli_open c \<Longrightarrow> \<exists>c'. write_bytes d c = (Inr (), c') \<and> kept c c' \<and> counters c' = counters c \<and> cli_in c' = cli_in c \<and>
    cli_out c' = cli_out c @ d"
  by (cases "cl_is_uds c"; cases "cl_uds_socket c"; cases "cl_tcp_socket c")
    (simp_all add: write_bytes_def socket_write_def sock_defs)

lemma read_bytes_ok:
  "cli_open c \<Longrightarrow> n \<le> length (cli_in c) \<Longrightarrow>
    \<exists>c'. read_bytes n c = (Inr (take n (cli_in c)), c') \<and> kept c c' \<and> counters c' = counters c \<and>
      cli_in c' = drop n (cli_in c) \<and> cli_out c' = cli_out c"
  by (cases "cl_is_uds c"; cases "cl_uds_socket c"; cases "cl_tcp_socket c")
    (simp_all add: read_bytes_def socket_read_def sock_defs not_less)

lemma send_raw_ok:
  assumes "cli_open c"
  shows "\<exists>c'. cli_send_raw d c = (Inr (), c') \<and> kept c c' \<and> counters c' = counters c \<and> cli_in c' = cli_in c \<and>
    cli_out c' = cli_out c @ send_raw d"
proof -
  have e: "cli_store_u32_be = store_u32_be" by (rule ext) (simp add: wire_simps)
  obtain c1 where 1: "write_bytes (store_u32_be (of_nat (length d))) c = (Inr (), c1)" "kept c c1"
      "counters c1 = counters c" "cli_in c1 = cli_in c" "cli_out c1 = cli_out c @ store_u32_be (of_nat (length d))"
    using write_bytes_ok [OF assms] by blast
  obtain c2 where "write_bytes d c1 = (Inr (), c2)" "kept c1 c2" "counters c2 = counters c1" "cli_in c2 = cli_in c1"
      "cli_out c2 = cli_out c1 @ d"
    using write_bytes_ok [OF kept_open [OF 1(2)]] by blast
  then show ?thesis
    using 1 kept_trans [OF 1(2)] by (auto simp: cli_send_raw_def act_bind_def act_return_def send_raw_def e)
qed

lemma recv_raw_ok:
  assumes "cli_open c" and "recv_raw (cli_in c) = Some (d, rest)"
  shows "\<exists>c'. cli_recv_raw c = (Inr d, c') \<and> kept c c' \<and> counters c' = counters c \<and> cli_in c' = rest \<and>
    cli_out c' = cli_out c"
proof -
  define len where "len = read_u32_be_ptr (cli_in c)"
  have r: "4 \<le> length (cli_in c)" "unat len \<le> MAX_FRAME_SIZE" "4 + unat len \<le> length (cli_in c)"
      "d = take (unat len) (drop 4 (cli_in c))" "rest = drop (4 + unat len) (cli_in c)"
    using assms(2) by (auto simp: recv_raw_def Let_def len_def split: if_splits)
  have l: "cli_load_u32_be (take 4 (cli_in c)) = len"
    using r(1) by (simp add: cli_load_u32_be_def len_def read_u32_be_ptr_def or.assoc)
  obtain c1 where 1: "read_bytes 4 c = (Inr (take 4 (cli_in c)), c1)" "kept c c1" "counters c1 = counters c"
      "cli_in c1 = drop 4 (cli_in c)" "cli_out c1 = cli_out c"
    using read_bytes_ok [OF assms(1) r(1)] by blast
  have n: "unat len \<le> length (cli_in c1)" using r(3) 1(4) by simp
  obtain c2 where 2: "read_bytes (unat len) c1 = (Inr (take (unat len) (cli_in c1)), c2)" "kept c1 c2"
      "counters c2 = counters c1" "cli_in c2 = drop (unat len) (cli_in c1)" "cli_out c2 = cli_out c1"
    using read_bytes_ok [OF kept_open [OF 1(2)] n] by blast
  show ?thesis
  proof (cases "len = 0")
    case True
    then show ?thesis using 1 r by (simp add: cli_recv_raw_def act_bind_def l act_return_def)
  next
    case False
    then show ?thesis
      using 1 2 r kept_trans [OF 1(2) 2(2)] by (auto simp: cli_recv_raw_def act_bind_def l Let_def add.commute)
  qed
qed

section \<open>A node's connection in the place of the client's\<close>

text \<open>The node's side of the channel is proved for two connections of the node.  A connection of the node that has the
  client's keys and counters stands for the client.\<close>

definition shadows :: "connection \<Rightarrow> cli_connection \<Rightarrow> bool" where
  "shadows a c \<longleftrightarrow>
     sk_send_key (cn_session_keys a) = cl_send_key c \<and> sk_recv_key (cn_session_keys a) = cl_recv_key c \<and>
     counters c = (cn_send_counter a, cn_recv_counter a)"

lemma send_encrypted_ok:
  assumes "cli_open c" and "shadows a c" and "send_encrypted X p a = Inr (a', Some out)"
  shows "\<exists>c'. cli_send_encrypted X p c = (Inr (), c') \<and> kept c c' \<and> shadows a' c' \<and> cli_in c' = cli_in c \<and>
    cli_out c' = cli_out c @ out"
proof -
  obtain ct where ct: "sodium_encrypt X p [] (make_nonce (cn_send_counter a)) (cl_send_key c) = Some ct" "out = send_raw ct"
      "a' = a\<lparr>cn_send_counter := cn_send_counter a + 1\<rparr>"
    using assms(2,3) by (auto simp: send_encrypted_def AEAD_encrypt_def shadows_def Let_def split: if_splits sum.splits option.splits)
  let ?c = "c\<lparr>cl_send_counter := cl_send_counter c + 1\<rparr>"
  obtain c' where "cli_send_raw ct ?c = (Inr (), c')" "kept ?c c'" "counters c' = counters ?c" "cli_in c' = cli_in ?c"
      "cli_out c' = cli_out ?c @ send_raw ct"
    using send_raw_ok [of ?c ct] assms(1) by auto
  then show ?thesis
    using ct assms(2)
    by (auto simp: cli_send_encrypted_def cli_encrypt_frame_def cli_nonce_eq shadows_def counters_def kept_def)
qed

lemma recv_encrypted_ok:
  assumes "cli_open c" and "shadows b c" and "recv_raw (cli_in c) = Some (ct, rest)"
    and "recv_encrypted X (Some ct) b = Inr (b', Some p)"
  shows "\<exists>c'. cli_recv_encrypted X c = (Inr p, c') \<and> kept c c' \<and> shadows b' c' \<and> cli_in c' = rest \<and>
    cli_out c' = cli_out c"
proof -
  have d: "sodium_decrypt X ct [] (make_nonce (cn_recv_counter b)) (cl_recv_key c) = Some p" "16 \<le> length ct"
      "b' = b\<lparr>cn_recv_counter := cn_recv_counter b + 1\<rparr>"
    using assms(2,4) by (auto simp: recv_encrypted_def AEAD_decrypt_def shadows_def Let_def TAG_SIZE_def split: if_splits sum.splits)
  obtain c1 where "cli_recv_raw c = (Inr ct, c1)" "kept c c1" "counters c1 = counters c" "cli_in c1 = rest"
      "cli_out c1 = cli_out c"
    using recv_raw_ok [OF assms(1,3)] by blast
  then show ?thesis
    using d assms(2)
    by (auto simp: cli_recv_encrypted_def act_bind_def cli_decrypt_frame_def cli_nonce_eq shadows_def counters_def kept_def)
qed

section \<open>Requests arrive\<close>

text \<open>What a connection keeps while it sends, and while it receives.\<close>

definition same_peer :: "connection \<Rightarrow> connection \<Rightarrow> bool" where
  "same_peer a a' \<longleftrightarrow>
     cn_session_keys a' = cn_session_keys a \<and> cn_closed a' = cn_closed a \<and> cn_authenticated a' = cn_authenticated a"

lemma framed_same:
  "framed X a ps out a' \<Longrightarrow> \<not> cn_closed a \<Longrightarrow> same_peer a a' \<and> cn_recv_counter a' = cn_recv_counter a"
  by (induction rule: framed.induct)
    (auto simp: send_encrypted_def close_def same_peer_def Let_def split: if_splits sum.splits)

lemma act_bind_assoc: "act_bind (act_bind m f) g = act_bind m (\<lambda>x. act_bind (f x) g)"
  by (rule ext) (simp add: act_bind_def split: prod.split sum.split)

lemma act_bind_return: "act_bind m act_return = m"
  by (rule ext) (auto simp: act_bind_def act_return_def split: prod.split sum.split)

lemma send_subframes_append:
  "send_subframes X (ps @ qs) = act_bind (send_subframes X ps) (\<lambda>_. send_subframes X qs)"
proof (induction ps)
  case Nil
  show ?case by (rule ext) (simp add: act_bind_def act_return_def)
qed (simp add: act_bind_assoc)

lemma cli_load_ptr: "cli_load_u32_be = read_u32_be_ptr" "cli_load_u64_be = read_u64_be_ptr"
  by (rule ext, simp add: cli_load_u32_be_def read_u32_be_ptr_def cli_load_u64_be_def read_u64_be_ptr_def or.assoc)+

lemma send_chunked_plaintexts:
  assumes "length p \<ge> STREAMING_THRESHOLD"
  shows "send_chunked X t p r = send_subframes X (plaintexts X (node_msg_type t, p, r))"
proof -
  have e: "cli_store_u32_be = store_u32_be" "cli_store_u64_be = store_u64_be" by (rule ext, simp add: wire_simps)+
  show ?thesis
    using assms by (simp add: send_chunked_def plaintexts_def send_subframes_append act_bind_return cli_msg_byte_eq e
        subframes_def Let_def)
qed

lemma send_frames_ok:
  "framed X a ps out a' \<Longrightarrow> cli_open c \<Longrightarrow> shadows a c \<Longrightarrow>
    \<exists>c'. send_subframes X ps c = (Inr (), c') \<and> kept c c' \<and> shadows a' c' \<and> cli_in c' = cli_in c \<and>
      cli_out c' = cli_out c @ out"
proof (induction arbitrary: c rule: framed.induct)
  case (framed_nil a)
  then show ?case by (simp add: act_return_def kept_def)
next
  case (framed_cons p a a1 o1 ps o2 a2)
  obtain c1 where 1: "cli_send_encrypted X p c = (Inr (), c1)" "kept c c1" "shadows a1 c1" "cli_in c1 = cli_in c"
      "cli_out c1 = cli_out c @ o1"
    using send_encrypted_ok [OF framed_cons.prems framed_cons.hyps(1)] by blast
  obtain c2 where "send_subframes X ps c1 = (Inr (), c2)" "kept c1 c2" "shadows a2 c2" "cli_in c2 = cli_in c1"
      "cli_out c2 = cli_out c1 @ o2"
    using framed_cons.IH [OF kept_open [OF 1(2)] 1(3)] by blast
  then show ?case using 1 kept_trans [OF 1(2)] by (auto simp: act_bind_def)
qed

lemma shadows_queue [simp]: "shadows (a\<lparr>cn_send_queue := q\<rparr>) c = shadows a c"
  by (simp add: shadows_def)

lemma shadows_advance: "shadows (advance now b) c \<longleftrightarrow> shadows (b\<lparr>cn_recv_counter := cn_recv_counter b + 1\<rparr>) c"
  by (simp add: shadows_def advance_def)

lemma cli_deliverable:
  "length p \<le> MAX_CHUNKED_WIRE_PAYLOAD \<Longrightarrow> deliverable (node_msg_type t, p, r)"
  by (cases t) (simp_all add: deliverable_def known_type_def msg_types_def)

context cli_flatbuffers
begin

lemma cli_transport_not_chunked: "cli_encode_transport B t p r ! 0 \<noteq> 1"
proof -
  have "cb_transport B t p r \<noteq> []" using cli_transport_size(1) [of t p r] by auto
  then show ?thesis using cli_transport_aligned [of t p r] by (auto simp: cli_encode_transport_def hd_conv_nth)
qed

lemma request_delivered:
  assumes c: "cli_open c" "cl_connected c" "shadows a c" and p: "length p \<le> MAX_CHUNKED_WIRE_PAYLOAD"
    and l: "linked a b (frame_cost (node_msg_type t, p, r) + n)"
  shows "\<exists>c' out a' b'. cli_send X B t p r c = (Inr (), c') \<and> kept c c' \<and> cli_in c' = cli_in c \<and>
    cli_out c' = cli_out c @ out \<and> hears X now Loop_Recv b out [Deliver (node_msg_type t) p r] Loop_Recv b' \<and>
    shadows a' c' \<and> linked a' b' n \<and> cn_recv_counter a' = cn_recv_counter a"
proof (cases "length p \<ge> STREAMING_THRESHOLD")
  case True
  let ?msg = "(node_msg_type t, p, r)"
  let ?a = "a\<lparr>cn_send_queue := [queued X 0 ?msg]\<rparr>"
  obtain out a' b' where o: "hears X now Loop_Recv b out [delivery ?msg] Loop_Recv b'" "linked a' b' n"
      "framed X (?a\<lparr>cn_send_queue := []\<rparr>) (plaintexts X ?msg) out a'"
    using message_through [of ?a b ?msg n 0 "[]" "[]" now] l cli_deliverable [OF p] by auto
  have "shadows (?a\<lparr>cn_send_queue := []\<rparr>) c" using c(3) by simp
  from send_frames_ok [OF o(3) c(1) this]
  moreover have "cn_recv_counter a' = cn_recv_counter a" using framed_same [OF o(3)] l by (simp add: linked_def)
  ultimately show ?thesis using o(1,2) c(2) True by (auto simp: cli_send_def send_chunked_plaintexts delivery_def)
next
  case False
  let ?e = "cli_encode_transport B (cli_msg_byte t) p r"
  have e: "length ?e \<le> 2097136" using cli_transport_size(2) [of "cli_msg_byte t" p r] False
    by (simp add: cli_encode_transport_def STREAMING_THRESHOLD_def)
  have up: "\<not> cn_closed b" "cn_authenticated b" using l by (auto simp: linked_def)
  have dec: "TransportCodec_decode X ?e = Some \<lparr>dm_type = node_msg_type t, dm_payload = p, dm_request_id = r\<rparr>"
    by (rule node_reads_cli_message) (use False in \<open>simp add: STREAMING_THRESHOLD_def\<close>)
  have "node_msg_type t \<notin> {Ping, Pong, Goodbye}" by (cases t) simp_all
  then have f: "loop_frame X Loop_Recv ?e (advance now b) = (advance now b, Loop_Recv, [Deliver (node_msg_type t) p r])"
    using cli_transport_not_chunked [of "cli_msg_byte t" p r] up by (simp add: loop_frame_def loop_message_def dec loop_top_def)
  have "linked a b (Suc n)" using l False by (simp add: frame_cost_def)
  from frame_heard [OF this e _ f]
  obtain out where o: "send_encrypted X ?e a = Inr (sent a, Some out)"
      "hears X now Loop_Recv b out [Deliver (node_msg_type t) p r] Loop_Recv (advance now b)"
      "linked (sent a) (advance now b) n" by auto
  from send_encrypted_ok [OF c(1,3) o(1)] show ?thesis
    using o(2,3) c(2) False by (auto simp: cli_send_def) (auto simp: sent_def intro!: exI)
qed

end

section \<open>Replies arrive\<close>

lemma concat_subframes: "concat (subframes p) = p"
proof (induction "length p" arbitrary: p rule: less_induct)
  case less
  show ?case
  proof (cases "p = []")
    case False
    then have "concat (subframes (drop STREAMING_THRESHOLD p)) = drop STREAMING_THRESHOLD p"
      using less [of "drop STREAMING_THRESHOLD p"] by (simp add: STREAMING_THRESHOLD_def)
    then show ?thesis using append_take_drop_id [of STREAMING_THRESHOLD p] by (simp add: subframes_step [OF False])
  qed simp
qed

lemma subframes_sizes: "chunk \<in> set (subframes p) \<Longrightarrow> chunk \<noteq> [] \<and> length chunk \<le> 1048576"
proof (induction "length p" arbitrary: p rule: less_induct)
  case less
  show ?case
  proof (cases "p = []")
    case False
    then show ?thesis
      using less.hyps [of "drop STREAMING_THRESHOLD p"] less.prems
      by (auto simp: subframes_step [OF False] STREAMING_THRESHOLD_def)
  qed (use less.prems in simp)
qed

lemma length_plaintexts: "length (plaintexts X msg) = frame_cost msg"
  by (cases msg) (simp add: plaintexts_def frame_cost_def data_frames_def subframes_def)

context externals
begin

lemma recv_one:
  assumes l: "linked a b (Suc n)" and f: "framed X a (p # ps) out a'" and p: "length p \<le> 2097136"
    and c: "cli_open c" "shadows b c" "cli_in c = out @ rest"
  shows "\<exists>c' o2. cli_recv_encrypted X c = (Inr p, c') \<and> kept c c' \<and> shadows (advance 0 b) c' \<and>
    cli_in c' = o2 @ rest \<and> cli_out c' = cli_out c \<and> framed X (sent a) ps o2 a' \<and> linked (sent a) (advance 0 b) n"
proof -
  have m: "mirrored (cn_session_keys a) (cn_session_keys b)" "cn_send_counter a = cn_recv_counter b"
      "counter_ok (cn_send_counter a)"
    using l by (auto simp: linked_def counter_ok_iff)
  obtain ct where ct: "send_encrypted X p a = Inr (sent a, Some (send_raw ct))" "length ct = length p + 16"
      "recv_encrypted X (Some ct) b = Inr (b\<lparr>cn_recv_counter := cn_recv_counter b + 1\<rparr>, Some p)"
    using send_recv_encrypted [OF m p] by (auto simp: sent_def)
  obtain o2 where o2: "out = send_raw ct @ o2" "framed X (sent a) ps o2 a'"
    using f ct(1) by (auto simp: framed_simps)
  have "recv_raw (cli_in c) = Some (ct, o2 @ rest)"
    unfolding c(3) o2(1) append_assoc by (rule recv_send_raw) (use ct p in simp)
  from recv_encrypted_ok [OF c(1,2) this ct(3)] show ?thesis
    using o2(2) linked_advance [OF l, of 0] unfolding advance_def [symmetric] sent_def [symmetric] shadows_advance
    by blast
qed

lemma recv_subframes_ok:
  "linked a b (length cs + Suc n) \<Longrightarrow> framed X a (cs @ [[]]) out a' \<Longrightarrow>
    \<forall>x \<in> set cs. x \<noteq> [] \<and> length x \<le> 1048576 \<Longrightarrow> cli_open c \<Longrightarrow> shadows b c \<Longrightarrow> cli_in c = out @ rest \<Longrightarrow>
    \<exists>c' b'. recv_subframes X acc c = (Inr (acc @ concat cs), c') \<and> kept c c' \<and> shadows b' c' \<and> cli_in c' = rest \<and>
      cli_out c' = cli_out c \<and> linked a' b' n \<and> cn_send_counter b' = cn_send_counter b"
proof (induction cs arbitrary: a b out c acc)
  case Nil
  obtain c' o2 where "cli_recv_encrypted X c = (Inr [], c')" "kept c c'" "shadows (advance 0 b) c'"
      "cli_in c' = o2 @ rest" "cli_out c' = cli_out c" "framed X (sent a) [] o2 a'" "linked (sent a) (advance 0 b) n"
    using recv_one [of a b n "[]" "[]" out a' c rest] Nil.prems by auto
  moreover have "cn_send_counter (advance 0 b) = cn_send_counter b" by (simp add: advance_def)
  ultimately show ?case by (subst recv_subframes.simps) (auto simp: framed_simps)
next
  case (Cons x cs)
  obtain c1 o2 where 1: "cli_recv_encrypted X c = (Inr x, c1)" "kept c c1" "shadows (advance 0 b) c1"
      "cli_in c1 = o2 @ rest" "cli_out c1 = cli_out c" "framed X (sent a) (cs @ [[]]) o2 a'"
      "linked (sent a) (advance 0 b) (length cs + Suc n)"
    using recv_one [of a b "length cs + Suc n" x "cs @ [[]]" out a' c rest] Cons.prems by auto
  obtain c' b' where "recv_subframes X (acc @ x) c1 = (Inr ((acc @ x) @ concat cs), c')" "kept c1 c'" "shadows b' c'"
      "cli_in c' = rest" "cli_out c' = cli_out c1" "linked a' b' n" "cn_send_counter b' = cn_send_counter (advance 0 b)"
    using Cons.IH [OF 1(7,6) _ kept_open [OF 1(2)] 1(3,4), of "acc @ x"] Cons.prems(3) by auto
  then show ?case
    using 1 kept_trans [OF 1(2)] Cons.prems(3) by (subst recv_subframes.simps) (auto simp: advance_def)
qed

end

context cli_flatbuffers
begin

lemma reply_received:
  assumes c: "cli_open c" "cl_connected c" "shadows b c" "cli_in c = out @ rest"
    and p: "length p \<le> MAX_CHUNKED_WIRE_PAYLOAD" and l: "linked a b (frame_cost (node_msg_type t, p, r) + n)"
    and f: "framed X a (plaintexts X (node_msg_type t, p, r)) out a'"
  shows "\<exists>c' b'. cli_recv X B c = (Inr \<lparr>dt_type = cli_msg_byte t, dt_payload = p, dt_request_id = r\<rparr>, c') \<and>
    kept c c' \<and> shadows b' c' \<and> cli_in c' = rest \<and> cli_out c' = cli_out c \<and> linked a' b' n \<and>
    cn_send_counter b' = cn_send_counter b"
proof (cases "length p \<ge> STREAMING_THRESHOLD")
  case True
  let ?h = "[0x01, cli_msg_byte t] @ store_u32_be r @ store_u64_be (of_nat (length p))"
  have "frame_cost (node_msg_type t, p, r) + n = Suc (length (subframes p) + Suc n)"
    using length_plaintexts [of X "(node_msg_type t, p, r)", symmetric] True by (simp add: plaintexts_def)
  with l have l1: "linked a b (Suc (length (subframes p) + Suc n))" by simp
  have f1: "framed X a (?h # subframes p @ [[]]) out a'" using f True by (simp add: plaintexts_def cli_msg_byte_eq)
  have h: "length ?h = 14" by (simp add: wire_simps)
  have hd: "read_u32_be_ptr (drop 2 ?h) = r" "read_u64_be_ptr (drop 6 ?h) = of_nat (length p)"
      "unat (read_u64_be_ptr (drop 6 ?h)) \<le> MAX_CHUNKED_WIRE_PAYLOAD"
    using chunked_header_parsed(1) [OF p, of "cli_msg_byte t" r]
    by (auto simp: recv_chunked_header_def Let_def split: if_splits)
  obtain c1 o2 where 1: "cli_recv_encrypted X c = (Inr ?h, c1)" "kept c c1" "shadows (advance 0 b) c1"
      "cli_in c1 = o2 @ rest" "cli_out c1 = cli_out c" "framed X (sent a) (subframes p @ [[]]) o2 a'"
      "linked (sent a) (advance 0 b) (length (subframes p) + Suc n)"
    using recv_one [OF l1 f1 _ c(1,3,4)] h by auto
  obtain c' b' where 2: "recv_subframes X [] c1 = (Inr p, c')" "kept c1 c'" "shadows b' c'" "cli_in c' = rest"
      "cli_out c' = cli_out c1" "linked a' b' n" "cn_send_counter b' = cn_send_counter b"
    using recv_subframes_ok [OF 1(7,6) _ kept_open [OF 1(2)] 1(3,4), of "[]"] subframes_sizes concat_subframes
    by (auto simp: advance_def)
  have "cli_recv X B c = act_bind (recv_subframes X []) (\<lambda>payload.
      act_return \<lparr>dt_type = cli_msg_byte t, dt_payload = payload, dt_request_id = r\<rparr>) c1"
    using c(2) hd h unfolding cli_recv_def act_bind_def 1(1) cli_load_ptr by (simp add: Let_def)
  then show ?thesis using 1(2,5) 2 kept_trans [OF 1(2) 2(2)] by (auto simp: act_bind_def act_return_def)
next
  case False
  let ?e = "TransportCodec_encode X (node_msg_type t) p r"
  have l1: "linked a b (Suc n)" using l False by (simp add: frame_cost_def)
  have f1: "framed X a [?e] out a'" using f False by (simp add: plaintexts_def)
  have e: "length ?e \<le> 2097136"
    using transport_size(2) [of "node_msg_type t" p r] False by (simp add: STREAMING_THRESHOLD_def)
  obtain c1 o2 where 1: "cli_recv_encrypted X c = (Inr ?e, c1)" "kept c c1" "shadows (advance 0 b) c1"
      "cli_in c1 = o2 @ rest" "cli_out c1 = cli_out c" "framed X (sent a) [] o2 a'" "linked (sent a) (advance 0 b) n"
    using recv_one [OF l1 f1 e c(1,3,4)] by auto
  have "cli_decode_transport B ?e = Some \<lparr>dt_type = cli_msg_byte t, dt_payload = p, dt_request_id = r\<rparr>"
    by (rule cli_reads_node_message) (use False in \<open>simp add: STREAMING_THRESHOLD_def\<close>)
  then show ?thesis
    using 1 c(2) transport_not_chunked [of "node_msg_type t" p r]
    by (auto simp: cli_recv_def act_bind_def act_return_def framed_simps intro!: exI [of _ "advance 0 b"])
      (simp add: advance_def)
qed

end

section \<open>Both ends\<close>

lemma loop_frame_same:
  "cn_session_keys (fst (loop_frame X pc msg c)) = cn_session_keys c"
  "cn_send_counter (fst (loop_frame X pc msg c)) = cn_send_counter c"
  "cn_send_queue (fst (loop_frame X pc msg c)) = cn_send_queue c"
  "cn_closing (fst (loop_frame X pc msg c)) = cn_closing c"
  by (simp_all add: loop_frame_def loop_message_def recv_chunked_def loop_top_def close_def Let_def split: loop_pc.split option.split)

lemma message_loop_same:
  assumes "message_loop X now pc raw c = Inr (c', pc', es)"
  shows "cn_session_keys c' = cn_session_keys c \<and> cn_send_counter c' = cn_send_counter c \<and>
    cn_send_queue c' = cn_send_queue c \<and> cn_closing c' = cn_closing c"
proof -
  obtain c1 r where r: "recv_encrypted X raw c = Inr (c1, r)" using assms by (auto simp: message_loop_def split: sum.splits)
  have 1: "cn_session_keys c1 = cn_session_keys c" "cn_send_counter c1 = cn_send_counter c"
      "cn_send_queue c1 = cn_send_queue c" "cn_closing c1 = cn_closing c"
    using r by (auto simp: recv_encrypted_def close_def Let_def split: option.splits sum.splits if_splits)
  show ?thesis
  proof (cases r)
    case None
    then show ?thesis using assms r 1 by (simp add: message_loop_def)
  next
    case (Some msg)
    then have "c' = fst (loop_frame X pc msg (c1\<lparr>cn_last_recv_time := now\<rparr>))" using assms r by (simp add: message_loop_def)
    then show ?thesis using 1 by (simp add: loop_frame_same)
  qed
qed

lemma receive_stream_same:
  "receive_stream X now input pc c = Inr (c', pc', es) \<Longrightarrow>
    cn_session_keys c' = cn_session_keys c \<and> cn_send_counter c' = cn_send_counter c \<and>
    cn_send_queue c' = cn_send_queue c \<and> cn_closing c' = cn_closing c"
proof (induction X now input pc c arbitrary: c' pc' es rule: receive_stream.induct)
  case (1 X now input pc c)
  show ?case
  proof (cases "pc = Loop_Stopped \<or> recv_raw input = None")
    case True
    then show ?thesis using "1.prems" by (subst (asm) receive_stream.simps) (auto split: if_splits)
  next
    case False
    then obtain frame rest where f: "pc \<noteq> Loop_Stopped" "recv_raw input = Some (frame, rest)" by auto
    obtain c1 pc1 es1 es2 where "message_loop X now pc (Some frame) c = Inr (c1, pc1, es1)"
        "receive_stream X now rest pc1 c1 = Inr (c', pc', es2)"
      using "1.prems" f by (subst (asm) receive_stream.simps) (auto split: sum.splits)
    then show ?thesis using "1.IH" f message_loop_same by metis
  qed
qed

lemma hears_stream: "hears X now Loop_Recv b out es Loop_Recv b' \<Longrightarrow> receive_stream X now out Loop_Recv b = Inr (b', Loop_Recv, es)"
  unfolding hears_def by (drule spec [of _ "[]"]) (simp add: receive_stream.simps)

text \<open>The two ends of an established connection, with \<open>n\<close> frames before either counter reaches its limit.\<close>

definition cli_mirrors :: "cli_connection \<Rightarrow> connection \<Rightarrow> nat \<Rightarrow> bool" where
  "cli_mirrors c b n \<longleftrightarrow>
     cli_open c \<and> cl_connected c \<and> cl_send_key c = sk_recv_key (cn_session_keys b) \<and>
     cl_recv_key c = sk_send_key (cn_session_keys b) \<and> length (cl_send_key c) = 32 \<and> length (cl_recv_key c) = 32 \<and>
     length (sk_session_fingerprint (cn_session_keys b)) = 32 \<and>
     counters c = (cn_recv_counter b, cn_send_counter b) \<and> unat (cn_recv_counter b) + n \<le> 2 ^ 63 \<and>
     unat (cn_send_counter b) + n \<le> 2 ^ 63 \<and> \<not> cn_closed b \<and> cn_authenticated b"

definition shadow :: "connection \<Rightarrow> connection" where
  "shadow b = b\<lparr>cn_session_keys := (cn_session_keys b)\<lparr>sk_send_key := sk_recv_key (cn_session_keys b),
       sk_recv_key := sk_send_key (cn_session_keys b)\<rparr>,
     cn_send_counter := cn_recv_counter b, cn_recv_counter := cn_send_counter b\<rparr>"

lemma shadow_linked:
  assumes "cli_mirrors c b n"
  shows "shadows (shadow b) c" "linked (shadow b) b n" "linked b (shadow b) n" "cli_open c" "cl_connected c"
  using assms by (auto simp: cli_mirrors_def shadows_def shadow_def linked_def mirrored_def)

lemma mirrors_back:
  assumes m: "cli_mirrors c b m" and k: "kept c c'" and n: "n \<le> m" and p: "same_peer b b'" "\<not> cn_closed b'" "cn_authenticated b'"
    and r: "cl_send_counter c' = cn_recv_counter b'" "unat (cn_recv_counter b') + n \<le> 2 ^ 63"
    and s: "cl_recv_counter c' = cn_send_counter b'" "unat (cn_send_counter b') + n \<le> 2 ^ 63"
  shows "cli_mirrors c' b' n"
proof -
  have "cn_session_keys b' = cn_session_keys b" using p(1) by (simp add: same_peer_def)
  moreover have "cli_open c'" "cl_send_key c' = cl_send_key c" "cl_recv_key c' = cl_recv_key c" "cl_connected c' = cl_connected c"
    using k by (simp_all add: kept_def)
  moreover have "cl_send_key c = sk_recv_key (cn_session_keys b)" "cl_recv_key c = sk_send_key (cn_session_keys b)"
      "length (cl_send_key c) = 32" "length (cl_recv_key c) = 32"
      "length (sk_session_fingerprint (cn_session_keys b)) = 32" "cl_connected c"
    using m unfolding cli_mirrors_def by blast+
  moreover have "counters c' = (cn_recv_counter b', cn_send_counter b')" using r(1) s(1) by (simp add: counters_def)
  ultimately show ?thesis using p(2,3) r(2) s(2) unfolding cli_mirrors_def by (intro conjI) simp_all
qed

context cli_flatbuffers
begin

lemma request_mirrors:
  assumes m: "cli_mirrors c b (frame_cost (node_msg_type t, p, r) + n)" and p: "length p \<le> MAX_CHUNKED_WIRE_PAYLOAD"
  shows "\<exists>c' out b'. cli_send X B t p r c = (Inr (), c') \<and> kept c c' \<and> cli_in c' = cli_in c \<and>
    cli_out c' = cli_out c @ out \<and>
    receive_stream X now out Loop_Recv b = Inr (b', Loop_Recv, [Deliver (node_msg_type t) p r]) \<and> cli_mirrors c' b' n \<and>
    cn_send_queue b' = cn_send_queue b \<and> cn_closing b' = cn_closing b"
proof -
  note l = shadow_linked [OF m]
  obtain c' out a' b' where 1: "cli_send X B t p r c = (Inr (), c')" "kept c c'" "cli_in c' = cli_in c"
      "cli_out c' = cli_out c @ out" "hears X now Loop_Recv b out [Deliver (node_msg_type t) p r] Loop_Recv b'"
      "shadows a' c'" "linked a' b' n" "cn_recv_counter a' = cn_recv_counter (shadow b)"
    using request_delivered [OF l(4,5,1) p l(2)] by blast
  have s: "receive_stream X now out Loop_Recv b = Inr (b', Loop_Recv, [Deliver (node_msg_type t) p r])"
    by (rule hears_stream [OF 1(5)])
  have b': "cn_session_keys b' = cn_session_keys b" "cn_send_counter b' = cn_send_counter b"
    using receive_stream_same [OF s] by simp_all
  have up: "\<not> cn_closed b'" "cn_authenticated b'" "cn_send_counter a' = cn_recv_counter b'"
      "unat (cn_send_counter a') + n \<le> 2 ^ 63"
    using 1(7) unfolding linked_def by blast+
  have old: "\<not> cn_closed b" "cn_authenticated b" "unat (cn_send_counter b) + n \<le> 2 ^ 63"
    using m by (simp_all add: cli_mirrors_def)
  have ct: "cl_send_counter c' = cn_send_counter a'" "cl_recv_counter c' = cn_recv_counter a'"
    using 1(6) by (simp_all add: shadows_def counters_def)
  have "cli_mirrors c' b' n"
    by (rule mirrors_back [OF m 1(2)])
      (use b' up old ct 1(8) in \<open>simp_all add: same_peer_def shadow_def\<close>)
  then show ?thesis using 1 s receive_stream_same [OF s] by blast
qed

lemma reply_mirrors:
  assumes m: "cli_mirrors c b (frame_cost (node_msg_type t, p, r) + n)" and p: "length p \<le> MAX_CHUNKED_WIRE_PAYLOAD"
    and f: "framed X (b\<lparr>cn_send_queue := q\<rparr>) (plaintexts X (node_msg_type t, p, r)) out b'" and i: "cli_in c = out @ rest"
  shows "\<exists>c'. cli_recv X B c = (Inr \<lparr>dt_type = cli_msg_byte t, dt_payload = p, dt_request_id = r\<rparr>, c') \<and>
    kept c c' \<and> cli_in c' = rest \<and> cli_out c' = cli_out c \<and> cli_mirrors c' b' n"
proof -
  note l = shadow_linked [OF m]
  have lq: "linked (b\<lparr>cn_send_queue := q\<rparr>) (shadow b) (frame_cost (node_msg_type t, p, r) + n)" using l(3) by simp
  obtain c' s' where 1: "cli_recv X B c = (Inr \<lparr>dt_type = cli_msg_byte t, dt_payload = p, dt_request_id = r\<rparr>, c')"
      "kept c c'" "shadows s' c'" "cli_in c' = rest" "cli_out c' = cli_out c" "linked b' s' n"
      "cn_send_counter s' = cn_send_counter (shadow b)"
    using reply_received [OF l(4,5,1) i p lq f] by blast
  have old: "\<not> cn_closed b" "cn_authenticated b" "unat (cn_recv_counter b) + n \<le> 2 ^ 63"
    using m by (simp_all add: cli_mirrors_def)
  have b': "same_peer b b'" "cn_recv_counter b' = cn_recv_counter b"
    using framed_same [OF f] old by (simp_all add: same_peer_def)
  have up: "cn_send_counter b' = cn_recv_counter s'" "unat (cn_send_counter b') + n \<le> 2 ^ 63"
    using 1(6) unfolding linked_def by blast+
  have ct: "cl_send_counter c' = cn_send_counter s'" "cl_recv_counter c' = cn_recv_counter s'"
    using 1(3) by (simp_all add: shadows_def counters_def)
  have "cli_mirrors c' b' n"
    by (rule mirrors_back [OF m 1(2)])
      (use b' up old ct 1(7) in \<open>simp_all add: same_peer_def shadow_def\<close>)
  then show ?thesis using 1 by blast
qed

lemma node_sends_one:
  assumes m: "cli_mirrors c b (frame_cost (node_msg_type t, p, r) + n)" and p: "length p \<le> MAX_CHUNKED_WIRE_PAYLOAD"
    and b: "cn_send_queue b = []" "\<not> cn_closing b"
  shows "\<exists>b1 out b2. send_message X w (node_msg_type t) p r b = (b1, Send_Queued) \<and>
    drains X (drain_next X [] b1) out [(w, True)] b2 \<and>
    framed X (b\<lparr>cn_send_queue := []\<rparr>) (plaintexts X (node_msg_type t, p, r)) out b2"
proof -
  let ?msg = "(node_msg_type t, p, r)" and ?b1 = "b\<lparr>cn_send_queue := [queued X w (node_msg_type t, p, r)]\<rparr>"
  note l = shadow_linked [OF m]
  have q: "send_message X w (node_msg_type t) p r b = (?b1, Send_Queued)"
    using send_message_queued [of b X w "node_msg_type t" p r] b l(3) by (simp add: linked_def MAX_SEND_QUEUE_def)
  have "linked ?b1 (shadow b) (frame_cost ?msg + n)" using l(3) by simp
  from message_through [OF this cli_deliverable [OF p], of w "[]" "[]" 0]
  obtain out b2 s' where o: "leads X (drain_next X [] ?b1) out [] (drain_next X [(w, True)] b2)" "linked b2 s' n"
      "cn_send_queue b2 = []" "framed X (b\<lparr>cn_send_queue := []\<rparr>) (plaintexts X ?msg) out b2"
    using b(1) by (auto simp: connection.defs)
  have "drain_next X [(w, True)] b2 = (b2, Drain_Wait, Drain_Sleep, [(w, True)])"
    using o(2,3) by (simp add: drain_next_def linked_def)
  then have "drains X (drain_next X [(w, True)] b2) [] [(w, True)] b2" by (simp add: drain_sleep)
  then have "drains X (drain_next X [] ?b1) out [(w, True)] b2" using o(1) unfolding leads_def by fastforce
  then show ?thesis using q o(4) by blast
qed

end

text \<open>Bytes that arrive on the open socket.\<close>

definition cli_arrive :: "bytes \<Rightarrow> cli_connection \<Rightarrow> cli_connection" where
  "cli_arrive dat c =
     (case (cl_is_uds c, cl_uds_socket c, cl_tcp_socket c) of
        (True, Some s, _) \<Rightarrow> c\<lparr>cl_uds_socket := Some (s\<lparr>so_in := so_in s @ dat\<rparr>)\<rparr>
      | (_, _, Some s) \<Rightarrow> c\<lparr>cl_tcp_socket := Some (s\<lparr>so_in := so_in s @ dat\<rparr>)\<rparr>
      | _ \<Rightarrow> c)"

lemma arrive_sock: "cli_sock c = Some s \<Longrightarrow> cli_sock (cli_arrive dat c) = Some (s\<lparr>so_in := so_in s @ dat\<rparr>)"
  by (auto simp: cli_arrive_def cli_sock_def split: bool.splits option.splits)

lemma arrive_same [simp]:
  "cl_identity (cli_arrive dat c) = cl_identity c" "cl_send_key (cli_arrive dat c) = cl_send_key c"
  "cl_recv_key (cli_arrive dat c) = cl_recv_key c" "cl_connected (cli_arrive dat c) = cl_connected c"
  "cl_send_counter (cli_arrive dat c) = cl_send_counter c" "cl_recv_counter (cli_arrive dat c) = cl_recv_counter c"
  by (simp_all add: cli_arrive_def split: bool.split option.split)

lemma arrive_open:
  assumes "cli_open c"
  shows "cli_open (cli_arrive dat c)" "cli_in (cli_arrive dat c) = cli_in c @ dat" "cli_out (cli_arrive dat c) = cli_out c"
  using assms by (auto simp: cli_open_def cli_in_def cli_out_def arrive_sock)

lemma arrive_mirrors: "cli_mirrors c b n \<Longrightarrow> cli_mirrors (cli_arrive dat c) b n"
  using arrive_open(1) [of c dat] unfolding cli_mirrors_def counters_def arrive_same by blast

section \<open>A full pipeline\<close>

lemma raw_in_flight: "cli_recv_raw c = (r, c') \<Longrightarrow> cl_in_flight c' = cl_in_flight c"
  by (auto simp: cli_recv_raw_def read_bytes_def act_bind_def act_return_def act_fail_def Let_def
      split: prod.splits sum.splits if_splits bool.splits option.splits)

lemma encrypted_in_flight: "cli_recv_encrypted X c = (r, c') \<Longrightarrow> cl_in_flight c' = cl_in_flight c"
  by (auto simp: cli_recv_encrypted_def act_bind_def dest!: raw_in_flight split: prod.splits sum.splits option.splits)

lemma subframes_in_flight: "recv_subframes X payload c = (r, c') \<Longrightarrow> cl_in_flight c' = cl_in_flight c"
proof (induction X payload c rule: recv_subframes.induct)
  case (1 X payload c)
  obtain e c1 where e: "cli_recv_encrypted X c = (e, c1)" by fastforce
  have k: "cl_in_flight c1 = cl_in_flight c" by (rule encrypted_in_flight [OF e])
  show ?case
    using "1.prems" "1.IH" [of e c1] e k by (subst (asm) recv_subframes.simps) (auto split: sum.splits if_splits)
qed

lemma recv_in_flight: "cli_recv X B c = (r, c') \<Longrightarrow> cl_in_flight c' = cl_in_flight c"
  by (auto simp: cli_recv_def act_bind_def act_return_def act_fail_def Let_def
      dest!: encrypted_in_flight subframes_in_flight split: prod.splits sum.splits option.splits if_splits)

text \<open>The wait for a slot takes replies off the wire but frees no slot, so with the pipeline full it does not end in a
  message sent, however many replies arrive.\<close>

lemma full_pipeline_never_sends:
  "kPipelineDepth \<le> cl_in_flight c \<Longrightarrow> await_slot fuel X B c \<noteq> Some (True, c')"
proof (induction fuel arbitrary: c)
  case (Suc fuel)
  obtain r c1 where r: "cli_recv X B c = (r, c1)" by fastforce
  have "cl_in_flight c1 = cl_in_flight c" by (rule recv_in_flight [OF r])
  with Suc show ?case by (auto simp: pump_one_for_backpressure_def cli_source_def r Let_def split: sum.splits)
qed simp

section \<open>A request and its reply\<close>

text \<open>C5: A request and its reply between the client and a node, once their session keys and counters match: the
  bytes \<open>Connection::send\<close> writes make the node's message loop deliver exactly the request, whole or reassembled from
  sub-frames, and nothing else; the bytes the node's send queue drains for a reply make \<open>Connection::recv\<close> return
  exactly that reply.  Afterwards nothing is left unread and keys and counters match again.\<close>

theorem client_exchange_exact:
  assumes L: "cli_flatbuffers X B"
    and m: "cli_mirrors c b (frame_cost (node_msg_type t, p, r) + frame_cost (node_msg_type t', p', r') + n)"
    and p: "length p \<le> MAX_CHUNKED_WIRE_PAYLOAD" "length p' \<le> MAX_CHUNKED_WIRE_PAYLOAD"
    and q: "cn_send_queue b = []" "\<not> cn_closing b" and i: "cli_in c = []"
  shows "\<exists>c1 request b1 b2 reply b3 c2.
    cli_send X B t p r c = (Inr (), c1) \<and> cli_out c1 = cli_out c @ request \<and>
    receive_stream X now request Loop_Recv b = Inr (b1, Loop_Recv, [Deliver (node_msg_type t) p r]) \<and>
    send_message X w (node_msg_type t') p' r' b1 = (b2, Send_Queued) \<and>
    drains X (drain_next X [] b2) reply [(w, True)] b3 \<and>
    cli_recv X B (cli_arrive reply c1) =
      (Inr \<lparr>dt_type = cli_msg_byte t', dt_payload = p', dt_request_id = r'\<rparr>, c2) \<and>
    cli_in c2 = [] \<and> cli_mirrors c2 b3 n"
proof -
  let ?rep = "frame_cost (node_msg_type t', p', r')"
  have m': "cli_mirrors c b (frame_cost (node_msg_type t, p, r) + (?rep + n))" using m by (simp add: add.assoc)
  obtain c1 request b1 where 1: "cli_send X B t p r c = (Inr (), c1)" "cli_in c1 = cli_in c" "cli_out c1 = cli_out c @ request"
      "receive_stream X now request Loop_Recv b = Inr (b1, Loop_Recv, [Deliver (node_msg_type t) p r])"
      "cli_mirrors c1 b1 (?rep + n)" "cn_send_queue b1 = []" "\<not> cn_closing b1"
    using cli_flatbuffers.request_mirrors [OF L m' p(1), of now] q by auto
  obtain b2 reply b3 where 2: "send_message X w (node_msg_type t') p' r' b1 = (b2, Send_Queued)"
      "drains X (drain_next X [] b2) reply [(w, True)] b3"
      "framed X (b1\<lparr>cn_send_queue := []\<rparr>) (plaintexts X (node_msg_type t', p', r')) reply b3"
    using cli_flatbuffers.node_sends_one [OF L 1(5) p(2) 1(6,7), of w] by blast
  have o: "cli_open c1" using 1(5) by (simp add: cli_mirrors_def)
  have "cli_in (cli_arrive reply c1) = reply @ []" using 1(2) i arrive_open(2) [OF o] by simp
  from cli_flatbuffers.reply_mirrors [OF L arrive_mirrors [OF 1(5)] p(2) 2(3) this]
  show ?thesis using 1 2 by blast
qed

end
