(* ===== verification/Cli_Handshake_Proof.thy ===== *)
theory Cli_Handshake_Proof
  imports Cli_Connection_Proof
begin

text \<open>
  The client's handshakes against the node's.  The client blocks on every read, so its part is a function of all the bytes
  the node sends; the node's part is the coroutine of \<open>Connection\<close>.  The two are run in turns: what the client writes on
  the replies so far decides the next replies of the node.
\<close>

section \<open>Turns\<close>

text \<open>What a node at some point of its handshake writes when the given bytes arrive, where it stands then, and what it
  has not read.\<close>

fun hs_serve :: "nat \<Rightarrow> 't externals \<Rightarrow> hs_random \<Rightarrow> hs_step \<Rightarrow> bytes \<Rightarrow> bytes \<times> hs_step \<times> bytes" where
  "hs_serve 0 X rnd step input = ([], step, input)"
| "hs_serve (Suc n) X rnd (c, pc, Hs_Write dat) input =
     (let (out, r) = hs_serve n X rnd (hs_resume X rnd pc (Hs_Written True) c) input in (dat @ out, r))"
| "hs_serve (Suc n) X rnd (c, pc, Hs_Read) input =
     (case recv_raw input of
        None \<Rightarrow> ([], (c, pc, Hs_Read), input)
      | Some (frame, rest) \<Rightarrow> hs_serve n X rnd (hs_resume X rnd pc (Hs_Frame (Some frame)) c) rest)"
| "hs_serve (Suc n) X rnd step input = ([], step, input)"

text \<open>Eight moves are more than the node makes.\<close>

definition node_serves :: "'t externals \<Rightarrow> hs_random \<Rightarrow> bool \<Rightarrow> connection \<Rightarrow> bytes \<Rightarrow> bytes \<times> hs_step \<times> bytes" where
  "node_serves X rnd trusted b input = hs_serve 8 X rnd (do_handshake X rnd trusted b) input"

definition cli_handshake :: "'t externals \<Rightarrow> cli_buffers \<Rightarrow> hs_random \<Rightarrow> bool \<Rightarrow> unit act" where
  "cli_handshake X B rnd lightweight = (if lightweight then handshake_trusted X B rnd else handshake_pq X B rnd)"

primrec node_replies ::
    "'t externals \<Rightarrow> cli_buffers \<Rightarrow> hs_random \<Rightarrow> hs_random \<Rightarrow> bool \<Rightarrow> bool \<Rightarrow> cli_connection \<Rightarrow> connection \<Rightarrow> nat \<Rightarrow> bytes" where
  "node_replies X B rnd rr lightweight trusted c b 0 = []"
| "node_replies X B rnd rr lightweight trusted c b (Suc n) =
     fst (node_serves X rr trusted b (cli_out (snd (cli_handshake X B rnd lightweight
       (cli_arrive (node_replies X B rnd rr lightweight trusted c b n) c)))))"

definition cli_as_node :: "cli_identity \<Rightarrow> node_identity" where
  "cli_as_node i = \<lparr>id_public_key = id_signing_pk i, id_secret_key = id_signing_sk i\<rparr>"

section \<open>The client's turns\<close>

lemma recv_raw_empty:
  "cli_open c \<Longrightarrow> cli_in c = [] \<Longrightarrow> \<exists>c'. cli_recv_raw c = (Inl Cli_Failed, c') \<and> cli_out c' = cli_out c"
  by (cases "cl_is_uds c"; cases "cl_uds_socket c"; cases "cl_tcp_socket c")
    (auto simp: cli_recv_raw_def act_bind_def read_bytes_def socket_read_def sock_defs)

lemma check_auth_empty:
  assumes "cli_open c" "cli_in c = []"
  shows "\<exists>c'. cli_check_auth X B announced fp c = (Inl Cli_Failed, c') \<and> cli_out c' = cli_out c"
  using recv_raw_empty [OF assms] by (auto simp: cli_check_auth_def cli_recv_encrypted_def act_bind_def)

lemma send_auth_ok:
  assumes "cli_open c" and "shadows a c" and "Identity_sign X (cl_identity c) rnd fp = Inr s"
    and "send_encrypted X (cli_encode_transport B TYPE_AUTH_SIGNATURE
      (cli_encode_auth_payload ROLE_CLIENT (id_signing_pk (cl_identity c)) s) 0) a = Inr (a', Some out)"
  shows "\<exists>c'. cli_send_auth X B rnd fp c = (Inr (), c') \<and> kept c c' \<and> shadows a' c' \<and> cli_in c' = cli_in c \<and>
    cli_out c' = cli_out c @ out"
  using send_encrypted_ok [OF assms(1,2,4)] assms(3) by (simp add: cli_send_auth_def)

text \<open>Both handshakes write a first message, read the answer, take keys from it, and exchange signatures.  What they
  have written when they are left waiting, and how they end.\<close>

definition takes_turns ::
    "'t externals \<Rightarrow> cli_buffers \<Rightarrow> cli_identity \<Rightarrow> bytes \<Rightarrow> unit act \<Rightarrow> bytes \<Rightarrow> bytes \<Rightarrow> bytes \<Rightarrow> bytes \<Rightarrow> bytes option \<Rightarrow> bytes
      \<Rightarrow> bool" where
  "takes_turns X B i rnd hand m1 m2 ks kr announced fp \<longleftrightarrow>
     (\<exists>reply. \<forall>c. cl_identity c = i \<longrightarrow>
        hand c = act_bind (cli_send_raw m1) (\<lambda>_. act_bind cli_recv_raw reply) c \<and>
        reply m2 c = act_bind (cli_send_auth X B rnd fp) (\<lambda>_. cli_check_auth X B announced fp)
          (c\<lparr>cl_send_key := ks, cl_recv_key := kr\<rparr>))"

lemma first_turn:
  assumes "cli_open c" "cli_in c = []" "cl_identity c = i" and t: "takes_turns X B i rnd hand m1 m2 ks kr announced fp"
  shows "cli_out (snd (hand c)) = cli_out c @ send_raw m1"
proof -
  obtain reply where hello: "hand c = act_bind (cli_send_raw m1) (\<lambda>_. act_bind cli_recv_raw reply) c"
    using t assms(3) unfolding takes_turns_def by blast
  obtain c1 where 1: "cli_send_raw m1 c = (Inr (), c1)" "kept c c1" "cli_in c1 = cli_in c" "cli_out c1 = cli_out c @ send_raw m1"
    using send_raw_ok [OF assms(1)] by blast
  obtain c2 where "cli_recv_raw c1 = (Inl Cli_Failed, c2)" "cli_out c2 = cli_out c1"
    using recv_raw_empty [OF kept_open [OF 1(2)]] 1(3) assms(2) by auto
  then show ?thesis using 1 by (simp add: hello act_bind_def)
qed

lemma second_turn:
  assumes t: "takes_turns X B i rnd hand m1 m2 ks kr announced fp" and m2: "length m2 \<le> 2097152"
    and c: "cli_open c" "cli_in c = send_raw m2 @ rest" "cl_identity c = i" "counters c = (n, n')"
    and a: "sk_send_key (cn_session_keys a) = ks" "sk_recv_key (cn_session_keys a) = kr"
      "cn_send_counter a = n" "cn_recv_counter a = n'"
    and s: "Identity_sign X i rnd fp = Inr s"
      "send_encrypted X (cli_encode_transport B TYPE_AUTH_SIGNATURE
        (cli_encode_auth_payload ROLE_CLIENT (id_signing_pk i) s) 0) a = Inr (a', Some m3)"
  shows "\<exists>c'. hand c = cli_check_auth X B announced fp c' \<and> cli_open c' \<and> shadows a' c' \<and> cli_in c' = rest \<and>
    cl_identity c' = i \<and> cli_out c' = cli_out c @ send_raw m1 @ m3"
proof -
  obtain reply where hello: "hand c = act_bind (cli_send_raw m1) (\<lambda>_. act_bind cli_recv_raw reply) c"
    and answer: "\<And>c. cl_identity c = i \<Longrightarrow> reply m2 c = act_bind (cli_send_auth X B rnd fp)
      (\<lambda>_. cli_check_auth X B announced fp) (c\<lparr>cl_send_key := ks, cl_recv_key := kr\<rparr>)"
    using t c(3) unfolding takes_turns_def by blast
  obtain c1 where 1: "cli_send_raw m1 c = (Inr (), c1)" "kept c c1" "counters c1 = counters c" "cli_in c1 = cli_in c"
      "cli_out c1 = cli_out c @ send_raw m1"
    using send_raw_ok [OF c(1)] by blast
  have r: "recv_raw (cli_in c1) = Some (m2, rest)" using 1(4) c(2) recv_send_raw [OF m2] by simp
  obtain c2 where 2: "cli_recv_raw c1 = (Inr m2, c2)" "kept c1 c2" "counters c2 = counters c1" "cli_in c2 = rest"
      "cli_out c2 = cli_out c1"
    using recv_raw_ok [OF kept_open [OF 1(2)] r] by blast
  let ?c = "c2\<lparr>cl_send_key := ks, cl_recv_key := kr\<rparr>"
  have o: "cli_open ?c" "cli_in ?c = rest" "cli_out ?c = cli_out c @ send_raw m1" "cl_identity ?c = i"
    using 1 2 c(3) by (simp_all add: sock_defs)
  have sh: "shadows a ?c" using a 1(3) 2(3) c(4) by (simp add: shadows_def counters_def)
  obtain c3 where "cli_send_auth X B rnd fp ?c = (Inr (), c3)" "kept ?c c3" "shadows a' c3" "cli_in c3 = rest"
      "cli_out c3 = cli_out c @ send_raw m1 @ m3"
    using send_auth_ok [OF o(1) sh, of X rnd fp s B a' m3] s o by auto
  moreover have "hand c = act_bind (cli_send_auth X B rnd fp) (\<lambda>_. cli_check_auth X B announced fp) ?c"
    using 1(1) 2(1) answer [of c2] o(4) by (simp add: hello act_bind_def)
  ultimately show ?thesis using o(4) by (auto simp: act_bind_def kept_def)
qed

lemma client_outputs:
  assumes t: "takes_turns X B i rnd hand m1 m2 ks kr announced fp" and m2: "length m2 \<le> 2097152"
    and c: "cli_open c" "cli_in c = []" "cli_out c = []" "cl_identity c = i" "counters c = (n, n')"
    and a: "sk_send_key (cn_session_keys a) = ks" "sk_recv_key (cn_session_keys a) = kr"
      "cn_send_counter a = n" "cn_recv_counter a = n'"
    and s: "Identity_sign X i rnd fp = Inr s"
      "send_encrypted X (cli_encode_transport B TYPE_AUTH_SIGNATURE
        (cli_encode_auth_payload ROLE_CLIENT (id_signing_pk i) s) 0) a = Inr (a', Some m3)"
  shows "cli_out (snd (hand (cli_arrive [] c))) = send_raw m1"
    and "cli_out (snd (hand (cli_arrive (send_raw m2) c))) = send_raw m1 @ m3"
    and "\<exists>c'. hand (cli_arrive (send_raw m2 @ rest) c) = cli_check_auth X B announced fp c' \<and> cli_open c' \<and>
      shadows a' c' \<and> cli_in c' = rest \<and> cli_out c' = send_raw m1 @ m3"
proof -
  note arr = arrive_open [OF c(1)] c
  show "cli_out (snd (hand (cli_arrive [] c))) = send_raw m1"
    using first_turn [OF _ _ _ t, of "cli_arrive [] c"] arr by simp
  have turn: "\<exists>c'. hand (cli_arrive (send_raw m2 @ rest) c) = cli_check_auth X B announced fp c' \<and> cli_open c' \<and>
      shadows a' c' \<and> cli_in c' = rest \<and> cli_out c' = send_raw m1 @ m3" for rest
    using second_turn [OF t m2, of "cli_arrive (send_raw m2 @ rest) c" rest n n' a s a' m3] arr a s
    by (auto simp: counters_def)
  then show "\<exists>c'. hand (cli_arrive (send_raw m2 @ rest) c) = cli_check_auth X B announced fp c' \<and> cli_open c' \<and>
      shadows a' c' \<and> cli_in c' = rest \<and> cli_out c' = send_raw m1 @ m3" .
  obtain c1 where "hand (cli_arrive (send_raw m2) c) = cli_check_auth X B announced fp c1" "cli_open c1" "cli_in c1 = []"
      "cli_out c1 = send_raw m1 @ m3"
    using turn [of "[]"] by auto
  then show "cli_out (snd (hand (cli_arrive (send_raw m2) c))) = send_raw m1 @ m3"
    using check_auth_empty [of c1 X B announced fp] by auto
qed

section \<open>The node's turns\<close>

lemma cli_auth_encoded: "cli_encode_auth_payload ROLE_CLIENT pk s = encode_auth_payload Role_Client pk s"
  by (simp add: cli_encode_auth_payload_def encode_auth_payload_def ROLE_CLIENT_def cli_store_eq wire_simps)

lemma cli_auth_decoded:
  assumes "length pk = 2592"
  shows "cli_decode_auth_payload (encode_auth_payload rl pk s) = Some \<lparr>ca_role = role_byte rl, ca_pubkey = pk, ca_signature = s\<rparr>"
proof -
  define n where "n = (of_nat (length pk) :: u32)"
  have n: "unat n = 2592" using assms by (simp add: n_def)
  have enc: "encode_auth_payload rl pk s = role_byte rl # be_bytes 4 (unat n) @ pk @ s"
    by (simp add: encode_auth_payload_def n_def wire_simps)
  have "read_u32_be_ptr (be_bytes 4 (unat n) @ pk @ s) = n" by simp
  then show ?thesis unfolding enc using assms n by (simp add: cli_decode_auth_payload_def cli_load_ptr SIGNING_PK_SIZE_def Let_def)
qed

text \<open>How both sides stand after two replies of the node.\<close>

definition agreed ::
    "'t externals \<Rightarrow> cli_buffers \<Rightarrow> hs_random \<Rightarrow> hs_random \<Rightarrow> bool \<Rightarrow> bool \<Rightarrow> cli_connection \<Rightarrow> connection \<Rightarrow> bool" where
  "agreed X B ri rr lightweight trusted c b \<longleftrightarrow>
     (let replies = node_replies X B ri rr lightweight trusted c b 2 in
      \<exists>c' b'. cli_handshake X B ri lightweight (cli_arrive replies c) = (Inr (), c') \<and> cli_in c' = [] \<and>
        node_serves X rr trusted b (cli_out c') = (replies, (b', Hs_Stopped, Hs_Return True), []) \<and>
        cn_peer_pubkey b' = id_signing_pk (cl_identity c) \<and> cn_peer_role b' = Role_Client \<and>
        cli_mirrors (c'\<lparr>cl_connected := True\<rparr>) b' (2 ^ 62))"

context cli_flatbuffers
begin

lemma node_decodes:
  "known_type t \<Longrightarrow> length p < 2 ^ 30 \<Longrightarrow> TransportCodec_decode X (cli_encode_transport B (msg_type_byte t) p r) =
     Some \<lparr>dm_type = t, dm_payload = p, dm_request_id = r\<rparr>"
  by (simp add: TransportCodec_decode_def cli_encode_transport_def transport_verify transport_read msg_type_round_trip)

lemma cli_decodes:
  "length p < 2 ^ 30 \<Longrightarrow> cli_decode_transport B (TransportCodec_encode X t p r) =
     Some \<lparr>dt_type = msg_type_byte t, dt_payload = p, dt_request_id = r\<rparr>"
  by (simp add: cli_decode_transport_def TransportCodec_encode_def node_transport_root node_transport_read)

text \<open>The client's signature is accepted by the node.\<close>

lemma client_auth:
  assumes id: "can_sign X rnd (cli_as_node i)" and m: "mirrored (cn_session_keys a) (cn_session_keys b)"
    and n: "cn_send_counter a = cn_recv_counter b" "counter_ok (cn_send_counter a)"
    and e: "expected = None \<or> expected = Some (id_signing_pk i)"
  shows "\<exists>ct s. Identity_sign X i (rn_sign rnd) (sk_session_fingerprint (cn_session_keys b)) = Inr s \<and>
    send_encrypted X (cli_encode_transport B TYPE_AUTH_SIGNATURE
      (cli_encode_auth_payload ROLE_CLIENT (id_signing_pk i) s) 0) a =
      Inr (a\<lparr>cn_send_counter := cn_send_counter a + 1\<rparr>, Some (send_raw ct)) \<and> length ct \<le> 2097152 \<and>
    check_auth X expected (Some ct) b = Inr (b\<lparr>cn_recv_counter := cn_recv_counter b + 1\<rparr>,
      Some \<lparr>ap_role = Role_Client, ap_pubkey = id_signing_pk i, ap_signature = s\<rparr>)"
proof -
  let ?fp = "sk_session_fingerprint (cn_session_keys b)" and ?pk = "id_signing_pk i"
  have pk: "length ?pk = 2592" using public_key_length [OF id] by (simp add: cli_as_node_def)
  have fp: "length ?fp = 32" using mirrored_sizes [OF mirrored_sym [OF m]] by simp
  obtain s where s: "identity_sign X (rn_sign rnd) (cli_as_node i) ?fp = Inr s" "length s \<le> 4627" "oqs_sig_verify X ?fp s ?pk"
    using sign_ok [OF id fp] by (auto simp: cli_as_node_def)
  have sg: "Identity_sign X i (rn_sign rnd) ?fp = Inr s"
    using s(1) by (auto simp: identity_sign_def Identity_sign_def cli_as_node_def split: if_splits option.splits)
  let ?p = "encode_auth_payload Role_Client ?pk s"
  let ?msg = "cli_encode_transport B TYPE_AUTH_SIGNATURE ?p 0"
  have lp: "length ?p \<le> 7224" using pk s(2) by (simp add: encode_auth_payload_def wire_simps)
  have lm: "length ?msg \<le> 7288"
    using cli_transport_size(2) [of TYPE_AUTH_SIGNATURE ?p 0] lp unfolding cli_encode_transport_def by linarith
  have dec: "TransportCodec_decode X ?msg = Some \<lparr>dm_type = AuthSignature, dm_payload = ?p, dm_request_id = 0\<rparr>"
    using node_decodes [of AuthSignature ?p 0] lp by (simp add: TYPE_AUTH_SIGNATURE_def known_type_def msg_types_def)
  obtain ct where ct: "send_encrypted X ?msg a = Inr (a\<lparr>cn_send_counter := cn_send_counter a + 1\<rparr>, Some (send_raw ct))"
      "length ct = length ?msg + 16"
      "recv_encrypted X (Some ct) b = Inr (b\<lparr>cn_recv_counter := cn_recv_counter b + 1\<rparr>, Some ?msg)"
    using send_recv_encrypted [OF m n, of ?msg] lm by auto
  have rl: "is_implemented_role (role_byte Role_Client)" by (simp add: is_implemented_role_def)
  have "check_auth X expected (Some ct) b = Inr (b\<lparr>cn_recv_counter := cn_recv_counter b + 1\<rparr>,
      Some \<lparr>ap_role = Role_Client, ap_pubkey = ?pk, ap_signature = s\<rparr>)"
    using ct(3) e s(3) by (auto simp: check_auth_def dec auth_payload_round_trip [OF rl pk])
  then show ?thesis using sg ct lm by (auto simp: cli_auth_encoded)
qed

text \<open>The node's signature is accepted by the client, and the node then returns.\<close>

lemma node_auth:
  assumes id: "can_sign X rr (cn_identity b)" and m: "mirrored (cn_session_keys b) (cn_session_keys a)"
    and n: "cn_send_counter b = cn_recv_counter a" "counter_ok (cn_send_counter b)"
    and chk: "check_auth X expected (Some ct) b = Inr (b\<lparr>cn_recv_counter := cn_recv_counter b + 1\<rparr>, Some auth)"
  shows "\<exists>cb s pc b2 b'. responder_auth X rr expected (Some ct) b = (b2, pc, Hs_Write (send_raw cb)) \<and>
    hs_written X pc b2 = (b', Hs_Stopped, Hs_Return True) \<and> length cb \<le> 2097152 \<and>
    recv_encrypted X (Some cb) a = Inr (a\<lparr>cn_recv_counter := cn_recv_counter a + 1\<rparr>,
      Some (TransportCodec_encode X AuthSignature
        (encode_auth_payload (cn_local_role b) (id_public_key (cn_identity b)) s) 0)) \<and> length s \<le> 4627 \<and>
    oqs_sig_verify X (sk_session_fingerprint (cn_session_keys a)) s (id_public_key (cn_identity b)) \<and>
    cn_authenticated b' \<and> cn_peer_pubkey b' = ap_pubkey auth \<and> cn_peer_role b' = ap_role auth \<and>
    cn_session_keys b' = cn_session_keys b \<and> cn_send_counter b' = cn_send_counter b + 1 \<and>
    cn_recv_counter b' = cn_recv_counter b + 1 \<and> cn_closed b' = cn_closed b"
proof -
  let ?b = "b\<lparr>cn_recv_counter := cn_recv_counter b + 1\<rparr>"
  define b1 where "b1 = (case expected of None \<Rightarrow> record_peer auth ?b | Some _ \<Rightarrow> ?b)"
  define pc where "pc = R_Auth_Sent (case expected of None \<Rightarrow> None | Some _ \<Rightarrow> Some auth)"
  have b1: "cn_identity b1 = cn_identity b" "cn_local_role b1 = cn_local_role b"
      "cn_session_keys b1 = cn_session_keys b" "cn_send_counter b1 = cn_send_counter b"
    by (simp_all add: b1_def record_peer_def split: option.split)
  obtain cb s where cb: "send_auth X (rn_sign rr) pc b1 =
        (b1\<lparr>cn_send_counter := cn_send_counter b1 + 1\<rparr>, pc, Hs_Write (send_raw cb))" "length cb \<le> 2097152"
      "recv_encrypted X (Some cb) a = Inr (a\<lparr>cn_recv_counter := cn_recv_counter a + 1\<rparr>,
        Some (TransportCodec_encode X AuthSignature
          (encode_auth_payload (cn_local_role b) (id_public_key (cn_identity b)) s) 0))" "length s \<le> 4627"
      "oqs_sig_verify X (sk_session_fingerprint (cn_session_keys a)) s (id_public_key (cn_identity b))"
    using auth_sent [of rr b1 a pc] id m n unfolding b1 by blast
  let ?b2 = "b1\<lparr>cn_send_counter := cn_send_counter b1 + 1\<rparr>"
  let ?b' = "(record_peer auth ?b2)\<lparr>cn_authenticated := True\<rparr>"
  have "responder_auth X rr expected (Some ct) b = (?b2, pc, Hs_Write (send_raw cb))"
    using cb(1) by (simp add: responder_auth_def chk b1_def pc_def split: option.splits)
  moreover have "hs_written X pc ?b2 = (?b', Hs_Stopped, Hs_Return True)"
    by (simp add: pc_def b1_def responder_auth_sent_def hs_return_def record_peer_def split: option.split)
  moreover have "cn_authenticated ?b' \<and> cn_peer_pubkey ?b' = ap_pubkey auth \<and> cn_peer_role ?b' = ap_role auth \<and>
      cn_session_keys ?b' = cn_session_keys b \<and> cn_send_counter ?b' = cn_send_counter b + 1 \<and>
      cn_recv_counter ?b' = cn_recv_counter b + 1 \<and> cn_closed ?b' = cn_closed b"
    by (simp add: record_peer_def b1_def split: option.split)
  ultimately show ?thesis using cb(2-5) by blast
qed

lemma client_checks:
  assumes c: "cli_open c" "shadows a c" "recv_raw (cli_in c) = Some (cb, rest)"
    and r: "recv_encrypted X (Some cb) a = Inr (a', Some (TransportCodec_encode X AuthSignature (encode_auth_payload rl pk s) 0))"
    and v: "length pk = 2592" "length s \<le> 4627" "oqs_sig_verify X fp s pk" "announced = None \<or> announced = Some pk"
  shows "\<exists>c'. cli_check_auth X B announced fp c = (Inr (), c') \<and> kept c c' \<and> shadows a' c' \<and> cli_in c' = rest \<and>
    cli_out c' = cli_out c"
proof -
  have "length (encode_auth_payload rl pk s) < 2 ^ 30" using v by (simp add: encode_auth_payload_def wire_simps)
  from cli_decodes [OF this, of AuthSignature 0]
  show ?thesis
    using recv_encrypted_ok [OF c r] v
    by (auto simp: cli_check_auth_def act_bind_def act_return_def TYPE_AUTH_SIGNATURE_def cli_auth_decoded)
qed

section \<open>Both\<close>

lemma serve_turns:
  assumes b: "do_handshake X rr trusted b = (b, R_First_Wait trusted, Hs_Read)"
      "responder_first X rr trusted (Some m1) b = (b, pc, Hs_Write (send_raw m2))"
      "hs_written X pc b = (b1, R_Auth_Wait e, Hs_Read)" and m1: "length m1 \<le> 2097152"
  shows "node_serves X rr trusted b (send_raw m1) = (send_raw m2, (b1, R_Auth_Wait e, Hs_Read), [])"
    and "length ct \<le> 2097152 \<Longrightarrow> responder_auth X rr e (Some ct) b1 = (b2, pc', Hs_Write (send_raw cb)) \<Longrightarrow>
      hs_written X pc' b2 = (b', Hs_Stopped, Hs_Return True) \<Longrightarrow>
      node_serves X rr trusted b (send_raw m1 @ send_raw ct) =
        (send_raw m2 @ send_raw cb, (b', Hs_Stopped, Hs_Return True), [])"
proof -
  have "hs_serve (Suc (Suc (Suc (Suc (Suc n))))) X rr (b, R_First_Wait trusted, Hs_Read) (send_raw m1) =
      (send_raw m2, (b1, R_Auth_Wait e, Hs_Read), [])" for n
    by (simp add: b recv_send_raw_exact [OF m1])
  from this [of 3] show "node_serves X rr trusted b (send_raw m1) = (send_raw m2, (b1, R_Auth_Wait e, Hs_Read), [])"
    by (simp add: node_serves_def b(1))
  assume a: "length ct \<le> 2097152" "responder_auth X rr e (Some ct) b1 = (b2, pc', Hs_Write (send_raw cb))"
    "hs_written X pc' b2 = (b', Hs_Stopped, Hs_Return True)"
  have "hs_serve (Suc (Suc (Suc (Suc (Suc n))))) X rr (b, R_First_Wait trusted, Hs_Read) (send_raw m1 @ send_raw ct) =
      (send_raw m2 @ send_raw cb, (b', Hs_Stopped, Hs_Return True), [])" for n
    using a by (simp add: b recv_send_raw [OF m1] recv_send_raw_exact)
  from this [of 3] show "node_serves X rr trusted b (send_raw m1 @ send_raw ct) =
      (send_raw m2 @ send_raw cb, (b', Hs_Stopped, Hs_Return True), [])"
    by (simp add: node_serves_def b(1))
qed

lemma turns_agree:
  assumes t: "takes_turns X B i (rn_sign ri) (cli_handshake X B ri lw) m1 m2 (sk_send_key ka) (sk_recv_key ka) announced
      (sk_session_fingerprint ka)" and size: "length m1 \<le> 2097152" "length m2 \<le> 2097152"
    and c: "cli_open c" "cli_in c = []" "cli_out c = []" "cl_identity c = i" "counters c = (0, 0)"
    and id: "can_sign X ri (cli_as_node i)" "can_sign X rr (cn_identity b)"
    and b: "do_handshake X rr tr b = (b, R_First_Wait tr, Hs_Read)"
      "responder_first X rr tr (Some m1) b = (b, pc, Hs_Write (send_raw m2))"
      "hs_written X pc b = (b\<lparr>cn_session_keys := kb\<rparr>, R_Auth_Wait e, Hs_Read)"
      "cn_send_counter b = 0" "cn_recv_counter b = 0" "\<not> cn_closed b"
    and m: "mirrored ka kb" and e: "e = None \<or> e = Some (id_signing_pk i)"
      "announced = None \<or> announced = Some (id_public_key (cn_identity b))"
  shows "agreed X B ri rr lw tr c b"
proof -
  let ?a = "b\<lparr>cn_session_keys := ka\<rparr>" and ?b = "b\<lparr>cn_session_keys := kb\<rparr>"
  let ?a1 = "?a\<lparr>cn_send_counter := cn_send_counter ?a + 1\<rparr>"
  have fp: "sk_session_fingerprint kb = sk_session_fingerprint ka" by (rule mirrored_sizes(3) [OF m])
  obtain ct s where ct: "Identity_sign X i (rn_sign ri) (sk_session_fingerprint ka) = Inr s"
      "send_encrypted X (cli_encode_transport B TYPE_AUTH_SIGNATURE
        (cli_encode_auth_payload ROLE_CLIENT (id_signing_pk i) s) 0) ?a = Inr (?a1, Some (send_raw ct))"
      "length ct \<le> 2097152"
      "check_auth X e (Some ct) ?b = Inr (?b\<lparr>cn_recv_counter := cn_recv_counter ?b + 1\<rparr>,
        Some \<lparr>ap_role = Role_Client, ap_pubkey = id_signing_pk i, ap_signature = s\<rparr>)"
    using client_auth [OF id(1), of ?a ?b e] m b(4,5) e(1) fp by (auto simp: counter_ok_def NONCE_LIMIT_def)
  obtain cb sb pc' b2 b' where n: "responder_auth X rr e (Some ct) ?b = (b2, pc', Hs_Write (send_raw cb))"
      "hs_written X pc' b2 = (b', Hs_Stopped, Hs_Return True)" "length cb \<le> 2097152"
      "recv_encrypted X (Some cb) ?a1 = Inr (?a1\<lparr>cn_recv_counter := cn_recv_counter ?a1 + 1\<rparr>,
        Some (TransportCodec_encode X AuthSignature
          (encode_auth_payload (cn_local_role ?b) (id_public_key (cn_identity ?b)) sb) 0))" "length sb \<le> 4627"
      "oqs_sig_verify X (sk_session_fingerprint (cn_session_keys ?a1)) sb (id_public_key (cn_identity ?b))"
      "cn_authenticated b'" "cn_peer_pubkey b' = id_signing_pk i" "cn_peer_role b' = Role_Client"
      "cn_session_keys b' = kb" "cn_send_counter b' = 1" "cn_recv_counter b' = 1" "\<not> cn_closed b'"
    using node_auth [of rr ?b ?a1 e ct "\<lparr>ap_role = Role_Client, ap_pubkey = id_signing_pk i, ap_signature = s\<rparr>"]
      id(2) mirrored_sym [OF m] b(4-6) ct(4) by (auto simp: counter_ok_def NONCE_LIMIT_def)
  note serve = serve_turns(1) [OF b(1-3) size(1)] serve_turns(2) [OF b(1-3) size(1) ct(3) n(1,2)]
  have a: "sk_send_key (cn_session_keys ?a) = sk_send_key ka" "sk_recv_key (cn_session_keys ?a) = sk_recv_key ka"
      "cn_send_counter ?a = 0" "cn_recv_counter ?a = 0"
    using b(4,5) by simp_all
  note out = client_outputs [OF t size(2) c a ct(1,2)]
  have replies: "node_replies X B ri rr lw tr c b 2 = send_raw m2 @ send_raw cb"
    by (simp add: numeral_2_eq_2 out(1,2) serve)
  obtain c2 where c2: "cli_handshake X B ri lw (cli_arrive (send_raw m2 @ send_raw cb) c) =
      cli_check_auth X B announced (sk_session_fingerprint ka) c2" "cli_open c2" "shadows ?a1 c2" "cli_in c2 = send_raw cb"
      "cli_out c2 = send_raw m1 @ send_raw ct"
    using out(3) [of "send_raw cb"] by blast
  obtain c' where c': "cli_check_auth X B announced (sk_session_fingerprint ka) c2 = (Inr (), c')" "kept c2 c'"
      "shadows (?a1\<lparr>cn_recv_counter := cn_recv_counter ?a1 + 1\<rparr>) c'" "cli_in c' = []" "cli_out c' = cli_out c2"
    using client_checks [OF c2(2,3) _ n(4) _ n(5), of "[]" "sk_session_fingerprint ka" announced]
      recv_send_raw_exact [OF n(3)] c2(4) public_key_length [OF id(2)] n(6) e(2) by auto
  have k: "sk_send_key ka = sk_recv_key kb" "sk_recv_key ka = sk_send_key kb" "length (sk_recv_key kb) = 32"
      "length (sk_send_key kb) = 32" "length (sk_session_fingerprint kb) = 32"
    using m unfolding mirrored_def by metis+
  have "cli_mirrors (c'\<lparr>cl_connected := True\<rparr>) b' (2 ^ 62)"
    using c'(2,3) n(7-13) k b(4,5) by (simp add: cli_mirrors_def sock_defs shadows_def)
  then show ?thesis
    using c2(1,5) c' n(8,9) serve(2) c(4) by (simp add: agreed_def replies)
qed

lemma derive_keys_ok:
  "derive_session_keys X ss ipk rpk True = Inr k \<Longrightarrow>
    cli_derive_keys X [] ss c = (Inr (), c\<lparr>cl_send_key := sk_send_key k, cl_recv_key := sk_recv_key k\<rparr>) \<and>
    sk_session_fingerprint k = cli_sha3_256 X (ss @ ipk @ rpk)"
  "derive_lightweight_session_keys X ni nr ipk rpk True = Inr k \<Longrightarrow>
    cli_derive_keys X (ipk @ rpk) (ni @ nr) c =
      (Inr (), c\<lparr>cl_send_key := sk_send_key k, cl_recv_key := sk_recv_key k\<rparr>) \<and>
    sk_session_fingerprint k = cli_sha3_256 X ((ni @ nr) @ ipk @ rpk)"
  by (auto simp: derive_session_keys_def derive_lightweight_session_keys_def cli_derive_keys_def KDF_extract_def KDF_expand_def
      KEY_SIZE_def sha3_256_def cli_sha3_256_def Let_def split: sum.splits option.splits if_splits)

lemma pq_turns:
  assumes kp: "oqs_kem_keypair X (rn_kem_keypair ri) = Some (kpk, ksk)" and de: "oqs_kem_decaps X ct ksk = Some ss"
    and l: "length ct = 1568" "length pb = 2592" and key: "derive_session_keys X ss (id_signing_pk i) pb True = Inr ka"
    and dec: "cli_decode_transport B m2 = Some \<lparr>dt_type = 2, dt_payload = ct @ pb, dt_request_id = 0\<rparr>"
  shows "takes_turns X B i (rn_sign ri) (cli_handshake X B ri False)
    (cli_encode_transport B TYPE_KEM_PUBKEY (kpk @ id_signing_pk i) 0) m2 (sk_send_key ka) (sk_recv_key ka) None
    (sk_session_fingerprint ka)"
proof -
  let ?fp = "\<lambda>ss resp. cli_sha3_256 X (ss @ id_signing_pk i @ drop 1568 (dt_payload resp))"
  let ?reply = "\<lambda>raw. case cli_decode_transport B raw of None \<Rightarrow> act_fail
    | Some resp \<Rightarrow> if dt_type resp \<noteq> TYPE_KEM_CIPHERTEXT then act_fail
        else if length (dt_payload resp) \<noteq> 1568 + SIGNING_PK_SIZE then act_fail
        else case oqs_kem_decaps X (take 1568 (dt_payload resp)) ksk of None \<Rightarrow> act_fail
          | Some ss \<Rightarrow> act_bind (cli_derive_keys X [] ss) (\<lambda>_.
              act_bind (cli_send_auth X B (rn_sign ri) (?fp ss resp)) (\<lambda>_. cli_check_auth X B None (?fp ss resp)))"
  have 1: "cli_handshake X B ri False c = act_bind (cli_send_raw
      (cli_encode_transport B TYPE_KEM_PUBKEY (kpk @ id_signing_pk i) 0)) (\<lambda>_. act_bind cli_recv_raw ?reply) c"
    if "cl_identity c = i" for c
    unfolding cli_handshake_def handshake_pq_def kp if_False option.case prod.case Let_def that by (rule refl)
  have 2: "?reply m2 c = act_bind (cli_send_auth X B (rn_sign ri) (sk_session_fingerprint ka))
      (\<lambda>_. cli_check_auth X B None (sk_session_fingerprint ka))
      (c\<lparr>cl_send_key := sk_send_key ka, cl_recv_key := sk_recv_key ka\<rparr>)" for c
    using l derive_keys_ok(1) [OF key] by (simp add: dec de act_bind_def TYPE_KEM_CIPHERTEXT_def SIGNING_PK_SIZE_def)
  show ?thesis unfolding takes_turns_def by (intro exI [of _ ?reply] allI impI conjI 1 2)
qed

lemma trusted_turns:
  assumes l: "length nr = 32" "length pb = 2592"
    and key: "derive_lightweight_session_keys X (rn_nonce ri) nr (id_signing_pk i) pb True = Inr ka"
    and dec: "cli_decode_transport B m2 = Some \<lparr>dt_type = 23, dt_payload = nr @ pb, dt_request_id = 0\<rparr>"
  shows "takes_turns X B i (rn_sign ri) (cli_handshake X B ri True)
    (cli_encode_transport B TYPE_TRUSTED_HELLO (rn_nonce ri @ id_signing_pk i) 0) m2 (sk_send_key ka) (sk_recv_key ka)
    (Some pb) (sk_session_fingerprint ka)"
proof -
  let ?ikm = "\<lambda>resp. rn_nonce ri @ take 32 (dt_payload resp)" and ?salt = "\<lambda>resp. id_signing_pk i @ drop 32 (dt_payload resp)"
  let ?reply = "\<lambda>raw. case cli_decode_transport B raw of None \<Rightarrow> act_fail
    | Some resp \<Rightarrow> if dt_type resp \<noteq> TYPE_TRUSTED_HELLO then act_fail
        else if length (dt_payload resp) \<noteq> 32 + SIGNING_PK_SIZE then act_fail
        else act_bind (cli_derive_keys X (?salt resp) (?ikm resp)) (\<lambda>_.
          act_bind (cli_send_auth X B (rn_sign ri) (cli_sha3_256 X (?ikm resp @ ?salt resp))) (\<lambda>_.
          cli_check_auth X B (Some (drop 32 (dt_payload resp))) (cli_sha3_256 X (?ikm resp @ ?salt resp))))"
  have 1: "cli_handshake X B ri True c = act_bind (cli_send_raw
      (cli_encode_transport B TYPE_TRUSTED_HELLO (rn_nonce ri @ id_signing_pk i) 0)) (\<lambda>_. act_bind cli_recv_raw ?reply) c"
    if "cl_identity c = i" for c
    unfolding cli_handshake_def handshake_trusted_def if_True Let_def that by (rule refl)
  have 2: "?reply m2 c = act_bind (cli_send_auth X B (rn_sign ri) (sk_session_fingerprint ka))
      (\<lambda>_. cli_check_auth X B (Some pb) (sk_session_fingerprint ka))
      (c\<lparr>cl_send_key := sk_send_key ka, cl_recv_key := sk_recv_key ka\<rparr>)" for c
    using l derive_keys_ok(2) [OF key] by (simp add: dec act_bind_def TYPE_TRUSTED_HELLO_def SIGNING_PK_SIZE_def)
  show ?thesis unfolding takes_turns_def by (intro exI [of _ ?reply] allI impI conjI 1 2)
qed

lemma pq_agrees:
  assumes k: "can_agree X ri rr"
    and c: "cli_open c" "cli_in c = []" "cli_out c = []" "cl_identity c = i" "counters c = (0, 0)"
    and id: "can_sign X ri (cli_as_node i)" "can_sign X rr (cn_identity b)"
    and b: "\<not> cn_is_initiator b" "cn_send_counter b = 0" "cn_recv_counter b = 0" "\<not> cn_closed b"
  shows "agreed X B ri rr False tr c b"
proof -
  let ?pa = "id_signing_pk i" and ?pb = "id_public_key (cn_identity b)"
  have pk: "length ?pa = 2592" "length ?pb = 2592"
    using public_key_length [OF id(1)] public_key_length [OF id(2)] by (simp_all add: cli_as_node_def)
  obtain kpk ksk ct ss where kp: "oqs_kem_keypair X (rn_kem_keypair ri) = Some (kpk, ksk)"
    and en: "oqs_kem_encaps X kpk (rn_kem_encaps rr) = Some (ct, ss)"
    using k by (auto simp: can_agree_def)
  have l: "length kpk = 1568" "length ct = 1568"
    using kem.kem_lengths [OF kp] kem.encaps_lengths [OF en] by simp_all
  obtain ka kb where keys: "derive_session_keys X ss ?pa ?pb True = Inr ka" "derive_session_keys X ss ?pa ?pb False = Inr kb"
      "mirrored ka kb"
    using session_keys_mirrored by blast
  let ?m1 = "cli_encode_transport B TYPE_KEM_PUBKEY (kpk @ ?pa) 0" and ?m2 = "TransportCodec_encode X KemCiphertext (ct @ ?pb) 0"
  have dec: "TransportCodec_decode X ?m1 = Some \<lparr>dm_type = KemPubkey, dm_payload = kpk @ ?pa, dm_request_id = 0\<rparr>"
    using node_decodes [of KemPubkey "kpk @ ?pa" 0] l pk by (simp add: TYPE_KEM_PUBKEY_def known_type_def msg_types_def)
  have dec2: "cli_decode_transport B ?m2 = Some \<lparr>dt_type = 2, dt_payload = ct @ ?pb, dt_request_id = 0\<rparr>"
    using cli_decodes [of "ct @ ?pb" KemCiphertext 0] l pk by simp
  have size: "length ?m1 \<le> 2097152" "length ?m2 \<le> 2097152"
    using cli_transport_size(2) [of TYPE_KEM_PUBKEY "kpk @ ?pa" 0] transport_size(2) [of KemCiphertext "ct @ ?pb" 0] l pk
    by (simp_all add: cli_encode_transport_def)
  note t = pq_turns [OF kp kem.decaps_encaps [OF kp en] l(2) pk(2) keys(1) dec2]
  let ?hr = "(HandshakeResponder (cn_identity b))\<lparr>hr_keys := kb, hr_initiator_signing_pubkey := ?pa\<rparr>"
  have "receive_kem_pubkey X (rn_kem_encaps rr) ?m1 (HandshakeResponder (cn_identity b)) = Inr ((HS_Success, ?m2), ?hr)"
    using l pk unfolding receive_kem_pubkey_def dec
    by (simp add: HandshakeResponder_def kem_encaps_def en keys(2) KEM_PUBLIC_KEY_SIZE_def SIGNER_PUBLIC_KEY_SIZE_def)
  then have r: "responder_first X rr tr (Some ?m1) b = (b, R_Kem_Sent ?hr, Hs_Write (send_raw ?m2))"
    by (simp add: responder_first_def dec do_handshake_responder_pq_def)
  have w: "hs_written X (R_Kem_Sent ?hr) b = (b\<lparr>cn_session_keys := kb\<rparr>, R_Auth_Wait None, Hs_Read)" by simp
  show ?thesis
    by (rule turns_agree [OF t size c id _ r w]) (use b keys(3) in \<open>simp_all add: do_handshake_def\<close>)
qed

lemma trusted_agrees:
  assumes c: "cli_open c" "cli_in c = []" "cli_out c = []" "cl_identity c = i" "counters c = (0, 0)"
    and id: "can_sign X ri (cli_as_node i)" "can_sign X rr (cn_identity b)"
    and b: "\<not> cn_is_initiator b" "cn_send_counter b = 0" "cn_recv_counter b = 0" "\<not> cn_closed b"
    and n: "length (rn_nonce ri) = 32" "length (rn_nonce rr) = 32"
  shows "agreed X B ri rr True True c b"
proof -
  let ?pa = "id_signing_pk i" and ?pb = "id_public_key (cn_identity b)"
  have pk: "length ?pa = 2592" "length ?pb = 2592"
    using public_key_length [OF id(1)] public_key_length [OF id(2)] by (simp_all add: cli_as_node_def)
  obtain ka kb where keys: "derive_lightweight_session_keys X (rn_nonce ri) (rn_nonce rr) ?pa ?pb True = Inr ka"
      "derive_lightweight_session_keys X (rn_nonce ri) (rn_nonce rr) ?pa ?pb False = Inr kb" "mirrored ka kb"
    using lightweight_keys_mirrored by blast
  let ?m1 = "cli_encode_transport B TYPE_TRUSTED_HELLO (rn_nonce ri @ ?pa) 0"
  let ?m2 = "TransportCodec_encode X TrustedHello (rn_nonce rr @ ?pb) 0"
  have dec: "TransportCodec_decode X ?m1 = Some \<lparr>dm_type = TrustedHello, dm_payload = rn_nonce ri @ ?pa, dm_request_id = 0\<rparr>"
    using node_decodes [of TrustedHello "rn_nonce ri @ ?pa" 0] n pk by (simp add: TYPE_TRUSTED_HELLO_def known_type_def msg_types_def)
  have dec2: "cli_decode_transport B ?m2 = Some \<lparr>dt_type = 23, dt_payload = rn_nonce rr @ ?pb, dt_request_id = 0\<rparr>"
    using cli_decodes [of "rn_nonce rr @ ?pb" TrustedHello 0] n pk by simp
  have size: "length ?m1 \<le> 2097152" "length ?m2 \<le> 2097152"
    using cli_transport_size(2) [of TYPE_TRUSTED_HELLO "rn_nonce ri @ ?pa" 0]
      transport_size(2) [of TrustedHello "rn_nonce rr @ ?pb" 0] n pk
    by (simp_all add: cli_encode_transport_def)
  note t = trusted_turns [OF n(2) pk(2) keys(1) dec2]
  have r: "responder_first X rr True (Some ?m1) b = (b, R_Hello_Sent (rn_nonce ri) ?pa (rn_nonce rr), Hs_Write (send_raw ?m2))"
    using n pk by (simp add: responder_first_def dec do_handshake_responder_trusted_def SIGNER_PUBLIC_KEY_SIZE_def)
  have w: "hs_written X (R_Hello_Sent (rn_nonce ri) ?pa (rn_nonce rr)) b =
      (b\<lparr>cn_session_keys := kb\<rparr>, R_Auth_Wait (Some ?pa), Hs_Read)"
    by (simp add: responder_hello_sent_def keys(2))
  show ?thesis
    by (rule turns_agree [OF t size c id _ r w]) (use b keys(3) in \<open>simp_all add: do_handshake_def\<close>)
qed

end

text \<open>C99: The client and an honest node agree: whether the client runs the post-quantum handshake, with a node that
  trusts its address or not, or the lightweight one with a node that trusts it, two replies of the node complete both
  sides.  The client returns \<open>true\<close> with nothing left unread, the node returns \<open>true\<close> having recorded the client's
  signing key and the client role, and the keys and counters of the two match, so that requests and replies go
  through.  The calls of the key exchange and of signing are assumed to succeed.\<close>

theorem client_handshake_agrees:
  assumes L: "cli_flatbuffers X B" and k: "can_agree X ri rr"
    and id: "can_sign X ri (cli_as_node i)" "can_sign X rr idr"
    and n: "length (rn_nonce ri) = 32" "length (rn_nonce rr) = 32"
    and c: "cli_open c" "cli_in c = []" "cli_out c = []" "cl_identity c = i" "counters c = (0, 0)"
    and b: "b = (new_connection idr False uds now)\<lparr>cn_local_role := rl\<rparr>"
    and lw: "lightweight \<Longrightarrow> trusted"
    and replies: "replies = node_replies X B ri rr lightweight trusted c b 2"
  shows "\<exists>c' b'. cli_handshake X B ri lightweight (cli_arrive replies c) = (Inr (), c') \<and> cli_in c' = [] \<and>
    node_serves X rr trusted b (cli_out c') = (replies, (b', Hs_Stopped, Hs_Return True), []) \<and>
    cn_peer_pubkey b' = id_signing_pk i \<and> cn_peer_role b' = Role_Client \<and>
    cli_mirrors (c'\<lparr>cl_connected := True\<rparr>) b' (2 ^ 62)"
proof -
  have b': "\<not> cn_is_initiator b" "cn_send_counter b = 0" "cn_recv_counter b = 0" "\<not> cn_closed b" "cn_identity b = idr"
    by (simp_all add: b new_connection_def)
  have "agreed X B ri rr lightweight trusted c b"
  proof (cases lightweight)
    case True
    then show ?thesis
      using cli_flatbuffers.trusted_agrees [OF L c id(1) _ b'(1-4) n] id(2) b'(5) lw by simp
  next
    case False
    then show ?thesis
      using cli_flatbuffers.pq_agrees [OF L k c id(1) _ b'(1-4), of trusted] id(2) b'(5) by simp
  qed
  then show ?thesis unfolding agreed_def Let_def replies c(4) .
qed

text \<open>The size limit the client then asks for is the one the node has: the client reads the response as the node's
  peers do.\<close>

lemma read_session_cap_eq: "read_session_cap p = advertised_cap p"
  by (simp add: read_session_cap_def advertised_cap_def cli_load_ptr Let_def algebra_simps)

end
