(* ===== verification/Cli_Example.thy ===== *)
theory Cli_Example
  imports Cli_Handshake_Proof Connection_Example
begin

text \<open>
  The properties of the client's connection applied to a concrete client and a concrete node on the reference libraries.
\<close>

definition ex_session :: cli_connection where
  "ex_session = (new_cli_connection
       \<lparr>id_signing_pk = pad_to 2592 [1], id_signing_sk = pad_to 4896 [1], id_kem_pk = [], id_kem_sk = [], id_namespace_id = []\<rparr>)
     \<lparr>cl_tcp_socket := Some \<lparr>so_in = [], so_room = None, so_out = []\<rparr>, cl_send_key := replicate 32 1,
      cl_recv_key := replicate 32 2, cl_send_counter := 1, cl_recv_counter := 1, cl_connected := True\<rparr>"

lemma ex_session_mirrors: "n \<le> 2 ^ 62 \<Longrightarrow> cli_mirrors ex_session (ex_end 2 1) n"
  by (simp add: cli_mirrors_def ex_session_def ex_end_def new_cli_connection_def new_connection_def cli_open_def cli_sock_def
      counters_def)

theorem client_exchange_exact_witness:
  "\<exists>c1 request b1 b2 reply b3 c2.
    cli_send ref_externals ref_buffers Cli_ReadRequest [7, 8] 3 ex_session = (Inr (), c1) \<and> cli_out c1 = request \<and>
    receive_stream ref_externals 5 request Loop_Recv (ex_end 2 1) = Inr (b1, Loop_Recv, [Deliver ReadRequest [7, 8] 3]) \<and>
    send_message ref_externals 0 ReadResponse [1] 3 b1 = (b2, Send_Queued) \<and>
    drains ref_externals (drain_next ref_externals [] b2) reply [(0, True)] b3 \<and>
    cli_recv ref_externals ref_buffers (cli_arrive reply c1) =
      (Inr \<lparr>dt_type = 32, dt_payload = [1], dt_request_id = 3\<rparr>, c2) \<and> cli_in c2 = []"
proof -
  have m: "cli_mirrors ex_session (ex_end 2 1)
      (frame_cost (node_msg_type Cli_ReadRequest, [7, 8], 3) + frame_cost (node_msg_type Cli_ReadResponse, [1], 3) + 0)"
    by (rule ex_session_mirrors) (simp add: frame_cost_def connection_sizes)
  have p: "length ([7, 8] :: bytes) \<le> MAX_CHUNKED_WIRE_PAYLOAD" "length ([1] :: bytes) \<le> MAX_CHUNKED_WIRE_PAYLOAD"
    by (simp_all add: connection_sizes)
  have q: "cn_send_queue (ex_end 2 1) = []" "\<not> cn_closing (ex_end 2 1)"
    by (simp_all add: ex_end_def new_connection_def)
  have i: "cli_in ex_session = []" and o: "cli_out ex_session = []"
    by (simp_all add: ex_session_def new_cli_connection_def cli_in_def cli_out_def cli_sock_def)
  show ?thesis
    using client_exchange_exact [OF ref_cli.cli_flatbuffers_axioms m p q i, of 5 0] by (simp add: o) blast
qed

definition ex_fresh_client :: cli_connection where
  "ex_fresh_client = (new_cli_connection
       \<lparr>id_signing_pk = pad_to 2592 [1], id_signing_sk = pad_to 4896 [1], id_kem_pk = [], id_kem_sk = [], id_namespace_id = []\<rparr>)
     \<lparr>cl_tcp_socket := Some \<lparr>so_in = [], so_room = None, so_out = []\<rparr>\<rparr>"

theorem client_handshake_agrees_witness:
  "\<exists>replies c b.
    cli_handshake ref_externals ref_buffers ex_random False (cli_arrive replies ex_fresh_client) = (Inr (), c) \<and>
    node_serves ref_externals ex_random True ((new_connection (ex_identity 2) False False 0)\<lparr>cn_local_role := Role_Peer\<rparr>)
      (cli_out c) = (replies, (b, Hs_Stopped, Hs_Return True), []) \<and>
    cn_peer_pubkey b = pad_to 2592 [1] \<and> cn_peer_role b = Role_Client \<and>
    cli_mirrors (c\<lparr>cl_connected := True\<rparr>) b (2 ^ 62)"
proof -
  let ?i = "cl_identity ex_fresh_client"
  have id: "can_sign ref_externals ex_random (cli_as_node ?i)"
    using ex_can_sign [of 1] by (simp add: ex_fresh_client_def new_cli_connection_def cli_as_node_def ex_identity_def)
  have c: "cli_open ex_fresh_client" "cli_in ex_fresh_client = []" "cli_out ex_fresh_client = []" "?i = ?i"
      "counters ex_fresh_client = (0, 0)"
    by (simp_all add: ex_fresh_client_def new_cli_connection_def sock_defs)
  have n: "length (rn_nonce ex_random) = 32" by (simp add: ex_random_def)
  have "id_signing_pk ?i = pad_to 2592 [1]" by (simp add: ex_fresh_client_def new_cli_connection_def)
  with client_handshake_agrees [where lightweight = False and trusted = True and uds = False and now = 0 and rl = Role_Peer,
      OF ref_cli.cli_flatbuffers_axioms ex_can_agree id ex_can_sign [of 2] n n c refl _ refl]
  show ?thesis by auto
qed

end
