(* ===== verification/Cli_Envelope.thy ===== *)
theory Cli_Envelope
  imports Cli_Wire
begin

text \<open>
  \<open>cli/src/envelope.cpp\<close>: the end-to-end encryption of a payload for several recipients.  A fresh key encrypts the
  payload in segments of 1 MiB; a stanza per recipient wraps that key.  The random bytes the code draws are
  arguments; \<open>hmac\<close> is libsodium's HMAC-SHA256, of a key and a message.
\<close>

definition KEM_CT_SIZE :: nat where "KEM_CT_SIZE = 1568"
definition AEAD_TAG_SIZE :: nat where "AEAD_TAG_SIZE = 16"
definition PK_HASH_SIZE :: nat where "PK_HASH_SIZE = 32"
definition WRAPPED_DEK_SIZE :: nat where "WRAPPED_DEK_SIZE = 32 + AEAD_TAG_SIZE"
definition STANZA_SIZE :: nat where "STANZA_SIZE = PK_HASH_SIZE + KEM_CT_SIZE + WRAPPED_DEK_SIZE"
definition ENVELOPE_HEADER_SIZE :: nat where "ENVELOPE_HEADER_SIZE = 20"
definition ENVELOPE_MAGIC :: bytes where "ENVELOPE_MAGIC = [0x43, 0x45, 0x4E, 0x56]"
definition ENVELOPE_VERSION :: byte where "ENVELOPE_VERSION = 1"
definition ENVELOPE_SUITE :: byte where "ENVELOPE_SUITE = 1"
definition HKDF_LABEL :: string where "HKDF_LABEL = ''chromatindb-envelope-kek-v1''"
definition SEGMENT_SIZE :: nat where "SEGMENT_SIZE = 1048576"
definition MAX_SEG_CT :: nat where "MAX_SEG_CT = SEGMENT_SIZE + AEAD_TAG_SIZE"

definition segment_nonce :: "bytes \<Rightarrow> u32 \<Rightarrow> bytes" where
  "segment_nonce base_nonce segment_index =
     base_nonce
       [8 := base_nonce ! 8 XOR ucast (drop_bit 24 segment_index AND 0xFF),
        9 := base_nonce ! 9 XOR ucast (drop_bit 16 segment_index AND 0xFF),
        10 := base_nonce ! 10 XOR ucast (drop_bit 8 segment_index AND 0xFF),
        11 := base_nonce ! 11 XOR ucast (segment_index AND 0xFF)]"

definition hkdf_derive_kek :: "(bytes \<Rightarrow> bytes \<Rightarrow> bytes) \<Rightarrow> bytes \<Rightarrow> bytes" where
  "hkdf_derive_kek hmac shared_secret =
     (let prk = hmac (replicate 32 0) shared_secret in hmac prk (map of_char HKDF_LABEL @ [1]))"

record stanza_builder =
  sb_pk_hash :: bytes
  sb_kem_ct :: bytes
  sb_shared_secret :: bytes

datatype envelope_error =
  No_Recipients | Too_Many_Recipients | Invalid_Kem_Pubkey | Encapsulation_Failed | Dek_Wrapping_Failed
| Segment_Encryption_Failed

section \<open>\<open>encrypt\<close>\<close>

text \<open>\<open>random i\<close> is the randomness of the encapsulation for recipient \<open>i\<close>.\<close>

fun encaps_all :: "'t externals \<Rightarrow> (nat \<Rightarrow> bytes) \<Rightarrow> nat \<Rightarrow> bytes list \<Rightarrow> stanza_builder list option" where
  "encaps_all X random i [] = Some []"
| "encaps_all X random i (pk # pks) =
     (case oqs_kem_encaps X pk (random i) of
        None \<Rightarrow> None
      | Some (ct, ss) \<Rightarrow>
          map_option ((#) \<lparr>sb_pk_hash = cli_sha3_256 X pk, sb_kem_ct = ct, sb_shared_secret = ss\<rparr>)
            (encaps_all X random (Suc i) pks))"

definition stanza_id :: "stanza_builder \<Rightarrow> bytes" where
  "stanza_id s = sb_pk_hash s @ sb_kem_ct s"

fun wrap_deks ::
    "'t externals \<Rightarrow> (bytes \<Rightarrow> bytes \<Rightarrow> bytes) \<Rightarrow> bytes \<Rightarrow> bytes \<Rightarrow> stanza_builder list \<Rightarrow> bytes list option" where
  "wrap_deks X hmac dek ad_buf [] = Some []"
| "wrap_deks X hmac dek ad_buf (s # ss) =
     (let kek = hkdf_derive_kek hmac (sb_shared_secret s) in
      case sodium_encrypt X dek ad_buf (replicate 12 0) kek of
        None \<Rightarrow> None
      | Some w \<Rightarrow> map_option ((#) w) (wrap_deks X hmac dek (ad_buf @ stanza_id s) ss))"

definition envelope_header :: "nat \<Rightarrow> bytes \<Rightarrow> bytes" where
  "envelope_header n data_nonce =
     ENVELOPE_MAGIC @ [ENVELOPE_VERSION, ENVELOPE_SUITE] @ cli_store_u16_be (of_nat n) @ data_nonce"

definition stanza_bytes :: "stanza_builder list \<Rightarrow> bytes list \<Rightarrow> bytes list" where
  "stanza_bytes stanzas wrapped = map2 (\<lambda>s w. stanza_id s @ w) stanzas wrapped"

definition envelope_segment_count :: "bytes \<Rightarrow> u32" where
  "envelope_segment_count plaintext =
     (let n = of_nat ((length plaintext + SEGMENT_SIZE - 1) div SEGMENT_SIZE) in if n = 0 then 1 else n)"

text \<open>The loop over the segments: \<open>k\<close> are left, \<open>seg\<close> is next.\<close>

fun encrypt_segments ::
    "'t externals \<Rightarrow> bytes \<Rightarrow> bytes \<Rightarrow> bytes \<Rightarrow> bytes \<Rightarrow> nat \<Rightarrow> u32 \<Rightarrow> nat \<Rightarrow> bytes option" where
  "encrypt_segments X dek data_nonce data_ad plaintext 0 seg offset = Some []"
| "encrypt_segments X dek data_nonce data_ad plaintext (Suc k) seg offset =
     (let seg_len = min SEGMENT_SIZE (length plaintext - offset) in
      case sodium_encrypt X (take seg_len (drop offset plaintext)) data_ad (segment_nonce data_nonce seg) dek of
        None \<Rightarrow> None
      | Some ct \<Rightarrow>
          map_option ((@) ct) (encrypt_segments X dek data_nonce data_ad plaintext k (seg + 1) (offset + seg_len)))"

text \<open>From the sorted stanzas on.\<close>

definition seal ::
    "'t externals \<Rightarrow> (bytes \<Rightarrow> bytes \<Rightarrow> bytes) \<Rightarrow> bytes \<Rightarrow> bytes \<Rightarrow> bytes \<Rightarrow> stanza_builder list \<Rightarrow> envelope_error + bytes" where
  "seal X hmac dek data_nonce plaintext stanzas =
     (let header = envelope_header (length stanzas) data_nonce in
      case wrap_deks X hmac dek header stanzas of
        None \<Rightarrow> Inl Dek_Wrapping_Failed
      | Some wrapped \<Rightarrow>
          (let data_ad = header @ concat (stanza_bytes stanzas wrapped) in
           case encrypt_segments X dek data_nonce data_ad plaintext (unat (envelope_segment_count plaintext)) 0 0 of
             None \<Rightarrow> Inl Segment_Encryption_Failed
           | Some segments \<Rightarrow> Inr (header @ concat (stanza_bytes stanzas wrapped) @ segments)))"

text \<open>\<open>std::sort\<close> leaves the order of stanzas with equal hashes open, which are those of one key listed twice; the
  model keeps them as they were.\<close>

definition envelope_encrypt ::
    "'t externals \<Rightarrow> (bytes \<Rightarrow> bytes \<Rightarrow> bytes) \<Rightarrow> bytes \<Rightarrow> bytes \<Rightarrow> (nat \<Rightarrow> bytes) \<Rightarrow> bytes \<Rightarrow> bytes list \<Rightarrow>
      envelope_error + bytes" where
  "envelope_encrypt X hmac dek data_nonce random plaintext recipient_kem_pubkeys =
     (if recipient_kem_pubkeys = [] then Inl No_Recipients
      else if length recipient_kem_pubkeys > 65535 then Inl Too_Many_Recipients
      else if \<not> list_all (\<lambda>pk. length pk = KEM_PK_SIZE) recipient_kem_pubkeys then Inl Invalid_Kem_Pubkey
      else case encaps_all X random 0 recipient_kem_pubkeys of
        None \<Rightarrow> Inl Encapsulation_Failed
      | Some stanzas \<Rightarrow> seal X hmac dek data_nonce plaintext (sort_key sb_pk_hash stanzas))"

section \<open>\<open>decrypt\<close>\<close>

definition envelope_stanza :: "bytes \<Rightarrow> nat \<Rightarrow> bytes" where
  "envelope_stanza envelope i = take STANZA_SIZE (drop (i * STANZA_SIZE) (drop ENVELOPE_HEADER_SIZE envelope))"

function decrypt_segments :: "'t externals \<Rightarrow> bytes \<Rightarrow> bytes \<Rightarrow> bytes \<Rightarrow> bytes \<Rightarrow> u32 \<Rightarrow> bytes \<Rightarrow> bytes option" where
  "decrypt_segments X dek data_nonce data_ad ct seg_idx decrypted =
     (if ct = [] then Some decrypted
      else let seg_ct_len = min MAX_SEG_CT (length ct) in
        if seg_ct_len < AEAD_TAG_SIZE then None
        else case sodium_decrypt X (take seg_ct_len ct) data_ad (segment_nonce data_nonce seg_idx) dek of
          None \<Rightarrow> None
        | Some pt \<Rightarrow> decrypt_segments X dek data_nonce data_ad (drop seg_ct_len ct) (seg_idx + 1) (decrypted @ pt))"
  by pat_completeness auto
termination
  by (relation "measure (\<lambda>(X, dek, nonce, ad, ct, seg, dec). length ct)")
    (auto simp: AEAD_TAG_SIZE_def MAX_SEG_CT_def SEGMENT_SIZE_def)

declare decrypt_segments.simps [simp del]

definition envelope_decrypt ::
    "'t externals \<Rightarrow> (bytes \<Rightarrow> bytes \<Rightarrow> bytes) \<Rightarrow> bytes \<Rightarrow> bytes \<Rightarrow> bytes \<Rightarrow> bytes option" where
  "envelope_decrypt X hmac envelope our_kem_seckey our_kem_pubkey =
     (if length envelope < ENVELOPE_HEADER_SIZE then None
      else if take 4 envelope \<noteq> ENVELOPE_MAGIC then None
      else if envelope ! 4 \<noteq> ENVELOPE_VERSION \<or> envelope ! 5 \<noteq> ENVELOPE_SUITE then None
      else if length our_kem_seckey \<noteq> KEM_SK_SIZE \<or> length our_kem_pubkey \<noteq> KEM_PK_SIZE then None
      else let recipient_count = cli_load_u16_be (drop 6 envelope) in
        if recipient_count = 0 then None
        else let stanza_total = unat recipient_count * STANZA_SIZE in
          if length envelope < ENVELOPE_HEADER_SIZE + stanza_total + AEAD_TAG_SIZE then None
          else let data_nonce = take 12 (drop 8 envelope);
                   our_pk_hash = cli_sha3_256 X our_kem_pubkey in
            case find (\<lambda>i. take PK_HASH_SIZE (envelope_stanza envelope i) = our_pk_hash) [0..<unat recipient_count] of
              None \<Rightarrow> None
            | Some matched_index \<Rightarrow>
                let our_stanza = envelope_stanza envelope matched_index;
                    kem_ct = take KEM_CT_SIZE (drop PK_HASH_SIZE our_stanza);
                    wrapped_dek = take WRAPPED_DEK_SIZE (drop (PK_HASH_SIZE + KEM_CT_SIZE) our_stanza) in
                case oqs_kem_decaps X kem_ct our_kem_seckey of
                  None \<Rightarrow> None
                | Some shared_secret \<Rightarrow>
                    let kek = hkdf_derive_kek hmac shared_secret;
                        wrap_ad = take ENVELOPE_HEADER_SIZE envelope @
                          concat (map (\<lambda>i. take (PK_HASH_SIZE + KEM_CT_SIZE) (envelope_stanza envelope i)) [0..<matched_index]) in
                    case sodium_decrypt X wrapped_dek wrap_ad (replicate 12 0) kek of
                      None \<Rightarrow> None
                    | Some dek \<Rightarrow>
                        let data_ad = take ENVELOPE_HEADER_SIZE envelope @
                              take stanza_total (drop ENVELOPE_HEADER_SIZE envelope);
                            ct_region = drop (ENVELOPE_HEADER_SIZE + stanza_total) envelope in
                        if length ct_region < AEAD_TAG_SIZE then None
                        else decrypt_segments X dek data_nonce data_ad ct_region 0 [])"

definition is_envelope :: "bytes \<Rightarrow> bool" where
  "is_envelope d = (if length d < 4 then False else take 4 d = ENVELOPE_MAGIC)"

end
