(* ===== verification/Cli_Envelope_Proof.thy ===== *)
theory Cli_Envelope_Proof
  imports Cli_Envelope Cli_Wire_Proof
begin

text \<open>
  Every recipient of an envelope decrypts it to the payload that was sealed, and no two segments share a nonce.
\<close>

lemmas envelope_sizes = KEM_CT_SIZE_def AEAD_TAG_SIZE_def PK_HASH_SIZE_def WRAPPED_DEK_SIZE_def STANZA_SIZE_def
  ENVELOPE_HEADER_SIZE_def ENVELOPE_MAGIC_def ENVELOPE_VERSION_def ENVELOPE_SUITE_def

section \<open>Segments\<close>

lemma length_segment_nonce [simp]: "length (segment_nonce n i) = length n"
  by (simp add: segment_nonce_def)

lemma xor_cancel: "(a XOR b) XOR a = (b :: byte)"
  by (rule bit_word_eqI) (auto simp: bit_xor_iff)

lemma segment_nonce_xor:
  assumes "length n = 12" and "q < 4"
  shows "segment_nonce n k ! (q + 8) XOR n ! (q + 8) = cli_store_u32_be k ! q"
proof -
  have "q = 0 \<or> q = 1 \<or> q = 2 \<or> q = 3" using assms(2) by auto
  then show ?thesis
    using assms(1) by (elim disjE) (simp_all add: segment_nonce_def cli_store_u32_be_def xor_cancel)
qed

text \<open>No two segments of an envelope are encrypted under one nonce.\<close>

lemma segment_nonce_inject:
  assumes "length n = 12" and "segment_nonce n i = segment_nonce n j"
  shows "i = j"
proof -
  have "cli_store_u32_be i = cli_store_u32_be j"
    using segment_nonce_xor [OF assms(1), of _ i] segment_nonce_xor [OF assms(1), of _ j] assms(2)
    by (intro nth_equalityI) (simp_all add: cli_store_u32_be_def)
  then have "be_nat (be_bytes 4 (unat i)) = be_nat (be_bytes 4 (unat j))" by (simp add: wire_simps)
  then show ?thesis
    using unsigned_less [of i, where ?'a = nat] unsigned_less [of j, where ?'a = nat] by (simp add: word_unat_eq_iff)
qed

text \<open>\<open>k\<close> segments are left for what follows the offset.\<close>

definition segments_left :: "nat \<Rightarrow> nat \<Rightarrow> bool" where
  "segments_left k rest \<longleftrightarrow> 0 < k \<and> rest \<le> k * SEGMENT_SIZE \<and> (k = 1 \<or> (k - 1) * SEGMENT_SIZE < rest)"

definition wf_stanza :: "stanza_builder \<Rightarrow> bool" where
  "wf_stanza s \<longleftrightarrow> length (sb_pk_hash s) = 32 \<and> length (sb_kem_ct s) = 1568"

context externals
begin

lemma encrypt_segments_total:
  "\<exists>c. encrypt_segments X dek nonce ad p k seg off = Some c"
proof (induction k arbitrary: seg off)
  case (Suc k)
  let ?n = "min SEGMENT_SIZE (length p - off)"
  have "sodium_encrypt X (take ?n (drop off p)) ad (segment_nonce nonce seg) dek \<noteq> None"
    by (rule aead.encrypt_total) (simp add: SEGMENT_SIZE_def)
  then show ?case using Suc.IH [of "seg + 1" "off + ?n"] by (auto simp: Let_def)
qed simp

lemma decrypt_one:
  assumes "length nonce = 12" and "length dek = 32"
    and "sodium_encrypt X p ad (segment_nonce nonce seg) dek = Some c"
    and "length p = SEGMENT_SIZE \<or> length p \<le> SEGMENT_SIZE \<and> rest = []"
  shows "decrypt_segments X dek nonce ad (c @ rest) seg acc =
    decrypt_segments X dek nonce ad rest (seg + 1) (acc @ p)"
proof -
  have c: "length c = length p + 16" by (rule aead.length_encrypt [OF assms(3)])
  have m: "min MAX_SEG_CT (length (c @ rest)) = length c"
    using c assms(4) by (auto simp: MAX_SEG_CT_def AEAD_TAG_SIZE_def)
  have d: "sodium_decrypt X c ad (segment_nonce nonce seg) dek = Some p"
    using aead.decrypt_encrypt [OF _ assms(2,3)] assms(1) by simp
  have ne: "c @ rest \<noteq> []" "\<not> length c < AEAD_TAG_SIZE" using c by (auto simp: AEAD_TAG_SIZE_def)
  show ?thesis
    by (subst decrypt_segments.simps) (simp only: m ne if_False Let_def, simp add: d)
qed

lemma decrypt_encrypt_segments:
  assumes "length nonce = 12" and "length dek = 32"
  shows "encrypt_segments X dek nonce ad p k seg off = Some c \<Longrightarrow> segments_left k (length p - off) \<Longrightarrow>
    off \<le> length p \<Longrightarrow> decrypt_segments X dek nonce ad c seg acc = Some (acc @ drop off p)"
proof (induction k arbitrary: seg off c acc)
  case (Suc k)
  let ?n = "min SEGMENT_SIZE (length p - off)"
  obtain c1 c2 where c: "sodium_encrypt X (take ?n (drop off p)) ad (segment_nonce nonce seg) dek = Some c1"
      "encrypt_segments X dek nonce ad p k (seg + 1) (off + ?n) = Some c2" "c = c1 @ c2"
    using Suc.prems(1) by (auto simp: Let_def split: option.splits)
  show ?case
  proof (cases "k = 0")
    case True
    then have n: "?n = length p - off" using Suc.prems(2) by (auto simp: segments_left_def)
    have "decrypt_segments X dek nonce ad (c1 @ []) seg acc =
        decrypt_segments X dek nonce ad [] (seg + 1) (acc @ take ?n (drop off p))"
      by (rule decrypt_one [OF assms c(1)]) simp
    then show ?thesis using True c n by (simp add: decrypt_segments.simps)
  next
    case False
    then have n: "?n = SEGMENT_SIZE" "off + SEGMENT_SIZE \<le> length p"
      using Suc.prems(2) by (auto simp: segments_left_def) (cases k; simp)+
    have "decrypt_segments X dek nonce ad c seg acc =
        decrypt_segments X dek nonce ad c2 (seg + 1) (acc @ take ?n (drop off p))"
      unfolding c(3) by (rule decrypt_one [OF assms c(1)]) (use n in simp)
    also have "\<dots> = Some ((acc @ take ?n (drop off p)) @ drop (off + ?n) p)"
    proof (rule Suc.IH [OF c(2)])
      show "segments_left k (length p - (off + ?n))" "off + ?n \<le> length p"
        using Suc.prems(2) False n by (auto simp: segments_left_def) (cases k; simp)+
    qed
    also have "\<dots> = Some (acc @ drop off p)"
      using append_take_drop_id [of ?n "drop off p"] by (simp add: add.commute)
    finally show ?thesis .
  qed
qed (simp add: segments_left_def)

section \<open>Stanzas\<close>

lemma wrap_deks_nth:
  "wrap_deks X hmac dek ad ss = Some ws \<Longrightarrow> length ws = length ss \<and>
    (\<forall>i < length ss. sodium_encrypt X dek (ad @ concat (map stanza_id (take i ss))) (replicate 12 0)
       (hkdf_derive_kek hmac (sb_shared_secret (ss ! i))) = Some (ws ! i))"
proof (induction ss arbitrary: ad ws)
  case (Cons s ss)
  then obtain w ws' where w: "sodium_encrypt X dek ad (replicate 12 0) (hkdf_derive_kek hmac (sb_shared_secret s)) = Some w"
      "wrap_deks X hmac dek (ad @ stanza_id s) ss = Some ws'" "ws = w # ws'"
    by (auto simp: Let_def split: option.splits)
  show ?case using Cons.IH [OF w(2)] w(1,3) by (auto simp: nth_Cons split: nat.splits)
qed simp

lemma wrap_deks_total:
  assumes "length dek = 32"
  shows "\<exists>ws. wrap_deks X hmac dek ad ss = Some ws"
proof (induction ss arbitrary: ad)
  case (Cons s ss)
  have "sodium_encrypt X dek ad (replicate 12 0) (hkdf_derive_kek hmac (sb_shared_secret s)) \<noteq> None"
    by (rule aead.encrypt_total) (simp add: assms)
  then show ?case using Cons.IH [of "ad @ stanza_id s"] by (auto simp: Let_def)
qed simp

lemma encaps_all_mem:
  "encaps_all X random i pks = Some ss \<Longrightarrow>
     length ss = length pks \<and>
     (\<forall>s \<in> set ss. length (sb_pk_hash s) = 32 \<and> length (sb_kem_ct s) = 1568 \<and>
       (\<exists>pk \<in> set pks. \<exists>r. sb_pk_hash s = oqs_sha3_256 X pk \<and>
         oqs_kem_encaps X pk r = Some (sb_kem_ct s, sb_shared_secret s))) \<and>
     (\<forall>pk \<in> set pks. \<exists>s \<in> set ss. sb_pk_hash s = oqs_sha3_256 X pk)"
proof (induction pks arbitrary: i ss)
  case (Cons pk pks)
  then obtain ct sec ss' where e: "oqs_kem_encaps X pk (random i) = Some (ct, sec)"
      "encaps_all X random (Suc i) pks = Some ss'"
      "ss = \<lparr>sb_pk_hash = oqs_sha3_256 X pk, sb_kem_ct = ct, sb_shared_secret = sec\<rparr> # ss'"
    by (auto simp: cli_sha3_256_def split: option.splits)
  show ?case using Cons.IH [OF e(2)] e(1,3) kem.encaps_lengths [OF e(1)] sha3.length_sha3 by auto
qed simp

lemma encaps_all_total:
  "(\<And>j. j < length pks \<Longrightarrow> oqs_kem_encaps X (pks ! j) (random (i + j)) \<noteq> None) \<Longrightarrow>
     \<exists>ss. encaps_all X random i pks = Some ss"
proof (induction pks arbitrary: i)
  case (Cons pk pks)
  have "\<exists>ss. encaps_all X random (Suc i) pks = Some ss"
    by (rule Cons.IH) (use Cons.prems [of "Suc _"] in auto)
  moreover have "oqs_kem_encaps X pk (random i) \<noteq> None" using Cons.prems [of 0] by simp
  ultimately show ?case by auto
qed simp

end

section \<open>Opening an envelope\<close>

locale sodium_hmac =
  fixes hmac :: "bytes \<Rightarrow> bytes \<Rightarrow> bytes"
  assumes length_hmac: "length (hmac k m) = 32"

locale cli_crypto = externals X + sodium_hmac hmac for X :: "'t externals" and hmac :: "bytes \<Rightarrow> bytes \<Rightarrow> bytes"
begin

lemma length_kek: "length (hkdf_derive_kek hmac s) = 32"
  by (simp add: hkdf_derive_kek_def length_hmac)

lemma header_fields:
  assumes "length nonce = 12" and "n \<le> 65535"
  shows "length (envelope_header n nonce) = 20" "take 4 (envelope_header n nonce @ r) = ENVELOPE_MAGIC"
    "(envelope_header n nonce @ r) ! 4 = ENVELOPE_VERSION" "(envelope_header n nonce @ r) ! 5 = ENVELOPE_SUITE"
    "cli_load_u16_be (drop 6 (envelope_header n nonce @ r)) = of_nat n"
    "take 12 (drop 8 (envelope_header n nonce @ r)) = nonce"
proof -
  have "Inr (cli_load_u16_be (drop 6 (envelope_header n nonce @ r))) = (Inr (of_nat n) :: endian_error + u16)"
    using assms by (subst cli_load_u16_eq)
      (simp_all add: envelope_header_def envelope_sizes wire_simps unsigned_of_nat take_bit_nat_eq_self)
  then show "cli_load_u16_be (drop 6 (envelope_header n nonce @ r)) = of_nat n" by simp
qed (use assms in \<open>simp_all add: envelope_header_def envelope_sizes wire_simps\<close>)

lemma stanza_bytes_nth:
  assumes "list_all wf_stanza ss" and "length ws = length ss" and "\<forall>w \<in> set ws. length w = 48" and "length hd' = 20"
    and "i < length ss"
  shows "envelope_stanza (hd' @ concat (stanza_bytes ss ws) @ c) i = stanza_id (ss ! i) @ ws ! i"
    and "length (concat (stanza_bytes ss ws)) = length ss * STANZA_SIZE"
proof -
  have w: "\<forall>x \<in> set (stanza_bytes ss ws). length x = STANZA_SIZE"
    using assms(1,3) by (auto simp: stanza_bytes_def stanza_id_def envelope_sizes wf_stanza_def list_all_iff
        elim!: in_set_zipE)
  have l: "length (stanza_bytes ss ws) = length ss" using assms(2) by (simp add: stanza_bytes_def)
  have "records STANZA_SIZE (length ss) (concat (stanza_bytes ss ws) @ c) ! i = stanza_bytes ss ws ! i"
    using records_concat [OF w, of c] l by simp
  then show "envelope_stanza (hd' @ concat (stanza_bytes ss ws) @ c) i = stanza_id (ss ! i) @ ws ! i"
    using assms(2,4,5) by (simp add: records_def envelope_stanza_def ENVELOPE_HEADER_SIZE_def stanza_bytes_def)
  have "map length (stanza_bytes ss ws) = replicate (length ss) STANZA_SIZE"
    using w l by (intro nth_equalityI) (simp_all add: all_set_conv_all_nth)
  then show "length (concat (stanza_bytes ss ws)) = length ss * STANZA_SIZE"
    by (simp add: length_concat sum_list_replicate)
qed

lemma ceil_div_bounds:
  fixes l w :: nat
  assumes "0 < w"
  shows "l \<le> (l + w - 1) div w * w" and "(l + w - 1) div w \<noteq> 0 \<Longrightarrow> ((l + w - 1) div w - 1) * w < l"
proof -
  obtain q r where q: "q = (l + w - 1) div w" "l + w - 1 = q * w + r" "r < w"
    using assms by (metis div_mult_mod_eq mod_less_divisor)
  then have "l \<le> q * w" using assms by linarith
  then show "l \<le> (l + w - 1) div w * w" unfolding q(1) .
  show "((l + w - 1) div w - 1) * w < l" if nz: "(l + w - 1) div w \<noteq> 0"
  proof -
    obtain k where k: "q = Suc k" using nz unfolding q(1) [symmetric] by (cases q) auto
    have "k * w < l" using k q(2,3) assms by simp
    then show ?thesis using k unfolding q(1) [symmetric] by simp
  qed
qed

lemma encrypt_segments_length:
  "encrypt_segments X dek nonce ad p k seg off = Some c \<Longrightarrow> 0 < k \<Longrightarrow> 16 \<le> length c"
  by (cases k) (auto simp: Let_def dest!: aead.length_encrypt split: option.splits)

lemma segments_left_all:
  assumes "length p < 2 ^ 51"
  shows "segments_left (unat (envelope_segment_count p)) (length p)"
proof -
  define n where "n = (length p + SEGMENT_SIZE - 1) div SEGMENT_SIZE"
  have "n < 2 ^ 32" using assms by (simp add: n_def SEGMENT_SIZE_def div_less_iff_less_mult)
  then have u: "unat (of_nat n :: u32) = n" by (simp add: unsigned_of_nat take_bit_nat_eq_self)
  then have "(of_nat n :: u32) = 0 \<longleftrightarrow> n = 0" by (auto simp del: of_nat_0_eq_iff dest: arg_cong [where f = unat])
  then have c: "unat (envelope_segment_count p) = (if n = 0 then 1 else n)"
    using u unfolding envelope_segment_count_def Let_def n_def [symmetric] by simp
  have "length p \<le> n * SEGMENT_SIZE" "n \<noteq> 0 \<Longrightarrow> (n - 1) * SEGMENT_SIZE < length p"
    unfolding n_def by (rule ceil_div_bounds; simp add: SEGMENT_SIZE_def)+
  then show ?thesis unfolding segments_left_def c by auto
qed

lemma find_stanza:
  assumes "j < n" and "P j"
  shows "\<exists>i < n. find P [0..<n] = Some i \<and> P i"
proof (cases "find P [0..<n]")
  case None
  then show ?thesis using assms by (auto simp: find_None_iff)
next
  case (Some i)
  moreover have "i < n" "P i" using Some by (auto simp: find_Some_iff)
  ultimately show ?thesis by blast
qed

text \<open>Where the parts of a sealed envelope are.\<close>

lemma sealed_layout:
  assumes ss: "list_all wf_stanza ss" "ss \<noteq> []" "length ss \<le> 65535"
    and k: "length dek = 32" "length nonce = 12" and e: "seal X hmac dek nonce p ss = Inr e"
  obtains ws c where "wrap_deks X hmac dek (envelope_header (length ss) nonce) ss = Some ws"
    and "encrypt_segments X dek nonce (envelope_header (length ss) nonce @ concat (stanza_bytes ss ws)) p
      (unat (envelope_segment_count p)) 0 0 = Some c"
    and "\<And>j. j < length ss \<Longrightarrow> envelope_stanza e j = stanza_id (ss ! j) @ ws ! j \<and> length (ws ! j) = 48"
    and "take ENVELOPE_HEADER_SIZE e = envelope_header (length ss) nonce"
    and "take (length ss * STANZA_SIZE) (drop ENVELOPE_HEADER_SIZE e) = concat (stanza_bytes ss ws)"
    and "drop (ENVELOPE_HEADER_SIZE + length ss * STANZA_SIZE) e = c"
    and "length e = ENVELOPE_HEADER_SIZE + length ss * STANZA_SIZE + length c"
    and "take 4 e = ENVELOPE_MAGIC" "e ! 4 = ENVELOPE_VERSION" "e ! 5 = ENVELOPE_SUITE"
      "cli_load_u16_be (drop 6 e) = of_nat (length ss)" "take 12 (drop 8 e) = nonce"
proof -
  let ?h = "envelope_header (length ss) nonce"
  obtain ws c where w: "wrap_deks X hmac dek ?h ss = Some ws"
    and c: "encrypt_segments X dek nonce (?h @ concat (stanza_bytes ss ws)) p (unat (envelope_segment_count p)) 0 0 = Some c"
    and e': "e = ?h @ concat (stanza_bytes ss ws) @ c"
    using e by (auto simp: seal_def Let_def split: option.splits)
  note wn = wrap_deks_nth [OF w]
  have w1: "length (ws ! j) = 48" if "j < length ss" for j
    using wn that k(1) aead.length_encrypt [of dek _ _ _ "ws ! j"] by auto
  then have w48: "\<forall>w \<in> set ws. length w = 48" using wn by (auto simp: in_set_conv_nth)
  note hf = header_fields [OF k(2) ss(3)]
  note st = stanza_bytes_nth [OF ss(1) conjunct1 [OF wn] w48 hf(1)]
  have total: "length (concat (stanza_bytes ss ws)) = length ss * STANZA_SIZE" using st(2) [of 0] ss(2) by simp
  show thesis
    using that [OF w c] st(1) w1 hf(2-6) [of "concat (stanza_bytes ss ws) @ c"] hf(1) total
    by (simp add: e' ENVELOPE_HEADER_SIZE_def)
qed

lemma open_sealed:
  assumes ss: "list_all wf_stanza ss" "ss \<noteq> []" "length ss \<le> 65535"
    and k: "length dek = 32" "length nonce = 12" "length p < 2 ^ 51" "length sk = 3168" "length pk = 1568"
    and e: "seal X hmac dek nonce p ss = Inr e"
  defines "found \<equiv> find (\<lambda>i. sb_pk_hash (ss ! i) = oqs_sha3_256 X pk) [0..<length ss]"
  shows "found = None \<Longrightarrow> envelope_decrypt X hmac e sk pk = None"
    and "found = Some i \<Longrightarrow> oqs_kem_decaps X (sb_kem_ct (ss ! i)) sk = Some (sb_shared_secret (ss ! i)) \<Longrightarrow>
      envelope_decrypt X hmac e sk pk = Some p"
proof -
  obtain ws c where w: "wrap_deks X hmac dek (envelope_header (length ss) nonce) ss = Some ws"
    and c: "encrypt_segments X dek nonce (envelope_header (length ss) nonce @ concat (stanza_bytes ss ws)) p
      (unat (envelope_segment_count p)) 0 0 = Some c"
    and stz: "\<And>j. j < length ss \<Longrightarrow> envelope_stanza e j = stanza_id (ss ! j) @ ws ! j \<and> length (ws ! j) = 48"
    and l: "take ENVELOPE_HEADER_SIZE e = envelope_header (length ss) nonce"
      "take (length ss * STANZA_SIZE) (drop ENVELOPE_HEADER_SIZE e) = concat (stanza_bytes ss ws)"
      "drop (ENVELOPE_HEADER_SIZE + length ss * STANZA_SIZE) e = c"
      "length e = ENVELOPE_HEADER_SIZE + length ss * STANZA_SIZE + length c"
      "take 4 e = ENVELOPE_MAGIC" "e ! 4 = ENVELOPE_VERSION" "e ! 5 = ENVELOPE_SUITE"
      "cli_load_u16_be (drop 6 e) = of_nat (length ss)" "take 12 (drop 8 e) = nonce"
    by (rule sealed_layout [OF ss k(1,2) e]) (rule that)
  have wf: "length (sb_pk_hash (ss ! j)) = 32" "length (sb_kem_ct (ss ! j)) = 1568" if "j < length ss" for j
    using ss(1) that by (auto simp: list_all_length wf_stanza_def)
  have "take PK_HASH_SIZE (envelope_stanza e j) = sb_pk_hash (ss ! j)" if "j < length ss" for j
    using stz [OF that] wf [OF that] by (simp add: stanza_id_def PK_HASH_SIZE_def)
  then have f: "find (\<lambda>i. take PK_HASH_SIZE (envelope_stanza e i) = cli_sha3_256 X pk) [0..<length ss] = found"
    unfolding found_def by (intro find_cong) (auto simp: cli_sha3_256_def)
  have n: "length ss mod 65536 = length ss" "(of_nat (length ss) :: u16) \<noteq> 0" "16 \<le> length c"
    using ss(2,3) encrypt_segments_length [OF c] segments_left_all [OF k(3)]
    by (simp_all add: unsigned_of_nat take_bit_nat_eq_self word_unat_eq_iff segments_left_def)
  note decrypt_defs = envelope_decrypt_def Let_def l n(1) f AEAD_TAG_SIZE_def key_sizes
  show "envelope_decrypt X hmac e sk pk = None" if "found = None"
    using n(2,3) k(4,5) that by (simp add: decrypt_defs)
  show "envelope_decrypt X hmac e sk pk = Some p"
    if i': "found = Some i" and dec: "oqs_kem_decaps X (sb_kem_ct (ss ! i)) sk = Some (sb_shared_secret (ss ! i))"
  proof -
    have i: "i < length ss" using i' by (auto simp: found_def find_Some_iff)
    have s: "take KEM_CT_SIZE (drop PK_HASH_SIZE (envelope_stanza e i)) = sb_kem_ct (ss ! i)"
        "take WRAPPED_DEK_SIZE (drop (PK_HASH_SIZE + KEM_CT_SIZE) (envelope_stanza e i)) = ws ! i"
      using stz [OF i] wf [OF i] by (simp_all add: stanza_id_def envelope_sizes)
    have "map (\<lambda>j. take (PK_HASH_SIZE + KEM_CT_SIZE) (envelope_stanza e j)) [0..<i] = map stanza_id (take i ss)"
      using i stz wf by (intro nth_equalityI) (simp_all add: stanza_id_def PK_HASH_SIZE_def KEM_CT_SIZE_def)
    then have ad: "concat (map (\<lambda>j. take (PK_HASH_SIZE + KEM_CT_SIZE) (envelope_stanza e j)) [0..<i]) =
        concat (map stanza_id (take i ss))" by (rule arg_cong)
    have unwrap: "sodium_decrypt X (ws ! i) (envelope_header (length ss) nonce @ concat (map stanza_id (take i ss)))
        (replicate 12 0) (hkdf_derive_kek hmac (sb_shared_secret (ss ! i))) = Some dek"
      using wrap_deks_nth [OF w] i by (intro aead.decrypt_encrypt) (simp_all add: length_kek)
    have ds: "decrypt_segments X dek nonce (envelope_header (length ss) nonce @ concat (stanza_bytes ss ws)) c 0 [] = Some p"
      using decrypt_encrypt_segments [OF k(2,1) c, of "[]"] segments_left_all [OF k(3)] by simp
    show ?thesis using n(2,3) k(4,5) i' dec by (simp add: decrypt_defs s ad unwrap ds)
  qed
qed

lemma encrypt_sealed:
  assumes "pks \<noteq> []" and "length pks \<le> 65535" and "\<forall>pk \<in> set pks. length pk = 1568"
    and "\<forall>j < length pks. oqs_kem_encaps X (pks ! j) (random j) \<noteq> None" and "length dek = 32"
  shows "\<exists>ss e. encaps_all X random 0 pks = Some ss \<and> seal X hmac dek nonce p (sort_key sb_pk_hash ss) = Inr e \<and>
    envelope_encrypt X hmac dek nonce random p pks = Inr e"
proof -
  obtain ss where ss: "encaps_all X random 0 pks = Some ss" using encaps_all_total [of pks random 0] assms(4) by auto
  obtain ws where ws: "wrap_deks X hmac dek (envelope_header (length ss) nonce) (sort_key sb_pk_hash ss) = Some ws"
    using wrap_deks_total [OF assms(5)] by blast
  obtain c where "encrypt_segments X dek nonce
      (envelope_header (length ss) nonce @ concat (stanza_bytes (sort_key sb_pk_hash ss) ws)) p
      (unat (envelope_segment_count p)) 0 0 = Some c" using encrypt_segments_total by blast
  then show ?thesis
    using assms(1-3) ss ws by (auto simp: envelope_encrypt_def seal_def Let_def list_all_iff key_sizes)
qed

lemma recipients_open:
  assumes k: "length dek = 32" "length nonce = 12" "length p < 2 ^ 51"
    and pks: "pks \<noteq> []" "length pks \<le> 65535" "\<forall>pk \<in> set pks. length pk = 1568"
    and enc: "\<forall>j < length pks. oqs_kem_encaps X (pks ! j) (random j) \<noteq> None"
    and key: "oqs_kem_keypair X r = Some (pk, sk)"
    and nocoll: "\<forall>pk' \<in> set pks. oqs_sha3_256 X pk' = oqs_sha3_256 X pk \<longrightarrow> pk' = pk"
  shows "\<exists>e. envelope_encrypt X hmac dek nonce random p pks = Inr e \<and>
    envelope_decrypt X hmac e sk pk = (if pk \<in> set pks then Some p else None)"
proof -
  obtain ss0 e where ss0: "encaps_all X random 0 pks = Some ss0"
    and e: "seal X hmac dek nonce p (sort_key sb_pk_hash ss0) = Inr e" "envelope_encrypt X hmac dek nonce random p pks = Inr e"
    using encrypt_sealed [OF pks enc k(1)] by blast
  define ss where "ss = sort_key sb_pk_hash ss0"
  have set_ss: "set ss = set ss0" "length ss = length pks" using encaps_all_mem [OF ss0] by (simp_all add: ss_def)
  have mem: "\<forall>s \<in> set ss. \<exists>pk' \<in> set pks. \<exists>r'. sb_pk_hash s = oqs_sha3_256 X pk' \<and>
      oqs_kem_encaps X pk' r' = Some (sb_kem_ct s, sb_shared_secret s)"
    using encaps_all_mem [OF ss0] set_ss by blast
  have wf: "list_all wf_stanza ss" "ss \<noteq> []" "length ss \<le> 65535"
    using encaps_all_mem [OF ss0] set_ss pks(1,2) by (auto simp: list_all_iff wf_stanza_def)
  note opened = open_sealed [OF wf k _ _ e(1) [folded ss_def], of sk pk]
  have l: "length sk = 3168" "length pk = 1568" using kem.kem_lengths [OF key] by simp_all
  show ?thesis
  proof (cases "pk \<in> set pks")
    case True
    then obtain j where "j < length ss" "sb_pk_hash (ss ! j) = oqs_sha3_256 X pk"
      using encaps_all_mem [OF ss0] set_ss by (metis in_set_conv_nth)
    then obtain i where i: "i < length ss" "find (\<lambda>i. sb_pk_hash (ss ! i) = oqs_sha3_256 X pk) [0..<length ss] = Some i"
        "sb_pk_hash (ss ! i) = oqs_sha3_256 X pk"
      using find_stanza [of j "length ss" "\<lambda>i. sb_pk_hash (ss ! i) = oqs_sha3_256 X pk"] by blast
    obtain pk' r' where pk': "pk' \<in> set pks" "sb_pk_hash (ss ! i) = oqs_sha3_256 X pk'"
        "oqs_kem_encaps X pk' r' = Some (sb_kem_ct (ss ! i), sb_shared_secret (ss ! i))"
      using mem i(1) nth_mem by blast
    then have "pk' = pk" using nocoll i(3) by simp
    then show ?thesis using opened(2) [OF l i(2)] kem.decaps_encaps [OF key] pk'(3) e(2) True by auto
  next
    case False
    have "sb_pk_hash (ss ! i) \<noteq> oqs_sha3_256 X pk" if "i < length ss" for i
      using mem nth_mem [OF that] nocoll False by metis
    then have "find (\<lambda>i. sb_pk_hash (ss ! i) = oqs_sha3_256 X pk) [0..<length ss] = None" by (auto simp: find_None_iff)
    then show ?thesis using opened(1) [OF l] e(2) False by auto
  qed
qed

end

text \<open>C6: Exactly the recipients open an envelope: for up to 65535 keys of the right size, and whatever key and
  nonce are drawn, sealing succeeds; the holder of the secret key of any recipient gets back the payload; and a key
  whose hash is not among the recipients' is refused.\<close>

theorem envelope_round_trip:
  assumes C: "cli_crypto X hmac" and k: "length dek = 32" "length nonce = 12" "length p < 2 ^ 51"
    and pks: "pks \<noteq> []" "length pks \<le> 65535" "\<forall>pk \<in> set pks. length pk = 1568"
    and enc: "\<forall>j < length pks. oqs_kem_encaps X (pks ! j) (random j) \<noteq> None"
    and key: "oqs_kem_keypair X r = Some (pk, sk)"
    and nocoll: "\<forall>pk' \<in> set pks. oqs_sha3_256 X pk' = oqs_sha3_256 X pk \<longrightarrow> pk' = pk"
  shows "\<exists>e. envelope_encrypt X hmac dek nonce random p pks = Inr e \<and>
    envelope_decrypt X hmac e sk pk = (if pk \<in> set pks then Some p else None)"
  by (rule cli_crypto.recipients_open [OF assms])

definition ref_hmac :: "bytes \<Rightarrow> bytes \<Rightarrow> bytes" where
  "ref_hmac k m = pad_hash m"

interpretation ref_hmac: sodium_hmac ref_hmac
  by unfold_locales (simp add: ref_hmac_def pad_hash_def)

interpretation ref_crypto: cli_crypto ref_externals ref_hmac
  by unfold_locales

text \<open>Two recipients; the second opens the envelope.\<close>

theorem envelope_round_trip_witness:
  "\<exists>e pk sk. oqs_kem_keypair ref_externals [8] = Some (pk, sk) \<and>
     envelope_encrypt ref_externals ref_hmac (replicate 32 3) (replicate 12 4) (\<lambda>_. []) [1, 2, 3]
       [pad_to 1568 [9], pk] = Inr e \<and>
     envelope_decrypt ref_externals ref_hmac e sk pk = Some [1, 2, 3]"
proof -
  let ?pk = "pad_to 1568 [8 :: byte]" and ?sk = "pad_to 3168 [8 :: byte]"
  have key: "oqs_kem_keypair ref_externals [8] = Some (?pk, ?sk)" by (simp add: ref_externals_def)
  have enc: "\<forall>j < length [pad_to 1568 [9], ?pk]. oqs_kem_encaps ref_externals ([pad_to 1568 [9], ?pk] ! j) [] \<noteq> None"
    by (simp add: ref_externals_def)
  have nc: "\<forall>pk' \<in> set [pad_to 1568 [9], ?pk].
      oqs_sha3_256 ref_externals pk' = oqs_sha3_256 ref_externals ?pk \<longrightarrow> pk' = ?pk"
    by (simp add: ref_externals_def pad_hash_def pad_to_def)
  show ?thesis
    using envelope_round_trip [OF ref_crypto.cli_crypto_axioms _ _ _ _ _ _ enc key nc, of "replicate 32 3" "replicate 12 4"
        "[1, 2, 3]"] key by auto
qed

end
