(* ===== verification/Spec2Isabelle.thy ===== *)
theory Spec2Isabelle
  imports Node_Example Connection_Example Cli_Example Cli_Envelope_Proof
begin

text \<open>
  A verification development for chromatindb, the storage node of the chromatin protocol.
\<close>

section \<open>Replication of a write\<close>

lemma find_peer_mem: "find_peer c ps = Some p \<Longrightarrow> p \<in> set ps \<and> pi_connection p = c"
  by (induction ps) (auto split: if_splits)

lemma stored_write:
  assumes "externals X" and "node_reach X wf_io n" and "\<forall>i k. wf_io (envs i k)" and "length ns = 32" and "wf_blob b"
    and "ingest X (nd_config n) envs ns b src (nd_storage n) = (Ingest_Done r, st')"
    and "ir_ack r = Some a" and "ack_status a = Ingest_Stored"
  shows "ack_blob_hash a = blob_hash X (encode_blob X b)" and "lookup X st' ns (ack_blob_hash a) = Some b"
    and "\<not> io_read_fault env \<Longrightarrow> \<not> is_blob_expired b (io_now env) \<Longrightarrow>
      handle_read_request X env st' (ns @ ack_blob_hash a) = ([(ReadResponse, STATUS_FOUND # encode_blob X b)], 0)"
proof -
  have "node_inv X n" by (rule externals.node_reach_inv [OF assms(1,2)])
  then have "outcome X ns b (nd_storage n) r st'"
    using externals.ingest_outcome [OF assms(1) _ _ _ assms(4-6)] assms(3) by (simp add: node_inv_def)
  then show h: "ack_blob_hash a = blob_hash X (encode_blob X b)" "lookup X st' ns (ack_blob_hash a) = Some b"
    using assms(7,8) by (auto simp: outcome_def)
  have "length (ack_blob_hash a) = 32" using h(1) externals.length_blob_hash [OF assms(1)] by simp
  then show "\<not> io_read_fault env \<Longrightarrow> \<not> is_blob_expired b (io_now env) \<Longrightarrow>
      handle_read_request X env st' (ns @ ack_blob_hash a) = ([(ReadResponse, STATUS_FOUND # encode_blob X b)], 0)"
    using assms(4) h by (simp add: handle_read_request_def extract_namespace_hash_def get_blob_lookup answer_def)
qed

text \<open>C1: A write reaches the other nodes: if node \<open>A\<close>, in any state it can reach, answers the envelope of a blob with
  an acknowledgement and announces it, then every connected peer \<open>B\<close> that takes part in the namespace, knows
  nothing of the blob and is not in a sync with \<open>A\<close>, is sent a notification, fetches the blob, and hands exactly this
  blob to its own \<open>ingest\<close>.  When that stores it, \<open>B\<close> answers a read of the hash in the acknowledgement \<open>A\<close> gave
  the client with the very blob the client wrote.\<close>

theorem write_replicates:
  assumes X: "externals X" and A: "node_reach X wf_io nA" "\<forall>i k. wf_io (envsA i k)"
    and blob: "length ns = 32" "wf_blob b" "length (bd_data b) < 2 ^ 32" "nss = [] \<or> ns \<in> set nss"
    and wr: "ingest X (nd_config nA) envsA ns b src (nd_storage nA) = (Ingest_Done rA, stA)"
      "answer_write X nss (\<lambda>_ _. rA) (encode_blob_write_envelope X ns b) m = (([(WriteAck, ack)], k), Some note, m')"
    and live: "\<not> is_blob_expired b now" "\<not> is_blob_expired b (io_now envA)" "\<not> is_blob_expired b (io_now envR)"
    and envs: "\<not> io_read_fault envA" "\<not> io_read_fault envB" "\<not> io_read_fault envR"
    and pB: "find_peer connB peersA = Some pB" "pi_role pB = Role_Peer"
      "pi_announced_namespaces pB = [] \<or> ns \<in> set (pi_announced_namespaces pB)"
      "\<not> should_skip_for_peer_cap (of_nat (length (bd_data b))) (pi_advertised_blob_cap pB)"
    and B: "node_reach X wf_io nB" "\<forall>i k. wf_io (envsB i k)" "find_peer connA peersB = Some pA" "\<not> pi_syncing pA"
      "map_of pending (ns @ take 32 ack) = None" "lookup X (nd_storage nB) ns (take 32 ack) = None"
  shows "\<exists>payload req resp rB stB.
    (connB, (BlobNotify, payload)) \<in> set (fst (on_blob_ingested now note peersA)) \<and>
    on_blob_notify X envB (nd_storage nB) peersB connA payload pending =
      ([(connA, (BlobFetch, req))], (ns @ take 32 ack, connA) # pending) \<and>
    handle_blob_fetch X envA stA peersA connB req = [(connB, (BlobFetchResponse, resp))] \<and>
    fetch_response_begin X resp = Response_Ingest ns b \<and>
    ingest X (nd_config nB) envsB ns b (Some connA) (nd_storage nB) = (Ingest_Done rB, stB) \<and>
    (case ir_ack rB of
       Some a \<Rightarrow> ack_status a = Ingest_Stored \<longrightarrow>
         handle_read_request X envR stB (ns @ take 32 ack) = ([(ReadResponse, STATUS_FOUND # encode_blob X b)], 0)
     | None \<Rightarrow> True)"
proof -
  let ?h = "blob_hash X (encode_blob X b)"
  have "write_done ns b rA m = (([(WriteAck, ack)], k), Some note, m')"
    using wr(2) externals.read_envelope_encode [OF X blob(1,2,4)] by (simp add: answer_write_def)
  then obtain a where a: "ir_ack rA = Some a" "ack = encode_ack a" "ack_status a = Ingest_Stored"
      "note = stored_notification ns b a None"
    by (auto simp: write_done_def struck_def send_error_response_def Let_def split: bool.splits option.splits if_splits)
  note sA = stored_write [OF X A blob(1,2) wr(1) a(1,3)]
  have l: "length ?h = 32" using externals.length_blob_hash [OF X] .
  have t: "take 32 ack = ?h" using a(2) sA(1) l by (simp add: encode_ack_def)
  have u: "ucast (of_nat (length (bd_data b)) :: u32) = (of_nat (length (bd_data b)) :: u64)"
    using blob(3) by (simp add: unsigned_of_nat take_bit_nat_eq_self)
  have e: "\<not> (nt_expiry_time note > 0 \<and> nt_expiry_time note \<le> now)"
    using live(1) by (auto simp: a(4) stored_notification_def is_blob_expired_def saturating_expiry_def split: if_splits)
  let ?payload = "encode_notification ns ?h (ack_seq_num a) (of_nat (length (bd_data b))) (is_tombstone (bd_data b))"
  have "notify_peer note pB" using pB u by (auto simp: a(4) notify_peer_def stored_notification_def)
  then have "(connB, (BlobNotify, ?payload)) \<in> (\<lambda>p. (pi_connection p, (BlobNotify, ?payload))) ` set (filter (notify_peer note) peersA)"
    using find_peer_mem [OF pB(1)] by (auto intro: rev_image_eqI)
  moreover have "?payload = encode_notification (nt_namespace_id note) (nt_blob_hash note) (nt_seq_num note)
      (nt_blob_size note) (nt_is_tombstone note)" using sA(1) by (simp add: a(4) stored_notification_def)
  ultimately have n: "(connB, (BlobNotify, ?payload)) \<in> set (fst (on_blob_ingested now note peersA))"
    using e unfolding on_blob_ingested_def Let_def by (simp only: if_False fst_conv set_append set_map Un_iff simp_thms)
  have cap: "find_peer connB peersA = Some p \<Longrightarrow>
      \<not> should_skip_for_peer_cap (of_nat (length (bd_data b))) (pi_advertised_blob_cap p)" for p using pB by simp
  note d = fetch_dialogue [OF X sA(2) [unfolded sA(1)] live(2) blob(2) refl envs(1,2) blob(1) cap B(3,4)
      B(5,6) [unfolded t]]
  obtain rB stB where r: "ingest X (nd_config nB) envsB ns b (Some connA) (nd_storage nB) = (Ingest_Done rB, stB)"
    using ingest_rank [of X "nd_config nB" envsB ns b "Some connA" "nd_storage nB"] unfolding pc_rank_zero
    by (metis prod.collapse)
  have "case ir_ack rB of
       Some a \<Rightarrow> ack_status a = Ingest_Stored \<longrightarrow>
         handle_read_request X envR stB (ns @ take 32 ack) = ([(ReadResponse, STATUS_FOUND # encode_blob X b)], 0)
     | None \<Rightarrow> True"
    using stored_write [OF X B(1,2) blob(1,2) r] envs(3) live(3) by (auto simp: t split: option.split)
  with n d(1-3) r show ?thesis unfolding t by blast
qed

text \<open>The owner of the example node publishes its key to one node; an empty node is told, and fetches it.\<close>

theorem write_replicates_witness:
  "\<exists>note payload req resp rB stB.
    (0, (BlobNotify, payload)) \<in> set (fst (on_blob_ingested 0 note [ex_idle_peer])) \<and>
    on_blob_notify ref_externals ex_env ex_st0 [ex_idle_peer] 0 payload [] =
      ([(0, (BlobFetch, req))], [(ex_own @ ex_hash_of ex_pubk, 0)]) \<and>
    handle_blob_fetch ref_externals ex_env ex_s1 [ex_idle_peer] 0 req = [(0, (BlobFetchResponse, resp))] \<and>
    fetch_response_begin ref_externals resp = Response_Ingest ex_own ex_pubk \<and>
    ingest ref_externals (new_engine 0 0 0 0) (\<lambda>_ _. ex_env) ex_own ex_pubk (Some 0) ex_st0 = (Ingest_Done rB, stB)"
proof -
  obtain q where q: "ingest ref_externals (new_engine 0 0 0 0) (\<lambda>_ _. ex_env) ex_own ex_pubk None ex_st0 =
      (Ingest_Done (accept (ex_hash_of ex_pubk) q Ingest_Stored None), ex_s1)" using ex_s1_ok(4) by blast
  let ?r = "accept (ex_hash_of ex_pubk) q Ingest_Stored None"
  let ?a = "the (ir_ack ?r)"
  let ?note = "stored_notification ex_own ex_pubk ?a None"
  have n: "node_reach ref_externals wf_io ex_n0"
    unfolding ex_n0_def ex_st0_def by (rule node_reach.init) simp
  have w: "answer_write ref_externals [] (\<lambda>_ _. ?r) (encode_blob_write_envelope ref_externals ex_own ex_pubk) ex_metrics =
      (([(WriteAck, encode_ack ?a)], 0), Some ?note, ex_metrics\<lparr>nm_ingests := nm_ingests ex_metrics + 1\<rparr>)"
    by (simp add: answer_write_def ref.read_envelope_encode write_done_def accept_def success_def)
  have i: "ingest ref_externals (nd_config ex_n0) (\<lambda>_ _. ex_env) ex_own ex_pubk None (nd_storage ex_n0) =
      (Ingest_Done ?r, ex_s1)" using q by (simp add: ex_n0_def)
  have e: "\<forall>(i::nat) (k::nat). wf_io ex_env" by simp
  have t: "take 32 (encode_ack ?a) = ex_hash_of ex_pubk"
    by (simp add: encode_ack_def accept_def success_def ref.length_blob_hash)
  have len: "length (bd_data ex_pubk) < 2 ^ 32" by (simp add: ex_pubk_def PUBKEY_MAGIC_def ex_pk_def)
  have p: "find_peer 0 [ex_idle_peer] = Some ex_idle_peer" "pi_role ex_idle_peer = Role_Peer"
    "pi_announced_namespaces ex_idle_peer = [] \<or> ex_own \<in> set (pi_announced_namespaces ex_idle_peer)"
    "\<not> should_skip_for_peer_cap (of_nat (length (bd_data ex_pubk))) (pi_advertised_blob_cap ex_idle_peer)"
    "\<not> pi_syncing ex_idle_peer"
    by (simp_all add: ex_idle_peer_def ex_peer_def should_skip_for_peer_cap_def)
  have b: "map_of [] (ex_own @ take 32 (encode_ack ?a)) = None"
    "lookup ref_externals (nd_storage ex_n0) ex_own (take 32 (encode_ack ?a)) = None" by (simp_all add: ex_n0_def)
  have s: "nd_storage ex_n0 = ex_st0" "nd_config ex_n0 = new_engine 0 0 0 0" by (simp_all add: ex_n0_def)
  from write_replicates [OF ref.externals_axioms n e ex_blobs(3,1) len _ i w ex_pubk_live ex_pubk_live ex_pubk_live
      ex_env_ok(3) ex_env_ok(3) ex_env_ok(3) p(1-4) n e p(1,5) b, of 0]
  show ?thesis unfolding t s by blast
qed

end
